(* ===== verification/Prelude.thy ===== *)
theory Prelude
  imports Main "HOL-Library.State_Monad" "HOL-Library.AList"
begin

text \<open>
  Shared vocabulary of the development: the state monad in which every handler is written, a small
  weakest-precondition calculus for it, and generic lemmas on lists.  A handler is a value of type
  \<open>('s, 'a) state\<close>; \<open>wp m Q s\<close> says that running \<open>m\<close> from \<open>s\<close> ends in a result and a state related
  by \<open>Q\<close>.  The rules of the collection \<open>wpI\<close> execute a handler symbolically, one path per branch.
\<close>

named_theorems wpI \<open>introduction rules that execute a handler symbolically\<close>

abbreviation ret :: "'a \<Rightarrow> ('s, 'a) state" where
  "ret \<equiv> State_Monad.return"

definition wp :: "('s, 'a) state \<Rightarrow> ('a \<Rightarrow> 's \<Rightarrow> bool) \<Rightarrow> 's \<Rightarrow> bool" where
  "wp m Q s = (case run_state m s of (x, s') \<Rightarrow> Q x s')"

lemma wpD: "wp m Q s \<Longrightarrow> run_state m s = (x, s') \<Longrightarrow> Q x s'"
  by (simp add: wp_def)

lemma wp_iff: "wp m Q s \<longleftrightarrow> Q (fst (run_state m s)) (snd (run_state m s))"
  by (simp add: wp_def split: prod.split)

lemma wp_mono: "wp m Q s \<Longrightarrow> (\<And>x t. Q x t \<Longrightarrow> R x t) \<Longrightarrow> wp m R s"
  by (auto simp: wp_def split: prod.splits)

lemma wp_conjI: "wp m Q s \<Longrightarrow> wp m R s \<Longrightarrow> wp m (\<lambda>x t. Q x t \<and> R x t) s"
  by (simp add: wp_def split: prod.splits)

lemma wp_return [wpI]: "Q x s \<Longrightarrow> wp (ret x) Q s"
  by (simp add: wp_def)

lemma wp_bind [wpI]: "wp m (\<lambda>x. wp (f x) Q) s \<Longrightarrow> wp (State_Monad.bind m f) Q s"
  by (auto simp: wp_def split: prod.splits)

lemma wp_if [wpI]: "(b \<Longrightarrow> wp m Q s) \<Longrightarrow> (\<not> b \<Longrightarrow> wp n Q s) \<Longrightarrow> wp (if b then m else n) Q s"
  by simp

lemma wp_let [wpI]: "wp (f x) Q s \<Longrightarrow> wp (Let x f) Q s"
  by simp

lemma wp_case_option [wpI]:
  "(r = None \<Longrightarrow> wp m Q s) \<Longrightarrow> (\<And>x. r = Some x \<Longrightarrow> wp (f x) Q s) \<Longrightarrow>
   wp (case r of None \<Rightarrow> m | Some x \<Rightarrow> f x) Q s"
  by (cases r) simp_all

lemma wp_case_sum [wpI]:
  "(\<And>e. r = Inl e \<Longrightarrow> wp (f e) Q s) \<Longrightarrow> (\<And>x. r = Inr x \<Longrightarrow> wp (g x) Q s) \<Longrightarrow>
   wp (case r of Inl e \<Rightarrow> f e | Inr x \<Rightarrow> g x) Q s"
  by (cases r) simp_all

lemma wp_case_prod [wpI]:
  "(\<And>a b. r = (a, b) \<Longrightarrow> wp (f a b) Q s) \<Longrightarrow> wp (case r of (a, b) \<Rightarrow> f a b) Q s"
  by (cases r) simp

lemma wp_case_list [wpI]:
  "(r = [] \<Longrightarrow> wp m Q s) \<Longrightarrow> (\<And>x xs. r = x # xs \<Longrightarrow> wp (f x xs) Q s) \<Longrightarrow>
   wp (case r of [] \<Rightarrow> m | x # xs \<Rightarrow> f x xs) Q s"
  by (cases r) simp_all

lemma run_return [simp]: "run_state (ret x) s = (x, s)"
  by (simp add: State_Monad.return_def)

lemma run_bind [simp]:
  "run_state (State_Monad.bind m f) s = (case run_state m s of (x, s') \<Rightarrow> run_state (f x) s')"
  by (simp add: State_Monad.bind_def Let_def)

lemma bind_eqI: "(\<And>x. f x = g x) \<Longrightarrow> State_Monad.bind m f = State_Monad.bind m g"
  by (rule arg_cong [where f = "State_Monad.bind m"]) (rule ext)

text \<open>
  The \<open>?\<close> operator of the source: continue with the value of an \<open>Ok\<close>, return an \<open>Err\<close> at once.
\<close>

definition try_bind :: "('s, 'e + 'a) state \<Rightarrow> ('a \<Rightarrow> ('s, 'e + 'b) state) \<Rightarrow> ('s, 'e + 'b) state" where
  "try_bind m f = do { r \<leftarrow> m; case r of Inl e \<Rightarrow> ret (Inl e) | Inr x \<Rightarrow> f x }"

lemma wp_try_bind [wpI]:
  "wp m (\<lambda>r s'. (\<forall>e. r = Inl e \<longrightarrow> Q (Inl e) s') \<and> (\<forall>x. r = Inr x \<longrightarrow> wp (f x) Q s')) s \<Longrightarrow>
   wp (try_bind m f) Q s"
  by (auto simp: try_bind_def wp_def split: prod.splits sum.splits)

text \<open>Running a unit-valued handler for every element of a list, in order.\<close>

fun for_each :: "'a list \<Rightarrow> ('a \<Rightarrow> ('s, unit) state) \<Rightarrow> ('s, unit) state" where
  "for_each [] f = ret ()"
| "for_each (x # xs) f = do { f x; for_each xs f }"

lemma for_each_inv:
  assumes "I s" and "\<And>x t. x \<in> set xs \<Longrightarrow> I t \<Longrightarrow> wp (f x) (\<lambda>_. I) t"
  shows "wp (for_each xs f) (\<lambda>_. I) s"
  using assms
proof (induction xs arbitrary: s)
  case Nil
  then show ?case by (auto intro: wpI)
next
  case (Cons x xs)
  have "wp (f x) (\<lambda>_. I) s" using Cons.prems by simp
  moreover have "wp (for_each xs f) (\<lambda>_. I) t" if "I t" for t
    using that Cons.prems(2) by (intro Cons.IH) auto
  ultimately have "wp (f x) (\<lambda>_. wp (for_each xs f) (\<lambda>_. I)) s"
    by (rule wp_mono)
  then show ?case by (simp add: wp_bind)
qed

text \<open>
  Handlers append to a trace (newest event first).  \<open>since tr tr'\<close> is what \<open>tr'\<close> adds to \<open>tr\<close>, in
  the same newest-first order; \<open>extends\<close> is the shape every handler preserves.
\<close>

definition since :: "'e list \<Rightarrow> 'e list \<Rightarrow> 'e list" where
  "since tr tr' = take (length tr' - length tr) tr'"

lemma since_append [simp]: "since tr (evs @ tr) = evs"
  by (simp add: since_def)

lemma since_self [simp]: "since tr tr = []"
  by (simp add: since_def)

definition extends :: "'e list \<Rightarrow> 'e list \<Rightarrow> bool" where
  "extends tr tr' \<longleftrightarrow> (\<exists>evs. tr' = evs @ tr)"

lemma extends_refl [simp, intro]: "extends tr tr"
  by (simp add: extends_def)

lemma extends_Cons [simp, intro]: "extends tr tr' \<Longrightarrow> extends tr (e # tr')"
  by (auto simp: extends_def intro: exI [where x = "e # _"])

lemma extends_append [simp, intro]: "extends tr tr' \<Longrightarrow> extends tr (evs @ tr')"
  by (auto simp: extends_def intro: exI [where x = "evs @ _"])

lemma extends_trans: "extends a b \<Longrightarrow> extends b c \<Longrightarrow> extends a c"
  by (auto simp: extends_def)

lemma since_Cons [simp]: "extends tr tr' \<Longrightarrow> since tr (e # tr') = e # since tr tr'"
  by (auto simp: extends_def) (metis append_Cons since_append)

lemma since_app [simp]: "extends tr tr' \<Longrightarrow> since tr (evs @ tr') = evs @ since tr tr'"
  by (induction evs) auto

lemma extends_since: "extends tr tr' \<Longrightarrow> tr' = since tr tr' @ tr"
  by (auto simp: extends_def)

lemma extendsE: "extends tr tr' \<Longrightarrow> (\<And>evs. tr' = evs @ tr \<Longrightarrow> P) \<Longrightarrow> P"
  by (auto simp: extends_def)

lemma since_Nil [simp]: "since [] tr = tr"
  by (simp add: since_def)

text \<open>The trace after a run, and the events the run added.\<close>

definition final_trace :: "('e list, 'a) state \<Rightarrow> 'e list \<Rightarrow> 'e list" where
  "final_trace m tr = snd (run_state m tr)"

definition new_events :: "('e list, 'a) state \<Rightarrow> 'e list \<Rightarrow> 'e list" where
  "new_events m tr = since tr (final_trace m tr)"

lemma wp_final: "wp m (\<lambda>_ t. P t) tr \<Longrightarrow> P (final_trace m tr)"
  by (simp add: wp_iff final_trace_def)

lemma wp_new_events: "wp m (\<lambda>_ t. P (since tr t)) tr \<Longrightarrow> P (new_events m tr)"
  by (simp add: wp_iff final_trace_def new_events_def)

text \<open>
  \<open>every P m\<close>: whatever the trace, a run of \<open>m\<close> only adds events that satisfy \<open>P\<close>.  The rules of
  \<open>everyI\<close> take a handler apart down to its calls.
\<close>

named_theorems everyI \<open>rules that bound the events of a computation\<close>

definition every :: "('e \<Rightarrow> bool) \<Rightarrow> ('e list, 'a) state \<Rightarrow> bool" where
  "every P m \<longleftrightarrow> (\<forall>tr. \<exists>evs. snd (run_state m tr) = evs @ tr \<and> list_all P evs)"

lemma every_new_events: "every P m \<Longrightarrow> list_all P (new_events m tr)"
  by (auto simp: every_def new_events_def final_trace_def) (metis since_append)

lemma every_wp:
  assumes "every P m" and "\<And>evs. list_all P evs \<Longrightarrow> Q (fst (run_state m tr)) (evs @ tr)"
  shows "wp m Q tr"
  using assms unfolding every_def wp_iff by metis

lemma every_mono: "every P m \<Longrightarrow> (\<And>e. P e \<Longrightarrow> P' e) \<Longrightarrow> every P' m"
  unfolding every_def by (metis list.pred_mono_strong)

lemma every_return [everyI]: "every P (ret x)"
  by (auto simp: every_def intro: exI [where x = "[]"])

lemma every_bind [everyI]:
  assumes "every P m" "\<And>x. every P (f x)"
  shows "every P (State_Monad.bind m f)"
  unfolding every_def
proof
  fix tr
  obtain x tr1 where m: "run_state m tr = (x, tr1)" by force
  obtain evs1 where 1: "tr1 = evs1 @ tr" "list_all P evs1"
    using assms(1) m unfolding every_def by (metis snd_conv)
  obtain evs2 where 2: "snd (run_state (f x) tr1) = evs2 @ tr1" "list_all P evs2"
    using assms(2) unfolding every_def by blast
  show "\<exists>evs. snd (run_state (State_Monad.bind m f) tr) = evs @ tr \<and> list_all P evs"
    using m 1 2 by (intro exI [where x = "evs2 @ evs1"]) simp
qed

lemma every_if [everyI]: "(b \<Longrightarrow> every P m) \<Longrightarrow> (\<not> b \<Longrightarrow> every P n) \<Longrightarrow> every P (if b then m else n)"
  by simp

lemma every_let [everyI]: "(\<And>y. every P (f y)) \<Longrightarrow> every P (Let x f)"
  by simp

lemma every_case_option [everyI]:
  "(r = None \<Longrightarrow> every P m) \<Longrightarrow> (\<And>x. r = Some x \<Longrightarrow> every P (f x)) \<Longrightarrow> every P (case r of None \<Rightarrow> m | Some x \<Rightarrow> f x)"
  by (cases r) simp_all

lemma every_case_sum [everyI]:
  "(\<And>e. every P (f e)) \<Longrightarrow> (\<And>x. every P (g x)) \<Longrightarrow> every P (case r of Inl e \<Rightarrow> f e | Inr x \<Rightarrow> g x)"
  by (cases r) simp_all

lemma every_case_prod [everyI]: "(\<And>a b. every P (f a b)) \<Longrightarrow> every P (case r of (a, b) \<Rightarrow> f a b)"
  by (cases r) simp

lemma every_try_bind [everyI]: "every P m \<Longrightarrow> (\<And>x. every P (f x)) \<Longrightarrow> every P (try_bind m f)"
  unfolding try_bind_def by (intro everyI)

lemma every_for_each [everyI]: "(\<And>x. x \<in> set xs \<Longrightarrow> every P (f x)) \<Longrightarrow> every P (for_each xs f)"
  by (induction xs) (auto intro!: everyI)

text \<open>
  \<open>justified R evs\<close>: every event of a newest-first list is justified by the events before it.
\<close>

fun justified :: "('e \<Rightarrow> 'e list \<Rightarrow> bool) \<Rightarrow> 'e list \<Rightarrow> bool" where
  "justified R [] = True"
| "justified R (e # evs) \<longleftrightarrow> R e evs \<and> justified R evs"

lemma justified_append: "list_all (\<lambda>e. \<forall>evs. R e evs) xs \<Longrightarrow> justified R evs \<Longrightarrow> justified R (xs @ evs)"
  by (induction xs) auto

lemma justified_split: "justified R (later @ e # earlier) \<Longrightarrow> R e earlier"
  by (induction later) auto

text \<open>Generic list facts.\<close>

lemma find_split: "find P rs = Some r \<longleftrightarrow>
   (\<exists>before later. rs = before @ r # later \<and> P r \<and> list_all (\<lambda>x. \<not> P x) before)"
proof
  show "find P rs = Some r \<Longrightarrow> \<exists>before later. rs = before @ r # later \<and> P r \<and> list_all (\<lambda>x. \<not> P x) before"
  proof (induction rs)
    case (Cons x rs)
    show ?case
    proof (cases "P x")
      case True
      then show ?thesis using Cons.prems by (intro exI [where x = "[]"] exI [where x = rs]) simp
    next
      case False
      then obtain before later where "rs = before @ r # later" "P r" "list_all (\<lambda>x. \<not> P x) before"
        using Cons by auto
      then show ?thesis using False by (intro exI [where x = "x # before"] exI [where x = later]) simp
    qed
  qed simp
  have "list_all (\<lambda>x. \<not> P x) before \<Longrightarrow> P r \<Longrightarrow> find P (before @ r # later) = Some r" for before later
    by (induction before) auto
  then show "\<exists>before later. rs = before @ r # later \<and> P r \<and> list_all (\<lambda>x. \<not> P x) before \<Longrightarrow> find P rs = Some r"
    by blast
qed

lemma list_all_take: "list_all P xs \<Longrightarrow> list_all P (take n xs)"
  by (auto simp: list_all_iff dest: in_set_takeD)

lemma distinct_map_fst_update:
  "distinct (map fst m) \<Longrightarrow> distinct (map fst (AList.update k v m))"
  by (rule distinct_update)

end
