(* ===== verification/Rust_Text.thy ===== *)
theory Rust_Text
  imports Prelude
begin

text \<open>
  Rust's \<open>str\<close> as the code uses it.  A \<open>string\<close> is the list of the UTF-8 bytes; \<open>len()\<close> is its
  length and byte-level tests look at its elements.  \<open>utf8_chars\<close> groups the bytes into characters
  (a leading byte with its continuation bytes), which is what \<open>chars()\<close>, \<open>trim()\<close> and
  \<open>chars().take(n)\<close> see.
\<close>

definition is_cont :: "char \<Rightarrow> bool" where
  "is_cont c \<longleftrightarrow> 128 \<le> (of_char c :: nat) \<and> (of_char c :: nat) < 192"

function utf8_chars :: "string \<Rightarrow> string list" where
  "utf8_chars [] = []"
| "utf8_chars (b # bs) = (b # takeWhile is_cont bs) # utf8_chars (dropWhile is_cont bs)"
  by pat_completeness auto
termination
  by (relation "measure length") (auto simp: le_imp_less_Suc length_dropWhile_le)

lemma concat_utf8_chars [simp]: "concat (utf8_chars s) = s"
  by (induction s rule: utf8_chars.induct) auto

lemma length_utf8_chars: "length (utf8_chars s) \<le> length s"
proof (induction s rule: utf8_chars.induct)
  case (2 b bs)
  then show ?case
    using length_dropWhile_le [of is_cont bs] by simp
qed simp

text \<open>Unicode \<open>White_Space\<close>, one UTF-8 group per character, as \<open>char::is_whitespace\<close> has it.\<close>

definition is_white :: "string \<Rightarrow> bool" where
  "is_white g = (let ns = map (of_char :: char \<Rightarrow> nat) g in
     ns \<in> set [[9], [10], [11], [12], [13], [32], [194, 133], [194, 160], [225, 154, 128],
       [226, 128, 168], [226, 128, 169], [226, 128, 175], [226, 129, 159], [227, 128, 128]]
     \<or> (case ns of [a, b, c] \<Rightarrow> a = 226 \<and> b = 128 \<and> 128 \<le> c \<and> c \<le> 138 | _ \<Rightarrow> False))"

definition trim_groups :: "string list \<Rightarrow> string list" where
  "trim_groups gs = rev (dropWhile is_white (rev (dropWhile is_white gs)))"

definition trim :: "string \<Rightarrow> string" where
  "trim s = concat (trim_groups (utf8_chars s))"

definition blank :: "string \<Rightarrow> bool" where
  "blank s = (trim s = [])"

lemma blank_Nil [simp]: "blank []"
  by (simp add: blank_def trim_def trim_groups_def)

definition starts_with :: "string \<Rightarrow> string \<Rightarrow> bool" where
  "starts_with p s = (take (length p) s = p)"

lemma starts_with_append [simp]: "starts_with p (p @ s)"
  by (simp add: starts_with_def)

lemma starts_with_iff: "starts_with p s \<longleftrightarrow> (\<exists>t. s = p @ t)"
  by (auto simp: starts_with_def) (metis append_take_drop_id)

fun contains :: "string \<Rightarrow> string \<Rightarrow> bool" where
  "contains p [] = (p = [])"
| "contains p (c # s) = (starts_with p (c # s) \<or> contains p s)"

lemma contains_iff: "contains p s \<longleftrightarrow> (\<exists>a b. s = a @ p @ b)"
proof (induction s)
  case (Cons c s)
  have "(\<exists>a b. c # s = a @ p @ b) \<longleftrightarrow> (\<exists>b. c # s = p @ b) \<or> (\<exists>a b. s = a @ p @ b)"
    by (metis append_Cons append_Nil list.exhaust list.inject)
  with Cons show ?case by (simp add: starts_with_iff)
qed simp

text \<open>\<open>join\<close> of a slice of strings.\<close>

fun join_with :: "string \<Rightarrow> string list \<Rightarrow> string" where
  "join_with sep [] = []"
| "join_with sep [x] = x"
| "join_with sep (x # y # zs) = x @ sep @ join_with sep (y # zs)"

lemma length_join_with:
  "length (join_with sep xs) = sum_list (map length xs) + (length xs - 1) * length sep"
  by (induction sep xs rule: join_with.induct) auto

subsection \<open>Bytes of topics and names\<close>

definition ascii_alnum :: "char \<Rightarrow> bool" where
  "ascii_alnum c = (let n = (of_char c :: nat) in
     48 \<le> n \<and> n \<le> 57 \<or> 65 \<le> n \<and> n \<le> 90 \<or> 97 \<le> n \<and> n \<le> 122)"

definition segment_char :: "char \<Rightarrow> bool" where
  "segment_char c = (ascii_alnum c \<or> c = CHR ''_'' \<or> c = CHR ''-'')"

definition name_char :: "char \<Rightarrow> bool" where
  "name_char c = (ascii_alnum c \<or> c = CHR ''_'' \<or> c = CHR ''.'' \<or> c = CHR ''-'')"

lemma segment_char_not_dot [simp]: "\<not> segment_char (CHR ''.'')"
  by (simp add: segment_char_def ascii_alnum_def)

lemma segment_char_name: "segment_char c \<Longrightarrow> name_char c"
  by (auto simp: segment_char_def name_char_def)

definition ascii_lower :: "char \<Rightarrow> char" where
  "ascii_lower c = (let n = (of_char c :: nat) in
     if 65 \<le> n \<and> n \<le> 90 then char_of (n + 32) else c)"

subsection \<open>Decimal numbers\<close>

fun show_nat :: "nat \<Rightarrow> string" where
  "show_nat n = (if n < 10 then [char_of (48 + n)]
     else show_nat (n div 10) @ [char_of (48 + n mod 10)])"

declare show_nat.simps [simp del]

definition show_int :: "int \<Rightarrow> string" where
  "show_int i = (if i < 0 then ''-'' @ show_nat (nat (- i)) else show_nat (nat i))"

fun dec_val :: "nat \<Rightarrow> string \<Rightarrow> nat option" where
  "dec_val acc [] = Some acc"
| "dec_val acc (c # cs) = (let n = (of_char c :: nat) in
     if 48 \<le> n \<and> n \<le> 57 then dec_val (acc * 10 + (n - 48)) cs else None)"

text \<open>\<open>str::parse::<u64>\<close>: an optional \<open>+\<close>, at least one digit, no overflow.\<close>

definition parse_u64 :: "string \<Rightarrow> nat option" where
  "parse_u64 s = (let ds = (case s of [] \<Rightarrow> [] | c # r \<Rightarrow> if c = CHR ''+'' then r else s) in
     if ds = [] then None
     else (case dec_val 0 ds of None \<Rightarrow> None | Some n \<Rightarrow> if n < 2 ^ 64 then Some n else None))"

lemma dec_val_append:
  "dec_val acc (xs @ ys) = (case dec_val acc xs of None \<Rightarrow> None | Some n \<Rightarrow> dec_val n ys)"
  by (induction xs arbitrary: acc) (auto simp: Let_def)

lemma dec_val_show_nat: "dec_val 0 (show_nat n) = Some n"
proof (induction n rule: show_nat.induct)
  case (1 n)
  have digit: "dec_val acc [char_of (48 + d :: nat)] = Some (acc * 10 + d)" if "d < 10" for acc d
    using that by (simp add: Let_def)
  show ?case
  proof (cases "n < 10")
    case True
    with digit [of n 0] show ?thesis by (subst show_nat.simps) simp
  next
    case False
    with "1.IH" digit [of "n mod 10" "n div 10"] show ?thesis
      by (subst show_nat.simps) (simp add: dec_val_append)
  qed
qed

lemma show_nat_digits: "\<forall>c \<in> set (show_nat n). 48 \<le> (of_char c :: nat) \<and> (of_char c :: nat) \<le> 57"
proof (induction n rule: show_nat.induct)
  case (1 n)
  have digit: "48 \<le> (of_char (char_of (48 + d :: nat) :: char) :: nat) \<and>
      (of_char (char_of (48 + d :: nat) :: char) :: nat) \<le> 57" if "d < 10" for d
    using that by simp
  show ?case
  proof (cases "n < 10")
    case True
    with digit [of n] show ?thesis by (subst show_nat.simps) simp
  next
    case False
    with "1.IH" digit [of "n mod 10"] show ?thesis by (subst show_nat.simps) auto
  qed
qed

lemma show_nat_nonempty [simp]: "show_nat n \<noteq> []"
  by (subst show_nat.simps) simp

lemma parse_show_u64 [simp]: "n < 2 ^ 64 \<Longrightarrow> parse_u64 (show_nat n) = Some n"
proof -
  assume n: "n < 2 ^ 64"
  obtain c r where s: "show_nat n = c # r"
    by (cases "show_nat n") auto
  have "c \<noteq> CHR ''+''"
    using show_nat_digits [of n] s by auto
  with s n dec_val_show_nat [of n] show ?thesis
    by (simp add: parse_u64_def)
qed

text \<open>A decimal rendering has no white space, so trimming leaves it alone.\<close>

lemma utf8_chars_ascii: "\<forall>c \<in> set s. (of_char c :: nat) < 128 \<Longrightarrow> utf8_chars s = map (\<lambda>c. [c]) s"
proof (induction s rule: utf8_chars.induct)
  case (2 b bs)
  have "takeWhile is_cont bs = []" "dropWhile is_cont bs = bs"
    using 2(2) by (cases bs; auto simp: is_cont_def)+
  with 2 show ?case by simp
qed simp

lemma dropWhile_none: "\<forall>x \<in> set xs. \<not> P x \<Longrightarrow> dropWhile P xs = xs"
  by (cases xs) auto

lemma trim_plain:
  assumes "\<forall>c \<in> set s. (of_char c :: nat) < 128 \<and> \<not> is_white [c]"
  shows "trim s = s"
proof -
  have "utf8_chars s = map (\<lambda>c. [c]) s"
    using assms by (intro utf8_chars_ascii) auto
  moreover have "trim_groups (map (\<lambda>c. [c]) s) = map (\<lambda>c. [c]) s"
    using assms by (simp add: trim_groups_def dropWhile_none rev_map [symmetric])
  ultimately show ?thesis by (simp add: trim_def concat_map_singleton)
qed

lemma trim_show_nat [simp]: "trim (show_nat n) = show_nat n"
proof (rule trim_plain, rule ballI)
  fix c assume "c \<in> set (show_nat n)"
  then have "48 \<le> (of_char c :: nat) \<and> (of_char c :: nat) \<le> 57"
    using show_nat_digits by blast
  then show "(of_char c :: nat) < 128 \<and> \<not> is_white [c]"
    by (auto simp: is_white_def Let_def)
qed

subsection \<open>Validity of UTF-8\<close>

fun utf8_valid :: "nat list \<Rightarrow> bool" where
  "utf8_valid [] = True"
| "utf8_valid (a # bs) =
     (if a < 128 then utf8_valid bs
      else if 194 \<le> a \<and> a \<le> 223 then
        (case bs of b # r \<Rightarrow> 128 \<le> b \<and> b \<le> 191 \<and> utf8_valid r | _ \<Rightarrow> False)
      else if 224 \<le> a \<and> a \<le> 239 then
        (case bs of b # c # r \<Rightarrow>
            (if a = 224 then 160 else 128) \<le> b \<and> b \<le> (if a = 237 then 159 else 191) \<and>
            128 \<le> c \<and> c \<le> 191 \<and> utf8_valid r | _ \<Rightarrow> False)
      else if 240 \<le> a \<and> a \<le> 244 then
        (case bs of b # c # d # r \<Rightarrow>
            (if a = 240 then 144 else 128) \<le> b \<and> b \<le> (if a = 244 then 143 else 191) \<and>
            128 \<le> c \<and> c \<le> 191 \<and> 128 \<le> d \<and> d \<le> 191 \<and> utf8_valid r | _ \<Rightarrow> False)
      else False)"

text \<open>\<open>String::from_utf8\<close> and \<open>str::from_utf8\<close>.\<close>

definition from_utf8 :: "string \<Rightarrow> string option" where
  "from_utf8 bs = (if utf8_valid (map of_char bs) then Some bs else None)"

lemma from_utf8_ascii: "\<forall>c \<in> set s. (of_char c :: nat) < 128 \<Longrightarrow> from_utf8 s = Some s"
proof -
  assume "\<forall>c \<in> set s. (of_char c :: nat) < 128"
  then have "utf8_valid (map of_char s)" by (induction s) auto
  then show ?thesis by (simp add: from_utf8_def)
qed

lemma from_utf8_show_nat [simp]: "from_utf8 (show_nat n) = Some (show_nat n)"
  using show_nat_digits [of n] by (intro from_utf8_ascii) force

text \<open>\<open>split_whitespace\<close>: the maximal runs of characters that are no white space.\<close>

function split_groups :: "string list \<Rightarrow> string list" where
  "split_groups gs = (case dropWhile is_white gs of
     [] \<Rightarrow> []
   | g # rest \<Rightarrow> concat (g # takeWhile (\<lambda>x. \<not> is_white x) rest) # split_groups (dropWhile (\<lambda>x. \<not> is_white x) rest))"
  by pat_completeness auto
termination
proof (relation "measure length")
  fix gs g rest
  assume "dropWhile is_white gs = g # rest"
  then have "length (g # rest) \<le> length gs" using length_dropWhile_le [of is_white gs] by simp
  then show "(dropWhile (\<lambda>x. \<not> is_white x) rest, gs) \<in> measure length"
    using length_dropWhile_le [of "\<lambda>x. \<not> is_white x" rest] by (simp add: le_imp_less_Suc le_trans)
qed simp

declare split_groups.simps [simp del]

definition split_whitespace :: "string \<Rightarrow> string list" where
  "split_whitespace s = split_groups (utf8_chars s)"

text \<open>\<open>trim_matches('"')\<close>.\<close>

definition trim_quotes :: "string \<Rightarrow> string" where
  "trim_quotes s = rev (dropWhile (\<lambda>c. c = CHR 0x22) (rev (dropWhile (\<lambda>c. c = CHR 0x22) s)))"

end
