(* ===== verification/Json.thy ===== *)
theory Json
  imports Rust_Text
begin

text \<open>
  \<open>serde_json::Value\<close> as the capsules use it.  Integers keep their value, a float its rendering
  (\<open>as_u64\<close> of a float is \<open>None\<close>); an object is an association list with distinct keys, of which
  the code only reads single keys and inserts or removes them.
\<close>

datatype json =
    JNull
  | JBool bool
  | JInt int
  | JFloat string
  | JStr string
  | JArr "json list"
  | JObj "(string \<times> json) list"

fun jget :: "string \<Rightarrow> json \<Rightarrow> json option" where
  "jget k (JObj m) = map_of m k"
| "jget k _ = None"

fun jstr :: "json \<Rightarrow> string option" where
  "jstr (JStr s) = Some s"
| "jstr _ = None"

fun jbool :: "json \<Rightarrow> bool option" where
  "jbool (JBool b) = Some b"
| "jbool _ = None"

fun jarr :: "json \<Rightarrow> json list option" where
  "jarr (JArr xs) = Some xs"
| "jarr _ = None"

fun ju64 :: "json \<Rightarrow> nat option" where
  "ju64 (JInt i) = (if 0 \<le> i \<and> i < 2 ^ 64 then Some (nat i) else None)"
| "ju64 _ = None"

fun jobj :: "json \<Rightarrow> (string \<times> json) list option" where
  "jobj (JObj m) = Some m"
| "jobj _ = None"

definition get_str :: "string \<Rightarrow> json \<Rightarrow> string option" where
  "get_str k j = Option.bind (jget k j) jstr"

definition get_u64 :: "string \<Rightarrow> json \<Rightarrow> nat option" where
  "get_u64 k j = Option.bind (jget k j) ju64"

definition get_bool :: "string \<Rightarrow> json \<Rightarrow> bool option" where
  "get_bool k j = Option.bind (jget k j) jbool"

definition get_arr :: "string \<Rightarrow> json \<Rightarrow> json list option" where
  "get_arr k j = Option.bind (jget k j) jarr"

definition or_default :: "'a \<Rightarrow> 'a option \<Rightarrow> 'a" where
  "or_default d x = (case x of None \<Rightarrow> d | Some v \<Rightarrow> v)"

lemma or_default_simps [simp]: "or_default d None = d" "or_default d (Some v) = v"
  by (simp_all add: or_default_def)

text \<open>
  A struct with derived \<open>Deserialize\<close>: fields of an object by name, of an array by position; an
  array longer than the struct is an error.  \<open>field i k j\<close> is the value for the \<open>i\<close>-th field named
  \<open>k\<close>.  A required string is \<open>req_string\<close>; \<open>opt_string\<close> is a \<open>#[serde(default)]\<close> \<open>String\<close>, where a
  present value of another type is an error.
\<close>

definition struct_shape :: "nat \<Rightarrow> json \<Rightarrow> bool" where
  "struct_shape n j = (case j of JObj _ \<Rightarrow> True | JArr xs \<Rightarrow> length xs \<le> n | _ \<Rightarrow> False)"

definition field :: "nat \<Rightarrow> string \<Rightarrow> json \<Rightarrow> json option" where
  "field i k j = (case j of JObj m \<Rightarrow> map_of m k
     | JArr xs \<Rightarrow> if i < length xs then Some (xs ! i) else None | _ \<Rightarrow> None)"

definition req_string :: "nat \<Rightarrow> string \<Rightarrow> json \<Rightarrow> string option" where
  "req_string i k j = Option.bind (field i k j) jstr"

definition opt_string :: "nat \<Rightarrow> string \<Rightarrow> json \<Rightarrow> string option" where
  "opt_string i k j = (case field i k j of None \<Rightarrow> Some [] | Some v \<Rightarrow> jstr v)"

text \<open>An \<open>Option<String>\<close> with a default: absent and \<open>null\<close> are \<open>None\<close>.\<close>

definition maybe_string :: "nat \<Rightarrow> string \<Rightarrow> json \<Rightarrow> string option option" where
  "maybe_string i k j = (case field i k j of None \<Rightarrow> Some None | Some JNull \<Rightarrow> Some None
     | Some v \<Rightarrow> (case jstr v of None \<Rightarrow> None | Some s \<Rightarrow> Some (Some s)))"

text \<open>A unit variant of a derived enum: its name, or an object mapping its name to \<open>null\<close>.\<close>

definition unit_variant :: "json \<Rightarrow> string option" where
  "unit_variant j = (case j of JStr s \<Rightarrow> Some s | JObj [(s, JNull)] \<Rightarrow> Some s | _ \<Rightarrow> None)"

end
