(* ===== verification/Host.thy ===== *)
theory Host
  imports Json
begin

text \<open>
  The host the capsules run on: the calls of \<open>astrid_sdk\<close> (\<open>kv\<close>, \<open>ipc\<close>, \<open>time\<close>, \<open>env\<close>, \<open>runtime\<close>,
  \<open>capabilities\<close>, \<open>http\<close>)
  and of \<open>uuid\<close> and \<open>serde_json\<close>'s parser.  None of that code is in the repository, so it is a
  parameter: a \<open>host\<close> is a record of functions that answer each call, and the answer may depend on
  the whole history of calls made so far.  A handler is a state-monad value over that history, the
  trace, newest event first; an event is a call with its arguments and its answer.

  A theorem about every \<open>host\<close> therefore holds whatever the store, the bus and the clock do, errors
  included.  Where the code relies on the store keeping what was written, the locale \<open>kv_store\<close>
  states it: a successful read returns what the trace says was written last.  Values of the store
  have type \<open>'v\<close>, published payloads type \<open>'m\<close>.  Log calls are not modelled.
\<close>

type_synonym host_error = string

record bus_msg =
  msg_topic :: string
  msg_payload :: string
  msg_source :: string

record batch =
  batch_msgs :: "bus_msg list"
  batch_dropped :: nat
  batch_lagged :: nat

record key_page =
  page_keys :: "string list"
  page_next :: "string option"

record caller =
  caller_source :: string
  caller_principal :: "string option"

record http_request =
  hr_method :: string
  hr_url :: string
  hr_headers :: "(string \<times> string) list"
  hr_body :: "json option"

record http_response =
  hs_status :: nat
  hs_body :: string

datatype ('v, 'm) event =
    EvGet string "host_error + 'v option"
  | EvGetRaw string "host_error + 'v"
  | EvSet string 'v "host_error option"
  | EvDel string "host_error option"
  | EvClear string "host_error + nat"
  | EvCas string "'v option" 'v "host_error + bool"
  | EvPub string 'm "host_error option"
  | EvSub string "host_error option"
  | EvRecv string nat "host_error + batch"
  | EvPoll string "host_error + batch"
  | EvRpc string string 'm nat "host_error + json"
  | EvTime "nat option"
  | EvCaller "host_error + caller"
  | EvEnv string "host_error + string option"
  | EvUuid nat
  | EvMono nat
  | EvKeysPage string "string option" nat "host_error + key_page"
  | EvKeys string "host_error + string list"
  | EvRandom nat "host_error + string"
  | EvCheck string string "host_error + bool"
  | EvHttp http_request "host_error + http_response"
  | EvOpen http_request "host_error + nat"
  | EvChunk "host_error + string option"

type_synonym ('v, 'm) trace = "('v, 'm) event list"
type_synonym ('v, 'm, 'a) io = "(('v, 'm) event list, 'a) state"

record ('v, 'm) host =
  h_get :: "('v, 'm) event list \<Rightarrow> string \<Rightarrow> host_error + 'v option"
  h_get_raw :: "('v, 'm) event list \<Rightarrow> string \<Rightarrow> host_error + 'v"
  h_set :: "('v, 'm) event list \<Rightarrow> string \<Rightarrow> 'v \<Rightarrow> host_error option"
  h_del :: "('v, 'm) event list \<Rightarrow> string \<Rightarrow> host_error option"
  h_clear :: "('v, 'm) event list \<Rightarrow> string \<Rightarrow> host_error + nat"
  h_cas :: "('v, 'm) event list \<Rightarrow> string \<Rightarrow> 'v option \<Rightarrow> 'v \<Rightarrow> host_error + bool"
  h_pub :: "('v, 'm) event list \<Rightarrow> string \<Rightarrow> 'm \<Rightarrow> host_error option"
  h_sub :: "('v, 'm) event list \<Rightarrow> string \<Rightarrow> host_error option"
  h_recv :: "('v, 'm) event list \<Rightarrow> string \<Rightarrow> nat \<Rightarrow> host_error + batch"
  h_poll :: "('v, 'm) event list \<Rightarrow> string \<Rightarrow> host_error + batch"
  h_rpc :: "('v, 'm) event list \<Rightarrow> string \<Rightarrow> string \<Rightarrow> 'm \<Rightarrow> nat \<Rightarrow> host_error + json"
  h_time :: "('v, 'm) event list \<Rightarrow> nat option"
  h_caller :: "('v, 'm) event list \<Rightarrow> host_error + caller"
  h_env :: "('v, 'm) event list \<Rightarrow> string \<Rightarrow> host_error + string option"
  h_uuid :: "('v, 'm) event list \<Rightarrow> nat"
  h_mono :: "('v, 'm) event list \<Rightarrow> nat"
  h_keys_page :: "('v, 'm) event list \<Rightarrow> string \<Rightarrow> string option \<Rightarrow> nat \<Rightarrow> host_error + key_page"
  h_keys :: "('v, 'm) event list \<Rightarrow> string \<Rightarrow> host_error + string list"
  h_random :: "('v, 'm) event list \<Rightarrow> nat \<Rightarrow> host_error + string"
  h_check :: "('v, 'm) event list \<Rightarrow> string \<Rightarrow> string \<Rightarrow> host_error + bool"
  h_http :: "('v, 'm) event list \<Rightarrow> http_request \<Rightarrow> host_error + http_response"
  h_open :: "('v, 'm) event list \<Rightarrow> http_request \<Rightarrow> host_error + nat"
  h_chunk :: "('v, 'm) event list \<Rightarrow> host_error + string option"
  h_parse :: "string \<Rightarrow> json option"
  h_render :: "json \<Rightarrow> string"
  h_pointer :: "json \<Rightarrow> string \<Rightarrow> json option"

text \<open>
  One operation per call.  A call that fails is the error \<open>SysError::HostError\<close> with its message.  \<open>h_time\<close> is the wall clock in milliseconds since the epoch, \<open>None\<close> when it
  cannot be read; \<open>h_mono\<close> is the monotonic clock in nanoseconds; a subscription is named by its topic.
\<close>

definition host_call :: "(('v, 'm) event list \<Rightarrow> 'r) \<Rightarrow> ('r \<Rightarrow> ('v, 'm) event) \<Rightarrow> ('v, 'm, 'r) io" where
  "host_call reply ev = State (\<lambda>tr. let r = reply tr in (r, ev r # tr))"

definition kv_get :: "('v, 'm) host \<Rightarrow> string \<Rightarrow> ('v, 'm, host_error + 'v option) io" where
  "kv_get H k = host_call (\<lambda>tr. h_get H tr k) (EvGet k)"

definition kv_get_raw :: "('v, 'm) host \<Rightarrow> string \<Rightarrow> ('v, 'm, host_error + 'v) io" where
  "kv_get_raw H k = host_call (\<lambda>tr. h_get_raw H tr k) (EvGetRaw k)"

definition kv_set :: "('v, 'm) host \<Rightarrow> string \<Rightarrow> 'v \<Rightarrow> ('v, 'm, host_error option) io" where
  "kv_set H k v = host_call (\<lambda>tr. h_set H tr k v) (EvSet k v)"

definition kv_delete :: "('v, 'm) host \<Rightarrow> string \<Rightarrow> ('v, 'm, host_error option) io" where
  "kv_delete H k = host_call (\<lambda>tr. h_del H tr k) (EvDel k)"

definition kv_clear_prefix :: "('v, 'm) host \<Rightarrow> string \<Rightarrow> ('v, 'm, host_error + nat) io" where
  "kv_clear_prefix H p = host_call (\<lambda>tr. h_clear H tr p) (EvClear p)"

definition kv_cas ::
  "('v, 'm) host \<Rightarrow> string \<Rightarrow> 'v option \<Rightarrow> 'v \<Rightarrow> ('v, 'm, host_error + bool) io" where
  "kv_cas H k old new = host_call (\<lambda>tr. h_cas H tr k old new) (EvCas k old new)"

definition publish :: "('v, 'm) host \<Rightarrow> string \<Rightarrow> 'm \<Rightarrow> ('v, 'm, host_error option) io" where
  "publish H t m = host_call (\<lambda>tr. h_pub H tr t m) (EvPub t m)"

definition subscribe :: "('v, 'm) host \<Rightarrow> string \<Rightarrow> ('v, 'm, host_error option) io" where
  "subscribe H t = host_call (\<lambda>tr. h_sub H tr t) (EvSub t)"

definition recv :: "('v, 'm) host \<Rightarrow> string \<Rightarrow> nat \<Rightarrow> ('v, 'm, host_error + batch) io" where
  "recv H t ms = host_call (\<lambda>tr. h_recv H tr t ms) (EvRecv t ms)"

definition poll :: "('v, 'm) host \<Rightarrow> string \<Rightarrow> ('v, 'm, host_error + batch) io" where
  "poll H t = host_call (\<lambda>tr. h_poll H tr t) (EvPoll t)"

definition request_response ::
  "('v, 'm) host \<Rightarrow> string \<Rightarrow> string \<Rightarrow> 'm \<Rightarrow> nat \<Rightarrow> ('v, 'm, host_error + json) io" where
  "request_response H req resp m ms =
     host_call (\<lambda>tr. h_rpc H tr req resp m ms) (EvRpc req resp m ms)"

definition time_now :: "('v, 'm) host \<Rightarrow> ('v, 'm, nat option) io" where
  "time_now H = host_call (h_time H) EvTime"

definition runtime_caller :: "('v, 'm) host \<Rightarrow> ('v, 'm, host_error + caller) io" where
  "runtime_caller H = host_call (h_caller H) EvCaller"

definition env_var :: "('v, 'm) host \<Rightarrow> string \<Rightarrow> ('v, 'm, host_error + string option) io" where
  "env_var H k = host_call (\<lambda>tr. h_env H tr k) (EvEnv k)"

definition new_uuid :: "('v, 'm) host \<Rightarrow> ('v, 'm, nat) io" where
  "new_uuid H = host_call (h_uuid H) EvUuid"

definition monotonic :: "('v, 'm) host \<Rightarrow> ('v, 'm, nat) io" where
  "monotonic H = host_call (h_mono H) EvMono"

definition list_keys_page ::
  "('v, 'm) host \<Rightarrow> string \<Rightarrow> string option \<Rightarrow> nat \<Rightarrow> ('v, 'm, host_error + key_page) io" where
  "list_keys_page H p c n = host_call (\<lambda>tr. h_keys_page H tr p c n) (EvKeysPage p c n)"

definition list_keys :: "('v, 'm) host \<Rightarrow> string \<Rightarrow> ('v, 'm, host_error + string list) io" where
  "list_keys H p = host_call (\<lambda>tr. h_keys H tr p) (EvKeys p)"

definition random_bytes :: "('v, 'm) host \<Rightarrow> nat \<Rightarrow> ('v, 'm, host_error + string) io" where
  "random_bytes H n = host_call (\<lambda>tr. h_random H tr n) (EvRandom n)"

definition check_capability :: "('v, 'm) host \<Rightarrow> string \<Rightarrow> string \<Rightarrow> ('v, 'm, host_error + bool) io" where
  "check_capability H u c = host_call (\<lambda>tr. h_check H tr u c) (EvCheck u c)"

text \<open>
  A request whose response is read as a whole, a request whose response is streamed (the answer is its
  status), and the next chunk of the stream that was opened last, \<open>None\<close> at its end.
\<close>

definition http_send :: "('v, 'm) host \<Rightarrow> http_request \<Rightarrow> ('v, 'm, host_error + http_response) io" where
  "http_send H q = host_call (\<lambda>tr. h_http H tr q) (EvHttp q)"

definition stream_start :: "('v, 'm) host \<Rightarrow> http_request \<Rightarrow> ('v, 'm, host_error + nat) io" where
  "stream_start H q = host_call (\<lambda>tr. h_open H tr q) (EvOpen q)"

definition read_chunk :: "('v, 'm) host \<Rightarrow> ('v, 'm, host_error + string option) io" where
  "read_chunk H = host_call (h_chunk H) EvChunk"

text \<open>
  A setting read from the environment, without surrounding whitespace and quotes; nanoseconds as the
  milliseconds of a \<open>u64\<close>.
\<close>

definition config_text :: "host_error + string option \<Rightarrow> string option" where
  "config_text v = (case v of Inr (Some s) \<Rightarrow> Some (trim_quotes (trim s)) | _ \<Rightarrow> None)"

definition millis :: "nat \<Rightarrow> nat" where
  "millis ns = min (ns div 1000000) (2 ^ 64 - 1)"

lemmas host_defs = kv_get_def kv_get_raw_def kv_set_def kv_delete_def kv_clear_prefix_def kv_cas_def
  publish_def subscribe_def recv_def poll_def request_response_def time_now_def
  runtime_caller_def env_var_def new_uuid_def monotonic_def list_keys_page_def list_keys_def
  random_bytes_def check_capability_def http_send_def stream_start_def read_chunk_def

lemma run_host_call [simp]: "run_state (host_call f ev) tr = (f tr, ev (f tr) # tr)"
  by (simp add: host_call_def Let_def)

subsection \<open>Executing host calls symbolically\<close>

text \<open>
  For a property of every host the answer of a call is arbitrary: each rule introduces a fresh
  \<open>r\<close> for it.
\<close>

lemma wp_host_call: "(\<And>r. Q r (ev r # tr)) \<Longrightarrow> wp (host_call f ev) Q tr"
  by (simp add: wp_def)

lemma wp_kv_get [wpI]: "(\<And>r. Q r (EvGet k r # tr)) \<Longrightarrow> wp (kv_get H k) Q tr"
  by (simp only: host_defs wp_host_call)

lemma wp_kv_get_raw [wpI]: "(\<And>r. Q r (EvGetRaw k r # tr)) \<Longrightarrow> wp (kv_get_raw H k) Q tr"
  by (simp only: host_defs wp_host_call)

lemma wp_kv_set [wpI]: "(\<And>r. Q r (EvSet k v r # tr)) \<Longrightarrow> wp (kv_set H k v) Q tr"
  by (simp only: host_defs wp_host_call)

lemma wp_kv_delete [wpI]: "(\<And>r. Q r (EvDel k r # tr)) \<Longrightarrow> wp (kv_delete H k) Q tr"
  by (simp only: host_defs wp_host_call)

lemma wp_kv_clear [wpI]: "(\<And>r. Q r (EvClear k r # tr)) \<Longrightarrow> wp (kv_clear_prefix H k) Q tr"
  by (simp only: host_defs wp_host_call)

lemma wp_kv_cas [wpI]: "(\<And>r. Q r (EvCas k old v r # tr)) \<Longrightarrow> wp (kv_cas H k old v) Q tr"
  by (simp only: host_defs wp_host_call)

lemma wp_publish [wpI]: "(\<And>r. Q r (EvPub t m r # tr)) \<Longrightarrow> wp (publish H t m) Q tr"
  by (simp only: host_defs wp_host_call)

lemma wp_subscribe [wpI]: "(\<And>r. Q r (EvSub t r # tr)) \<Longrightarrow> wp (subscribe H t) Q tr"
  by (simp only: host_defs wp_host_call)

lemma wp_recv [wpI]: "(\<And>r. Q r (EvRecv t ms r # tr)) \<Longrightarrow> wp (recv H t ms) Q tr"
  by (simp only: host_defs wp_host_call)

lemma wp_poll [wpI]: "(\<And>r. Q r (EvPoll t r # tr)) \<Longrightarrow> wp (poll H t) Q tr"
  by (simp only: host_defs wp_host_call)

lemma wp_rpc [wpI]: "(\<And>r. Q r (EvRpc t u m ms r # tr)) \<Longrightarrow> wp (request_response H t u m ms) Q tr"
  by (simp only: host_defs wp_host_call)

lemma wp_time_now [wpI]: "(\<And>r. Q r (EvTime r # tr)) \<Longrightarrow> wp (time_now H) Q tr"
  by (simp only: host_defs wp_host_call)

lemma wp_caller [wpI]: "(\<And>r. Q r (EvCaller r # tr)) \<Longrightarrow> wp (runtime_caller H) Q tr"
  by (simp only: host_defs wp_host_call)

lemma wp_env_var [wpI]: "(\<And>r. Q r (EvEnv k r # tr)) \<Longrightarrow> wp (env_var H k) Q tr"
  by (simp only: host_defs wp_host_call)

lemma wp_new_uuid [wpI]: "(\<And>r. Q r (EvUuid r # tr)) \<Longrightarrow> wp (new_uuid H) Q tr"
  by (simp only: host_defs wp_host_call)

lemma wp_monotonic [wpI]: "(\<And>r. Q r (EvMono r # tr)) \<Longrightarrow> wp (monotonic H) Q tr"
  by (simp only: host_defs wp_host_call)

lemma wp_list_keys_page [wpI]: "(\<And>r. Q r (EvKeysPage p c n r # tr)) \<Longrightarrow> wp (list_keys_page H p c n) Q tr"
  by (simp only: host_defs wp_host_call)

lemma wp_list_keys [wpI]: "(\<And>r. Q r (EvKeys p r # tr)) \<Longrightarrow> wp (list_keys H p) Q tr"
  by (simp only: host_defs wp_host_call)

lemma wp_random_bytes [wpI]: "(\<And>r. Q r (EvRandom n r # tr)) \<Longrightarrow> wp (random_bytes H n) Q tr"
  by (simp only: host_defs wp_host_call)

lemma wp_check_capability [wpI]: "(\<And>r. Q r (EvCheck u c r # tr)) \<Longrightarrow> wp (check_capability H u c) Q tr"
  by (simp only: host_defs wp_host_call)

lemma wp_http_send [wpI]: "(\<And>r. Q r (EvHttp q r # tr)) \<Longrightarrow> wp (http_send H q) Q tr"
  by (simp only: host_defs wp_host_call)

lemma wp_stream_start [wpI]: "(\<And>r. Q r (EvOpen q r # tr)) \<Longrightarrow> wp (stream_start H q) Q tr"
  by (simp only: host_defs wp_host_call)

lemma wp_read_chunk [wpI]: "(\<And>r. Q r (EvChunk r # tr)) \<Longrightarrow> wp (read_chunk H) Q tr"
  by (simp only: host_defs wp_host_call)

lemma every_host_call: "(\<And>r. P (ev r)) \<Longrightarrow> every P (host_call f ev)"
  unfolding every_def by (auto intro!: exI [where x = "[_]"])

subsection \<open>Reading a trace\<close>

text \<open>What the store holds after a trace: the last write, delete or clear that succeeded.\<close>

fun kv_view :: "('v, 'm) event list \<Rightarrow> string \<Rightarrow> 'v option" where
  "kv_view [] k = None"
| "kv_view (EvSet k' v None # tr) k = (if k' = k then Some v else kv_view tr k)"
| "kv_view (EvDel k' None # tr) k = (if k' = k then None else kv_view tr k)"
| "kv_view (EvClear p (Inr n) # tr) k = (if starts_with p k then None else kv_view tr k)"
| "kv_view (EvCas k' old v (Inr True) # tr) k = (if k' = k then Some v else kv_view tr k)"
| "kv_view (e # tr) k = kv_view tr k"

text \<open>Two projections used in the statements: the payloads published on a topic, and the writes.\<close>

fun pub_of :: "('v, 'm) event \<Rightarrow> (string \<times> 'm) option" where
  "pub_of (EvPub t m e) = Some (t, m)"
| "pub_of _ = None"

definition pubs :: "('v, 'm) event list \<Rightarrow> (string \<times> 'm) list" where
  "pubs evs = List.map_filter pub_of (rev evs)"

definition pubs_on :: "string \<Rightarrow> ('v, 'm) event list \<Rightarrow> 'm list" where
  "pubs_on t evs = map snd (filter (\<lambda>p. fst p = t) (pubs evs))"

fun writes_key :: "('v, 'm) event \<Rightarrow> string option" where
  "writes_key (EvSet k v e) = Some k"
| "writes_key (EvCas k old v e) = Some k"
| "writes_key _ = None"

lemma pubs_simps [simp]:
  "pubs [] = []"
  "pubs (e # evs) = pubs evs @ (case pub_of e of None \<Rightarrow> [] | Some p \<Rightarrow> [p])"
  "pubs (evs @ evs') = pubs evs' @ pubs evs"
  by (simp_all add: pubs_def List.map_filter_def split: option.split)

lemma pubs_on_simps [simp]:
  "pubs_on t [] = []"
  "pubs_on t (e # evs) = pubs_on t evs @
     (case pub_of e of None \<Rightarrow> [] | Some p \<Rightarrow> if fst p = t then [snd p] else [])"
  "pubs_on t (evs @ evs') = pubs_on t evs' @ pubs_on t evs"
  by (simp_all add: pubs_on_def split: option.split)

lemma pubs_memI: "EvPub t m e \<in> set evs \<Longrightarrow> (t, m) \<in> set (pubs evs)"
  by (induction evs) auto

lemma pub_of_Some [simp]: "pub_of a = Some (t, m) \<longleftrightarrow> (\<exists>e. a = EvPub t m e)"
  by (cases a) auto

lemma pubs_memD: "(t, m) \<in> set (pubs evs) \<Longrightarrow> \<exists>e. EvPub t m e \<in> set evs"
proof (induction evs)
  case (Cons a evs)
  then show ?case by (cases "pub_of a") auto
qed simp

subsection \<open>The contract of the store\<close>

locale kv_store =
  fixes H :: "('v, 'm) host"
  assumes get_law: "h_get H tr k = Inr v \<Longrightarrow> v = kv_view tr k"
    and cas_law: "h_cas H tr k old new = Inr True \<Longrightarrow> kv_view tr k = old"
begin

lemma wp_get_view:
  "(\<And>r. (\<forall>v. r = Inr v \<longrightarrow> v = kv_view tr k) \<Longrightarrow> Q r (EvGet k r # tr)) \<Longrightarrow> wp (kv_get H k) Q tr"
  using get_law by (auto simp: kv_get_def wp_def)

lemma wp_cas_view:
  "(\<And>r. (r = Inr True \<longrightarrow> kv_view tr k = old) \<Longrightarrow> Q r (EvCas k old new r # tr)) \<Longrightarrow>
   wp (kv_cas H k old new) Q tr"
  using cas_law by (auto simp: kv_cas_def wp_def)

end

text \<open>
  A store whose calls succeed: reads return the stored value, writes and deletes are performed.
\<close>

locale live_store = kv_store +
  assumes get_ok: "h_get H tr k = Inr (kv_view tr k)"
    and set_ok: "h_set H tr k v = None"
    and del_ok: "h_del H tr k = None"
begin

lemma run_get [simp]: "run_state (kv_get H k) tr = (Inr (kv_view tr k), EvGet k (Inr (kv_view tr k)) # tr)"
  by (simp add: kv_get_def get_ok)

lemma run_set [simp]: "run_state (kv_set H k v) tr = (None, EvSet k v None # tr)"
  by (simp add: kv_set_def set_ok)

lemma run_del [simp]: "run_state (kv_delete H k) tr = (None, EvDel k None # tr)"
  by (simp add: kv_delete_def del_ok)

end

subsection \<open>The monotonic clock\<close>

text \<open>
  A loop that waits for messages until a window of real time is over runs on fuel in the model.  On a
  clock that never goes back and advances by at least \<open>d\<close> nanoseconds across a receive, a window of
  \<open>x\<close> nanoseconds takes at most \<open>ticks d x\<close> receives, so \<open>rounds_for d x\<close> rounds are enough.
\<close>

definition ticks :: "nat \<Rightarrow> nat \<Rightarrow> nat" where
  "ticks d x = (x + d - 1) div d"

definition rounds_for :: "nat \<Rightarrow> nat \<Rightarrow> nat" where
  "rounds_for d x = ticks d x + 1"

locale ticking_clock =
  fixes H :: "('v, 'm) host" and d :: nat
  assumes positive: "0 < d"
    and steady: "h_mono H tr \<le> h_mono H (EvMono (h_mono H tr) # tr)"
    and tick: "h_mono H tr + d \<le> h_mono H (EvRecv t ms r # EvMono (h_mono H tr) # tr)"
begin

lemma ticks_le: "x \<le> y \<Longrightarrow> ticks d x \<le> ticks d y"
  by (simp add: ticks_def div_le_mono)

lemma rounds_step:
  assumes "x' \<le> x - d" "0 < x" "ticks d x < Suc k"
  shows "ticks d x' < k"
proof (cases "x \<le> d")
  case True
  then have "x' = 0" using assms(1) by simp
  moreover have "1 \<le> (x + d - 1) div d"
    using assms(2) positive by (simp add: Suc_leI div_greater_zero_iff)
  ultimately show ?thesis using assms(3) positive by (simp add: ticks_def)
next
  case False
  then have "x' + d - 1 + d \<le> x + d - 1" using assms(1,2) positive by simp
  then have "(x' + d - 1) div d + 1 \<le> (x + d - 1) div d"
    using positive by (metis div_add_self2 div_le_mono not_gr_zero)
  then show ?thesis using assms(3) by (simp add: ticks_def)
qed

end

text \<open>
  A loop that receives until a window of time is over: a round that does not end the loop starts within
  the window, takes a tick, and continues with less fuel.  With more rounds than ticks are left, the
  fuel does not matter.
\<close>

locale window_loop = ticking_clock H d for H :: "('v, 'm) host" and d :: nat +
  fixes L :: "nat \<Rightarrow> 'a \<Rightarrow> (('v, 'm) event list, 'b) state" and start window :: nat
  assumes round: "start \<le> h_mono H tr \<Longrightarrow>
    (\<forall>k k'. run_state (L (Suc k) acc) tr = run_state (L (Suc k') acc) tr) \<or>
    (h_mono H tr - start < window \<and> (\<exists>acc' tr'. h_mono H tr + d \<le> h_mono H tr' \<and>
       (\<forall>k. run_state (L (Suc k) acc) tr = run_state (L k acc') tr')))"
begin

lemma loop_stable:
  "start \<le> h_mono H tr \<Longrightarrow> ticks d (window - (h_mono H tr - start)) < fuel \<Longrightarrow>
   ticks d (window - (h_mono H tr - start)) < fuel' \<Longrightarrow> run_state (L fuel acc) tr = run_state (L fuel' acc) tr"
proof (induction fuel arbitrary: fuel' acc tr)
  case (Suc k)
  then obtain k' where k': "fuel' = Suc k'" by (cases fuel') auto
  from round [OF Suc.prems(1), of acc] consider
      "\<And>k k'. run_state (L (Suc k) acc) tr = run_state (L (Suc k') acc) tr"
    | acc' tr' where "h_mono H tr - start < window" "h_mono H tr + d \<le> h_mono H tr'"
        "\<And>k. run_state (L (Suc k) acc) tr = run_state (L k acc') tr'"
    by blast
  then show ?case
  proof cases
    case 2
    have "ticks d (window - (h_mono H tr' - start)) < n" if "ticks d (window - (h_mono H tr - start)) < Suc n" for n
      using 2(1,2) Suc.prems(1) by (intro rounds_step [OF _ _ that]) auto
    then show ?thesis using Suc.IH [of tr' k' acc'] 2 Suc.prems by (simp add: k')
  qed (metis k')
qed simp

lemma enough_rounds:
  assumes "start \<le> h_mono H tr" and "rounds_for d window \<le> fuel"
  shows "run_state (L fuel acc) tr = run_state (L (rounds_for d window) acc) tr"
proof -
  have "ticks d (window - (h_mono H tr - start)) < rounds_for d window"
    using ticks_le [of "window - (h_mono H tr - start)" window] by (simp add: rounds_for_def)
  then show ?thesis using assms by (intro loop_stable) linarith+
qed

end

text \<open>
  The reference host: an in-memory store without faults, an empty bus that accepts every
  publication, no clock, no caller, no environment.  The witnesses take it with the fields they
  need replaced.
\<close>

definition mem_host :: "('v, 'm) host" where
  "mem_host = \<lparr>
     h_get = (\<lambda>tr k. Inr (kv_view tr k)),
     h_get_raw = (\<lambda>tr k. case kv_view tr k of None \<Rightarrow> Inl ''not found'' | Some v \<Rightarrow> Inr v),
     h_set = (\<lambda>tr k v. None),
     h_del = (\<lambda>tr k. None),
     h_clear = (\<lambda>tr p. Inr 0),
     h_cas = (\<lambda>tr k old new. Inr (kv_view tr k = old)),
     h_pub = (\<lambda>tr t m. None),
     h_sub = (\<lambda>tr t. None),
     h_recv = (\<lambda>tr t ms. Inl ''timeout''),
     h_poll = (\<lambda>tr t. Inr \<lparr>batch_msgs = [], batch_dropped = 0, batch_lagged = 0\<rparr>),
     h_rpc = (\<lambda>tr t u m ms. Inl ''timeout''),
     h_time = (\<lambda>tr. None),
     h_caller = (\<lambda>tr. Inl ''no caller''),
     h_env = (\<lambda>tr k. Inr None),
     h_uuid = (\<lambda>tr. Suc (length tr)),
     h_mono = (\<lambda>tr. length tr * 1000000),
     h_keys_page = (\<lambda>tr p c n. Inr \<lparr>page_keys = [], page_next = None\<rparr>),
     h_keys = (\<lambda>tr p. Inr []),
     h_random = (\<lambda>tr n. Inr (replicate n (CHR ''a''))),
     h_check = (\<lambda>tr u c. Inr False),
     h_http = (\<lambda>tr q. Inl ''no network''),
     h_open = (\<lambda>tr q. Inl ''no network''),
     h_chunk = (\<lambda>tr. Inr None),
     h_parse = (\<lambda>s. None),
     h_render = (\<lambda>j. []),
     h_pointer = (\<lambda>j p. None)\<rparr>"

lemma mem_host_simps [simp]:
  "h_get mem_host tr k = Inr (kv_view tr k)"
  "h_set mem_host tr k v = None"
  "h_del mem_host tr k = None"
  "h_cas mem_host tr k old new = Inr (kv_view tr k = old)"
  by (simp_all add: mem_host_def)

interpretation mem: live_store mem_host
  by unfold_locales auto

interpretation mem_clock: ticking_clock mem_host 2000000
  by unfold_locales (simp_all add: mem_host_def)

end
