(* ===== verification/Identity.thy ===== *)
theory Identity
  imports Host
begin

text \<open>
  The product identity of the MCP broker (\<open>crates/aos-mcp-broker/src/identity.rs\<close>, \<open>profile.rs\<close>) and
  the types every part of the broker shares: its store holds byte strings and it publishes JSON.
  \<open>install_aos\<close> runs before any handler, so \<open>identity()\<close> is the constant \<open>AOS\<close>.
\<close>

type_synonym bhost = "(string, json) host"
type_synonym btrace = "(string, json) event list"
type_synonym 'a bio = "((string, json) event list, 'a) state"

record mcp_identity =
  capsule_name :: string
  mcp_tool_prefix :: string
  log_tag :: string
  tools_list_topic :: string
  audit_topic_prefix :: string

definition AOS :: mcp_identity where
  "AOS = \<lparr>
     capsule_name = ''aos-mcp'',
     mcp_tool_prefix = ''mcp__aos__'',
     log_tag = ''aos-mcp'',
     tools_list_topic = ''astrid.v1.tools.list'',
     audit_topic_prefix = ''astrid.v1.audit.''\<rparr>"

definition audit_topic :: "string \<Rightarrow> string" where
  "audit_topic event = audit_topic_prefix AOS @ event"

definition tagged :: "string \<Rightarrow> string" where
  "tagged text = log_tag AOS @ '': '' @ text"

lemma audit_topic_eq: "audit_topic e = ''astrid.v1.audit.'' @ e"
  by (simp add: audit_topic_def AOS_def)

end
