(* ===== verification/Wire.thy ===== *)
theory Wire
  imports Identity
begin

text \<open>
  The topics and reply shapes of the broker surface: \<open>reply_topic\<close> and \<open>mcp_content\<close> of
  \<open>broker.rs\<close>, \<open>response_topic\<close> of \<open>approval.rs\<close>, \<open>reply_topic\<close> of \<open>hook_gate.rs\<close> and
  \<open>is_valid_tool_name\<close> of \<open>execute.rs\<close>.  All three topic builders keep one contract, the locale
  \<open>segment_gate\<close>: a topic is the fixed prefix followed by exactly one clean segment.
\<close>

definition RESPONSE_PREFIX :: string where "RESPONSE_PREFIX = ''astrid.v1.response.''"
definition APPROVAL_RESPONSE_PREFIX :: string where
  "APPROVAL_RESPONSE_PREFIX = ''astrid.v1.approval.response.''"
definition REPLY_PREFIX :: string where "REPLY_PREFIX = ''hook.v1.response.before_tool_call.''"
definition MAX_REQ_ID_LEN :: nat where "MAX_REQ_ID_LEN = 128"
definition MAX_REQUEST_ID_LEN :: nat where "MAX_REQUEST_ID_LEN = 128"
definition MAX_CORRELATION_LEN :: nat where "MAX_CORRELATION_LEN = 128"
definition MAX_TOOL_NAME_LEN :: nat where "MAX_TOOL_NAME_LEN = 128"

definition reply_topic :: "string \<Rightarrow> string option" where
  "reply_topic req_id =
     (if req_id = [] \<or> MAX_REQ_ID_LEN < length req_id then None
      else if \<not> list_all segment_char req_id then None
      else Some (RESPONSE_PREFIX @ req_id))"

definition response_topic :: "string \<Rightarrow> string option" where
  "response_topic request_id =
     (if request_id = [] \<or> MAX_REQUEST_ID_LEN < length request_id then None
      else if \<not> list_all segment_char request_id then None
      else Some (APPROVAL_RESPONSE_PREFIX @ request_id))"

definition hook_reply_topic :: "string \<Rightarrow> string option" where
  "hook_reply_topic correlation_id =
     (if correlation_id = [] \<or> MAX_CORRELATION_LEN < length correlation_id then None
      else if \<not> list_all segment_char correlation_id then None
      else Some (REPLY_PREFIX @ correlation_id))"

definition is_valid_tool_name :: "string \<Rightarrow> bool" where
  "is_valid_tool_name name \<longleftrightarrow>
     name \<noteq> [] \<and> length name \<le> MAX_TOOL_NAME_LEN \<and> list_all name_char name"

definition mcp_content :: "bhost \<Rightarrow> json \<Rightarrow> json" where
  "mcp_content H content = (let text = (case content of JStr s \<Rightarrow> s | _ \<Rightarrow> h_render H content) in
     JArr [JObj [(''type'', JStr ''text''), (''text'', JStr text)]])"

definition publish_reply :: "bhost \<Rightarrow> string \<Rightarrow> json \<Rightarrow> unit bio" where
  "publish_reply H topic reply = do { _ \<leftarrow> publish H topic reply; ret () }"

lemma wp_publish_reply [wpI]: "(\<And>e. Q () (EvPub t m e # tr)) \<Longrightarrow> wp (publish_reply H t m) Q tr"
  unfolding publish_reply_def by (intro wpI)

text \<open>The number of segments of a topic is one more than its dots.\<close>

definition dots :: "string \<Rightarrow> nat" where
  "dots s = length (filter (\<lambda>c. c = CHR ''.'') s)"

lemma dots_append [simp]: "dots (a @ b) = dots a + dots b"
  by (simp add: dots_def)

lemma dots_segment: "list_all segment_char s \<Longrightarrow> dots s = 0"
  by (induction s) (auto simp: dots_def)

locale segment_gate =
  fixes prefix :: string and gate :: "string \<Rightarrow> string option"
  assumes gate_iff: "gate s = Some t \<longleftrightarrow>
    s \<noteq> [] \<and> length s \<le> 128 \<and> list_all segment_char s \<and> t = prefix @ s"
begin

lemma gate_SomeD: "gate s = Some t \<Longrightarrow> t = prefix @ s"
  by (simp add: gate_iff)

lemma gate_arity: "gate s = Some t \<Longrightarrow> dots t = dots prefix"
  by (auto simp: gate_iff dots_segment)

lemma gate_inj: "gate s = Some t \<Longrightarrow> gate s' = Some t \<Longrightarrow> s = s'"
  by (auto simp: gate_iff)

lemma gate_length: "gate s = Some t \<Longrightarrow> length t \<le> length prefix + 128"
  by (auto simp: gate_iff)

lemma gate_NoneD: "gate s = None \<Longrightarrow> s = [] \<or> 128 < length s \<or> \<not> list_all segment_char s"
  using gate_iff [of s "prefix @ s"] by auto

end

interpretation reply_topics: segment_gate RESPONSE_PREFIX reply_topic
  by unfold_locales (auto simp: reply_topic_def MAX_REQ_ID_LEN_def)

interpretation approval_topics: segment_gate APPROVAL_RESPONSE_PREFIX response_topic
  by unfold_locales (auto simp: response_topic_def MAX_REQUEST_ID_LEN_def)

interpretation hook_topics: segment_gate REPLY_PREFIX hook_reply_topic
  by unfold_locales (auto simp: hook_reply_topic_def MAX_CORRELATION_LEN_def)

text \<open>
  Topics of different families never coincide, so a trace statement about one family is not
  disturbed by publications on another.
\<close>

definition exec_topic :: "string \<Rightarrow> string" where
  "exec_topic tool_name = ''tool.v1.execute.'' @ tool_name"

definition result_topic :: "string \<Rightarrow> string" where
  "result_topic tool_name = ''tool.v1.execute.'' @ tool_name @ ''.result''"

lemma topic_distinct [simp]:
  "RESPONSE_PREFIX @ a \<noteq> exec_topic b"
  "exec_topic b \<noteq> RESPONSE_PREFIX @ a"
  "audit_topic e \<noteq> exec_topic b"
  "exec_topic b \<noteq> audit_topic e"
  "APPROVAL_RESPONSE_PREFIX @ a \<noteq> exec_topic b"
  "exec_topic b \<noteq> APPROVAL_RESPONSE_PREFIX @ a"
  "RESPONSE_PREFIX @ a \<noteq> APPROVAL_RESPONSE_PREFIX @ c"
  "APPROVAL_RESPONSE_PREFIX @ c \<noteq> RESPONSE_PREFIX @ a"
  "audit_topic e \<noteq> RESPONSE_PREFIX @ a"
  "RESPONSE_PREFIX @ a \<noteq> audit_topic e"
  "audit_topic e \<noteq> APPROVAL_RESPONSE_PREFIX @ a"
  "APPROVAL_RESPONSE_PREFIX @ a \<noteq> audit_topic e"
  by (simp_all add: RESPONSE_PREFIX_def APPROVAL_RESPONSE_PREFIX_def exec_topic_def audit_topic_eq)

lemma exec_topic_inj [simp]: "exec_topic a = exec_topic b \<longleftrightarrow> a = b"
  by (simp add: exec_topic_def)

text \<open>
  an identifier that the topic gates accept yields a topic with exactly the segments its
  subscribers expect (the prefix's and one more), and different identifiers yield different topics,
  within a family and across the three families.
\<close>

theorem topic_gates_exact:
  assumes "reply_topic i = Some t" "response_topic j = Some u" "hook_reply_topic k = Some v"
  shows "dots t = 3 \<and> dots u = 4 \<and> dots v = 4 \<and> t \<noteq> u \<and> u \<noteq> v \<and> t \<noteq> v \<and>
    (reply_topic i' = Some t \<longleftrightarrow> i' = i) \<and> (response_topic j' = Some u \<longleftrightarrow> j' = j) \<and>
    (hook_reply_topic k' = Some v \<longleftrightarrow> k' = k)"
proof -
  have "dots t = 3" using reply_topics.gate_arity [OF assms(1)] by (simp add: RESPONSE_PREFIX_def dots_def)
  moreover have "dots u = 4" using approval_topics.gate_arity [OF assms(2)]
    by (simp add: APPROVAL_RESPONSE_PREFIX_def dots_def)
  moreover have "dots v = 4" using hook_topics.gate_arity [OF assms(3)] by (simp add: REPLY_PREFIX_def dots_def)
  moreover have "u \<noteq> v"
    using approval_topics.gate_SomeD [OF assms(2)] hook_topics.gate_SomeD [OF assms(3)]
    by (simp add: APPROVAL_RESPONSE_PREFIX_def REPLY_PREFIX_def)
  ultimately show ?thesis
    using assms reply_topics.gate_inj approval_topics.gate_inj hook_topics.gate_inj by auto
qed

lemma topic_gates_exact_witness:
  "dots ''astrid.v1.response.a'' = 3 \<and> dots ''astrid.v1.approval.response.b'' = 4 \<and>
   dots ''hook.v1.response.before_tool_call.c'' = 4"
proof -
  have "reply_topic ''a'' = Some ''astrid.v1.response.a''"
    "response_topic ''b'' = Some ''astrid.v1.approval.response.b''"
    "hook_reply_topic ''c'' = Some ''hook.v1.response.before_tool_call.c''" by code_simp+
  from topic_gates_exact [OF this] show ?thesis by blast
qed

end
