(* ===== verification/Grant_Decision.thy ===== *)
theory Grant_Decision
  imports Wire
begin

text \<open>
  Durable per-principal grant decisions (\<open>crates/aos-mcp-broker/src/grant_decision.rs\<close>): the store
  key, the two verbs and their parser, what a \<open>grant.respond\<close> records, how a recorded decision maps
  to the broker's action, and the terminal replies of the grant-on-use outcomes.
\<close>

definition GRANT_DECISION_KEY_PREFIX :: string where
  "GRANT_DECISION_KEY_PREFIX = ''mcp.grant.decision.''"
definition GRANT_DECISION_APPROVE :: string where "GRANT_DECISION_APPROVE = ''approve''"
definition GRANT_DECISION_DENY :: string where "GRANT_DECISION_DENY = ''deny''"

text \<open>Self-heal time of a grant-pending marker (\<open>execute.rs\<close>), which the dedup reply quotes.\<close>

definition GRANT_PENDING_TTL_MS :: nat where "GRANT_PENDING_TTL_MS = 120000"

datatype grant_decision = GrantApprove | GrantDeny

fun as_kv_value :: "grant_decision \<Rightarrow> string" where
  "as_kv_value GrantApprove = GRANT_DECISION_APPROVE"
| "as_kv_value GrantDeny = GRANT_DECISION_DENY"

datatype broker_grant_action = AutoApprove | AutoDeny | Prompt

definition grant_decision_key :: "string \<Rightarrow> string option" where
  "grant_decision_key capsule_id =
     (if capsule_id = [] then None else Some (GRANT_DECISION_KEY_PREFIX @ capsule_id))"

definition parse_grant_decision :: "string \<Rightarrow> grant_decision option" where
  "parse_grant_decision value =
     (let text = (case from_utf8 value of None \<Rightarrow> [] | Some s \<Rightarrow> trim s) in
      if text = GRANT_DECISION_APPROVE then Some GrantApprove
      else if text = GRANT_DECISION_DENY then Some GrantDeny
      else None)"

definition respond_decision_to_record :: "bool \<Rightarrow> grant_decision option" where
  "respond_decision_to_record granted = (if granted then Some GrantApprove else None)"

definition record_grant_decision :: "bhost \<Rightarrow> string \<Rightarrow> grant_decision \<Rightarrow> unit bio" where
  "record_grant_decision H capsule_id decision =
     (case grant_decision_key capsule_id of
        None \<Rightarrow> ret ()
      | Some key \<Rightarrow> do { _ \<leftarrow> kv_set H key (as_kv_value decision); ret () })"

definition recorded_grant_decision :: "bhost \<Rightarrow> string \<Rightarrow> grant_decision option bio" where
  "recorded_grant_decision H capsule_id =
     (case grant_decision_key capsule_id of
        None \<Rightarrow> ret None
      | Some key \<Rightarrow> do {
          v \<leftarrow> kv_get H key;
          case v of
            Inl e \<Rightarrow> ret None
          | Inr stored \<Rightarrow> (case stored of
              None \<Rightarrow> ret None
            | Some bytes \<Rightarrow> ret (parse_grant_decision bytes))
        })"

fun grant_action :: "grant_decision option \<Rightarrow> broker_grant_action" where
  "grant_action (Some GrantApprove) = AutoApprove"
| "grant_action (Some GrantDeny) = AutoDeny"
| "grant_action None = Prompt"

subsection \<open>Terminal replies\<close>

definition grant_reply :: "bhost \<Rightarrow> string \<Rightarrow> string \<Rightarrow> bool \<Rightarrow> json" where
  "grant_reply H req_id message is_error = JObj
     [(''kind'', JStr ''tool.call''), (''req_id'', JStr req_id),
      (''content'', mcp_content H (JStr message)), (''isError'', JBool is_error)]"

definition ttl_hint :: "nat \<Rightarrow> string" where
  "ttl_hint ttl_ms =
     (if 0 < ttl_ms \<and> ttl_ms mod 60000 = 0 then
        (let minutes = ttl_ms div 60000 in
         if minutes = 1 then ''~1 minute'' else ''~'' @ show_nat minutes @ '' minutes'')
      else ''~'' @ show_nat ((ttl_ms + 999) div 1000) @ '' seconds'')"

definition grant_dedup_reply :: "bhost \<Rightarrow> string \<Rightarrow> json" where
  "grant_dedup_reply H req_id = grant_reply H req_id
     (tagged (''a consent prompt for this capsule is open in your client. Answer '' @
       ''it and retry; if it never appeared, retry after '' @ ttl_hint GRANT_PENDING_TTL_MS @
       '' and it will be re-asked.'')) False"

definition grant_auto_approve_reply :: "bhost \<Rightarrow> string \<Rightarrow> string \<Rightarrow> json" where
  "grant_auto_approve_reply H req_id capsule_id = grant_reply H req_id
     (tagged (''session access to capsule '' @ [CHR 0x27] @ capsule_id @ [CHR 0x27] @
       '' is already approved for this identity; the grant has been applied. Retry the tool call.''))
     False"

definition grant_auto_deny_reply :: "bhost \<Rightarrow> string \<Rightarrow> string \<Rightarrow> string \<Rightarrow> json" where
  "grant_auto_deny_reply H req_id capsule_id principal_id =
     (let who = (if principal_id = [] then ''<principal>'' else principal_id) in
      grant_reply H req_id
        (tagged (''session access to capsule '' @ [CHR 0x27] @ capsule_id @ [CHR 0x27] @
          '' was denied for this identity. An operator can allow it with: '' @
          ''aos --principal default agent modify '' @ who @ '' --add-capsule '' @ capsule_id @
          '' (or later revoke a grant with --remove-capsule).'')) True)"

definition grant_unroutable_reply :: "bhost \<Rightarrow> string \<Rightarrow> string \<Rightarrow> json" where
  "grant_unroutable_reply H req_id capsule_id = grant_reply H req_id
     (tagged (''could not apply the recorded grant for capsule '' @ [CHR 0x27] @ capsule_id @
       [CHR 0x27] @ '' (unroutable kernel request id). Re-grant it, or an operator can run: '' @
       ''aos --principal default agent modify <principal> --add-capsule '' @ capsule_id @ ''.''))
     True"

subsection \<open>Properties of the records\<close>

lemma kv_value_roundtrip: "parse_grant_decision (as_kv_value d) = Some d"
proof (cases d)
  case GrantApprove
  have "parse_grant_decision (as_kv_value GrantApprove) = Some GrantApprove" by code_simp
  then show ?thesis by (simp only: GrantApprove)
next
  case GrantDeny
  have "parse_grant_decision (as_kv_value GrantDeny) = Some GrantDeny" by code_simp
  then show ?thesis by (simp only: GrantDeny)
qed

lemma parse_approve_iff:
  "parse_grant_decision v = Some GrantApprove \<longleftrightarrow> (\<exists>s. from_utf8 v = Some s \<and> trim s = ''approve'')"
  by (auto simp: parse_grant_decision_def Let_def GRANT_DECISION_APPROVE_def GRANT_DECISION_DENY_def
      split: option.splits if_splits)

lemma recorded_approve_reads [simp]: "grant_action d = AutoApprove \<longleftrightarrow> d = Some GrantApprove"
  by (cases "d" rule: grant_action.cases) auto

text \<open>What a store read of the decision key means: anything but a readable verb is no decision.\<close>

definition decision_of_read :: "host_error + string option \<Rightarrow> grant_decision option" where
  "decision_of_read r = (case r of Inr (Some b) \<Rightarrow> parse_grant_decision b | _ \<Rightarrow> None)"

lemma recorded_grant_decision_eq:
  "recorded_grant_decision H capsule_id = (if capsule_id = [] then ret None
     else do { v \<leftarrow> kv_get H (GRANT_DECISION_KEY_PREFIX @ capsule_id); ret (decision_of_read v) })"
  by (auto simp: recorded_grant_decision_def grant_decision_key_def decision_of_read_def
      intro!: bind_eqI split: sum.split option.split)

lemma wp_recorded_grant_decision [wpI]:
  assumes "capsule_id = [] \<Longrightarrow> Q None tr"
    and "\<And>r. capsule_id \<noteq> [] \<Longrightarrow>
      Q (decision_of_read r) (EvGet (GRANT_DECISION_KEY_PREFIX @ capsule_id) r # tr)"
  shows "wp (recorded_grant_decision H capsule_id) Q tr"
  unfolding recorded_grant_decision_eq by (intro wpI) (use assms in simp_all)

lemma wp_record_grant_decision [wpI]:
  assumes "capsule_id = [] \<Longrightarrow> Q () tr"
    and "\<And>e. capsule_id \<noteq> [] \<Longrightarrow>
      Q () (EvSet (GRANT_DECISION_KEY_PREFIX @ capsule_id) (as_kv_value d) e # tr)"
  shows "wp (record_grant_decision H capsule_id d) Q tr"
  using assms
  by (auto simp: record_grant_decision_def grant_decision_key_def intro!: wpI)

end
