(* ===== verification/Signals.thy ===== *)
theory Signals
  imports Grant_Decision
begin

text \<open>
  The envelopes on \<open>astrid.v1.approval\<close> and the decision publication
  (\<open>crates/aos-mcp-broker/src/approval.rs\<close>, upper and lower part): recognising
  \<open>approval_required\<close> and \<open>grant_required\<close>, the reply flags built from them, the normalisation of a
  decision to one of the four host verbs, and \<open>publish_decision\<close> with its automatic variant.
\<close>

definition APPROVAL_REQUEST_TOPIC :: string where "APPROVAL_REQUEST_TOPIC = ''astrid.v1.approval''"
definition MAX_DISPLAY_LEN :: nat where "MAX_DISPLAY_LEN = 1024"
definition APPROVE :: string where "APPROVE = ''approve''"
definition APPROVE_SESSION :: string where "APPROVE_SESSION = ''approve_session''"
definition APPROVE_ALWAYS :: string where "APPROVE_ALWAYS = ''approve_always''"
definition DENY :: string where "DENY = ''deny''"

text \<open>The display clamp counts characters, not bytes.\<close>

definition clamp :: "string \<Rightarrow> string" where
  "clamp s = (let trimmed = trim s in
     if length (utf8_chars trimmed) \<le> MAX_DISPLAY_LEN then trimmed
     else concat (take MAX_DISPLAY_LEN (utf8_chars trimmed)))"

record approval_required =
  ar_request_id :: string
  ar_action :: string
  ar_resource :: string
  ar_reason :: string

definition approval_reply_flag :: "approval_required \<Rightarrow> string \<Rightarrow> string \<Rightarrow> json" where
  "approval_reply_flag a tool_name call_id = JObj
     [(''request_id'', JStr (ar_request_id a)), (''action'', JStr (clamp (ar_action a))),
      (''resource'', JStr (clamp (ar_resource a))), (''reason'', JStr (clamp (ar_reason a))),
      (''tool_name'', JStr tool_name), (''call_id'', JStr call_id)]"

definition is_approval_required :: "json \<Rightarrow> bool" where
  "is_approval_required v \<longleftrightarrow> get_str ''type'' v = Some ''approval_required'' \<and>
     (case get_str ''request_id'' v of None \<Rightarrow> False | Some i \<Rightarrow> i \<noteq> [])"

definition decode_approval_required :: "json \<Rightarrow> approval_required option" where
  "decode_approval_required j = (if struct_shape 4 j then
     (case (req_string 0 ''request_id'' j, opt_string 1 ''action'' j,
        opt_string 2 ''resource'' j, opt_string 3 ''reason'' j) of
        (Some i, Some a, Some r, Some w) \<Rightarrow> Some
          \<lparr>ar_request_id = i, ar_action = a, ar_resource = r, ar_reason = w\<rparr>
      | _ \<Rightarrow> None) else None)"

record grant_required =
  gr_request_id :: string
  gr_principal :: string
  gr_capsule_id :: string

definition grant_reply_flag :: "grant_required \<Rightarrow> string \<Rightarrow> string \<Rightarrow> json" where
  "grant_reply_flag g tool_name call_id = JObj
     [(''request_id'', JStr (gr_request_id g)), (''capsule_id'', JStr (clamp (gr_capsule_id g))),
      (''principal'', JStr (clamp (gr_principal g))),
      (''tool_name'', JStr tool_name), (''call_id'', JStr call_id)]"

definition is_grant_required :: "json \<Rightarrow> bool" where
  "is_grant_required v \<longleftrightarrow> get_str ''type'' v = Some ''grant_required'' \<and>
     (case get_str ''request_id'' v of None \<Rightarrow> False | Some i \<Rightarrow> i \<noteq> [])"

definition decode_grant_required :: "json \<Rightarrow> grant_required option" where
  "decode_grant_required j = (if struct_shape 3 j then
     (case (req_string 0 ''request_id'' j, opt_string 1 ''principal'' j,
        opt_string 2 ''capsule_id'' j) of
        (Some i, Some p, Some c) \<Rightarrow> Some
          \<lparr>gr_request_id = i, gr_principal = p, gr_capsule_id = c\<rparr>
      | _ \<Rightarrow> None) else None)"

definition normalize_decision :: "string \<Rightarrow> string" where
  "normalize_decision d = (let s = map ascii_lower (trim d) in
     if s = APPROVE then APPROVE
     else if s = APPROVE_SESSION then APPROVE_SESSION
     else if s = APPROVE_ALWAYS then APPROVE_ALWAYS
     else DENY)"

definition is_approve_verb :: "string \<Rightarrow> bool" where
  "is_approve_verb d \<longleftrightarrow> d = APPROVE \<or> d = APPROVE_SESSION \<or> d = APPROVE_ALWAYS"

text \<open>The envelope of a decision; an empty clamped reason is left out.\<close>

definition decision_envelope :: "string \<Rightarrow> string \<Rightarrow> string option \<Rightarrow> json" where
  "decision_envelope request_id decision reason =
     (let envelope = [(''type'', JStr ''approval_response''), (''request_id'', JStr request_id),
        (''decision'', JStr decision)] in
      case reason of
        None \<Rightarrow> JObj envelope
      | Some r \<Rightarrow> (let clamped = clamp r in
          if clamped = [] then JObj envelope
          else JObj (envelope @ [(''reason'', JStr clamped)])))"

definition publish_decision ::
  "bhost \<Rightarrow> string \<Rightarrow> string \<Rightarrow> string \<Rightarrow> string option \<Rightarrow> unit bio" where
  "publish_decision H topic request_id decision reason = do {
     _ \<leftarrow> publish H topic (decision_envelope request_id decision reason);
     ret ()
   }"

definition publish_grant_auto_decision :: "bhost \<Rightarrow> string \<Rightarrow> bool \<Rightarrow> bool bio" where
  "publish_grant_auto_decision H request_id approve =
     (case response_topic request_id of
        None \<Rightarrow> ret False
      | Some topic \<Rightarrow> do {
          publish_decision H topic request_id (if approve then APPROVE else DENY) None;
          ret True
        })"

subsection \<open>Lemmas\<close>

lemmas verb_defs = APPROVE_def APPROVE_SESSION_def APPROVE_ALWAYS_def DENY_def

lemma deny_not_approve [simp]: "\<not> is_approve_verb DENY"
  by (simp add: is_approve_verb_def verb_defs)

lemma approve_is_approve [simp]: "is_approve_verb APPROVE"
  by (simp add: is_approve_verb_def)

lemma normalize_cases: "normalize_decision d \<in> {APPROVE, APPROVE_SESSION, APPROVE_ALWAYS, DENY}"
  by (simp add: normalize_decision_def Let_def)

lemma normalize_approve_iff:
  "is_approve_verb (normalize_decision d) \<longleftrightarrow> is_approve_verb (map ascii_lower (trim d))"
  by (auto simp: normalize_decision_def is_approve_verb_def Let_def verb_defs)

lemma length_clamp: "length (utf8_chars (clamp s)) \<le> length (clamp s)"
  by (rule length_utf8_chars)

lemma wp_publish_decision [wpI]:
  "(\<And>e. Q () (EvPub t (decision_envelope i d r) e # tr)) \<Longrightarrow> wp (publish_decision H t i d r) Q tr"
  unfolding publish_decision_def by (intro wpI)

lemma wp_publish_grant_auto_decision [wpI]:
  assumes "response_topic i = None \<Longrightarrow> Q False tr"
    and "\<And>t e. response_topic i = Some t \<Longrightarrow>
      Q True (EvPub t (decision_envelope i (if a then APPROVE else DENY) None) e # tr)"
  shows "wp (publish_grant_auto_decision H i a) Q tr"
  unfolding publish_grant_auto_decision_def by (intro wpI) (use assms in simp_all)

end
