(* ===== verification/Execute.thy ===== *)
theory Execute
  imports Signals
begin

text \<open>
  The execute core of the broker (\<open>crates/aos-mcp-broker/src/execute.rs\<close>): ingress trust, the
  pending markers of consent prompts with their self-heal time, the matching of results and signals,
  and \<open>dispatch_with_approval\<close> with its bounded drain loop.
\<close>

definition EXECUTE_TIMEOUT_MS :: nat where "EXECUTE_TIMEOUT_MS = 50000"
definition EXECUTE_SLICE_MS :: nat where "EXECUTE_SLICE_MS = 250"
definition INGRESS_TRUST_KEY_PREFIX :: string where
  "INGRESS_TRUST_KEY_PREFIX = ''mcp.ingress.trust.''"
definition INGRESS_PENDING_KEY_PREFIX :: string where
  "INGRESS_PENDING_KEY_PREFIX = ''mcp.ingress.pending.''"
definition GRANT_PENDING_KEY_PREFIX :: string where
  "GRANT_PENDING_KEY_PREFIX = ''mcp.grant.pending.''"

lemmas key_prefix_defs = INGRESS_TRUST_KEY_PREFIX_def INGRESS_PENDING_KEY_PREFIX_def
  GRANT_PENDING_KEY_PREFIX_def GRANT_DECISION_KEY_PREFIX_def

text \<open>\<open>discovery::wall_ms\<close>: 0 without a clock, saturating at \<open>u64::MAX\<close>.\<close>

definition wall_ms :: "bhost \<Rightarrow> nat bio" where
  "wall_ms H = do { t \<leftarrow> time_now H; ret (case t of None \<Rightarrow> 0 | Some ms \<Rightarrow> min ms (2 ^ 64 - 1)) }"

subsection \<open>Ingress trust and the ingress prompt marker\<close>

definition ingress_trust_key :: "string \<Rightarrow> string option" where
  "ingress_trust_key source_id =
     (if source_id = [] then None else Some (INGRESS_TRUST_KEY_PREFIX @ source_id))"

definition ingress_pending_key :: "string \<Rightarrow> string option" where
  "ingress_pending_key source_id =
     (if source_id = [] then None else Some (INGRESS_PENDING_KEY_PREFIX @ source_id))"

definition mark_ingress_pending :: "bhost \<Rightarrow> string \<Rightarrow> unit bio" where
  "mark_ingress_pending H source_id =
     (case ingress_pending_key source_id of
        None \<Rightarrow> ret ()
      | Some key \<Rightarrow> do { _ \<leftarrow> kv_set H key ''1''; ret () })"

definition take_ingress_pending :: "bhost \<Rightarrow> string \<Rightarrow> bool bio" where
  "take_ingress_pending H source_id =
     (case ingress_pending_key source_id of
        None \<Rightarrow> ret False
      | Some key \<Rightarrow> do {
          v \<leftarrow> kv_get H key;
          case v of
            Inl e \<Rightarrow> ret False
          | Inr stored \<Rightarrow> (case stored of
              Some b \<Rightarrow> do { _ \<leftarrow> kv_delete H key; ret True }
            | None \<Rightarrow> ret False)
        })"

definition is_ingress_trusted :: "bhost \<Rightarrow> string \<Rightarrow> bool bio" where
  "is_ingress_trusted H source_id =
     (case ingress_trust_key source_id of
        None \<Rightarrow> ret False
      | Some key \<Rightarrow> do {
          v \<leftarrow> kv_get H key;
          ret (case v of Inr (Some b) \<Rightarrow> True | _ \<Rightarrow> False)
        })"

subsection \<open>The grant prompt marker\<close>

definition grant_pending_key :: "string \<Rightarrow> string \<Rightarrow> string option" where
  "grant_pending_key principal_id capsule_id =
     (if capsule_id = [] then None else Some (GRANT_PENDING_KEY_PREFIX @ capsule_id))"

definition mark_grant_pending :: "bhost \<Rightarrow> string \<Rightarrow> string \<Rightarrow> unit bio" where
  "mark_grant_pending H principal_id capsule_id =
     (case grant_pending_key principal_id capsule_id of
        None \<Rightarrow> ret ()
      | Some key \<Rightarrow> do {
          now \<leftarrow> wall_ms H;
          _ \<leftarrow> kv_set H key (show_nat now);
          ret ()
        })"

definition marker_is_fresh_at :: "string \<Rightarrow> nat \<Rightarrow> bool" where
  "marker_is_fresh_at value now =
     (if now = 0 then False
      else (case parse_u64 (case from_utf8 value of None \<Rightarrow> [] | Some s \<Rightarrow> trim s) of
          None \<Rightarrow> False
        | Some written \<Rightarrow>
            if written = 0 \<or> now < written then False
            else now - written < GRANT_PENDING_TTL_MS))"

definition marker_is_fresh :: "bhost \<Rightarrow> string \<Rightarrow> bool bio" where
  "marker_is_fresh H value = do { now \<leftarrow> wall_ms H; ret (marker_is_fresh_at value now) }"

definition grant_pending :: "bhost \<Rightarrow> string \<Rightarrow> string \<Rightarrow> bool bio" where
  "grant_pending H principal_id capsule_id =
     (case grant_pending_key principal_id capsule_id of
        None \<Rightarrow> ret False
      | Some key \<Rightarrow> do {
          v \<leftarrow> kv_get H key;
          case v of
            Inl e \<Rightarrow> ret False
          | Inr stored \<Rightarrow> (case stored of
              Some bytes \<Rightarrow> do {
                fresh \<leftarrow> marker_is_fresh H bytes;
                if fresh then ret True else do { _ \<leftarrow> kv_delete H key; ret False }
              }
            | None \<Rightarrow> ret False)
        })"

definition take_grant_pending :: "bhost \<Rightarrow> string \<Rightarrow> string \<Rightarrow> bool bio" where
  "take_grant_pending H principal_id capsule_id =
     (case grant_pending_key principal_id capsule_id of
        None \<Rightarrow> ret False
      | Some key \<Rightarrow> do {
          v \<leftarrow> kv_get H key;
          case v of
            Inl e \<Rightarrow> ret False
          | Inr stored \<Rightarrow> (case stored of
              Some b \<Rightarrow> do { _ \<leftarrow> kv_delete H key; ret True }
            | None \<Rightarrow> ret False)
        })"

subsection \<open>Results and signals\<close>

definition match_result :: "bhost \<Rightarrow> string \<Rightarrow> string \<Rightarrow> (json \<times> bool) option" where
  "match_result H payload call_id =
     (case h_parse H payload of
        None \<Rightarrow> None
      | Some value \<Rightarrow>
          if get_str ''call_id'' value \<noteq> Some call_id then None
          else (let result_obj = jget ''result'' value;
                    content = or_default (JStr []) (Option.bind result_obj (jget ''content''));
                    is_error = or_default False (Option.bind result_obj (get_bool ''is_error''))
                in Some (content, is_error)))"

datatype dispatch_outcome =
    OutResult json bool
  | OutApproval approval_required
  | OutGrant grant_required
  | OutFailed string

text \<open>One pass over a polled batch: the first grant wins at once, else the first approval.\<close>

fun scan_signals :: "bhost \<Rightarrow> bus_msg list \<Rightarrow> approval_required option \<Rightarrow> dispatch_outcome option" where
  "scan_signals H [] approval = map_option OutApproval approval"
| "scan_signals H (m # ms) approval =
     (case h_parse H (msg_payload m) of
        None \<Rightarrow> scan_signals H ms approval
      | Some value \<Rightarrow>
          (case (if is_grant_required value then decode_grant_required value else None) of
             Some g \<Rightarrow> Some (OutGrant g)
           | None \<Rightarrow> scan_signals H ms
               (if approval = None \<and> is_approval_required value
                then decode_approval_required value else approval)))"

definition poll_signal :: "bhost \<Rightarrow> string \<Rightarrow> dispatch_outcome option bio" where
  "poll_signal H sub = do {
     p \<leftarrow> poll H sub;
     case p of
       Inl e \<Rightarrow> ret None
     | Inr b \<Rightarrow> ret (scan_signals H (batch_msgs b) None)
   }"

fun first_result :: "bhost \<Rightarrow> string \<Rightarrow> bus_msg list \<Rightarrow> (json \<times> bool) option" where
  "first_result H call_id [] = None"
| "first_result H call_id (m # ms) =
     (case match_result H (msg_payload m) call_id of
        Some found \<Rightarrow> Some found
      | None \<Rightarrow> first_result H call_id ms)"

subsection \<open>The drain loop and the dispatch\<close>

function dispatch_loop :: "bhost \<Rightarrow> string \<Rightarrow> string \<Rightarrow> nat \<Rightarrow> dispatch_outcome bio" where
  "dispatch_loop H tool_name call_id remaining =
     (if remaining = 0 then
        ret (OutFailed (tagged (''tool '' @ [CHR 0x27] @ tool_name @ [CHR 0x27] @
          '' did not respond within '' @ show_nat (EXECUTE_TIMEOUT_MS div 1000) @ ''s'')))
      else do {
        s1 \<leftarrow> poll_signal H APPROVAL_REQUEST_TOPIC;
        case s1 of
          Some out \<Rightarrow> ret out
        | None \<Rightarrow> do {
            p \<leftarrow> recv H (result_topic tool_name) (min remaining EXECUTE_SLICE_MS);
            case (case p of Inl e \<Rightarrow> None | Inr b \<Rightarrow> first_result H call_id (batch_msgs b)) of
              Some found \<Rightarrow> ret (OutResult (fst found) (snd found))
            | None \<Rightarrow> do {
                s2 \<leftarrow> poll_signal H APPROVAL_REQUEST_TOPIC;
                case s2 of
                  Some out \<Rightarrow> ret out
                | None \<Rightarrow> dispatch_loop H tool_name call_id
                    (remaining - min remaining EXECUTE_SLICE_MS)
              }
          }
      })"
  by pat_completeness auto
termination
  by (relation "measure (\<lambda>(H, tool_name, call_id, remaining). remaining)")
    (auto simp: EXECUTE_SLICE_MS_def)

declare dispatch_loop.simps [simp del]

definition execute_request :: "string \<Rightarrow> string \<Rightarrow> json \<Rightarrow> json" where
  "execute_request tool_name call_id arguments = JObj
     [(''type'', JStr ''tool_execute_request''), (''call_id'', JStr call_id),
      (''tool_name'', JStr tool_name), (''arguments'', arguments)]"

definition dispatch_with_approval ::
  "bhost \<Rightarrow> string \<Rightarrow> string \<Rightarrow> json \<Rightarrow> dispatch_outcome bio" where
  "dispatch_with_approval H tool_name call_id arguments =
     (if \<not> is_valid_tool_name tool_name then
        ret (OutFailed (tagged (''invalid tool name '' @ [CHR 0x27] @ tool_name @ [CHR 0x27])))
      else do {
        rs \<leftarrow> subscribe H (result_topic tool_name);
        case rs of
          Some e \<Rightarrow> ret (OutFailed (tagged
            (''failed to subscribe to '' @ result_topic tool_name @ '': '' @ e)))
        | None \<Rightarrow> do {
            as \<leftarrow> subscribe H APPROVAL_REQUEST_TOPIC;
            case as of
              Some e \<Rightarrow> ret (OutFailed (tagged
                (''failed to subscribe to '' @ APPROVAL_REQUEST_TOPIC @ '': '' @ e)))
            | None \<Rightarrow> do {
                pub \<leftarrow> publish H (exec_topic tool_name) (execute_request tool_name call_id arguments);
                case pub of
                  Some e \<Rightarrow> ret (OutFailed (tagged
                    (''failed to publish '' @ exec_topic tool_name @ '': '' @ e)))
                | None \<Rightarrow> dispatch_loop H tool_name call_id EXECUTE_TIMEOUT_MS
              }
          }
      })"

subsection \<open>Symbolic execution of the guards\<close>

definition present :: "host_error + string option \<Rightarrow> bool" where
  "present r = (case r of Inr (Some b) \<Rightarrow> True | _ \<Rightarrow> False)"

lemma present_simps [simp]:
  "\<not> present (Inl e)" "\<not> present (Inr None)" "present (Inr (Some b))"
  by (simp_all add: present_def)

lemma wp_wall_ms [wpI]: "(\<And>t. Q (case t of None \<Rightarrow> 0 | Some ms \<Rightarrow> min ms (2 ^ 64 - 1)) (EvTime t # tr)) \<Longrightarrow>
  wp (wall_ms H) Q tr"
  unfolding wall_ms_def by (intro wpI)

lemma is_ingress_trusted_eq: "is_ingress_trusted H s = (if s = [] then ret False
   else do { v \<leftarrow> kv_get H (INGRESS_TRUST_KEY_PREFIX @ s); ret (present v) })"
  by (auto simp: is_ingress_trusted_def ingress_trust_key_def present_def)

lemma wp_is_ingress_trusted [wpI]:
  assumes "s = [] \<Longrightarrow> Q False tr"
    and "\<And>r. s \<noteq> [] \<Longrightarrow> Q (present r) (EvGet (INGRESS_TRUST_KEY_PREFIX @ s) r # tr)"
  shows "wp (is_ingress_trusted H s) Q tr"
  unfolding is_ingress_trusted_eq by (intro wpI) (use assms in simp_all)

lemma wp_mark_ingress_pending [wpI]:
  assumes "s = [] \<Longrightarrow> Q () tr"
    and "\<And>e. s \<noteq> [] \<Longrightarrow> Q () (EvSet (INGRESS_PENDING_KEY_PREFIX @ s) ''1'' e # tr)"
  shows "wp (mark_ingress_pending H s) Q tr"
  using assms by (auto simp: mark_ingress_pending_def ingress_pending_key_def intro!: wpI)

text \<open>
  The contract of a prompt marker: taking it reads its key, deletes it when it is there and reports
  whether it was.  Both kinds of consent prompt keep it.
\<close>

locale prompt_marker =
  fixes key :: "string \<Rightarrow> string option" and take_marker :: "bhost \<Rightarrow> string \<Rightarrow> bool bio"
  assumes take_none: "key s = None \<Longrightarrow> take_marker H s = ret False"
    and take_some: "key s = Some k \<Longrightarrow> take_marker H s = do {
      v \<leftarrow> kv_get H k; if present v then do { _ \<leftarrow> kv_delete H k; ret True } else ret False }"
    and key_inj: "key s = Some k \<Longrightarrow> key s' = Some k \<Longrightarrow> s = s'"
begin

lemma wp_take:
  assumes "key s = None \<Longrightarrow> Q False tr"
    and "\<And>k r. key s = Some k \<Longrightarrow> \<not> present r \<Longrightarrow> Q False (EvGet k r # tr)"
    and "\<And>k r e. key s = Some k \<Longrightarrow> present r \<Longrightarrow> Q True (EvDel k e # EvGet k r # tr)"
  shows "wp (take_marker H s) Q tr"
proof (cases "key s")
  case None
  then show ?thesis using assms(1) by (simp add: take_none wp_return)
next
  case (Some k)
  then show ?thesis
    unfolding take_some [OF Some] by (intro wpI) (use assms(2,3) in auto)
qed

lemma take_live:
  assumes "live_store H" "key s = Some k"
  shows "run_state (take_marker H s) tr = (case kv_view tr k of
     None \<Rightarrow> (False, EvGet k (Inr None) # tr)
   | Some b \<Rightarrow> (True, EvDel k None # EvGet k (Inr (Some b)) # tr))"
proof -
  note run = live_store.run_get [OF assms(1)] live_store.run_del [OF assms(1)]
  show ?thesis by (simp add: take_some [OF assms(2)] run split: option.split)
qed

lemma single_use:
  assumes "live_store H" "run_state (take_marker H s) tr = (b, tr')"
  shows "fst (run_state (take_marker H s) tr') = False"
proof (cases "key s")
  case None
  then show ?thesis by (simp add: take_none)
next
  case (Some k)
  with assms(2) have "kv_view tr' k = None"
    by (auto simp: take_live [OF assms(1) Some] split: option.splits)
  then show ?thesis by (simp add: take_live [OF assms(1) Some])
qed

end

interpretation ingress_marker: prompt_marker ingress_pending_key take_ingress_pending
  by unfold_locales (auto simp: ingress_pending_key_def take_ingress_pending_def present_def
      intro!: bind_eqI split: if_splits sum.split option.split)

interpretation grant_marker: prompt_marker "grant_pending_key p" "\<lambda>H. take_grant_pending H p" for p
  by unfold_locales (auto simp: grant_pending_key_def take_grant_pending_def present_def
      intro!: bind_eqI split: if_splits sum.split option.split)

lemmas wp_take_ingress_pending [wpI] = ingress_marker.wp_take
lemmas wp_take_grant_pending [wpI] = grant_marker.wp_take

lemma wp_mark_grant_pending [wpI]:
  assumes "c = [] \<Longrightarrow> Q () tr"
    and "\<And>n t e. c \<noteq> [] \<Longrightarrow> Q () (EvSet (GRANT_PENDING_KEY_PREFIX @ c) (show_nat n) e # EvTime t # tr)"
  shows "wp (mark_grant_pending H p c) Q tr"
  using assms by (auto simp: mark_grant_pending_def grant_pending_key_def intro!: wpI)

text \<open>Peeking at a grant marker reads it and the clock, and deletes it when it is stale.\<close>

definition peek_trace :: "string \<Rightarrow> bool \<Rightarrow> btrace \<Rightarrow> bool" where
  "peek_trace k b evs \<longleftrightarrow> (\<exists>r. evs = [EvGet k r] \<and> \<not> present r \<and> \<not> b) \<or>
     (\<exists>t bytes. evs = [EvTime t, EvGet k (Inr (Some bytes))] \<and> b) \<or>
     (\<exists>e t bytes. evs = [EvDel k e, EvTime t, EvGet k (Inr (Some bytes))] \<and> \<not> b)"

lemma wp_grant_pending [wpI]:
  assumes "c = [] \<Longrightarrow> Q False tr"
    and "\<And>b evs. c \<noteq> [] \<Longrightarrow> peek_trace (GRANT_PENDING_KEY_PREFIX @ c) b evs \<Longrightarrow> Q b (evs @ tr)"
  shows "wp (grant_pending H p c) Q tr"
proof -
  let ?k = "GRANT_PENDING_KEY_PREFIX @ c"
  have "Q False (EvGet ?k r # tr)" if "c \<noteq> []" "\<not> present r" for r
    using assms(2) [of False "[EvGet ?k r]"] that by (simp add: peek_trace_def)
  moreover have "Q True (EvTime t # EvGet ?k (Inr (Some bytes)) # tr)" if "c \<noteq> []" for t bytes
    using assms(2) [of True "[EvTime t, EvGet ?k (Inr (Some bytes))]"] that by (simp add: peek_trace_def)
  moreover have "Q False (EvDel ?k e # EvTime t # EvGet ?k (Inr (Some bytes)) # tr)"
    if "c \<noteq> []" for e t bytes
    using assms(2) [of False "[EvDel ?k e, EvTime t, EvGet ?k (Inr (Some bytes))]"] that
    by (simp add: peek_trace_def)
  ultimately show ?thesis
    unfolding grant_pending_def grant_pending_key_def marker_is_fresh_def
    using assms(1) by (intro wpI) (auto split: if_splits)
qed

text \<open>The freshness window of a marker written by \<open>mark_grant_pending\<close>.\<close>

lemma marker_window:
  "w < 2 ^ 64 \<Longrightarrow> marker_is_fresh_at (show_nat w) now \<longleftrightarrow>
     0 < w \<and> w \<le> now \<and> now < w + GRANT_PENDING_TTL_MS"
  by (auto simp: marker_is_fresh_at_def GRANT_PENDING_TTL_MS_def)

subsection \<open>Symbolic execution of the dispatch\<close>

definition drain_event :: "string \<Rightarrow> (string, json) event \<Rightarrow> bool" where
  "drain_event tool e \<longleftrightarrow> (\<exists>r. e = EvPoll APPROVAL_REQUEST_TOPIC r) \<or>
     (\<exists>ms r. e = EvRecv (result_topic tool) ms r \<and> ms \<le> EXECUTE_SLICE_MS)"

text \<open>
  Where an outcome can come from: a result was received on the tool's result topic and carries the
  call id; a signal was polled from the approval topic.
\<close>

definition outcome_from :: "bhost \<Rightarrow> string \<Rightarrow> string \<Rightarrow> dispatch_outcome \<Rightarrow> btrace \<Rightarrow> bool" where
  "outcome_from H tool call_id out evs \<longleftrightarrow> (case out of
     OutResult c e \<Rightarrow> \<exists>ms b. EvRecv (result_topic tool) ms (Inr b) \<in> set evs \<and>
        first_result H call_id (batch_msgs b) = Some (c, e)
   | OutFailed m \<Rightarrow> True
   | _ \<Rightarrow> \<exists>b. EvPoll APPROVAL_REQUEST_TOPIC (Inr b) \<in> set evs \<and>
        scan_signals H (batch_msgs b) None = Some out)"

lemma outcome_from_mono: "outcome_from H tool c out evs \<Longrightarrow> set evs \<subseteq> set evs' \<Longrightarrow> outcome_from H tool c out evs'"
  by (auto simp: outcome_from_def split: dispatch_outcome.splits)

lemma scan_signals_kinds:
  "scan_signals H ms a = Some out \<Longrightarrow> (\<exists>x. out = OutApproval x) \<or> (\<exists>g. out = OutGrant g)"
  by (induction ms arbitrary: a) (auto split: option.splits if_splits)

lemma poll_outcome:
  "scan_signals H (batch_msgs b) None = Some out \<Longrightarrow>
   outcome_from H tool c out (EvPoll APPROVAL_REQUEST_TOPIC (Inr b) # evs)"
  using scan_signals_kinds [of H "batch_msgs b" None out] by (auto simp: outcome_from_def)

lemma wp_poll_signal:
  assumes "\<And>r. Q None (EvPoll t r # tr)"
    and "\<And>b out. scan_signals H (batch_msgs b) None = Some out \<Longrightarrow> Q (Some out) (EvPoll t (Inr b) # tr)"
  shows "wp (poll_signal H t) Q tr"
  unfolding poll_signal_def
proof (intro wpI)
  fix r :: "host_error + batch" and b assume "r = Inr b"
  then show "Q (scan_signals H (batch_msgs b) None) (EvPoll t r # tr)"
    using assms by (cases "scan_signals H (batch_msgs b) None") auto
qed (use assms in simp)

lemma wp_dispatch_loop:
  "wp (dispatch_loop H tool call_id remaining) (\<lambda>out tr'. \<exists>evs. tr' = evs @ tr \<and>
     list_all (drain_event tool) evs \<and> outcome_from H tool call_id out evs) tr"
proof (induction H tool call_id remaining arbitrary: tr rule: dispatch_loop.induct)
  case (1 H tool call_id remaining)
  show ?case
  proof (cases "remaining = 0")
    case True
    then show ?thesis
      by (subst dispatch_loop.simps) (auto intro!: wpI simp: outcome_from_def)
  next
    case False
    have IH0: "wp (dispatch_loop H tool call_id (remaining - min remaining EXECUTE_SLICE_MS))
        (\<lambda>out tr'. \<exists>evs. tr' = evs @ tr0 \<and> list_all (drain_event tool) evs \<and>
          outcome_from H tool call_id out evs) tr0" for tr0
      by (rule "1.IH" [OF False sum.case(1)])
    have IH: "wp (dispatch_loop H tool call_id (remaining - min remaining EXECUTE_SLICE_MS))
        (\<lambda>out tr'. \<exists>evs. tr' = evs @ tr \<and> list_all (drain_event tool) evs \<and>
          outcome_from H tool call_id out evs) (es @ tr)"
      if "list_all (drain_event tool) es" for es
    proof (rule wp_mono [OF IH0], elim exE conjE)
      fix out tr' evs
      assume "tr' = evs @ es @ tr" "list_all (drain_event tool) evs" "outcome_from H tool call_id out evs"
      with that show "\<exists>evs. tr' = evs @ tr \<and> list_all (drain_event tool) evs \<and>
          outcome_from H tool call_id out evs"
        by (intro exI [where x = "evs @ es"]) (auto elim: outcome_from_mono)
    qed
    let ?P = "EvPoll APPROVAL_REQUEST_TOPIC" and ?R = "EvRecv (result_topic tool) (min remaining EXECUTE_SLICE_MS)"
    have drain [simp]: "drain_event tool (?P r)" "drain_event tool (?R r')" for r r'
      by (auto simp: drain_event_def)
    show ?thesis
      unfolding dispatch_loop.simps [of H tool call_id remaining] if_not_P [OF False]
    proof (intro wp_bind wp_poll_signal wp_recv wp_case_option wp_return; (simp only: option.inject option.distinct)?)
      fix b :: batch and out assume "scan_signals H (batch_msgs b) None = Some out"
      then show "\<exists>evs. ?P (Inr b) # tr = evs @ tr \<and> list_all (drain_event tool) evs \<and>
          outcome_from H tool call_id out evs"
        by (intro exI [where x = "[?P (Inr b)]"]) (simp add: poll_outcome)
    next
      fix r and r' :: "host_error + batch" and found
      assume "(case r' of Inl e \<Rightarrow> None | Inr b \<Rightarrow> first_result H call_id (batch_msgs b)) = Some found"
      then obtain b where b: "r' = Inr b" "first_result H call_id (batch_msgs b) = Some found"
        by (cases r') auto
      show "\<exists>evs. ?R r' # ?P r # tr = evs @ tr \<and> list_all (drain_event tool) evs \<and>
          outcome_from H tool call_id (OutResult (fst found) (snd found)) evs"
        using b by (intro exI [where x = "[?R r', ?P r]"]) (auto simp: outcome_from_def)
    next
      fix r r' and b :: batch and out
      assume "scan_signals H (batch_msgs b) None = Some out"
      then show "\<exists>evs. ?P (Inr b) # ?R r' # ?P r # tr = evs @ tr \<and> list_all (drain_event tool) evs \<and>
          outcome_from H tool call_id out evs"
        by (intro exI [where x = "[?P (Inr b), ?R r', ?P r]"]) (simp add: poll_outcome)
    next
      fix r r' r''
      show "wp (dispatch_loop H tool call_id (remaining - min remaining EXECUTE_SLICE_MS))
        (\<lambda>out tr'. \<exists>evs. tr' = evs @ tr \<and> list_all (drain_event tool) evs \<and>
          outcome_from H tool call_id out evs) (?P r'' # ?R r' # ?P r # tr)"
        using IH [of "[?P r'', ?R r', ?P r]"] by simp
    qed
  qed
qed

text \<open>
  Every trace of a dispatch: nothing is published for an invalid name; otherwise both subscriptions
  precede the one execute request, and only receives and polls follow it.
\<close>

definition dispatch_trace ::
  "bhost \<Rightarrow> string \<Rightarrow> string \<Rightarrow> json \<Rightarrow> dispatch_outcome \<Rightarrow> btrace \<Rightarrow> bool" where
  "dispatch_trace H tool call_id arguments out evs \<longleftrightarrow>
     (let sub_r = EvSub (result_topic tool); sub_a = EvSub APPROVAL_REQUEST_TOPIC;
          req = EvPub (exec_topic tool) (execute_request tool call_id arguments);
          failed = (\<exists>m. out = OutFailed m)
      in (failed \<and> evs = [] \<and> \<not> is_valid_tool_name tool) \<or>
         (is_valid_tool_name tool \<and>
           (failed \<and> (\<exists>e. evs = [sub_r (Some e)] \<or> evs = [sub_a (Some e), sub_r None] \<or>
              evs = [req (Some e), sub_a None, sub_r None]) \<or>
            (\<exists>drain. evs = drain @ [req None, sub_a None, sub_r None] \<and>
              list_all (drain_event tool) drain \<and> outcome_from H tool call_id out drain))))"

lemma wp_dispatch [wpI]:
  assumes "\<And>out evs. dispatch_trace H tool call_id arguments out evs \<Longrightarrow> Q out (evs @ tr)"
  shows "wp (dispatch_with_approval H tool call_id arguments) Q tr"
proof -
  let ?sub_r = "EvSub (result_topic tool)" and ?sub_a = "EvSub APPROVAL_REQUEST_TOPIC"
    and ?req = "EvPub (exec_topic tool) (execute_request tool call_id arguments)"
  have none: "Q (OutFailed m) tr" if "\<not> is_valid_tool_name tool" for m
    using assms [of "OutFailed m" "[]"] that by (simp add: dispatch_trace_def)
  have one: "Q (OutFailed m) (?sub_r (Some e) # tr)" if "is_valid_tool_name tool" for m e
    using assms [of "OutFailed m" "[?sub_r (Some e)]"] that by (simp add: dispatch_trace_def)
  have two: "Q (OutFailed m) (?sub_a (Some e) # ?sub_r None # tr)" if "is_valid_tool_name tool" for m e
    using assms [of "OutFailed m" "[?sub_a (Some e), ?sub_r None]"] that
    by (simp add: dispatch_trace_def)
  have three: "Q (OutFailed m) (?req (Some e) # ?sub_a None # ?sub_r None # tr)"
    if "is_valid_tool_name tool" for m e
    using assms [of "OutFailed m" "[?req (Some e), ?sub_a None, ?sub_r None]"] that
    by (simp add: dispatch_trace_def)
  have loop: "wp (dispatch_loop H tool call_id EXECUTE_TIMEOUT_MS) Q (?req None # ?sub_a None # ?sub_r None # tr)"
    if "is_valid_tool_name tool"
  proof (rule wp_mono [OF wp_dispatch_loop], elim exE conjE)
    fix out tr' drain
    assume "tr' = drain @ ?req None # ?sub_a None # ?sub_r None # tr"
      "list_all (drain_event tool) drain" "outcome_from H tool call_id out drain"
    with that show "Q out tr'"
      using assms [of out "drain @ [?req None, ?sub_a None, ?sub_r None]"]
      by (simp add: dispatch_trace_def)
  qed
  show ?thesis
    unfolding dispatch_with_approval_def
    by (intro wpI; simp) (use none one two three loop in simp_all)
qed

lemma drain_event_kinds:
  "list_all (drain_event tool) evs \<Longrightarrow> pubs evs = [] \<and> pubs_on t evs = [] \<and>
     list_all (\<lambda>e. writes_key e = None) evs"
  by (induction evs) (auto simp: drain_event_def)

lemma dispatch_writes: "dispatch_trace H tool c a out evs \<Longrightarrow> list_all (\<lambda>e. writes_key e = None) evs"
  by (auto simp: dispatch_trace_def Let_def drain_event_kinds)

lemma dispatch_pubs: "dispatch_trace H tool c a out evs \<Longrightarrow>
   pubs evs = [] \<or> pubs evs = [(exec_topic tool, execute_request tool c a)] \<and> is_valid_tool_name tool"
  by (auto simp: dispatch_trace_def Let_def drain_event_kinds)

lemma dispatch_pubs_on: "dispatch_trace H tool c a out evs \<Longrightarrow> t \<noteq> exec_topic tool \<Longrightarrow> pubs_on t evs = []"
  by (auto simp: dispatch_trace_def Let_def drain_event_kinds)

subsection \<open>Properties of the dispatch and of the prompt markers\<close>

text \<open>The time a trace spends in receives.\<close>

fun waited :: "btrace \<Rightarrow> nat" where
  "waited [] = 0"
| "waited (EvRecv t ms r # evs) = ms + waited evs"
| "waited (e # evs) = waited evs"

lemma waited_append [simp]: "waited (evs @ evs') = waited evs + waited evs'"
proof (induction evs)
  case (Cons e evs)
  then show ?case by (cases e) auto
qed simp

definition budget_used :: "nat \<Rightarrow> dispatch_outcome \<Rightarrow> btrace \<Rightarrow> bool" where
  "budget_used budget out evs \<longleftrightarrow>
     (case out of OutFailed m \<Rightarrow> waited evs = budget | _ \<Rightarrow> waited evs \<le> budget)"

lemma budget_used_signal: "scan_signals H ms a = Some out \<Longrightarrow> waited evs \<le> n \<Longrightarrow> budget_used n out evs"
  by (drule scan_signals_kinds) (auto simp: budget_used_def)

lemma wp_dispatch_loop_budget:
  "wp (dispatch_loop H tool call_id remaining) (\<lambda>out tr'. \<exists>evs. tr' = evs @ tr \<and> budget_used remaining out evs) tr"
proof (induction H tool call_id remaining arbitrary: tr rule: dispatch_loop.induct)
  case (1 H tool call_id remaining)
  let ?Q = "\<lambda>n tr out tr'. \<exists>evs. tr' = evs @ tr \<and> budget_used n out evs"
  let ?step = "min remaining EXECUTE_SLICE_MS"
  let ?P = "EvPoll APPROVAL_REQUEST_TOPIC" and ?R = "EvRecv (result_topic tool) ?step"
  show ?case
  proof (cases "remaining = 0")
    case True
    then show ?thesis by (subst dispatch_loop.simps) (auto intro!: wpI simp: budget_used_def)
  next
    case False
    have IH0: "wp (dispatch_loop H tool call_id (remaining - ?step)) (?Q (remaining - ?step) tr0) tr0" for tr0
      by (rule "1.IH" [OF False sum.case(1)])
    have IH: "wp (dispatch_loop H tool call_id (remaining - ?step)) (?Q remaining tr) (?P q # ?R r # ?P p # tr)" for q r p
    proof (rule wp_mono [OF IH0], elim exE conjE)
      fix out tr' evs
      assume "tr' = evs @ ?P q # ?R r # ?P p # tr" "budget_used (remaining - ?step) out evs"
      then show "?Q remaining tr out tr'"
        by (intro exI [where x = "evs @ [?P q, ?R r, ?P p]"])
          (auto simp: budget_used_def split: dispatch_outcome.splits)
    qed
    show ?thesis
      unfolding dispatch_loop.simps [of H tool call_id remaining] if_not_P [OF False]
    proof (intro wp_bind wp_poll_signal wp_recv wp_case_option wp_return IH; (simp only: option.inject option.distinct)?)
      fix b :: batch and out assume "scan_signals H (batch_msgs b) None = Some out"
      then show "?Q remaining tr out (?P (Inr b) # tr)"
        by (intro exI [where x = "[?P (Inr b)]"]) (simp add: budget_used_signal)
    next
      fix r r' and found :: "json \<times> bool"
      show "?Q remaining tr (OutResult (fst found) (snd found)) (?R r' # ?P r # tr)"
        by (intro exI [where x = "[?R r', ?P r]"]) (simp add: budget_used_def)
    next
      fix r r' and b :: batch and out assume "scan_signals H (batch_msgs b) None = Some out"
      then show "?Q remaining tr out (?P (Inr b) # ?R r' # ?P r # tr)"
        by (intro exI [where x = "[?P (Inr b), ?R r', ?P r]"]) (simp add: budget_used_signal)
    qed
  qed
qed

text \<open>
  a dispatch always returns, and within its budget: the receives of a run add up to at most the
  50 s of \<open>EXECUTE_TIMEOUT_MS\<close>, whatever the bus delivers, and the drain reports a failure only when
  they add up to exactly that.
\<close>

theorem dispatch_within_budget:
  "waited (new_events (dispatch_with_approval H tool call_id arguments) tr) \<le> EXECUTE_TIMEOUT_MS \<and>
   (case fst (run_state (dispatch_loop H tool call_id EXECUTE_TIMEOUT_MS) tr) of
      OutFailed m \<Rightarrow> waited (new_events (dispatch_loop H tool call_id EXECUTE_TIMEOUT_MS) tr) = EXECUTE_TIMEOUT_MS
    | _ \<Rightarrow> waited (new_events (dispatch_loop H tool call_id EXECUTE_TIMEOUT_MS) tr) \<le> EXECUTE_TIMEOUT_MS)"
proof
  let ?ok = "\<lambda>tr'. \<exists>evs. tr' = evs @ tr \<and> waited evs \<le> EXECUTE_TIMEOUT_MS"
  have "wp (dispatch_loop H tool call_id EXECUTE_TIMEOUT_MS) (\<lambda>_. ?ok) (pre @ tr)" if "waited pre = 0" for pre
    by (rule wp_mono [OF wp_dispatch_loop_budget], elim exE conjE, rule exI [where x = "_ @ pre"])
      (use that in \<open>auto simp: budget_used_def split: dispatch_outcome.splits\<close>)
  from this [of "[_, _, _]"] have "wp (dispatch_with_approval H tool call_id arguments) (\<lambda>_. ?ok) tr"
    unfolding dispatch_with_approval_def
    by (intro wp_if wp_return wp_bind wp_subscribe wp_publish wp_case_option)
      (auto intro: exI [where x = "[]"] exI [where x = "[_]"] exI [where x = "[_, _]"] exI [where x = "[_, _, _]"])
  then have "?ok (final_trace (dispatch_with_approval H tool call_id arguments) tr)" by (rule wp_final)
  then show "waited (new_events (dispatch_with_approval H tool call_id arguments) tr) \<le> EXECUTE_TIMEOUT_MS"
    by (auto simp: new_events_def)
  show "case fst (run_state (dispatch_loop H tool call_id EXECUTE_TIMEOUT_MS) tr) of
      OutFailed m \<Rightarrow> waited (new_events (dispatch_loop H tool call_id EXECUTE_TIMEOUT_MS) tr) = EXECUTE_TIMEOUT_MS
    | _ \<Rightarrow> waited (new_events (dispatch_loop H tool call_id EXECUTE_TIMEOUT_MS) tr) \<le> EXECUTE_TIMEOUT_MS"
    using wp_dispatch_loop_budget [of H tool call_id EXECUTE_TIMEOUT_MS tr]
    by (auto simp: wp_iff new_events_def final_trace_def budget_used_def split: dispatch_outcome.splits)
qed

text \<open>
  a dispatched call that ends in a result subscribed to the tool's result topic and to the
  approval topic before it published the one execute request, and the result it returns was received
  on that topic in a message that carries the call's id.
\<close>

theorem dispatch_result_origin:
  assumes "fst (run_state (dispatch_with_approval H tool call_id arguments) tr) = OutResult content is_error"
  shows "\<exists>drain ms b. new_events (dispatch_with_approval H tool call_id arguments) tr =
      drain @ [EvPub (exec_topic tool) (execute_request tool call_id arguments) None,
        EvSub APPROVAL_REQUEST_TOPIC None, EvSub (result_topic tool) None] \<and> pubs drain = [] \<and>
    EvRecv (result_topic tool) ms (Inr b) \<in> set drain \<and>
    first_result H call_id (batch_msgs b) = Some (content, is_error) \<and> is_valid_tool_name tool"
proof -
  let ?m = "dispatch_with_approval H tool call_id arguments"
  have "wp ?m (\<lambda>out tr'. dispatch_trace H tool call_id arguments out (since tr tr')) tr"
    by (intro wp_dispatch) simp
  then have "dispatch_trace H tool call_id arguments (OutResult content is_error) (new_events ?m tr)"
    using assms by (simp add: wp_iff new_events_def final_trace_def)
  then show ?thesis
    by (auto simp: dispatch_trace_def Let_def outcome_from_def dest: drain_event_kinds)
qed

text \<open>
  consent markers are single use.  On a store without faults, whatever a first take of an
  ingress or grant marker returned, a second take returns false: a replayed answer consumes nothing.
\<close>

theorem markers_single_use:
  assumes "live_store H"
  shows "fst (run_state (take_ingress_pending H s) (final_trace (take_ingress_pending H s) tr)) = False \<and>
    fst (run_state (take_grant_pending H p c) (final_trace (take_grant_pending H p c) tr)) = False"
  using ingress_marker.single_use [OF assms] grant_marker.single_use [OF assms]
  by (metis final_trace_def prod.collapse)

lemma markers_single_use_witness:
  "fst (run_state (take_ingress_pending mem_host ''s'') (final_trace (take_ingress_pending mem_host ''s'')
     [EvSet ''mcp.ingress.pending.s'' ''1'' None])) = False"
  using markers_single_use [OF mem.live_store_axioms] by blast

text \<open>
  the grant prompt of a capsule suppresses another exactly while it is younger than its self-heal
  time of two minutes by the broker's clock; a marker from the future, from a broken clock or older is
  not honoured and is deleted.
\<close>

theorem grant_prompt_window:
  assumes "live_store H" "c \<noteq> []" "kv_view tr (GRANT_PENDING_KEY_PREFIX @ c) = Some (show_nat w)"
    and "w < 2 ^ 64" "\<And>tr. h_time H tr = Some now" "now < 2 ^ 64"
  shows "(fst (run_state (grant_pending H p c) tr) \<longleftrightarrow> 0 < w \<and> w \<le> now \<and> now < w + GRANT_PENDING_TTL_MS) \<and>
    kv_view (final_trace (grant_pending H p c) tr) (GRANT_PENDING_KEY_PREFIX @ c) =
      (if 0 < w \<and> w \<le> now \<and> now < w + GRANT_PENDING_TTL_MS then Some (show_nat w) else None)"
proof -
  note run = live_store.run_get [OF assms(1)] live_store.run_del [OF assms(1)]
  have now: "min now 18446744073709551615 = now" using assms(6) by simp
  show ?thesis
    using assms(2-5) by (simp add: grant_pending_def grant_pending_key_def marker_is_fresh_def wall_ms_def
        time_now_def run now marker_window final_trace_def)
qed

lemma mem_clock: "live_store (mem_host\<lparr>h_time := f\<rparr>)"
  by unfold_locales (auto simp: mem_host_def)

lemma grant_prompt_window_witness:
  "fst (run_state (grant_pending (mem_host\<lparr>h_time := \<lambda>tr. Some 70000\<rparr>) [] ''cap'')
     [EvSet (GRANT_PENDING_KEY_PREFIX @ ''cap'') (show_nat 5000) None])"
  using grant_prompt_window [OF mem_clock, of "''cap''" "[EvSet (GRANT_PENDING_KEY_PREFIX @ ''cap'') (show_nat 5000) None]"
      5000 "\<lambda>tr. Some 70000" 70000 "[]"]
  by (simp add: GRANT_PENDING_TTL_MS_def del: show_nat.simps)

end
