(* ===== verification/Tool_Cache.thy ===== *)
theory Tool_Cache
  imports Execute "HOL-Library.List_Lexorder" "HOL-Library.Char_ord"
begin

text \<open>
  The tool descriptor cache (\<open>crates/aos-mcp-broker/src/cache.rs\<close>): a \<open>BTreeMap\<close> of descriptors
  with the time of its last update, kept under one key of the store and written by
  compare-and-swap.  The map is an association list in the byte order of its keys.  The
  serialisations go through the host's \<open>h_render\<close> and \<open>h_parse\<close>.
\<close>

definition CACHE_KEY :: string where "CACHE_KEY = ''tools.cache''"
definition CACHE_TTL_MS :: nat where "CACHE_TTL_MS = 60000"
definition CAS_MAX_RETRIES :: nat where "CAS_MAX_RETRIES = 8"
definition MAX_CACHED_TOOLS :: nat where "MAX_CACHED_TOOLS = 512"

subsection \<open>Ordered maps\<close>

fun bt_insert :: "string \<Rightarrow> 'a \<Rightarrow> (string \<times> 'a) list \<Rightarrow> (string \<times> 'a) list" where
  "bt_insert k v [] = [(k, v)]"
| "bt_insert k v ((k', v') # m) =
     (if k = k' then (k, v) # m
      else if k < k' then (k, v) # (k', v') # m
      else (k', v') # bt_insert k v m)"

definition bt_ordered :: "(string \<times> 'a) list \<Rightarrow> bool" where
  "bt_ordered m \<longleftrightarrow> sorted_wrt (<) (map fst m)"

definition bt_contains :: "string \<Rightarrow> (string \<times> 'a) list \<Rightarrow> bool" where
  "bt_contains k m \<longleftrightarrow> map_of m k \<noteq> None"

lemma map_of_bt_insert [simp]: "map_of (bt_insert k v m) = (map_of m)(k \<mapsto> v)"
  by (induction m) (auto simp: fun_eq_iff)

lemma set_bt_insert: "fst ` set (bt_insert k v m) = insert k (fst ` set m)"
  by (simp add: dom_map_of_conv_image_fst [symmetric])

lemma bt_insert_ordered: "bt_ordered m \<Longrightarrow> bt_ordered (bt_insert k v m)"
proof (induction m)
  case (Cons a m)
  obtain k' v' where a: "a = (k', v')" by (cases a)
  have keys: "fst ` set (bt_insert k v m) = insert k (fst ` set m)" by (rule set_bt_insert)
  from Cons show ?case
    using keys by (auto simp: bt_ordered_def a simp del: map_of_bt_insert dest: less_trans)
qed (simp add: bt_ordered_def)

lemma length_bt_insert:
  "length (bt_insert k v m) \<le> Suc (length m)"
  "bt_contains k m \<Longrightarrow> bt_ordered m \<Longrightarrow> length (bt_insert k v m) = length m"
proof -
  show "length (bt_insert k v m) \<le> Suc (length m)" by (induction m) auto
  show "bt_contains k m \<Longrightarrow> bt_ordered m \<Longrightarrow> length (bt_insert k v m) = length m"
  proof (induction m)
    case (Cons a m)
    obtain k' v' where a: "a = (k', v')" by (cases a)
    have "k \<in> fst ` set m" if "map_of m k = Some y" for y
      using that by (metis image_eqI fst_conv map_of_SomeD)
    with Cons show ?case by (auto simp: bt_contains_def bt_ordered_def a dest: less_asym split: if_splits)
  qed (simp add: bt_contains_def)
qed

subsection \<open>Descriptors and the cache state\<close>

record tool_descriptor =
  td_name :: string
  td_title :: "string option"
  td_description :: string
  td_input_schema :: json
  td_capabilities :: "json option"

record cache_state =
  updated_at_ms :: nat
  cached_tools :: "(string \<times> tool_descriptor) list"

definition default_cache :: cache_state where
  "default_cache = \<lparr>updated_at_ms = 0, cached_tools = []\<rparr>"

definition is_fresh :: "cache_state \<Rightarrow> nat \<Rightarrow> bool" where
  "is_fresh c now \<longleftrightarrow>
     (if now = 0 \<or> updated_at_ms c = 0 \<or> cached_tools c = [] then False
      else now - updated_at_ms c < CACHE_TTL_MS)"

definition as_vec :: "cache_state \<Rightarrow> tool_descriptor list" where
  "as_vec c = map snd (cached_tools c)"

text \<open>The derived \<open>Deserialize\<close> and \<open>Serialize\<close> of a descriptor and of the cache.\<close>

definition maybe_json :: "nat \<Rightarrow> string \<Rightarrow> json \<Rightarrow> json option" where
  "maybe_json i k j = (case field i k j of None \<Rightarrow> None | Some JNull \<Rightarrow> None | Some v \<Rightarrow> Some v)"

definition decode_descriptor :: "json \<Rightarrow> tool_descriptor option" where
  "decode_descriptor j = (if struct_shape 5 j then
     (case (req_string 0 ''name'' j, maybe_string 1 ''title'' j, opt_string 2 ''description'' j) of
        (Some n, Some t, Some d) \<Rightarrow> Some
          \<lparr>td_name = n, td_title = t, td_description = d,
           td_input_schema = or_default JNull (field 3 ''inputSchema'' j),
           td_capabilities = maybe_json 4 ''capabilities'' j\<rparr>
      | _ \<Rightarrow> None) else None)"

definition encode_descriptor :: "tool_descriptor \<Rightarrow> json" where
  "encode_descriptor d = JObj ([(''name'', JStr (td_name d))] @
     (case td_title d of None \<Rightarrow> [] | Some t \<Rightarrow> [(''title'', JStr t)]) @
     [(''description'', JStr (td_description d)), (''inputSchema'', td_input_schema d)] @
     (case td_capabilities d of None \<Rightarrow> [] | Some c \<Rightarrow> [(''capabilities'', c)]))"

fun decode_tools :: "(string \<times> json) list \<Rightarrow> (string \<times> tool_descriptor) list \<Rightarrow>
    (string \<times> tool_descriptor) list option" where
  "decode_tools [] acc = Some acc"
| "decode_tools ((k, v) # rest) acc = (case decode_descriptor v of
     None \<Rightarrow> None
   | Some d \<Rightarrow> decode_tools rest (bt_insert k d acc))"

definition decode_cache :: "json \<Rightarrow> cache_state option" where
  "decode_cache j = (if struct_shape 2 j then
     (case (Option.bind (field 0 ''updated_at_ms'' j) ju64, Option.bind (field 1 ''tools'' j) jobj) of
        (Some u, Some m) \<Rightarrow> map_option (\<lambda>ts. \<lparr>updated_at_ms = u, cached_tools = ts\<rparr>) (decode_tools m [])
      | _ \<Rightarrow> None) else None)"

definition encode_cache :: "cache_state \<Rightarrow> json" where
  "encode_cache c = JObj [(''updated_at_ms'', JInt (int (updated_at_ms c))),
     (''tools'', JObj (map (\<lambda>(k, d). (k, encode_descriptor d)) (cached_tools c)))]"

definition cache_from_slice :: "bhost \<Rightarrow> string \<Rightarrow> cache_state option" where
  "cache_from_slice H bytes = Option.bind (h_parse H bytes) decode_cache"

definition cache_to_vec :: "bhost \<Rightarrow> cache_state \<Rightarrow> string" where
  "cache_to_vec H c = h_render H (encode_cache c)"

definition cache_now_ms :: "bhost \<Rightarrow> nat bio" where
  "cache_now_ms H = do { t \<leftarrow> time_now H; ret (case t of None \<Rightarrow> 0 | Some ms \<Rightarrow> min ms (2 ^ 64 - 1)) }"

subsection \<open>Operations\<close>

definition cache_load :: "bhost \<Rightarrow> cache_state bio" where
  "cache_load H = do {
     v \<leftarrow> kv_get H CACHE_KEY;
     ret (case v of
         Inl e \<Rightarrow> default_cache
       | Inr stored \<Rightarrow> (case stored of
           None \<Rightarrow> default_cache
         | Some bytes \<Rightarrow> or_default default_cache (cache_from_slice H bytes)))
   }"

text \<open>The body of the merge loop of \<open>upsert\<close>: a new name is skipped at the cap.\<close>

fun merge_tools :: "tool_descriptor list \<Rightarrow> (string \<times> tool_descriptor) list \<Rightarrow>
    (string \<times> tool_descriptor) list" where
  "merge_tools [] tools = tools"
| "merge_tools (d # ds) tools =
     (if MAX_CACHED_TOOLS \<le> length tools \<and> \<not> bt_contains (td_name d) tools
      then merge_tools ds tools
      else merge_tools ds (bt_insert (td_name d) d tools))"

text \<open>The fill loop of \<open>replace\<close>: it stops at the cap.\<close>

fun fill_tools :: "tool_descriptor list \<Rightarrow> (string \<times> tool_descriptor) list \<Rightarrow>
    (string \<times> tool_descriptor) list" where
  "fill_tools [] tools = tools"
| "fill_tools (d # ds) tools =
     (if MAX_CACHED_TOOLS \<le> length tools then tools
      else fill_tools ds (bt_insert (td_name d) d tools))"

definition expected_bytes :: "host_error + string option \<Rightarrow> string option" where
  "expected_bytes v = (case v of Inl e \<Rightarrow> None | Inr stored \<Rightarrow> stored)"

definition prior_state :: "bhost \<Rightarrow> string option \<Rightarrow> cache_state" where
  "prior_state H expected =
     or_default default_cache (Option.bind expected (cache_from_slice H))"

fun upsert_loop :: "bhost \<Rightarrow> tool_descriptor list \<Rightarrow> nat \<Rightarrow> cache_state bio" where
  "upsert_loop H incoming 0 = cache_load H"
| "upsert_loop H incoming (Suc retries) = do {
     v \<leftarrow> kv_get H CACHE_KEY;
     (let expected = expected_bytes v;
          state = prior_state H expected in do {
        now \<leftarrow> cache_now_ms H;
        (let state' = state\<lparr>cached_tools := merge_tools incoming (cached_tools state),
             updated_at_ms := now\<rparr> in do {
           c \<leftarrow> kv_cas H CACHE_KEY expected (cache_to_vec H state');
           case c of
             Inl e \<Rightarrow> ret state'
           | Inr won \<Rightarrow> if won then ret state' else upsert_loop H incoming retries
         })
      })
   }"

definition cache_upsert :: "bhost \<Rightarrow> tool_descriptor list \<Rightarrow> cache_state bio" where
  "cache_upsert H incoming =
     (if incoming = [] then cache_load H else upsert_loop H incoming CAS_MAX_RETRIES)"

definition cache_replace :: "bhost \<Rightarrow> tool_descriptor list \<Rightarrow> cache_state bio" where
  "cache_replace H snapshot = do {
     now \<leftarrow> cache_now_ms H;
     (let state = \<lparr>updated_at_ms = now, cached_tools = fill_tools snapshot []\<rparr> in do {
        v \<leftarrow> kv_get H CACHE_KEY;
        c \<leftarrow> kv_cas H CACHE_KEY (expected_bytes v) (cache_to_vec H state);
        case c of
          Inl e \<Rightarrow> ret state
        | Inr won \<Rightarrow> if won then ret state else cache_upsert H snapshot
      })
   }"

definition cache_invalidate :: "bhost \<Rightarrow> unit bio" where
  "cache_invalidate H = do {
     _ \<leftarrow> kv_set H CACHE_KEY (cache_to_vec H default_cache);
     ret ()
   }"

subsection \<open>The merge\<close>

lemma merge_length: "bt_ordered tools \<Longrightarrow>
   length (merge_tools ds tools) \<le> max MAX_CACHED_TOOLS (length tools)"
proof (induction ds arbitrary: tools)
  case (Cons d ds)
  let ?ins = "bt_insert (td_name d) d tools"
  have "length ?ins \<le> max MAX_CACHED_TOOLS (length tools)"
    if "\<not> (MAX_CACHED_TOOLS \<le> length tools \<and> \<not> bt_contains (td_name d) tools)"
    using that length_bt_insert(1) [of "td_name d" d tools]
      length_bt_insert(2) [OF _ Cons.prems, of "td_name d" d] by fastforce
  moreover have "length (merge_tools ds ?ins) \<le> max MAX_CACHED_TOOLS (length ?ins)"
    by (rule Cons.IH) (rule bt_insert_ordered [OF Cons.prems])
  ultimately show ?case using Cons.IH [OF Cons.prems] by (auto simp: le_max_iff_disj)
qed simp

lemma merge_ordered: "bt_ordered tools \<Longrightarrow> bt_ordered (merge_tools ds tools)"
  by (induction ds arbitrary: tools) (auto intro: bt_insert_ordered)

lemma fill_length: "length tools \<le> MAX_CACHED_TOOLS \<Longrightarrow> length (fill_tools ds tools) \<le> MAX_CACHED_TOOLS"
proof (induction ds arbitrary: tools)
  case (Cons d ds)
  show ?case
    using Cons length_bt_insert(1) [of "td_name d" d tools] by fastforce
qed simp

lemma fill_ordered: "bt_ordered tools \<Longrightarrow> bt_ordered (fill_tools ds tools)"
  by (induction ds arbitrary: tools) (auto intro: bt_insert_ordered)

lemma fill_is_merge: "length tools + length ds \<le> MAX_CACHED_TOOLS \<Longrightarrow>
   fill_tools ds tools = merge_tools ds tools"
proof (induction ds arbitrary: tools)
  case (Cons d ds)
  then show ?case using length_bt_insert(1) [of "td_name d" d tools] by auto
qed simp

text \<open>The last descriptor of that name, as a fan-out in order leaves it.\<close>

definition last_named :: "tool_descriptor list \<Rightarrow> string \<Rightarrow> tool_descriptor option" where
  "last_named ds n = find (\<lambda>d. td_name d = n) (rev ds)"

lemma find_append: "find P (xs @ ys) = (case find P xs of None \<Rightarrow> find P ys | Some x \<Rightarrow> Some x)"
  by (induction xs) auto

lemma last_named_simps [simp]:
  "last_named [] n = None"
  "last_named (d # ds) n = (case last_named ds n of Some d' \<Rightarrow> Some d'
     | None \<Rightarrow> if td_name d = n then Some d else None)"
  by (simp_all add: last_named_def find_append split: option.split)

lemma merge_lookup:
  assumes "length tools + length ds \<le> MAX_CACHED_TOOLS"
  shows "map_of (merge_tools ds tools) n = (case last_named ds n of Some d \<Rightarrow> Some d | None \<Rightarrow> map_of tools n)"
  using assms
proof (induction ds arbitrary: tools)
  case (Cons d ds)
  then show ?case
    using length_bt_insert(1) [of "td_name d" d tools] by (auto split: option.split)
qed simp

lemma merge_lookup_present:
  assumes "bt_contains n tools"
  shows "map_of (merge_tools ds tools) n = (case last_named ds n of Some d \<Rightarrow> Some d | None \<Rightarrow> map_of tools n)"
  using assms
  by (induction ds arbitrary: tools) (auto simp: bt_contains_def split: option.split)

subsection \<open>Serialisation\<close>

lemma decode_tools_ordered: "bt_ordered acc \<Longrightarrow> decode_tools m acc = Some ts \<Longrightarrow> bt_ordered ts"
  by (induction m acc rule: decode_tools.induct) (auto intro: bt_insert_ordered split: option.splits)

lemma prior_ordered: "bt_ordered (cached_tools (prior_state H b))"
  by (auto simp: prior_state_def or_default_def default_cache_def cache_from_slice_def decode_cache_def
      bt_ordered_def [of "[]"] intro: decode_tools_ordered [of "[]"]
      split: option.splits Option.bind_splits if_splits)

definition descriptor_ok :: "tool_descriptor \<Rightarrow> bool" where
  "descriptor_ok d \<longleftrightarrow> td_capabilities d \<noteq> Some JNull"

lemma descriptor_roundtrip: "descriptor_ok d \<Longrightarrow> decode_descriptor (encode_descriptor d) = Some d"
  by (cases d)
    (auto simp: descriptor_ok_def decode_descriptor_def encode_descriptor_def struct_shape_def
      req_string_def opt_string_def maybe_string_def maybe_json_def field_def
      split: option.split json.split)

lemma bt_insert_last: "\<forall>x \<in> fst ` set m. x < k \<Longrightarrow> bt_insert k v m = m @ [(k, v)]"
  by (induction m) (auto dest: less_asym)

lemma decode_tools_encode:
  "bt_ordered (acc @ m) \<Longrightarrow> list_all (descriptor_ok \<circ> snd) m \<Longrightarrow>
   decode_tools (map (\<lambda>(k, d). (k, encode_descriptor d)) m) acc = Some (acc @ m)"
proof (induction m arbitrary: acc)
  case (Cons a m)
  obtain k d where a: "a = (k, d)" by (cases a)
  have "bt_insert k d acc = acc @ [(k, d)]"
    using Cons.prems(1) by (intro bt_insert_last) (auto simp: a bt_ordered_def sorted_wrt_append)
  then show ?case
    using Cons.prems Cons.IH [of "acc @ [a]"] by (simp add: a descriptor_roundtrip)
qed simp

lemma cache_roundtrip:
  assumes "bt_ordered (cached_tools c)" "list_all (descriptor_ok \<circ> snd) (cached_tools c)"
    "updated_at_ms c < 2 ^ 64"
  shows "decode_cache (encode_cache c) = Some c"
  using assms decode_tools_encode [of "[]" "cached_tools c"]
  by (simp add: decode_cache_def encode_cache_def struct_shape_def field_def)

subsection \<open>Symbolic execution\<close>

fun cache_event :: "(string, json) event \<Rightarrow> bool" where
  "cache_event (EvGet k r) = (k = CACHE_KEY)"
| "cache_event (EvSet k v r) = (k = CACHE_KEY)"
| "cache_event (EvCas k old new r) = (k = CACHE_KEY)"
| "cache_event (EvTime t) = True"
| "cache_event _ = False"

text \<open>
  A write of the cache: what is compared are the bytes the merge started from, and the number of
  descriptors stays within the cap, or within what was there before.
\<close>

definition bounded_write :: "bhost \<Rightarrow> (string, json) event \<Rightarrow> bool" where
  "bounded_write H e \<longleftrightarrow> (\<forall>k old new r. e = EvCas k old new r \<longrightarrow>
     (\<exists>c. new = cache_to_vec H c \<and> bt_ordered (cached_tools c) \<and>
        length (cached_tools c) \<le> max MAX_CACHED_TOOLS (length (cached_tools (prior_state H old)))))"

definition cache_trace :: "bhost \<Rightarrow> btrace \<Rightarrow> bool" where
  "cache_trace H evs \<longleftrightarrow> list_all (\<lambda>e. cache_event e \<and> bounded_write H e) evs"

lemma cache_trace_simps [simp]:
  "cache_trace H []"
  "cache_trace H (e # evs) \<longleftrightarrow> cache_event e \<and> bounded_write H e \<and> cache_trace H evs"
  "cache_trace H (evs @ evs') \<longleftrightarrow> cache_trace H evs \<and> cache_trace H evs'"
  by (auto simp: cache_trace_def)

lemma bounded_simps [simp]:
  "bounded_write H (EvGet k r)" "bounded_write H (EvTime t)" "bounded_write H (EvSet k v e)"
  by (simp_all add: bounded_write_def)

lemma cache_load_prior: "cache_load H = do { v \<leftarrow> kv_get H CACHE_KEY; ret (prior_state H (expected_bytes v)) }"
  unfolding cache_load_def
  by (intro bind_eqI) (auto simp: prior_state_def expected_bytes_def split: sum.split option.split)

lemma wp_cache_load [wpI]: "(\<And>r. Q (prior_state H (expected_bytes r)) (EvGet CACHE_KEY r # tr)) \<Longrightarrow>
   wp (cache_load H) Q tr"
  unfolding cache_load_prior by (intro wpI)

lemma wp_cache_now [wpI]: "(\<And>t. Q (case t of None \<Rightarrow> 0 | Some ms \<Rightarrow> min ms (2 ^ 64 - 1)) (EvTime t # tr)) \<Longrightarrow>
  wp (cache_now_ms H) Q tr"
  unfolding cache_now_ms_def by (intro wpI)

lemma wp_upsert_loop:
  "wp (upsert_loop H ds n) (\<lambda>c tr'. \<exists>evs. tr' = evs @ tr \<and> cache_trace H evs \<and> bt_ordered (cached_tools c)) tr"
proof (induction n arbitrary: tr)
  case 0
  show ?case by (auto intro!: wpI simp: prior_ordered)
next
  case (Suc n)
  let ?Q = "\<lambda>tr (c :: cache_state) tr'. \<exists>evs. tr' = evs @ tr \<and> cache_trace H evs \<and> bt_ordered (cached_tools c)"
  let ?new = "\<lambda>v t. prior_state H (expected_bytes v)\<lparr>
    cached_tools := merge_tools ds (cached_tools (prior_state H (expected_bytes v))), updated_at_ms := t\<rparr>"
  let ?evs = "\<lambda>v t n r. [EvCas CACHE_KEY (expected_bytes v) (cache_to_vec H (?new v n)) r,
    EvTime t, EvGet CACHE_KEY v]"
  have one: "cache_trace H (?evs v t n r)" for v t n r
    by (auto simp: bounded_write_def prior_ordered merge_ordered merge_length intro!: exI [where x = "?new v n"])
  have more: "wp (upsert_loop H ds n) (?Q tr) (?evs v t k r @ tr)" for v t k r
  proof (rule wp_mono [OF Suc.IH], elim exE conjE)
    fix c :: cache_state and tr' evs
    assume "tr' = evs @ ?evs v t k r @ tr" "cache_trace H evs" "bt_ordered (cached_tools c)"
    with one show "?Q tr c tr'"
      by (intro exI [where x = "evs @ ?evs v t k r"]) (simp only: append_assoc cache_trace_simps)
  qed
  have fin: "?Q tr (?new v k) (?evs v t k r @ tr)" for v t k r
    by (intro exI [where x = "?evs v t k r"] conjI refl one) (simp add: prior_ordered merge_ordered)
  show ?case
    using more fin by (auto intro!: wpI)
qed

lemma wp_cache_upsert:
  "wp (cache_upsert H ds) (\<lambda>c tr'. \<exists>evs. tr' = evs @ tr \<and> cache_trace H evs \<and> bt_ordered (cached_tools c)) tr"
  unfolding cache_upsert_def
  by (intro wpI wp_upsert_loop) (auto simp: prior_ordered)

lemma wp_cache_replace:
  "wp (cache_replace H ds) (\<lambda>c tr'. \<exists>evs. tr' = evs @ tr \<and> cache_trace H evs \<and> bt_ordered (cached_tools c)) tr"
proof -
  let ?Q = "\<lambda>tr (c :: cache_state) tr'. \<exists>evs. tr' = evs @ tr \<and> cache_trace H evs \<and> bt_ordered (cached_tools c)"
  let ?new = "\<lambda>t. \<lparr>updated_at_ms = t, cached_tools = fill_tools ds []\<rparr>"
  let ?evs = "\<lambda>v t n r. [EvCas CACHE_KEY (expected_bytes v) (cache_to_vec H (?new n)) r,
    EvGet CACHE_KEY v, EvTime t]"
  have ord: "bt_ordered (fill_tools ds [])" by (rule fill_ordered) (simp add: bt_ordered_def)
  have len: "length (fill_tools ds []) \<le> MAX_CACHED_TOOLS" by (rule fill_length) simp
  have one: "cache_trace H (?evs v t n r)" for v t n r
    using ord len by (auto simp: bounded_write_def intro!: exI [where x = "?new n"])
  have more: "wp (cache_upsert H ds) (?Q tr) (?evs v t k r @ tr)" for v t k r
  proof (rule wp_mono [OF wp_cache_upsert], elim exE conjE)
    fix c :: cache_state and tr' evs
    assume "tr' = evs @ ?evs v t k r @ tr" "cache_trace H evs" "bt_ordered (cached_tools c)"
    with one show "?Q tr c tr'"
      by (intro exI [where x = "evs @ ?evs v t k r"]) (simp only: append_assoc cache_trace_simps)
  qed
  have fin: "?Q tr (?new k) (?evs v t k r @ tr)" for v t k r
    by (intro exI [where x = "?evs v t k r"] conjI refl one) (simp add: ord)
  show ?thesis
    unfolding cache_replace_def using more fin by (auto intro!: wpI)
qed

subsection \<open>Properties of the cache\<close>

text \<open>
  merging descriptors is last write wins per name: a name already cached, and any name when the
  cap leaves room, ends up with the last incoming descriptor of that name; a name that is not
  incoming keeps what it had; and a merge never grows the map beyond 512 names (or beyond what was
  there), and keeps it in key order.
\<close>

theorem merge_last_write_wins:
  assumes "bt_ordered tools"
    and "bt_contains n tools \<or> length tools + length ds \<le> MAX_CACHED_TOOLS"
  shows "map_of (merge_tools ds tools) n =
      (case last_named ds n of Some d \<Rightarrow> Some d | None \<Rightarrow> map_of tools n) \<and>
    length (merge_tools ds tools) \<le> max MAX_CACHED_TOOLS (length tools) \<and> bt_ordered (merge_tools ds tools)"
  using assms merge_lookup merge_lookup_present merge_length merge_ordered by blast

lemma merge_last_write_wins_witness:
  "map_of (merge_tools [\<lparr>td_name = ''a'', td_title = None, td_description = ''1'', td_input_schema = JNull,
     td_capabilities = None\<rparr>] []) ''a'' = Some \<lparr>td_name = ''a'', td_title = None, td_description = ''1'',
     td_input_schema = JNull, td_capabilities = None\<rparr>"
  using merge_last_write_wins [of "[]" "''a''" "[\<lparr>td_name = ''a'', td_title = None, td_description = ''1'',
     td_input_schema = JNull, td_capabilities = None\<rparr>]"]
  by (simp add: bt_ordered_def MAX_CACHED_TOOLS_def)

text \<open>
  what a replace stored is what the next load reads.  On a store without faults whose
  compare-and-swap succeeds, and with a codec that inverts on the written tree, loading after
  \<open>replace\<close> gives the very state \<open>replace\<close> returned; so the serialisation loses nothing.
\<close>

theorem replace_then_load:
  assumes "live_store H" "\<And>tr new. h_cas H tr CACHE_KEY (kv_view tr CACHE_KEY) new = Inr True"
    and "\<And>tr. h_time H tr = Some now" "now < 2 ^ 64"
    and "c = \<lparr>updated_at_ms = now, cached_tools = fill_tools ds []\<rparr>"
    and "h_parse H (h_render H (encode_cache c)) = Some (encode_cache c)"
    and "list_all descriptor_ok ds"
  shows "fst (run_state (cache_load H) (final_trace (cache_replace H ds) tr)) =
      fst (run_state (cache_replace H ds) tr) \<and>
    fst (run_state (cache_replace H ds) tr) = c \<and> length (cached_tools c) \<le> MAX_CACHED_TOOLS"
proof -
  note run = live_store.run_get [OF assms(1)]
  have now: "min now 18446744073709551615 = now" using assms(4) by simp
  have ok: "list_all (descriptor_ok \<circ> snd) (fill_tools ds tools)"
    if "list_all descriptor_ok ds" "list_all (descriptor_ok \<circ> snd) tools" for ds tools
    using that
  proof (induction ds arbitrary: tools)
    case (Cons d ds)
    have "list_all (descriptor_ok \<circ> snd) (bt_insert (td_name d) d tools)"
      using Cons.prems by (induction tools) auto
    with Cons show ?case by (simp add: comp_def)
  qed simp
  have len: "length (cached_tools c) \<le> MAX_CACHED_TOOLS" using fill_length [of "[]" ds] assms(5) by simp
  from assms(6) have "cache_from_slice H (cache_to_vec H c) = Some c"
    using cache_roundtrip [of c] ok [of ds "[]"] assms(4,5,7) fill_ordered [of "[]" ds]
    by (simp add: cache_from_slice_def cache_to_vec_def bt_ordered_def [of "[]"])
  moreover have "h_cas H (EvGet CACHE_KEY r # EvTime t # tr) CACHE_KEY (kv_view tr CACHE_KEY) new = Inr True" for r t new
    using assms(2) [of "EvGet CACHE_KEY r # EvTime t # tr" new] by simp
  ultimately show ?thesis
    using assms(3,5) len by (simp add: cache_replace_def cache_load_prior cache_now_ms_def time_now_def run
        kv_cas_def final_trace_def Let_def now prior_state_def expected_bytes_def)
qed

lemma replace_then_load_witness:
  "let H = mem_host\<lparr>h_time := \<lambda>tr. Some 7, h_parse := \<lambda>s. Some (encode_cache \<lparr>updated_at_ms = 7, cached_tools = []\<rparr>)\<rparr>
   in fst (run_state (cache_load H) (final_trace (cache_replace H []) [])) = fst (run_state (cache_replace H []) [])"
proof -
  let ?H = "mem_host\<lparr>h_time := \<lambda>tr. Some 7,
    h_parse := \<lambda>s. Some (encode_cache \<lparr>updated_at_ms = 7, cached_tools = []\<rparr>)\<rparr> :: bhost"
  have "live_store ?H" by unfold_locales (auto simp: mem_host_def)
  from replace_then_load [OF this, of 7 _ "[]" "[]"] show ?thesis by (simp add: mem_host_def)
qed

text \<open>
  after an invalidation the cache is not fresh at any time, so the next list discovers again.
\<close>

theorem invalidate_forces_discovery:
  assumes "live_store H" "h_parse H (h_render H (encode_cache default_cache)) = Some (encode_cache default_cache)"
  shows "\<not> is_fresh (fst (run_state (cache_load H) (final_trace (cache_invalidate H) tr))) now"
proof -
  note run = live_store.run_get [OF assms(1)] live_store.run_set [OF assms(1)]
  have "decode_cache (encode_cache default_cache) = Some default_cache"
    by (rule cache_roundtrip) (simp_all add: default_cache_def bt_ordered_def)
  then show ?thesis
    using assms(2) by (simp add: cache_invalidate_def cache_load_prior final_trace_def run prior_state_def
        expected_bytes_def cache_from_slice_def cache_to_vec_def is_fresh_def default_cache_def)
qed

lemma invalidate_forces_discovery_witness:
  "\<not> is_fresh (fst (run_state (cache_load (mem_host\<lparr>h_parse := \<lambda>s. Some (encode_cache default_cache)\<rparr>))
     (final_trace (cache_invalidate (mem_host\<lparr>h_parse := \<lambda>s. Some (encode_cache default_cache)\<rparr>)) []))) 5"
proof -
  have "live_store (mem_host\<lparr>h_parse := \<lambda>s. Some (encode_cache default_cache)\<rparr> :: bhost)"
    by unfold_locales (auto simp: mem_host_def)
  from invalidate_forces_discovery [OF this] show ?thesis by (simp add: mem_host_def)
qed

end
