(* ===== verification/Discovery.thy ===== *)
theory Discovery
  imports Tool_Cache
begin

text \<open>
  Tool discovery (\<open>crates/aos-mcp-broker/src/discovery.rs\<close>): the describe fan-out with its bounded
  drain loop, the untrusted-input gates on descriptors, the deduplication, the snapshot with its
  cache, the static surface of \<open>capsules_loaded\<close>, and the published tool list.  The counters and
  clock reads that only feed log lines are left out.
\<close>

definition DESCRIBE_REQUEST_TOPIC :: string where
  "DESCRIBE_REQUEST_TOPIC = ''tool.v1.request.describe''"
definition DESCRIBE_RESPONSE_PATTERN :: string where
  "DESCRIBE_RESPONSE_PATTERN = ''tool.v1.response.describe.*''"
definition DISCOVERY_TIMEOUT_MS :: nat where "DISCOVERY_TIMEOUT_MS = 2500"
definition DISCOVERY_SLICE_MS :: nat where "DISCOVERY_SLICE_MS = 100"
definition MAX_DESCRIPTION_LEN :: nat where "MAX_DESCRIPTION_LEN = 4096"
definition MAX_INPUT_SCHEMA_BYTES :: nat where "MAX_INPUT_SCHEMA_BYTES = 16384"
definition MAX_CAPABILITIES_BYTES :: nat where "MAX_CAPABILITIES_BYTES = 2048"
definition MAX_TOOLS_PER_RESPONSE :: nat where "MAX_TOOLS_PER_RESPONSE = 256"

subsection \<open>Descriptors from a response\<close>

definition remap_input_schema :: "json \<Rightarrow> json" where
  "remap_input_schema value = (case value of
     JObj m \<Rightarrow>
       if map_of m ''inputSchema'' \<noteq> None then value
       else (case map_of m ''input_schema'' of
           None \<Rightarrow> value
         | Some schema \<Rightarrow>
             JObj ((''inputSchema'', schema) # filter (\<lambda>p. fst p \<noteq> ''input_schema'') m))
   | _ \<Rightarrow> value)"

definition json_byte_len :: "bhost \<Rightarrow> json \<Rightarrow> nat" where
  "json_byte_len H value = length (h_render H value)"

definition is_valid_name :: "string \<Rightarrow> bool" where
  "is_valid_name name \<longleftrightarrow> name \<noteq> [] \<and> length name \<le> MAX_TOOL_NAME_LEN \<and> list_all name_char name"

definition is_valid_descriptor :: "bhost \<Rightarrow> tool_descriptor \<Rightarrow> bool" where
  "is_valid_descriptor H d =
     (if \<not> is_valid_name (td_name d) then False
      else if MAX_DESCRIPTION_LEN < length (td_description d) then False
      else if (case td_title d of None \<Rightarrow> False | Some t \<Rightarrow> MAX_DESCRIPTION_LEN < length t) then False
      else if MAX_INPUT_SCHEMA_BYTES < json_byte_len H (td_input_schema d) then False
      else if (case td_capabilities d of None \<Rightarrow> False
           | Some c \<Rightarrow> MAX_CAPABILITIES_BYTES < json_byte_len H c) then False
      else True)"

fun decode_all :: "bhost \<Rightarrow> json list \<Rightarrow> tool_descriptor list" where
  "decode_all H [] = []"
| "decode_all H (raw # rest) =
     (case decode_descriptor (remap_input_schema raw) of
        None \<Rightarrow> decode_all H rest
      | Some d \<Rightarrow> if \<not> is_valid_descriptor H d then decode_all H rest else d # decode_all H rest)"

definition parse_describe_response :: "bhost \<Rightarrow> json \<Rightarrow> tool_descriptor list" where
  "parse_describe_response H value =
     (let tools = Option.bind
            (case jget ''tools'' value of
               Some t \<Rightarrow> Some t
             | None \<Rightarrow> Option.bind (jget ''data'' value) (jget ''tools''))
            jarr
      in case tools of None \<Rightarrow> [] | Some ts \<Rightarrow> decode_all H (take MAX_TOOLS_PER_RESPONSE ts))"

subsection \<open>The fan-out\<close>

fun collect_messages :: "bhost \<Rightarrow> bus_msg list \<Rightarrow> tool_descriptor list" where
  "collect_messages H [] = []"
| "collect_messages H (m # ms) =
     (case h_parse H (msg_payload m) of
        None \<Rightarrow> collect_messages H ms
      | Some value \<Rightarrow> parse_describe_response H value @ collect_messages H ms)"

function discover_loop :: "bhost \<Rightarrow> tool_descriptor list \<Rightarrow> bool \<Rightarrow> nat \<Rightarrow> tool_descriptor list bio" where
  "discover_loop H acc seen_any remaining = do {
     r \<leftarrow> recv H DESCRIBE_RESPONSE_PATTERN (min remaining DISCOVERY_SLICE_MS);
     (let msgs = (case r of Inl e \<Rightarrow> [] | Inr b \<Rightarrow> batch_msgs b);
          remaining' = remaining - min remaining DISCOVERY_SLICE_MS in
      if msgs = [] \<and> seen_any then ret acc
      else if remaining' = 0 then ret (acc @ collect_messages H msgs)
      else discover_loop H (acc @ collect_messages H msgs) (msgs \<noteq> [] \<or> seen_any) remaining')
   }"
  by pat_completeness auto
termination
  by (relation "measure (\<lambda>(H, acc, seen_any, remaining). remaining)") (auto simp: DISCOVERY_SLICE_MS_def)

declare discover_loop.simps [simp del]

text \<open>\<open>retain\<close> with a set of the names seen so far.\<close>

fun retain_unseen :: "string list \<Rightarrow> tool_descriptor list \<Rightarrow> tool_descriptor list" where
  "retain_unseen seen [] = []"
| "retain_unseen seen (d # ds) =
     (if td_name d \<in> set seen then retain_unseen seen ds
      else d # retain_unseen (td_name d # seen) ds)"

definition dedupe_by_name :: "tool_descriptor list \<Rightarrow> tool_descriptor list" where
  "dedupe_by_name acc = rev (retain_unseen [] (rev acc))"

definition discover :: "bhost \<Rightarrow> tool_descriptor list bio" where
  "discover H = do {
     s \<leftarrow> subscribe H DESCRIBE_RESPONSE_PATTERN;
     case s of
       Some e \<Rightarrow> ret []
     | None \<Rightarrow> do {
         p \<leftarrow> publish H DESCRIBE_REQUEST_TOPIC (JObj []);
         case p of
           Some e \<Rightarrow> ret []
         | None \<Rightarrow> do {
             acc \<leftarrow> discover_loop H [] False DISCOVERY_TIMEOUT_MS;
             ret (dedupe_by_name acc)
           }
       }
   }"

subsection \<open>The snapshot and its publication\<close>

datatype snapshot_outcome = Keep | Replace

definition outcome_of_fanout :: "tool_descriptor list \<Rightarrow> snapshot_outcome" where
  "outcome_of_fanout discovered = (if discovered = [] then Keep else Replace)"

definition collect_snapshot :: "bhost \<Rightarrow> tool_descriptor list bio" where
  "collect_snapshot H = do {
     cached \<leftarrow> cache_load H;
     now \<leftarrow> wall_ms H;
     if is_fresh cached now then ret (as_vec cached)
     else do {
       descriptors \<leftarrow> discover H;
       case outcome_of_fanout descriptors of
         Keep \<Rightarrow> ret (as_vec cached)
       | Replace \<Rightarrow> do { c \<leftarrow> cache_replace H descriptors; ret (as_vec c) }
     }
   }"

definition mcp_descriptor_with_prefix :: "tool_descriptor \<Rightarrow> string \<Rightarrow> json" where
  "mcp_descriptor_with_prefix d prefix = JObj ([(''name'', JStr (prefix @ td_name d))] @
     (case td_title d of None \<Rightarrow> [] | Some t \<Rightarrow> [(''title'', JStr t)]) @
     [(''description'', JStr (td_description d)), (''inputSchema'', td_input_schema d)] @
     (case td_capabilities d of None \<Rightarrow> [] | Some c \<Rightarrow> [(''capabilities'', c)]))"

definition to_mcp_descriptors :: "tool_descriptor list \<Rightarrow> json list" where
  "to_mcp_descriptors ds = map (\<lambda>d. mcp_descriptor_with_prefix d []) ds"

definition publish_tools_list :: "bhost \<Rightarrow> tool_descriptor list \<Rightarrow> unit bio" where
  "publish_tools_list H ds = do {
     _ \<leftarrow> publish H (tools_list_topic AOS)
       (JArr (map (\<lambda>d. mcp_descriptor_with_prefix d (mcp_tool_prefix AOS)) ds));
     ret ()
   }"

definition describe_tools :: "bhost \<Rightarrow> unit bio" where
  "describe_tools H = do { snapshot \<leftarrow> collect_snapshot H; publish_tools_list H snapshot }"

definition collect_tool_descriptors :: "bhost \<Rightarrow> json \<Rightarrow> unit bio" where
  "collect_tool_descriptors H payload =
     (let descriptors = parse_describe_response H payload in
      if descriptors = [] then ret ()
      else do { c \<leftarrow> cache_upsert H descriptors; publish_tools_list H (as_vec c) })"

subsection \<open>The static surface\<close>

fun static_tools :: "json list \<Rightarrow> tool_descriptor list" where
  "static_tools [] = []"
| "static_tools (tool # rest) = (case get_str ''name'' tool of
     None \<Rightarrow> static_tools rest
   | Some name \<Rightarrow>
       \<lparr>td_name = name, td_title = None, td_description = or_default [] (get_str ''description'' tool),
        td_input_schema = or_default JNull (jget ''input_schema'' tool),
        td_capabilities = None\<rparr> # static_tools rest)"

text \<open>The captured \<open>tools\<close> of one capsule, \<open>None\<close> when its surface is unknown.\<close>

definition capsule_tools :: "json \<Rightarrow> json list option" where
  "capsule_tools capsule = (case jget ''meta'' capsule of
     None \<Rightarrow> None
   | Some meta \<Rightarrow> if meta = JNull then None else get_arr ''tools'' meta)"

fun static_capsules :: "json list \<Rightarrow> tool_descriptor list \<Rightarrow> tool_descriptor list option" where
  "static_capsules [] all = Some all"
| "static_capsules (c # cs) all = (case capsule_tools c of
     None \<Rightarrow> None
   | Some tools \<Rightarrow> static_capsules cs (all @ static_tools tools))"

definition static_tools_from_payload :: "json \<Rightarrow> tool_descriptor list option" where
  "static_tools_from_payload payload = (case get_arr ''capsules'' payload of
     None \<Rightarrow> None
   | Some capsules \<Rightarrow> static_capsules capsules [])"

definition on_capsules_loaded :: "bhost \<Rightarrow> json \<Rightarrow> unit bio" where
  "on_capsules_loaded H payload = (case static_tools_from_payload payload of
     Some descriptors \<Rightarrow> do {
       c \<leftarrow> cache_replace H descriptors;
       publish_tools_list H (as_vec c)
     }
   | None \<Rightarrow> cache_invalidate H)"

subsection \<open>What the gates and the deduplication guarantee\<close>

lemma remap_get [simp]: "k \<noteq> ''input_schema'' \<Longrightarrow> k \<noteq> ''inputSchema'' \<Longrightarrow>
   jget k (remap_input_schema v) = jget k v"
proof -
  assume k: "k \<noteq> ''input_schema''" "k \<noteq> ''inputSchema''"
  have "map_of (filter (\<lambda>p. fst p \<noteq> ''input_schema'') m) k = map_of m k" for m :: "(string \<times> json) list"
    using k by (induction m) auto
  with k show ?thesis by (auto simp: remap_input_schema_def split: json.split option.split)
qed

lemma decode_all_valid: "d \<in> set (decode_all H raws) \<Longrightarrow> is_valid_descriptor H d"
  by (induction raws) (auto split: option.splits if_splits)

lemma decode_all_length: "length (decode_all H raws) \<le> length raws"
proof (induction raws)
  case (Cons r raws)
  then show ?case by (simp add: le_SucI split: option.split)
qed simp

lemma parse_describe_valid: "d \<in> set (parse_describe_response H v) \<Longrightarrow> is_valid_descriptor H d"
  by (auto simp: parse_describe_response_def Let_def decode_all_valid split: option.splits)

lemma parse_describe_length: "length (parse_describe_response H v) \<le> MAX_TOOLS_PER_RESPONSE"
proof -
  have "length (decode_all H (take MAX_TOOLS_PER_RESPONSE ts)) \<le> MAX_TOOLS_PER_RESPONSE" for ts
    using decode_all_length [of H "take MAX_TOOLS_PER_RESPONSE ts"] by simp
  then show ?thesis by (simp add: parse_describe_response_def Let_def split: option.split)
qed

lemma collect_messages_valid: "d \<in> set (collect_messages H ms) \<Longrightarrow> is_valid_descriptor H d"
  by (induction ms) (auto simp: parse_describe_valid split: option.splits)

lemma retain_unseen_names: "d \<in> set (retain_unseen seen ds) \<Longrightarrow> d \<in> set ds \<and> td_name d \<notin> set seen"
  by (induction ds arbitrary: seen) (fastforce split: if_splits)+

lemma retain_unseen_distinct: "distinct (map td_name (retain_unseen seen ds))"
  by (induction ds arbitrary: seen) (auto dest: retain_unseen_names)

lemma retain_unseen_find: "n \<notin> set seen \<Longrightarrow>
   find (\<lambda>d. td_name d = n) (retain_unseen seen ds) = find (\<lambda>d. td_name d = n) ds"
  by (induction ds arbitrary: seen) auto

lemma dedupe_distinct: "distinct (map td_name (dedupe_by_name acc))"
  by (simp add: dedupe_by_name_def retain_unseen_distinct flip: rev_map)

lemma dedupe_last: "last_named (dedupe_by_name acc) n = last_named acc n"
  by (simp add: dedupe_by_name_def last_named_def retain_unseen_find)

lemma dedupe_subset: "d \<in> set (dedupe_by_name acc) \<Longrightarrow> d \<in> set acc"
  by (auto simp: dedupe_by_name_def dest: retain_unseen_names)

lemma dedupe_Nil: "dedupe_by_name acc = [] \<longleftrightarrow> acc = []"
  by (cases "rev acc") (auto simp: dedupe_by_name_def)

lemma static_capsules_iff: "static_capsules cs all = Some ds \<longleftrightarrow>
   list_all (\<lambda>c. capsule_tools c \<noteq> None) cs \<and>
   ds = all @ concat (map (\<lambda>c. static_tools (the (capsule_tools c))) cs)"
  by (induction cs arbitrary: all) (auto split: option.split)

subsection \<open>Symbolic execution\<close>

text \<open>What a discovery does besides its cache accesses: subscribe, ask once, receive.\<close>

definition discovery_event :: "(string, json) event \<Rightarrow> bool" where
  "discovery_event e \<longleftrightarrow> (\<exists>r. e = EvSub DESCRIBE_RESPONSE_PATTERN r) \<or>
     (\<exists>r. e = EvPub DESCRIBE_REQUEST_TOPIC (JObj []) r) \<or>
     (\<exists>ms r. e = EvRecv DESCRIBE_RESPONSE_PATTERN ms r \<and> ms \<le> DISCOVERY_SLICE_MS)"

text \<open>The descriptors received in a trace (newest event first), in arrival order.\<close>

fun received :: "bhost \<Rightarrow> btrace \<Rightarrow> tool_descriptor list" where
  "received H [] = []"
| "received H (EvRecv t ms (Inr b) # evs) = received H evs @ collect_messages H (batch_msgs b)"
| "received H (e # evs) = received H evs"

lemma received_append [simp]: "received H (evs @ evs') = received H evs' @ received H evs"
proof (induction evs)
  case (Cons e evs)
  then show ?case by (cases "(H, e # evs)" rule: received.cases) auto
qed simp

lemma received_recv: "received H (EvRecv t ms r # evs) =
   received H evs @ collect_messages H (case r of Inl e \<Rightarrow> [] | Inr b \<Rightarrow> batch_msgs b)"
  by (cases r) auto

lemma wp_discover_loop:
  "wp (discover_loop H acc seen remaining) (\<lambda>ds tr'. \<exists>evs. tr' = evs @ tr \<and>
     list_all discovery_event evs \<and> ds = acc @ received H evs) tr"
proof (induction H acc seen remaining arbitrary: tr rule: discover_loop.induct)
  case (1 H acc seen remaining)
  let ?Q = "\<lambda>acc tr ds tr'. \<exists>evs. tr' = evs @ tr \<and> list_all discovery_event evs \<and> ds = acc @ received H evs"
  let ?R = "EvRecv DESCRIBE_RESPONSE_PATTERN (min remaining DISCOVERY_SLICE_MS)"
  let ?msgs = "\<lambda>r :: host_error + batch. case r of Inl e \<Rightarrow> [] | Inr b \<Rightarrow> batch_msgs b"
  have ev: "list_all discovery_event [?R r]" for r by (auto simp: discovery_event_def)
  show ?case
    unfolding discover_loop.simps [of H acc seen remaining] Let_def
  proof (intro wp_bind wp_recv wp_if wp_return)
    fix r assume "?msgs r = [] \<and> seen"
    then show "?Q acc tr acc (?R r # tr)"
      using ev [of r] by (intro exI [where x = "[?R r]"]) (simp add: received_recv)
  next
    fix r
    show "?Q acc tr (acc @ collect_messages H (?msgs r)) (?R r # tr)"
      using ev [of r] by (intro exI [where x = "[?R r]"]) (simp add: received_recv)
  next
    fix r
    assume a: "\<not> (?msgs r = [] \<and> seen)" "remaining - min remaining DISCOVERY_SLICE_MS \<noteq> 0"
    show "wp (discover_loop H (acc @ collect_messages H (?msgs r)) (?msgs r \<noteq> [] \<or> seen)
       (remaining - min remaining DISCOVERY_SLICE_MS)) (?Q acc tr) (?R r # tr)"
    proof (rule wp_mono [OF "1.IH" [OF refl refl a]], elim exE conjE)
      fix ds tr' evs
      assume "tr' = evs @ ?R r # tr" "list_all discovery_event evs"
        "ds = (acc @ collect_messages H (?msgs r)) @ received H evs"
      then show "?Q acc tr ds tr'"
        using ev [of r] by (intro exI [where x = "evs @ [?R r]"]) (simp add: received_recv)
    qed
  qed
qed

lemma wp_discover:
  "wp (discover H) (\<lambda>ds tr'. \<exists>evs. tr' = evs @ tr \<and> list_all discovery_event evs \<and>
     ds = dedupe_by_name (received H evs)) tr"
proof -
  let ?Q = "\<lambda>ds tr'. \<exists>evs. tr' = evs @ tr \<and> list_all discovery_event evs \<and>
     ds = dedupe_by_name (received H evs)"
  let ?S = "EvSub DESCRIBE_RESPONSE_PATTERN" and ?P = "EvPub DESCRIBE_REQUEST_TOPIC (JObj [])"
  have ev [simp]: "discovery_event (?S r)" "discovery_event (?P r)" for r
    by (auto simp: discovery_event_def)
  have nil: "[] = dedupe_by_name []" by (simp add: dedupe_by_name_def)
  have one: "?Q [] (?S r # tr)" for r
    by (intro exI [where x = "[?S r]"]) (simp add: nil [symmetric])
  have two: "?Q [] (?P q # ?S r # tr)" for q r
    by (intro exI [where x = "[?P q, ?S r]"]) (simp add: nil [symmetric])
  have loop: "wp (discover_loop H [] False DISCOVERY_TIMEOUT_MS)
     (\<lambda>acc. wp (ret (dedupe_by_name acc)) ?Q) (?P q # ?S r # tr)" for q r
  proof (rule wp_mono [OF wp_discover_loop], elim exE conjE, rule wp_return)
    fix acc tr' evs
    assume "tr' = evs @ ?P q # ?S r # tr" "list_all discovery_event evs" "acc = [] @ received H evs"
    then show "?Q (dedupe_by_name acc) tr'"
      by (intro exI [where x = "evs @ [?P q, ?S r]"]) simp
  qed
  show ?thesis
    unfolding discover_def by (intro wpI loop one two)
qed

text \<open>
  A snapshot: reads of the cache and the clock, then, unless the cache was fresh, a fan-out, and a
  cache write only when the fan-out received descriptors.
\<close>

definition snapshot_trace :: "bhost \<Rightarrow> btrace \<Rightarrow> bool" where
  "snapshot_trace H evs \<longleftrightarrow> (\<exists>writes fanout reads. evs = writes @ fanout @ reads \<and>
     cache_trace H writes \<and> list_all discovery_event fanout \<and> cache_trace H reads \<and>
     list_all (\<lambda>e. writes_key e = None) reads \<and> (received H fanout = [] \<longrightarrow> writes = []))"

lemma wp_collect_snapshot:
  "wp (collect_snapshot H) (\<lambda>ds tr'. \<exists>evs. tr' = evs @ tr \<and> snapshot_trace H evs) tr"
proof -
  let ?Q = "\<lambda>(ds :: tool_descriptor list) tr'. \<exists>evs. tr' = evs @ tr \<and> snapshot_trace H evs"
  let ?reads = "\<lambda>r t. [EvTime t, EvGet CACHE_KEY r]"
  have quiet: "?Q ds (?reads r t @ tr)" for ds r t
  proof -
    have "snapshot_trace H (?reads r t)"
      unfolding snapshot_trace_def
      by (intro exI [where x = "[]"] exI [where x = "?reads r t"]) simp
    then show ?thesis by (intro exI [where x = "?reads r t"]) simp
  qed
  have fan: "wp (discover H) (\<lambda>ds. wp (case outcome_of_fanout ds of Keep \<Rightarrow> ret (as_vec cached)
       | Replace \<Rightarrow> do { c \<leftarrow> cache_replace H ds; ret (as_vec c) }) ?Q) (?reads r t @ tr)" for cached r t
  proof (rule wp_mono [OF wp_discover], elim exE conjE)
    fix ds tr' fanout
    assume a: "tr' = fanout @ ?reads r t @ tr" "list_all discovery_event fanout"
      "ds = dedupe_by_name (received H fanout)"
    show "wp (case outcome_of_fanout ds of Keep \<Rightarrow> ret (as_vec cached)
       | Replace \<Rightarrow> do { c \<leftarrow> cache_replace H ds; ret (as_vec c) }) ?Q tr'"
    proof (cases "ds = []")
      case True
      have "snapshot_trace H (fanout @ ?reads r t)"
        unfolding snapshot_trace_def
        using a(2) by (intro exI [where x = "[]"] exI [where x = fanout] exI [where x = "?reads r t"]) simp
      with a(1) show ?thesis
        by (auto simp: True outcome_of_fanout_def intro!: wp_return exI [where x = "fanout @ ?reads r t"])
    next
      case False
      then have ne: "received H fanout \<noteq> []" using a(3) dedupe_Nil by metis
      have "wp (cache_replace H ds) (\<lambda>c. wp (ret (as_vec c)) ?Q) tr'"
      proof (rule wp_mono [OF wp_cache_replace], elim exE conjE, rule wp_return)
        fix c :: cache_state and tr'' writes
        assume w: "tr'' = writes @ tr'" "cache_trace H writes"
        have "snapshot_trace H (writes @ fanout @ ?reads r t)"
          unfolding snapshot_trace_def
          using a(2) w(2) ne
          by (intro exI [where x = writes] exI [where x = fanout] exI [where x = "?reads r t"]) simp
        with a(1) w(1) show "?Q (as_vec c) tr''"
          by (intro exI [where x = "writes @ fanout @ ?reads r t"]) simp
      qed
      with False show ?thesis by (simp add: outcome_of_fanout_def wp_bind)
    qed
  qed
  show ?thesis
    unfolding collect_snapshot_def
    by (intro wpI; (simp only: append.simps)?) (use quiet fan in \<open>simp_all\<close>)
qed

subsection \<open>Properties of the discovery\<close>

text \<open>
  a fan-out returns the descriptors received in that run with one entry per name, the last one
  received, and only descriptors that passed the untrusted-input gates: a name of 1 to 128 clean
  characters, a bounded description and schema.
\<close>

theorem discover_last_received:
  "\<exists>evs. final_trace (discover H) tr = evs @ tr \<and>
    distinct (map td_name (fst (run_state (discover H) tr))) \<and>
    last_named (fst (run_state (discover H) tr)) n = last_named (received H evs) n \<and>
    list_all (\<lambda>d. is_valid_tool_name (td_name d) \<and> length (td_description d) \<le> MAX_DESCRIPTION_LEN \<and>
      json_byte_len H (td_input_schema d) \<le> MAX_INPUT_SCHEMA_BYTES) (fst (run_state (discover H) tr))"
proof -
  have ok: "is_valid_tool_name (td_name d) \<and> length (td_description d) \<le> MAX_DESCRIPTION_LEN \<and>
      json_byte_len H (td_input_schema d) \<le> MAX_INPUT_SCHEMA_BYTES" if "is_valid_descriptor H d" for d
    using that by (auto simp: is_valid_descriptor_def is_valid_name_def is_valid_tool_name_def split: if_splits)
  have received: "d \<in> set (received H evs) \<Longrightarrow> is_valid_descriptor H d" for d evs
  proof (induction evs)
    case (Cons e evs)
    then show ?case by (cases "(H, e # evs)" rule: received.cases) (auto dest: collect_messages_valid)
  qed simp
  obtain evs where "final_trace (discover H) tr = evs @ tr"
    "fst (run_state (discover H) tr) = dedupe_by_name (received H evs)"
    using wp_discover [of H tr] by (auto simp: wp_iff final_trace_def)
  moreover have "list_all (\<lambda>d. is_valid_tool_name (td_name d) \<and> length (td_description d) \<le> MAX_DESCRIPTION_LEN \<and>
      json_byte_len H (td_input_schema d) \<le> MAX_INPUT_SCHEMA_BYTES) (dedupe_by_name (received H evs))"
    unfolding list_all_iff
  proof
    fix d assume "d \<in> set (dedupe_by_name (received H evs))"
    then have "is_valid_descriptor H d" by (rule received [OF dedupe_subset])
    then show "is_valid_tool_name (td_name d) \<and> length (td_description d) \<le> MAX_DESCRIPTION_LEN \<and>
      json_byte_len H (td_input_schema d) \<le> MAX_INPUT_SCHEMA_BYTES" by (rule ok)
  qed
  ultimately show ?thesis
    by (intro exI [where x = evs]) (simp add: dedupe_distinct dedupe_last)
qed

text \<open>
  the static surface of a \<open>capsules_loaded\<close> message is used exactly when every capsule in it has
  a captured tool list, and is then the concatenation of the captured tools; otherwise the handler
  only empties the cache and publishes nothing.
\<close>

theorem static_surface_all_or_nothing:
  "case static_tools_from_payload payload of
     Some ds \<Rightarrow> (\<exists>cs. get_arr ''capsules'' payload = Some cs \<and> list_all (\<lambda>c. capsule_tools c \<noteq> None) cs \<and>
       ds = concat (map (\<lambda>c. static_tools (the (capsule_tools c))) cs))
   | None \<Rightarrow> \<not> (\<exists>cs. get_arr ''capsules'' payload = Some cs \<and> list_all (\<lambda>c. capsule_tools c \<noteq> None) cs) \<and>
       (\<exists>e. new_events (on_capsules_loaded H payload) tr = [EvSet CACHE_KEY (cache_to_vec H default_cache) e])"
proof (cases "static_tools_from_payload payload")
  case None
  have "\<not> (\<exists>cs. get_arr ''capsules'' payload = Some cs \<and> list_all (\<lambda>c. capsule_tools c \<noteq> None) cs)"
  proof
    assume "\<exists>cs. get_arr ''capsules'' payload = Some cs \<and> list_all (\<lambda>c. capsule_tools c \<noteq> None) cs"
    then obtain cs where "get_arr ''capsules'' payload = Some cs" "list_all (\<lambda>c. capsule_tools c \<noteq> None) cs" by blast
    then have "static_tools_from_payload payload = Some (concat (map (\<lambda>c. static_tools (the (capsule_tools c))) cs))"
      by (simp add: static_tools_from_payload_def static_capsules_iff)
    with None show False by simp
  qed
  with None show ?thesis
    by (simp add: on_capsules_loaded_def cache_invalidate_def new_events_def final_trace_def kv_set_def)
next
  case (Some ds)
  then show ?thesis
    by (auto simp: static_tools_from_payload_def static_capsules_iff split: option.splits)
qed

end
