(* ===== verification/Policy.thy ===== *)
theory Policy
  imports Identity
begin

text \<open>
  The per-principal policy decision point (\<open>crates/aos-mcp-broker/src/policy.rs\<close>): rules, the
  two-pointer wildcard matcher, argument matchers, first-match evaluation, the load-time limits and
  the loading of the rule set.  The lemmas relate the matcher to the recursive meaning of a wildcard
  pattern and characterise evaluation and validation.
\<close>

datatype effect = EffDeny | EffAllow

datatype match_op = OpEq | OpPrefix | OpContains | OpGlob

record arg_matcher =
  am_pointer :: string
  am_op :: match_op
  am_value :: string

record rule =
  rule_id :: string
  rule_effect :: effect
  rule_tool :: string
  rule_when :: "arg_matcher list"

datatype decision = Allow | Deny string

definition MAX_RULES :: nat where "MAX_RULES = 256"
definition MAX_PATTERN_LEN :: nat where "MAX_PATTERN_LEN = 512"
definition MAX_POINTER_LEN :: nat where "MAX_POINTER_LEN = 256"

subsection \<open>The wildcard matcher\<close>

abbreviation star_char :: string where "star_char \<equiv> ''*''"
abbreviation any_char :: string where "any_char \<equiv> ''?''"

text \<open>
  The main loop of \<open>glob_match\<close> over the characters of pattern and text: \<open>p\<close> and \<open>t\<close> are the two
  pointers, \<open>star\<close> the position of the last \<open>*\<close>, \<open>resume\<close> where its next attempt starts.  The result
  is \<open>None\<close> for the early \<open>return false\<close> and otherwise the pattern position at the end of the text.
\<close>

function glob_loop ::
  "string list \<Rightarrow> string list \<Rightarrow> nat \<Rightarrow> nat \<Rightarrow> nat option \<Rightarrow> nat \<Rightarrow> nat option" where
  "glob_loop pat tx p t star resume =
     (if t < length tx then
        if p < length pat \<and> (pat ! p = any_char \<or> pat ! p = tx ! t) then
          glob_loop pat tx (p + 1) (t + 1) star resume
        else if p < length pat \<and> pat ! p = star_char then
          glob_loop pat tx (p + 1) t (Some p) t
        else (case star of
            Some sp \<Rightarrow> glob_loop pat tx (sp + 1) (resume + 1) star (resume + 1)
          | None \<Rightarrow> None)
      else Some p)"
  by pat_completeness auto
termination
  by (relation "measures [\<lambda>(pat, tx, p, t, star, resume). if resume \<le> t then 0 else 1,
      \<lambda>(pat, tx, p, t, star, resume). length tx - resume,
      \<lambda>(pat, tx, p, t, star, resume). length tx - t,
      \<lambda>(pat, tx, p, t, star, resume). length pat - p]") auto

declare glob_loop.simps [simp del]

definition glob_chars :: "string list \<Rightarrow> string list \<Rightarrow> bool" where
  "glob_chars pat tx = (case glob_loop pat tx 0 0 None 0 of
     None \<Rightarrow> False
   | Some p \<Rightarrow> p + length (takeWhile (\<lambda>c. c = star_char) (drop p pat)) = length pat)"

definition glob_match :: "string \<Rightarrow> string \<Rightarrow> bool" where
  "glob_match pattern text = glob_chars (utf8_chars pattern) (utf8_chars text)"

text \<open>The meaning of a wildcard pattern: \<open>*\<close> takes any run, \<open>?\<close> one character.\<close>

fun wildcard :: "string list \<Rightarrow> string list \<Rightarrow> bool" where
  "wildcard [] tx = (tx = [])"
| "wildcard (c # pat) tx =
     (if c = star_char then (\<exists>k \<in> {0..length tx}. wildcard pat (drop k tx))
      else (case tx of [] \<Rightarrow> False | x # rest \<Rightarrow> (c = any_char \<or> c = x) \<and> wildcard pat rest))"

lemma wildcard_star:
  "wildcard (star_char # pat) tx \<longleftrightarrow> (\<exists>k \<le> length tx. wildcard pat (drop k tx))"
  by auto

lemma wildcard_star_drop:
  assumes "wildcard (star_char # pat) (drop k tx)"
  shows "wildcard (star_char # pat) tx"
proof -
  obtain j where "j \<le> length (drop k tx)" "wildcard pat (drop (k + j) tx)"
    using assms by (auto simp: add.commute simp del: length_drop)
  then have "min (k + j) (length tx) \<le> length tx \<and> wildcard pat (drop (min (k + j) (length tx)) tx)"
    by (cases "k + j \<le> length tx") (simp_all add: min_def)
  then show ?thesis unfolding wildcard_star by blast
qed

text \<open>A run without \<open>*\<close> consumes exactly its own length.\<close>

lemma wildcard_plain_prefix:
  "star_char \<notin> set seg \<Longrightarrow> wildcard (seg @ pat) tx \<Longrightarrow>
   length seg \<le> length tx \<and> wildcard pat (drop (length seg) tx)"
proof (induction seg arbitrary: tx)
  case (Cons c seg)
  then show ?case by (cases tx) auto
qed simp

lemma wildcard_Nil: "wildcard pat [] \<longleftrightarrow> list_all (\<lambda>c. c = star_char) pat"
  by (induction pat) auto

lemma stars_to_end:
  "p \<le> length pat \<Longrightarrow>
   p + length (takeWhile (\<lambda>c. c = star_char) (drop p pat)) = length pat \<longleftrightarrow> wildcard (drop p pat) []"
proof -
  assume "p \<le> length pat"
  have "length (takeWhile P xs) = length xs \<longleftrightarrow> list_all P xs" for P and xs :: "string list"
    by (metis list_all_iff takeWhile_eq_all_conv length_takeWhile_le order_antisym_conv
        takeWhile_eq_take take_all_iff)
  then have "length (takeWhile (\<lambda>c. c = star_char) (drop p pat)) = length pat - p \<longleftrightarrow>
      wildcard (drop p pat) []"
    by (metis length_drop wildcard_Nil)
  with \<open>p \<le> length pat\<close> show ?thesis by linarith
qed

text \<open>Every positive answer of the loop is a match, whatever the text.\<close>

lemma drop_nth_Cons: "i < length xs \<Longrightarrow> drop i xs = xs ! i # drop (i + 1) xs"
  by (simp add: Cons_nth_drop_Suc)

definition resume_match :: "string list \<Rightarrow> string list \<Rightarrow> nat option \<Rightarrow> nat \<Rightarrow> bool" where
  "resume_match pat tx star resume = (case star of None \<Rightarrow> False
     | Some sp \<Rightarrow> \<exists>k > resume. k \<le> length tx \<and> wildcard (drop (sp + 1) pat) (drop k tx))"

definition loop_accepts ::
  "string list \<Rightarrow> string list \<Rightarrow> nat \<Rightarrow> nat \<Rightarrow> nat option \<Rightarrow> nat \<Rightarrow> bool" where
  "loop_accepts pat tx p t star resume = (case glob_loop pat tx p t star resume of
     None \<Rightarrow> False | Some q \<Rightarrow> wildcard (drop q pat) [])"

lemma loop_accepts_unfold:
  "loop_accepts pat tx p t star resume =
     (if t < length tx then
        if p < length pat \<and> (pat ! p = any_char \<or> pat ! p = tx ! t) then
          loop_accepts pat tx (p + 1) (t + 1) star resume
        else if p < length pat \<and> pat ! p = star_char then
          loop_accepts pat tx (p + 1) t (Some p) t
        else (case star of
            Some sp \<Rightarrow> loop_accepts pat tx (sp + 1) (resume + 1) star (resume + 1)
          | None \<Rightarrow> False)
      else wildcard (drop p pat) [])"
  unfolding loop_accepts_def glob_loop.simps [of pat tx p t star resume]
  by (cases star) (simp_all only: if_distrib [of "case_option _ _"] option.case)

lemma wildcard_step:
  assumes "p < length pat" "t < length tx" "pat ! p = any_char \<or> pat ! p = tx ! t"
    and "wildcard (drop (p + 1) pat) (drop (t + 1) tx)"
  shows "wildcard (drop p pat) (drop t tx)"
proof (cases "pat ! p = star_char")
  case True
  then have eq: "drop p pat = star_char # drop (p + 1) pat"
    using drop_nth_Cons [OF assms(1)] by metis
  have "wildcard (drop p pat) (drop t tx) \<longleftrightarrow>
      (\<exists>k \<le> length tx - t. wildcard (drop (p + 1) pat) (drop (k + t) tx))"
    unfolding eq wildcard_star drop_drop length_drop ..
  moreover have "1 \<le> length tx - t" using assms(2) by simp
  moreover have "drop (1 + t) tx = drop (t + 1) tx" by simp
  ultimately show ?thesis using assms(4) by metis
next
  case False
  with assms show ?thesis by (auto simp: drop_nth_Cons [of p pat] drop_nth_Cons [of t tx])
qed

lemma resume_star:
  assumes "p < length pat" "pat ! p = star_char" "t \<le> length tx"
    and "wildcard (drop (p + 1) pat) (drop t tx) \<or> resume_match pat tx (Some p) t"
  shows "wildcard (drop p pat) (drop t tx)"
proof -
  obtain k where k: "t \<le> k" "k \<le> length tx" "wildcard (drop (p + 1) pat) (drop k tx)"
    using assms(3,4) by (auto simp: resume_match_def intro: less_imp_le)
  have eq: "drop p pat = star_char # drop (p + 1) pat"
    using drop_nth_Cons [OF assms(1)] assms(2) by metis
  have "wildcard (drop p pat) (drop t tx) \<longleftrightarrow>
      (\<exists>j \<le> length tx - t. wildcard (drop (p + 1) pat) (drop (j + t) tx))"
    unfolding eq wildcard_star drop_drop length_drop ..
  moreover have "k - t \<le> length tx - t" and "k - t + t = k" using k by auto
  ultimately show ?thesis using k(3) by metis
qed

lemma glob_loop_sound:
  "resume \<le> t \<Longrightarrow> t \<le> length tx \<Longrightarrow> loop_accepts pat tx p t star resume \<Longrightarrow>
   wildcard (drop p pat) (drop t tx) \<or> resume_match pat tx star resume"
proof (induction pat tx p t star resume rule: glob_loop.induct)
  case (1 pat tx p t star resume)
  note acc = "1.prems"(3) [unfolded loop_accepts_unfold [of pat tx p t]]
  consider (fin) "\<not> t < length tx"
    | (step) "t < length tx" "p < length pat" "pat ! p = any_char \<or> pat ! p = tx ! t"
    | (star) "t < length tx" "p < length pat" "\<not> (pat ! p = any_char \<or> pat ! p = tx ! t)"
        "pat ! p = star_char"
    | (rewind) "t < length tx" "\<not> (p < length pat \<and> (pat ! p = any_char \<or> pat ! p = tx ! t))"
        "\<not> (p < length pat \<and> pat ! p = star_char)"
    by blast
  then show ?case
  proof cases
    case fin
    with acc "1.prems" show ?thesis by simp
  next
    case step
    with acc have "loop_accepts pat tx (p + 1) (t + 1) star resume" by simp
    with step "1.prems" "1.IH"(1) have "wildcard (drop (p + 1) pat) (drop (t + 1) tx) \<or>
        resume_match pat tx star resume" by simp
    with step show ?thesis using wildcard_step by blast
  next
    case star
    with acc have "loop_accepts pat tx (p + 1) t (Some p) t" by simp
    with star "1.prems" "1.IH"(2) have "wildcard (drop (p + 1) pat) (drop t tx) \<or>
        resume_match pat tx (Some p) t" by simp
    with star show ?thesis using resume_star by (metis less_imp_le)
  next
    case rewind
    with acc obtain sp where sp: "star = Some sp"
      "loop_accepts pat tx (sp + 1) (resume + 1) star (resume + 1)"
      by (auto split: option.splits)
    with rewind "1.prems" "1.IH"(3) have "wildcard (drop (sp + 1) pat) (drop (resume + 1) tx) \<or>
        resume_match pat tx star (resume + 1)" by simp
    with sp(1) rewind "1.prems" show ?thesis
      by (auto simp: resume_match_def intro: exI [where x = "resume + 1"] Suc_lessD)
  qed
qed

text \<open>
  Conversely the loop finds every match in a text without \<open>*\<close>: between the last \<open>*\<close> of the pattern and
  \<open>p\<close> there is a run without \<open>*\<close> that the text from \<open>resume\<close> on has matched so far.
\<close>

definition plain_run :: "string list \<Rightarrow> nat \<Rightarrow> nat \<Rightarrow> nat option \<Rightarrow> nat \<Rightarrow> bool" where
  "plain_run pat p t star resume \<longleftrightarrow> p \<le> length pat \<and> (case star of None \<Rightarrow> True
     | Some sp \<Rightarrow> p = sp + 1 + (t - resume) \<and> star_char \<notin> set (take (t - resume) (drop (sp + 1) pat)))"

lemma plain_run_shift:
  assumes "plain_run pat p t (Some sp) resume" "wildcard (drop (sp + 1) pat) (drop k tx)"
  shows "t - resume \<le> length tx - k \<and> wildcard (drop p pat) (drop (k + (t - resume)) tx)"
proof -
  let ?L = "t - resume" and ?seg = "take (t - resume) (drop (sp + 1) pat)"
  have p: "p = sp + 1 + ?L" "p \<le> length pat" "star_char \<notin> set ?seg"
    using assms(1) by (auto simp: plain_run_def)
  have "drop (sp + 1) pat = ?seg @ drop p pat"
    unfolding p(1) by (metis add.commute append_take_drop_id drop_drop)
  with assms(2) have "length ?seg \<le> length (drop k tx) \<and> wildcard (drop p pat) (drop (length ?seg) (drop k tx))"
    using wildcard_plain_prefix [OF p(3)] by metis
  moreover have "length ?seg = ?L" using p(1,2) by simp
  ultimately show ?thesis by (simp add: add.commute)
qed

lemma plain_run_step:
  assumes "plain_run pat p t star resume" "p < length pat" "resume \<le> t" "pat ! p \<noteq> star_char"
  shows "plain_run pat (p + 1) (t + 1) star resume"
proof (cases star)
  case None
  with assms show ?thesis by (simp add: plain_run_def)
next
  case (Some sp)
  with assms have p: "p = sp + 1 + (t - resume)" "star_char \<notin> set (take (t - resume) (drop (sp + 1) pat))"
    by (auto simp: plain_run_def)
  have "take (Suc (t - resume)) (drop (sp + 1) pat) = take (t - resume) (drop (sp + 1) pat) @ [pat ! p]"
    using p(1) assms(2) by (subst take_Suc_conv_app_nth) auto
  moreover have "t + 1 - resume = Suc (t - resume)" using assms(3) by simp
  ultimately show ?thesis using Some p assms by (simp add: plain_run_def)
qed

lemma star_absorbs:
  assumes "p < length pat" "pat ! p = star_char" "t \<le> length tx" "wildcard (drop p pat) (drop t tx)"
  shows "wildcard (drop (p + 1) pat) (drop t tx) \<or> resume_match pat tx (Some p) t"
proof -
  have eq: "drop p pat = star_char # drop (p + 1) pat"
    using drop_nth_Cons [OF assms(1)] assms(2) by metis
  obtain j where "j \<le> length tx - t" "wildcard (drop (p + 1) pat) (drop (j + t) tx)"
    using assms(4) unfolding eq wildcard_star drop_drop length_drop by blast
  then show ?thesis
    using assms(3) by (cases j) (auto simp: resume_match_def intro!: exI [where x = "j + t"])
qed

lemma glob_loop_complete:
  "star_char \<notin> set tx \<Longrightarrow> resume \<le> t \<Longrightarrow> t \<le> length tx \<Longrightarrow> plain_run pat p t star resume \<Longrightarrow>
   wildcard (drop p pat) (drop t tx) \<or> resume_match pat tx star resume \<Longrightarrow>
   loop_accepts pat tx p t star resume"
proof (induction pat tx p t star resume rule: glob_loop.induct)
  case (1 pat tx p t star resume)
  note unf = loop_accepts_unfold [of pat tx p t]
  have shift: "\<exists>k > t. k \<le> length tx \<and> wildcard (drop p pat) (drop k tx)"
    if rm: "resume_match pat tx star resume"
  proof -
    obtain sp k where star: "star = Some sp" and k: "resume < k" "k \<le> length tx"
        "wildcard (drop (sp + 1) pat) (drop k tx)"
      using rm by (auto simp: resume_match_def split: option.splits)
    with "1.prems"(4) have run: "plain_run pat p t (Some sp) resume" by simp
    have "t - resume \<le> length tx - k \<and> wildcard (drop p pat) (drop (k + (t - resume)) tx)"
      by (rule plain_run_shift [OF run k(3)])
    with k "1.prems"(2) show ?thesis by (intro exI [where x = "k + (t - resume)"]) auto
  qed
  consider (fin) "\<not> t < length tx"
    | (adv) "t < length tx" "p < length pat" "pat ! p = any_char \<or> pat ! p = tx ! t"
    | (str) "t < length tx" "p < length pat" "\<not> (pat ! p = any_char \<or> pat ! p = tx ! t)"
        "pat ! p = star_char"
    | (rewind) "t < length tx" "\<not> (p < length pat \<and> (pat ! p = any_char \<or> pat ! p = tx ! t))"
        "\<not> (p < length pat \<and> pat ! p = star_char)"
    by blast
  then show ?case
  proof cases
    case fin
    with "1.prems" shift have "wildcard (drop p pat) (drop t tx)" by force
    with fin "1.prems"(3) show ?thesis unfolding unf by simp
  next
    case adv
    have not_star: "pat ! p \<noteq> star_char"
    proof -
      have "tx ! t \<noteq> star_char" using nth_mem [OF adv(1)] "1.prems"(1) by metis
      then show ?thesis using adv(3) by auto
    qed
    have "wildcard (drop (p + 1) pat) (drop (t + 1) tx)" if "wildcard (drop p pat) (drop t tx)"
      using that adv not_star drop_nth_Cons [OF adv(2)] drop_nth_Cons [OF adv(1)] by simp
    with "1.prems" have "wildcard (drop (p + 1) pat) (drop (t + 1) tx) \<or> resume_match pat tx star resume"
      by blast
    moreover have "plain_run pat (p + 1) (t + 1) star resume"
      using plain_run_step "1.prems" adv not_star by blast
    ultimately have "loop_accepts pat tx (p + 1) (t + 1) star resume"
      using "1.IH"(1) adv "1.prems" by simp
    with adv show ?thesis by (simp add: unf)
  next
    case str
    have eq: "drop p pat = star_char # drop (p + 1) pat"
      using drop_nth_Cons [OF str(2)] str(4) by metis
    have "wildcard (drop p pat) (drop t tx)"
    proof (cases "resume_match pat tx star resume")
      case True
      then obtain k where "k > t" "wildcard (drop p pat) (drop k tx)" using shift by blast
      then have "wildcard (drop p pat) (drop (k - t) (drop t tx))" by simp
      then show ?thesis unfolding eq by (rule wildcard_star_drop)
    qed (use "1.prems" in blast)
    then have "wildcard (drop (p + 1) pat) (drop t tx) \<or> resume_match pat tx (Some p) t"
      using star_absorbs str "1.prems"(3) by blast
    moreover have "plain_run pat (p + 1) t (Some p) t"
      using str by (simp add: plain_run_def)
    ultimately have "loop_accepts pat tx (p + 1) t (Some p) t"
      using "1.IH"(2) str "1.prems" by simp
    with str show ?thesis by (simp add: unf)
  next
    case rewind
    have "\<not> wildcard (drop p pat) (drop t tx)"
    proof (cases "p < length pat")
      case True
      with rewind show ?thesis
        using drop_nth_Cons [OF True] drop_nth_Cons [OF rewind(1)] by simp
    qed (use rewind in simp)
    with "1.prems" obtain sp k where sp: "star = Some sp" and k: "resume < k" "k \<le> length tx"
        "wildcard (drop (sp + 1) pat) (drop k tx)"
      by (auto simp: resume_match_def split: option.splits)
    then have "wildcard (drop (sp + 1) pat) (drop (resume + 1) tx) \<or> resume_match pat tx star (resume + 1)"
      by (cases "k = resume + 1") (auto simp: resume_match_def intro!: exI [where x = k])
    moreover have "plain_run pat (sp + 1) (resume + 1) star (resume + 1)"
      using "1.prems"(4) sp by (simp add: plain_run_def)
    ultimately have "loop_accepts pat tx (sp + 1) (resume + 1) star (resume + 1)"
      using "1.IH"(3) rewind "1.prems" sp by simp
    with rewind sp show ?thesis by (cases "p < length pat") (simp_all add: unf)
  qed
qed

lemma glob_loop_bound:
  "p \<le> length pat \<Longrightarrow> (\<And>sp. star = Some sp \<Longrightarrow> sp < length pat) \<Longrightarrow>
   glob_loop pat tx p t star resume = Some q \<Longrightarrow> q \<le> length pat"
proof (induction pat tx p t star resume rule: glob_loop.induct)
  case (1 pat tx p t star resume)
  note eq = "1.prems"(3) [unfolded glob_loop.simps [of pat tx p t star resume]]
  show ?case
    using eq "1.prems"(1,2) "1.IH" by (cases star) (auto split: if_splits)
qed

lemma glob_chars_accepts: "glob_chars pat tx \<longleftrightarrow> loop_accepts pat tx 0 0 None 0"
  using glob_loop_bound [of 0 pat None tx 0 0] stars_to_end
  by (auto simp: glob_chars_def loop_accepts_def split: option.splits)

lemma glob_chars_sound: "glob_chars pat tx \<Longrightarrow> wildcard pat tx"
  using glob_loop_sound [of 0 0 tx pat 0 None] by (simp add: glob_chars_accepts resume_match_def)

lemma glob_chars_complete: "star_char \<notin> set tx \<Longrightarrow> wildcard pat tx \<Longrightarrow> glob_chars pat tx"
  using glob_loop_complete [of tx 0 0 pat 0 None] by (simp add: glob_chars_accepts plain_run_def)

subsection \<open>Argument matchers and evaluation\<close>

text \<open>
  The string a JSON value is matched as: a string itself, the rendering of a number or boolean,
  nothing for \<open>null\<close>, arrays and objects.
\<close>

fun scalar_text :: "json \<Rightarrow> string option" where
  "scalar_text (JStr s) = Some s"
| "scalar_text (JInt i) = Some (show_int i)"
| "scalar_text (JFloat r) = Some r"
| "scalar_text (JBool b) = Some (if b then ''true'' else ''false'')"
| "scalar_text _ = None"

fun op_holds :: "match_op \<Rightarrow> string \<Rightarrow> string \<Rightarrow> bool" where
  "op_holds OpEq operand value = (value = operand)"
| "op_holds OpPrefix operand value = starts_with operand value"
| "op_holds OpContains operand value = contains operand value"
| "op_holds OpGlob operand value = glob_match operand value"

text \<open>\<open>ptr\<close> is \<open>serde_json\<close>'s \<open>Value::pointer\<close> (RFC 6901).\<close>

definition matcher_holds :: "(json \<Rightarrow> string \<Rightarrow> json option) \<Rightarrow> arg_matcher \<Rightarrow> json \<Rightarrow> bool" where
  "matcher_holds ptr m arguments =
     (case ptr arguments (am_pointer m) of
        None \<Rightarrow> False
      | Some target \<Rightarrow> (case scalar_text target of
            None \<Rightarrow> False
          | Some value \<Rightarrow> op_holds (am_op m) (am_value m) value))"

fun evaluate :: "(json \<Rightarrow> string \<Rightarrow> json option) \<Rightarrow> rule list \<Rightarrow> string \<Rightarrow> json \<Rightarrow> decision" where
  "evaluate ptr [] tool arguments = Allow"
| "evaluate ptr (r # rs) tool arguments =
     (if \<not> glob_match (rule_tool r) tool then evaluate ptr rs tool arguments
      else if list_all (\<lambda>m. matcher_holds ptr m arguments) (rule_when r) then
        (case rule_effect r of EffDeny \<Rightarrow> Deny (rule_id r) | EffAllow \<Rightarrow> Allow)
      else evaluate ptr rs tool arguments)"

definition rule_fires :: "(json \<Rightarrow> string \<Rightarrow> json option) \<Rightarrow> string \<Rightarrow> json \<Rightarrow> rule \<Rightarrow> bool" where
  "rule_fires ptr tool arguments r \<longleftrightarrow>
     glob_match (rule_tool r) tool \<and> (\<forall>m \<in> set (rule_when r). matcher_holds ptr m arguments)"

lemma evaluate_find:
  "evaluate ptr rules tool arguments = (case find (rule_fires ptr tool arguments) rules of
     None \<Rightarrow> Allow
   | Some r \<Rightarrow> (case rule_effect r of EffDeny \<Rightarrow> Deny (rule_id r) | EffAllow \<Rightarrow> Allow))"
  by (induction rules) (auto simp: rule_fires_def list_all_iff)

subsection \<open>Load-time limits\<close>

fun matcher_error :: "arg_matcher list \<Rightarrow> string option" where
  "matcher_error [] = None"
| "matcher_error (m # ms) =
     (if am_pointer m = [] \<or> MAX_POINTER_LEN < length (am_pointer m) then Some ''bad_pointer''
      else if \<not> starts_with ''/'' (am_pointer m) then Some ''bad_pointer''
      else if MAX_PATTERN_LEN < length (am_value m) then Some ''oversize_matcher_value''
      else matcher_error ms)"

fun rules_error :: "rule list \<Rightarrow> string option" where
  "rules_error [] = None"
| "rules_error (r # rs) =
     (if rule_id r = [] \<or> MAX_PATTERN_LEN < length (rule_id r) then Some ''bad_rule_id''
      else if rule_tool r = [] \<or> MAX_PATTERN_LEN < length (rule_tool r) then Some ''bad_tool_glob''
      else (case matcher_error (rule_when r) of Some e \<Rightarrow> Some e | None \<Rightarrow> rules_error rs))"

definition validate :: "rule list \<Rightarrow> string option" where
  "validate rules = (if MAX_RULES < length rules then Some ''too_many_rules'' else rules_error rules)"

definition matcher_ok :: "arg_matcher \<Rightarrow> bool" where
  "matcher_ok m \<longleftrightarrow> starts_with ''/'' (am_pointer m) \<and> length (am_pointer m) \<le> MAX_POINTER_LEN \<and>
     length (am_value m) \<le> MAX_PATTERN_LEN"

definition rule_ok :: "rule \<Rightarrow> bool" where
  "rule_ok r \<longleftrightarrow> rule_id r \<noteq> [] \<and> length (rule_id r) \<le> MAX_PATTERN_LEN \<and>
     rule_tool r \<noteq> [] \<and> length (rule_tool r) \<le> MAX_PATTERN_LEN \<and> list_all matcher_ok (rule_when r)"

lemma matcher_error_None: "matcher_error ms = None \<longleftrightarrow> list_all matcher_ok ms"
  by (induction ms) (auto simp: matcher_ok_def starts_with_def)

lemma rules_error_None: "rules_error rs = None \<longleftrightarrow> list_all rule_ok rs"
  by (induction rs) (auto simp: rule_ok_def matcher_error_None [symmetric] split: option.splits)

subsection \<open>Loading the rule set\<close>

text \<open>The derived \<open>Deserialize\<close> of a rule.\<close>

definition decode_effect :: "json \<Rightarrow> effect option" where
  "decode_effect j = (if unit_variant j = Some ''deny'' then Some EffDeny
     else if unit_variant j = Some ''allow'' then Some EffAllow else None)"

definition decode_op :: "json \<Rightarrow> match_op option" where
  "decode_op j = (if unit_variant j = Some ''eq'' then Some OpEq
     else if unit_variant j = Some ''prefix'' then Some OpPrefix
     else if unit_variant j = Some ''contains'' then Some OpContains
     else if unit_variant j = Some ''glob'' then Some OpGlob else None)"

definition decode_matcher :: "json \<Rightarrow> arg_matcher option" where
  "decode_matcher j = (if struct_shape 3 j then
     (case (req_string 0 ''pointer'' j, Option.bind (field 1 ''op'' j) decode_op,
        req_string 2 ''value'' j) of
        (Some p, Some ope, Some v) \<Rightarrow> Some \<lparr>am_pointer = p, am_op = ope, am_value = v\<rparr>
      | _ \<Rightarrow> None) else None)"

definition decode_rule :: "json \<Rightarrow> rule option" where
  "decode_rule j = (if struct_shape 4 j then
     (case (req_string 0 ''id'' j, Option.bind (field 1 ''effect'' j) decode_effect,
        req_string 2 ''tool'' j,
        (case field 3 ''when'' j of None \<Rightarrow> Some []
         | Some w \<Rightarrow> Option.bind (jarr w) (\<lambda>ws. those (map decode_matcher ws)))) of
        (Some i, Some e, Some t, Some w) \<Rightarrow>
          Some \<lparr>rule_id = i, rule_effect = e, rule_tool = t, rule_when = w\<rparr>
      | _ \<Rightarrow> None) else None)"

definition decode_rules :: "json \<Rightarrow> rule list option" where
  "decode_rules j = Option.bind (jarr j) (\<lambda>rs. those (map decode_rule rs))"

definition POLICY_RULES_ENV :: string where "POLICY_RULES_ENV = ''policy_rules''"

definition audit_load_failure :: "bhost \<Rightarrow> string \<Rightarrow> unit bio" where
  "audit_load_failure H reason = do {
     _ \<leftarrow> publish H (audit_topic ''policy_load_failed'') (JObj [(''reason'', JStr reason)]);
     ret ()
   }"

definition load_rules :: "bhost \<Rightarrow> rule list bio" where
  "load_rules H = do {
     v \<leftarrow> env_var H POLICY_RULES_ENV;
     case v of
       Inl e \<Rightarrow> do { audit_load_failure H ''env_read_error''; ret [] }
     | Inr raw \<Rightarrow> (case raw of
         None \<Rightarrow> ret []
       | Some s \<Rightarrow>
           if blank s then ret []
           else (case Option.bind (h_parse H s) decode_rules of
               None \<Rightarrow> do { audit_load_failure H ''parse_error''; ret [] }
             | Some parsed \<Rightarrow> (case validate parsed of
                   Some reason \<Rightarrow> do { audit_load_failure H reason; ret [] }
                 | None \<Rightarrow> ret parsed)))
   }"

text \<open>
  What a call of \<open>load_rules\<close> does to the trace: it reads the setting and publishes at most one
  \<open>policy_load_failed\<close> event; the rules it returns are the valid rules of the setting, or none.
\<close>

definition rules_of_setting :: "bhost \<Rightarrow> host_error + string option \<Rightarrow> rule list" where
  "rules_of_setting H v = (case v of Inr (Some s) \<Rightarrow>
       if blank s then [] else (case Option.bind (h_parse H s) decode_rules of
         None \<Rightarrow> [] | Some rs \<Rightarrow> if validate rs = None then rs else [])
     | _ \<Rightarrow> [])"

definition load_trace :: "bhost \<Rightarrow> host_error + string option \<Rightarrow> btrace \<Rightarrow> bool" where
  "load_trace H v evs \<longleftrightarrow> evs = [EvEnv POLICY_RULES_ENV v] \<or> (\<exists>reason r.
     evs = [EvPub (audit_topic ''policy_load_failed'') (JObj [(''reason'', JStr reason)]) r,
            EvEnv POLICY_RULES_ENV v])"

lemma wp_load_rules [wpI]:
  assumes "\<And>v evs. load_trace H v evs \<Longrightarrow> Q (rules_of_setting H v) (evs @ tr)"
  shows "wp (load_rules H) Q tr"
proof -
  have env: "Q rs (EvEnv POLICY_RULES_ENV v # tr)" if "rules_of_setting H v = rs" for rs v
    using assms [of v "[EvEnv POLICY_RULES_ENV v]"] that by (simp add: load_trace_def)
  have pub: "Q rs (EvPub (audit_topic ''policy_load_failed'') (JObj [(''reason'', JStr reason)]) r #
      EvEnv POLICY_RULES_ENV v # tr)" if "rules_of_setting H v = rs" for rs v reason r
    using assms [of v "[EvPub (audit_topic ''policy_load_failed'') (JObj [(''reason'', JStr reason)]) r,
      EvEnv POLICY_RULES_ENV v]"] that by (auto simp: load_trace_def)
  show ?thesis
    unfolding load_rules_def audit_load_failure_def
    by (intro wpI; (rule env pub); simp add: rules_of_setting_def)
qed

subsection \<open>Properties of the policy\<close>

text \<open>
  the policy is first match wins.  A call is denied exactly when some rule with effect deny
  fires and no earlier rule fires; the reason is that rule's id.  In particular no rule, or no
  firing rule, allows.
\<close>

theorem policy_first_match:
  "evaluate ptr rules tool arguments = Deny reason \<longleftrightarrow>
     (\<exists>before r later. rules = before @ r # later \<and> rule_effect r = EffDeny \<and> rule_id r = reason \<and>
        rule_fires ptr tool arguments r \<and> list_all (\<lambda>r'. \<not> rule_fires ptr tool arguments r') before)"
proof -
  have "evaluate ptr rules tool arguments = Deny reason \<longleftrightarrow>
    (\<exists>r. find (rule_fires ptr tool arguments) rules = Some r \<and> rule_effect r = EffDeny \<and> rule_id r = reason)"
    by (auto simp: evaluate_find split: option.split effect.split)
  then show ?thesis unfolding find_split by blast
qed

text \<open>
  a match of \<open>glob_match\<close> is a wildcard match in the usual sense, \<open>*\<close> for any run of characters
  and \<open>?\<close> for one; and for a text without \<open>*\<close> the two agree, so the two-pointer loop with its
  single backtrack point loses nothing there.
\<close>

theorem glob_match_language:
  "(glob_match pattern text \<longrightarrow> wildcard (utf8_chars pattern) (utf8_chars text)) \<and>
   (star_char \<notin> set (utf8_chars text) \<longrightarrow>
      (glob_match pattern text \<longleftrightarrow> wildcard (utf8_chars pattern) (utf8_chars text)))"
  using glob_chars_sound glob_chars_complete by (auto simp: glob_match_def)

lemma glob_match_language_witness:
  "star_char \<notin> set (utf8_chars ''fs.read'') \<and> glob_match ''fs.*'' ''fs.read'' \<and>
   wildcard (utf8_chars ''fs.*'') (utf8_chars ''fs.read'')"
proof -
  have g: "glob_match ''fs.*'' ''fs.read''" and n: "star_char \<notin> set (utf8_chars ''fs.read'')" by code_simp+
  then show ?thesis using glob_match_language [of "''fs.*''" "''fs.read''"] by blast
qed

text \<open>
  a literal \<open>*\<close> in the text is consumed by a \<open>*\<close> of the pattern as a literal, so a pattern that
  should match every text rejects one: prefixing an argument with \<open>*\<close> evades a deny rule.
\<close>

theorem glob_star_evasion:
  "wildcard (utf8_chars ''*'') (utf8_chars ''*a'') \<and> \<not> glob_match ''*'' ''*a'' \<and>
   wildcard (utf8_chars ''*rm*'') (utf8_chars ''*; rm'') \<and> \<not> glob_match ''*rm*'' ''*; rm''"
  by code_simp

text \<open>
  \<open>load_rules\<close> returns the empty set or the complete decoded setting, and then the set keeps every
  limit: at most 256 rules, ids and tool patterns that are neither empty nor over-long, matchers
  whose pointers start with a slash.  A setting with one bad rule is never enforced in part.
\<close>

theorem load_rules_all_or_nothing:
  "fst (run_state (load_rules H) tr) = [] \<or>
   (\<exists>s j rs. h_env H tr POLICY_RULES_ENV = Inr (Some s) \<and> h_parse H s = Some j \<and> decode_rules j = Some rs \<and>
      fst (run_state (load_rules H) tr) = rs \<and> length rs \<le> MAX_RULES \<and> list_all rule_ok rs)"
  by (auto simp: load_rules_def env_var_def audit_load_failure_def publish_def validate_def rules_error_None
      split: sum.split option.split Option.bind_splits)

end
