(* ===== verification/Broker.thy ===== *)
theory Broker
  imports Discovery Policy
begin

text \<open>
  The broker front door (\<open>crates/aos-mcp-broker/src/broker.rs\<close>): \<open>handle_mcp_list\<close> and
  \<open>handle_mcp_call\<close> with the native-tool gate, the confused-deputy gate, the policy gate, the
  dispatch and the grant-on-use convergence.  Reads of the caller and of the clock that only feed
  log lines are left out.  The inductive relation \<open>call_trace\<close> is the abstract account of what a
  call may do; every run of \<open>handle_mcp_call\<close> follows it.
\<close>

definition PRETOOLUSE_GATE_TOOL :: string where "PRETOOLUSE_GATE_TOOL = ''aos_pretooluse_gate''"

record call_request =
  cr_req_id :: string
  cr_name :: string
  cr_arguments :: json

definition decode_list_request :: "json \<Rightarrow> string option" where
  "decode_list_request j = (if struct_shape 1 j then req_string 0 ''req_id'' j else None)"

definition decode_call_request :: "json \<Rightarrow> call_request option" where
  "decode_call_request j = (if struct_shape 3 j then
     (case (req_string 0 ''req_id'' j, req_string 1 ''name'' j) of
        (Some i, Some n) \<Rightarrow> Some
          \<lparr>cr_req_id = i, cr_name = n, cr_arguments = or_default JNull (field 2 ''arguments'' j)\<rparr>
      | _ \<Rightarrow> None) else None)"

subsection \<open>The native-tool gate\<close>

definition gate_tool_input :: "bhost \<Rightarrow> json \<Rightarrow> json" where
  "gate_tool_input H arguments = (case jget ''tool_input'' arguments of
     Some (JObj m) \<Rightarrow> JObj m
   | Some (JArr xs) \<Rightarrow> JArr xs
   | Some (JStr s) \<Rightarrow> or_default JNull (h_parse H s)
   | _ \<Rightarrow> JNull)"

definition tool_reply :: "bhost \<Rightarrow> string \<Rightarrow> json \<Rightarrow> bool \<Rightarrow> json" where
  "tool_reply H req_id content is_error = JObj
     [(''kind'', JStr ''tool.call''), (''req_id'', JStr req_id),
      (''content'', mcp_content H content), (''isError'', JBool is_error)]"

definition hook_output :: "decision \<Rightarrow> json" where
  "hook_output d = (case d of
     Deny reason \<Rightarrow> JObj [(''hookSpecificOutput'', JObj
       [(''hookEventName'', JStr ''PreToolUse''), (''permissionDecision'', JStr ''deny''),
        (''permissionDecisionReason'',
           JStr (''denied by Astrid policy (rule: '' @ reason @ '')''))])]
   | Allow \<Rightarrow> JObj [(''continue'', JBool True)])"

definition gate_reply_body :: "bhost \<Rightarrow> string \<Rightarrow> decision \<Rightarrow> json" where
  "gate_reply_body H req_id d = tool_reply H req_id (JStr (h_render H (hook_output d))) False"

definition audit_deny :: "bhost \<Rightarrow> string \<Rightarrow> string \<Rightarrow> string \<Rightarrow> unit bio" where
  "audit_deny H event tool reason = do {
     _ \<leftarrow> publish H (audit_topic event) (JObj [(''tool'', JStr tool), (''rule'', JStr reason)]);
     ret ()
   }"

definition pretooluse_gate_reply :: "bhost \<Rightarrow> call_request \<Rightarrow> json bio" where
  "pretooluse_gate_reply H req =
     (let tool_name = or_default [] (get_str ''tool_name'' (cr_arguments req));
          tool_input = gate_tool_input H (cr_arguments req) in do {
        rules \<leftarrow> load_rules H;
        (let d = evaluate (h_pointer H) rules tool_name tool_input in do {
           (case d of
              Deny reason \<Rightarrow> audit_deny H ''pretooluse_deny'' tool_name reason
            | Allow \<Rightarrow> ret ());
           ret (gate_reply_body H (cr_req_id req) d)
         })
      })"

subsection \<open>The reply of a dispatched call\<close>

definition ingress_consent_guidance :: "string \<Rightarrow> string" where
  "ingress_consent_guidance source_id =
     ''Astrid withheld this tool call: the ingress session (source_id: '' @ source_id @
     '') is not yet trusted. The first tool call from a new client session opens a '' @
     ''one-time interactive consent prompt; approving it records trust for this '' @
     ''source_id so later calls dispatch without re-prompting. Approve the prompt '' @
     ''in your MCP client. If your client cannot display interactive prompts (no '' @
     ''MCP elicitation support), the call fails closed by design '' @
     [char_of (226 :: nat), char_of (128 :: nat), char_of (148 :: nat)] @ '' retry from a '' @
     ''client that can, such as the Astrid CLI uplink. This interactive prompt is '' @
     ''the only way to grant trust: there is no operator allow-list or config key '' @
     ''to set.''"

definition consent_reply :: "bhost \<Rightarrow> call_request \<Rightarrow> string \<Rightarrow> json" where
  "consent_reply H req source_id = (let guidance = ingress_consent_guidance source_id in JObj
     [(''kind'', JStr ''tool.call''), (''req_id'', JStr (cr_req_id req)),
      (''ingress_approval_required'', JBool True), (''source_id'', JStr source_id),
      (''tool_name'', JStr (cr_name req)), (''message'', JStr guidance),
      (''content'', mcp_content H (JStr guidance)), (''isError'', JBool False)])"

definition pending_reply :: "bhost \<Rightarrow> call_request \<Rightarrow> string \<Rightarrow> json \<Rightarrow> json" where
  "pending_reply H req flag value = JObj
     [(''kind'', JStr ''tool.call''), (''req_id'', JStr (cr_req_id req)),
      (''content'', mcp_content H (JStr [])), (''isError'', JBool False), (flag, value)]"

definition audit_grant :: "bhost \<Rightarrow> string \<Rightarrow> string \<Rightarrow> unit bio" where
  "audit_grant H event capsule_id = do {
     _ \<leftarrow> publish H (audit_topic event) (JObj [(''capsule'', JStr capsule_id)]);
     ret ()
   }"

definition grant_action_reply ::
  "bhost \<Rightarrow> call_request \<Rightarrow> string \<Rightarrow> grant_required \<Rightarrow> broker_grant_action \<Rightarrow> json bio" where
  "grant_action_reply H req principal_id g action = (case action of
       AutoApprove \<Rightarrow> do {
         sent \<leftarrow> publish_grant_auto_decision H (gr_request_id g) True;
         if sent then do {
           audit_grant H ''grant_auto_approved'' (gr_capsule_id g);
           ret (grant_auto_approve_reply H (cr_req_id req) (gr_capsule_id g))
         }
         else ret (grant_unroutable_reply H (cr_req_id req) (gr_capsule_id g))
       }
     | AutoDeny \<Rightarrow> do {
         sent \<leftarrow> publish_grant_auto_decision H (gr_request_id g) False;
         (if sent then audit_grant H ''grant_auto_denied'' (gr_capsule_id g) else ret ());
         ret (grant_auto_deny_reply H (cr_req_id req) (gr_capsule_id g) principal_id)
       }
     | Prompt \<Rightarrow> do {
         pending \<leftarrow> grant_pending H principal_id (gr_capsule_id g);
         if pending then ret (grant_dedup_reply H (cr_req_id req))
         else do {
           mark_grant_pending H principal_id (gr_capsule_id g);
           ret (pending_reply H req ''grant_required'' (grant_reply_flag g (cr_name req) (cr_req_id req)))
         }
       })"

definition grant_outcome_reply :: "bhost \<Rightarrow> call_request \<Rightarrow> string \<Rightarrow> grant_required \<Rightarrow> json bio" where
  "grant_outcome_reply H req principal_id g = do {
     d \<leftarrow> recorded_grant_decision H (gr_capsule_id g);
     grant_action_reply H req principal_id g (grant_action d)
   }"

definition outcome_reply :: "bhost \<Rightarrow> call_request \<Rightarrow> string \<Rightarrow> dispatch_outcome \<Rightarrow> json bio" where
  "outcome_reply H req principal_id out = (case out of
     OutResult content is_error \<Rightarrow> ret (tool_reply H (cr_req_id req) content is_error)
   | OutApproval a \<Rightarrow>
       ret (pending_reply H req ''approval_required'' (approval_reply_flag a (cr_name req) (cr_req_id req)))
   | OutGrant g \<Rightarrow> grant_outcome_reply H req principal_id g
   | OutFailed message \<Rightarrow> ret (tool_reply H (cr_req_id req) (JStr message) True))"

subsection \<open>The handlers\<close>

definition handle_mcp_list :: "bhost \<Rightarrow> json \<Rightarrow> unit bio" where
  "handle_mcp_list H payload = (case decode_list_request payload of
     None \<Rightarrow> ret ()
   | Some req_id \<Rightarrow> (case reply_topic req_id of
       None \<Rightarrow> ret ()
     | Some topic \<Rightarrow> do {
         snapshot \<leftarrow> collect_snapshot H;
         publish_reply H topic (JObj [(''kind'', JStr ''tools.list''), (''req_id'', JStr req_id),
           (''tools'', JArr (to_mcp_descriptors snapshot))])
       }))"

definition call_trusted :: "bhost \<Rightarrow> call_request \<Rightarrow> string \<Rightarrow> string \<Rightarrow> unit bio" where
  "call_trusted H req topic principal_id = do {
     rules \<leftarrow> load_rules H;
     case evaluate (h_pointer H) rules (cr_name req) (cr_arguments req) of
       Deny reason \<Rightarrow> do {
         audit_deny H ''policy_deny'' (cr_name req) reason;
         publish_reply H topic (tool_reply H (cr_req_id req)
           (JStr (tagged (''tool call denied by policy (rule: '' @ reason @ '')''))) True)
       }
     | Allow \<Rightarrow> do {
         out \<leftarrow> dispatch_with_approval H (cr_name req) (cr_req_id req) (cr_arguments req);
         reply \<leftarrow> outcome_reply H req principal_id out;
         publish_reply H topic reply
       }
   }"

definition handle_mcp_call :: "bhost \<Rightarrow> json \<Rightarrow> unit bio" where
  "handle_mcp_call H payload = (case decode_call_request payload of
     None \<Rightarrow> ret ()
   | Some req \<Rightarrow> (case reply_topic (cr_req_id req) of
       None \<Rightarrow> ret ()
     | Some topic \<Rightarrow>
         if cr_name req = PRETOOLUSE_GATE_TOOL then do {
           reply \<leftarrow> pretooluse_gate_reply H req;
           publish_reply H topic reply
         }
         else do {
           c \<leftarrow> runtime_caller H;
           case c of
             Inl e \<Rightarrow> publish_reply H topic (tool_reply H (cr_req_id req)
               (JStr (tagged ''caller context unavailable; tool call rejected'')) True)
           | Inr ctx \<Rightarrow> do {
               trusted \<leftarrow> is_ingress_trusted H (caller_source ctx);
               if \<not> trusted then do {
                 mark_ingress_pending H (caller_source ctx);
                 publish_reply H topic (consent_reply H req (caller_source ctx))
               }
               else call_trusted H req topic (or_default [] (caller_principal ctx))
             }
         }))"

subsection \<open>What a call may do\<close>

text \<open>
  Grant-on-use: the reply and the events (newest first) after a \<open>grant_required\<close> signal.  A recorded
  decision is honoured by publishing to the live awaiter; without one, the open prompt of the
  capsule suppresses another.
\<close>

inductive grant_trace ::
  "bhost \<Rightarrow> call_request \<Rightarrow> string \<Rightarrow> grant_required \<Rightarrow> json \<Rightarrow> btrace \<Rightarrow> bool" for H req p g where
  auto_approve: "k = GRANT_DECISION_KEY_PREFIX @ gr_capsule_id g \<Longrightarrow>
    decision_of_read r = Some GrantApprove \<Longrightarrow> response_topic (gr_request_id g) = Some t \<Longrightarrow>
    grant_trace H req p g (grant_auto_approve_reply H (cr_req_id req) (gr_capsule_id g))
      [EvPub (audit_topic ''grant_auto_approved'') (JObj [(''capsule'', JStr (gr_capsule_id g))]) e',
       EvPub t (decision_envelope (gr_request_id g) APPROVE None) e, EvGet k r]"
| unroutable: "k = GRANT_DECISION_KEY_PREFIX @ gr_capsule_id g \<Longrightarrow>
    decision_of_read r = Some GrantApprove \<Longrightarrow> response_topic (gr_request_id g) = None \<Longrightarrow>
    grant_trace H req p g (grant_unroutable_reply H (cr_req_id req) (gr_capsule_id g)) [EvGet k r]"
| auto_deny: "k = GRANT_DECISION_KEY_PREFIX @ gr_capsule_id g \<Longrightarrow>
    decision_of_read r = Some GrantDeny \<Longrightarrow>
    sent = (case response_topic (gr_request_id g) of None \<Rightarrow> [] | Some t \<Rightarrow>
      [EvPub (audit_topic ''grant_auto_denied'') (JObj [(''capsule'', JStr (gr_capsule_id g))]) e',
       EvPub t (decision_envelope (gr_request_id g) DENY None) e]) \<Longrightarrow>
    grant_trace H req p g (grant_auto_deny_reply H (cr_req_id req) (gr_capsule_id g) p)
      (sent @ [EvGet k r])"
| dedup: "gr_capsule_id g \<noteq> [] \<Longrightarrow> k = GRANT_DECISION_KEY_PREFIX @ gr_capsule_id g \<Longrightarrow>
    decision_of_read r = None \<Longrightarrow> peek_trace (GRANT_PENDING_KEY_PREFIX @ gr_capsule_id g) True peek \<Longrightarrow>
    grant_trace H req p g (grant_dedup_reply H (cr_req_id req)) (peek @ [EvGet k r])"
| prompt: "gr_capsule_id g \<noteq> [] \<Longrightarrow> k = GRANT_DECISION_KEY_PREFIX @ gr_capsule_id g \<Longrightarrow>
    decision_of_read r = None \<Longrightarrow> peek_trace (GRANT_PENDING_KEY_PREFIX @ gr_capsule_id g) False peek \<Longrightarrow>
    grant_trace H req p g
      (pending_reply H req ''grant_required'' (grant_reply_flag g (cr_name req) (cr_req_id req)))
      ([EvSet (GRANT_PENDING_KEY_PREFIX @ gr_capsule_id g) (show_nat n) e, EvTime tm] @ peek @ [EvGet k r])"
| prompt_anonymous: "gr_capsule_id g = [] \<Longrightarrow>
    grant_trace H req p g
      (pending_reply H req ''grant_required'' (grant_reply_flag g (cr_name req) (cr_req_id req))) []"

lemma wp_grant_outcome_reply:
  assumes "\<And>reply evs. grant_trace H req p g reply evs \<Longrightarrow> Q reply (evs @ tr)"
  shows "wp (grant_outcome_reply H req p g) Q tr"
proof -
  let ?k = "GRANT_DECISION_KEY_PREFIX @ gr_capsule_id g"
  note rule = assms [OF grant_trace.auto_approve [OF refl]] assms [OF grant_trace.unroutable [OF refl]]
    assms [OF grant_trace.auto_deny [OF refl _ refl]] assms [OF grant_trace.dedup [OF _ refl]]
    assms [OF grant_trace.prompt [OF _ refl]] assms [OF grant_trace.prompt_anonymous]
  have kinds: "decision_of_read r = Some GrantApprove \<or> decision_of_read r = Some GrantDeny \<or>
     decision_of_read r = None" for r
    by (cases "decision_of_read r") (auto, metis grant_decision.exhaust)
  have anon: "wp (grant_action_reply H req p g Prompt) Q tr" if "gr_capsule_id g = []"
    unfolding grant_action_reply_def using that rule(6) by (auto intro!: wpI)
  have acts: "wp (grant_action_reply H req p g (grant_action (decision_of_read r))) Q (EvGet ?k r # tr)"
    if "gr_capsule_id g \<noteq> []" for r
    using kinds [of r] rule(1-5) that
    by (auto simp: grant_action_reply_def audit_grant_def intro!: wpI split: option.splits)
  show ?thesis
    unfolding grant_outcome_reply_def
    by (intro wp_bind wp_recorded_grant_decision) (use anon acts in simp_all)
qed

text \<open>The events after a dispatch, by outcome.\<close>

inductive reply_trace ::
  "bhost \<Rightarrow> call_request \<Rightarrow> string \<Rightarrow> dispatch_outcome \<Rightarrow> json \<Rightarrow> btrace \<Rightarrow> bool" for H req p where
  result: "reply_trace H req p (OutResult c b) (tool_reply H (cr_req_id req) c b) []"
| approval: "reply_trace H req p (OutApproval a)
    (pending_reply H req ''approval_required'' (approval_reply_flag a (cr_name req) (cr_req_id req))) []"
| grant: "grant_trace H req p g reply evs \<Longrightarrow> reply_trace H req p (OutGrant g) reply evs"
| failed: "reply_trace H req p (OutFailed m) (tool_reply H (cr_req_id req) (JStr m) True) []"

lemma wp_outcome_reply:
  assumes "\<And>reply evs. reply_trace H req p out reply evs \<Longrightarrow> Q reply (evs @ tr)"
  shows "wp (outcome_reply H req p out) Q tr"
proof (cases out)
  case (OutResult c b)
  then show ?thesis
    using assms [of _ "[]"] by (simp add: outcome_reply_def reply_trace.result wp_return)
next
  case (OutApproval a)
  then show ?thesis
    using assms [of _ "[]"] by (simp add: outcome_reply_def reply_trace.approval wp_return)
next
  case (OutGrant g)
  then show ?thesis
    using assms by (simp add: outcome_reply_def wp_grant_outcome_reply reply_trace.grant)
next
  case (OutFailed m)
  then show ?thesis
    using assms [of _ "[]"] by (simp add: outcome_reply_def reply_trace.failed wp_return)
qed

inductive call_trace :: "bhost \<Rightarrow> call_request \<Rightarrow> string \<Rightarrow> btrace \<Rightarrow> bool" for H req topic where
  gate: "cr_name req = PRETOOLUSE_GATE_TOOL \<Longrightarrow> load_trace H v load \<Longrightarrow>
    tool = or_default [] (get_str ''tool_name'' (cr_arguments req)) \<Longrightarrow>
    d = evaluate (h_pointer H) (rules_of_setting H v) tool (gate_tool_input H (cr_arguments req)) \<Longrightarrow>
    audit = (case d of Allow \<Rightarrow> [] | Deny reason \<Rightarrow>
      [EvPub (audit_topic ''pretooluse_deny'') (JObj [(''tool'', JStr tool), (''rule'', JStr reason)]) e]) \<Longrightarrow>
    call_trace H req topic (EvPub topic (gate_reply_body H (cr_req_id req) d) e' # audit @ load)"
| no_caller: "cr_name req \<noteq> PRETOOLUSE_GATE_TOOL \<Longrightarrow>
    call_trace H req topic [EvPub topic (tool_reply H (cr_req_id req)
      (JStr (tagged ''caller context unavailable; tool call rejected'')) True) e, EvCaller (Inl err)]"
| anonymous: "cr_name req \<noteq> PRETOOLUSE_GATE_TOOL \<Longrightarrow> caller_source ctx = [] \<Longrightarrow>
    call_trace H req topic [EvPub topic (consent_reply H req []) e, EvCaller (Inr ctx)]"
| untrusted: "cr_name req \<noteq> PRETOOLUSE_GATE_TOOL \<Longrightarrow> s = caller_source ctx \<Longrightarrow> s \<noteq> [] \<Longrightarrow>
    \<not> present r \<Longrightarrow>
    call_trace H req topic [EvPub topic (consent_reply H req s) e,
      EvSet (INGRESS_PENDING_KEY_PREFIX @ s) ''1'' e', EvGet (INGRESS_TRUST_KEY_PREFIX @ s) r,
      EvCaller (Inr ctx)]"
| denied: "cr_name req \<noteq> PRETOOLUSE_GATE_TOOL \<Longrightarrow> s = caller_source ctx \<Longrightarrow> s \<noteq> [] \<Longrightarrow> present r \<Longrightarrow>
    load_trace H v load \<Longrightarrow>
    evaluate (h_pointer H) (rules_of_setting H v) (cr_name req) (cr_arguments req) = Deny reason \<Longrightarrow>
    call_trace H req topic ([EvPub topic (tool_reply H (cr_req_id req)
        (JStr (tagged (''tool call denied by policy (rule: '' @ reason @ '')''))) True) e,
      EvPub (audit_topic ''policy_deny'') (JObj [(''tool'', JStr (cr_name req)), (''rule'', JStr reason)]) e'] @
      load @ [EvGet (INGRESS_TRUST_KEY_PREFIX @ s) r, EvCaller (Inr ctx)])"
| dispatched: "cr_name req \<noteq> PRETOOLUSE_GATE_TOOL \<Longrightarrow> s = caller_source ctx \<Longrightarrow> s \<noteq> [] \<Longrightarrow> present r \<Longrightarrow>
    load_trace H v load \<Longrightarrow>
    evaluate (h_pointer H) (rules_of_setting H v) (cr_name req) (cr_arguments req) = Allow \<Longrightarrow>
    dispatch_trace H (cr_name req) (cr_req_id req) (cr_arguments req) out disp \<Longrightarrow>
    reply_trace H req (or_default [] (caller_principal ctx)) out reply after \<Longrightarrow>
    call_trace H req topic (EvPub topic reply e # after @ disp @ load @
      [EvGet (INGRESS_TRUST_KEY_PREFIX @ s) r, EvCaller (Inr ctx)])"

lemma wp_audit_deny [wpI]:
  "(\<And>e. Q () (EvPub (audit_topic event) (JObj [(''tool'', JStr tool), (''rule'', JStr reason)]) e # tr)) \<Longrightarrow>
   wp (audit_deny H event tool reason) Q tr"
  unfolding audit_deny_def by (intro wpI)

lemma wp_pretooluse_gate:
  assumes "cr_name req = PRETOOLUSE_GATE_TOOL"
    and "\<And>evs. call_trace H req topic evs \<Longrightarrow> Q () (evs @ tr)"
  shows "wp (do { reply \<leftarrow> pretooluse_gate_reply H req; publish_reply H topic reply }) Q tr"
proof -
  let ?tool = "or_default [] (get_str ''tool_name'' (cr_arguments req))"
  let ?d = "\<lambda>v. evaluate (h_pointer H) (rules_of_setting H v) ?tool (gate_tool_input H (cr_arguments req))"
  note rule = assms(2) [OF call_trace.gate [OF assms(1) _ refl refl refl]]
  have "Q () (EvPub topic (gate_reply_body H (cr_req_id req) (?d v)) e' # load @ tr)"
    if "load_trace H v load" "?d v = Allow" for v load e'
    using rule [OF that(1), of e'] that(2) by simp
  moreover have "Q () (EvPub topic (gate_reply_body H (cr_req_id req) (?d v)) e' #
      EvPub (audit_topic ''pretooluse_deny'') (JObj [(''tool'', JStr ?tool), (''rule'', JStr reason)]) e # load @ tr)"
    if "load_trace H v load" "?d v = Deny reason" for v load e' e reason
    using rule [OF that(1), of e' e] that(2) by simp
  ultimately show ?thesis
    unfolding pretooluse_gate_reply_def Let_def
    by (intro wp_bind wp_load_rules) (auto intro!: wpI split: decision.split)
qed

lemma wp_call_trusted:
  assumes "cr_name req \<noteq> PRETOOLUSE_GATE_TOOL" "s = caller_source ctx" "s \<noteq> []" "present r"
    and "\<And>evs. call_trace H req topic evs \<Longrightarrow> Q () (evs @ tr)"
  shows "wp (call_trusted H req topic (or_default [] (caller_principal ctx))) Q
    (EvGet (INGRESS_TRUST_KEY_PREFIX @ s) r # EvCaller (Inr ctx) # tr)"
proof -
  note denied = assms(5) [OF call_trace.denied [OF assms(1-4)]]
    and dispatched = assms(5) [OF call_trace.dispatched [OF assms(1-4)]]
  let ?ev = "\<lambda>v. evaluate (h_pointer H) (rules_of_setting H v) (cr_name req) (cr_arguments req)"
  have "wp (case ?ev v of
       Deny reason \<Rightarrow> do {
         audit_deny H ''policy_deny'' (cr_name req) reason;
         publish_reply H topic (tool_reply H (cr_req_id req)
           (JStr (tagged (''tool call denied by policy (rule: '' @ reason @ '')''))) True)
       }
     | Allow \<Rightarrow> do {
         out \<leftarrow> dispatch_with_approval H (cr_name req) (cr_req_id req) (cr_arguments req);
         reply \<leftarrow> outcome_reply H req (or_default [] (caller_principal ctx)) out;
         publish_reply H topic reply
       }) Q (load @ EvGet (INGRESS_TRUST_KEY_PREFIX @ s) r # EvCaller (Inr ctx) # tr)"
    if "load_trace H v load" for v load
  proof (cases "?ev v")
    case Allow
    then show ?thesis
      using dispatched [OF that Allow] by (auto intro!: wp_bind wp_dispatch wp_outcome_reply wp_publish_reply)
  next
    case (Deny reason)
    then show ?thesis using denied [OF that Deny] by (auto intro!: wpI)
  qed
  then show ?thesis
    unfolding call_trusted_def by (intro wp_bind wp_load_rules)
qed

text \<open>Every run of \<open>handle_mcp_call\<close> does what \<open>call_trace\<close> allows.\<close>

lemma wp_handle_mcp_call:
  assumes "\<And>req topic evs. decode_call_request payload = Some req \<Longrightarrow>
      reply_topic (cr_req_id req) = Some topic \<Longrightarrow> call_trace H req topic evs \<Longrightarrow> Q () (evs @ tr)"
    and "decode_call_request payload = None \<or>
      (\<exists>req. decode_call_request payload = Some req \<and> reply_topic (cr_req_id req) = None) \<Longrightarrow> Q () tr"
  shows "wp (handle_mcp_call H payload) Q tr"
proof (cases "decode_call_request payload")
  case None
  then show ?thesis using assms(2) by (simp add: handle_mcp_call_def wp_return)
next
  case (Some req)
  show ?thesis
  proof (cases "reply_topic (cr_req_id req)")
    case None
    then show ?thesis using assms(2) Some by (simp add: handle_mcp_call_def wp_return)
  next
    case (Some topic)
    note rule = assms(1) [OF \<open>decode_call_request payload = Some req\<close> Some]
    have body: "wp (do {
         c \<leftarrow> runtime_caller H;
         case c of
           Inl e \<Rightarrow> publish_reply H topic (tool_reply H (cr_req_id req)
             (JStr (tagged ''caller context unavailable; tool call rejected'')) True)
         | Inr ctx \<Rightarrow> do {
             trusted \<leftarrow> is_ingress_trusted H (caller_source ctx);
             if \<not> trusted then do {
               mark_ingress_pending H (caller_source ctx);
               publish_reply H topic (consent_reply H req (caller_source ctx))
             }
             else call_trusted H req topic (or_default [] (caller_principal ctx))
           }
       }) Q tr" if n: "cr_name req \<noteq> PRETOOLUSE_GATE_TOOL"
    proof (intro wp_bind wp_caller wp_case_sum)
      fix r :: "host_error + caller" and err assume "r = Inl err"
      then show "wp (publish_reply H topic (tool_reply H (cr_req_id req)
             (JStr (tagged ''caller context unavailable; tool call rejected'')) True)) Q (EvCaller r # tr)"
        using rule [OF call_trace.no_caller [OF n]] by (auto intro!: wpI)
    next
      fix r :: "host_error + caller" and ctx assume r: "r = Inr ctx"
      have trusted: "wp (call_trusted H req topic (or_default [] (caller_principal ctx))) Q
          (EvGet (INGRESS_TRUST_KEY_PREFIX @ caller_source ctx) t # EvCaller (Inr ctx) # tr)"
        if "caller_source ctx \<noteq> []" "present t" for t
        by (rule wp_call_trusted [OF n refl that]) (rule rule)
      show "wp (is_ingress_trusted H (caller_source ctx))
        (\<lambda>trusted. wp (if \<not> trusted then do {
               mark_ingress_pending H (caller_source ctx);
               publish_reply H topic (consent_reply H req (caller_source ctx))
             }
             else call_trusted H req topic (or_default [] (caller_principal ctx))) Q) (EvCaller r # tr)"
        using rule [OF call_trace.anonymous [OF n, of ctx]] rule [OF call_trace.untrusted [OF n refl, of ctx]] r
        by (intro wp_is_ingress_trusted wp_if) (auto intro!: wpI trusted)
    qed
    show ?thesis
      unfolding handle_mcp_call_def
      using wp_pretooluse_gate [of req H topic Q tr] rule body Some \<open>decode_call_request payload = Some req\<close>
      by simp
  qed
qed

end
