(* ===== verification/Broker_Spec.thy ===== *)
theory Broker_Spec
  imports Broker
begin

text \<open>
  What the broker front door promises, derived from \<open>call_trace\<close>: no execution without an attributed,
  trusted caller and an allowing policy; one reply per accepted request; a gate reply that is never
  an error; a read-only list.
\<close>

inductive_cases grant_traceE: "grant_trace H req p g reply evs"
inductive_cases reply_traceE: "reply_trace H req p out reply evs"
inductive_cases call_traceE: "call_trace H req topic evs"

definition on_responses :: "btrace \<Rightarrow> (string \<times> json) list" where
  "on_responses evs = filter (\<lambda>p. starts_with RESPONSE_PREFIX (fst p)) (pubs evs)"

lemma on_responses_simps [simp]:
  "on_responses [] = []"
  "on_responses (e # evs) = on_responses evs @
     (case pub_of e of None \<Rightarrow> [] | Some p \<Rightarrow> if starts_with RESPONSE_PREFIX (fst p) then [p] else [])"
  "on_responses (evs @ evs') = on_responses evs' @ on_responses evs"
  by (simp_all add: on_responses_def split: option.split)

lemma not_response [simp]:
  "\<not> starts_with RESPONSE_PREFIX (audit_topic e)"
  "\<not> starts_with RESPONSE_PREFIX (exec_topic e)"
  "\<not> starts_with RESPONSE_PREFIX (APPROVAL_RESPONSE_PREFIX @ e)"
  by (simp_all add: starts_with_def RESPONSE_PREFIX_def audit_topic_eq exec_topic_def APPROVAL_RESPONSE_PREFIX_def)

lemma response_topic_SomeD: "response_topic i = Some t \<Longrightarrow> t = APPROVAL_RESPONSE_PREFIX @ i"
  by (rule approval_topics.gate_SomeD)

lemma load_trace_facts: "load_trace H v load \<Longrightarrow> on_responses load = [] \<and>
   (exec_topic x, m) \<notin> set (pubs load) \<and> EvEnv POLICY_RULES_ENV v \<in> set load \<and>
   list_all (\<lambda>e. writes_key e = None) load"
  by (auto simp: load_trace_def)

lemma peek_trace_facts: "peek_trace k b evs \<Longrightarrow> pubs evs = [] \<and> on_responses evs = [] \<and>
   list_all (\<lambda>e. writes_key e = None) evs"
  by (auto simp: peek_trace_def)

lemma dispatch_trace_facts: "dispatch_trace H tool c a out evs \<Longrightarrow> on_responses evs = [] \<and>
   list_all (\<lambda>e. writes_key e = None) evs"
  using dispatch_pubs [of H tool c a out evs] dispatch_writes [of H tool c a out evs]
  by (auto simp: on_responses_def)

text \<open>Every reply of a call echoes the request id and is of kind \<open>tool.call\<close>.\<close>

definition echoes :: "call_request \<Rightarrow> json \<Rightarrow> bool" where
  "echoes req reply \<longleftrightarrow> get_str ''kind'' reply = Some ''tool.call'' \<and>
     get_str ''req_id'' reply = Some (cr_req_id req)"

lemma echoes_replies [simp]:
  "echoes req (tool_reply H (cr_req_id req) c b)"
  "echoes req (pending_reply H req flag v)"
  "echoes req (consent_reply H req s)"
  "echoes req (gate_reply_body H (cr_req_id req) d)"
  "echoes req (grant_auto_approve_reply H (cr_req_id req) cap)"
  "echoes req (grant_unroutable_reply H (cr_req_id req) cap)"
  "echoes req (grant_auto_deny_reply H (cr_req_id req) cap p)"
  "echoes req (grant_dedup_reply H (cr_req_id req))"
  by (simp_all add: echoes_def tool_reply_def pending_reply_def consent_reply_def gate_reply_body_def
      grant_auto_approve_reply_def grant_unroutable_reply_def grant_auto_deny_reply_def
      grant_dedup_reply_def grant_reply_def get_str_def Let_def)

lemma grant_trace_facts: "grant_trace H req p g reply evs \<Longrightarrow>
   on_responses evs = [] \<and> (exec_topic x, m) \<notin> set (pubs evs) \<and> echoes req reply"
  by (erule grant_traceE) (auto dest!: response_topic_SomeD peek_trace_facts split: option.splits)

lemma reply_trace_facts: "reply_trace H req p out reply evs \<Longrightarrow>
   on_responses evs = [] \<and> (exec_topic x, m) \<notin> set (pubs evs) \<and> echoes req reply"
  by (erule reply_traceE) (auto dest: grant_trace_facts)

lemma call_trace_reply: "call_trace H req topic evs \<Longrightarrow> starts_with RESPONSE_PREFIX topic \<Longrightarrow>
   \<exists>reply e rest. evs = EvPub topic reply e # rest \<and> on_responses rest = [] \<and> echoes req reply"
  by (erule call_traceE)
    (auto dest!: load_trace_facts dispatch_trace_facts reply_trace_facts split: decision.splits)

text \<open>exactly one message goes out on the response surface per accepted call.\<close>

theorem call_replies_once:
  assumes "decode_call_request payload = Some req" "reply_topic (cr_req_id req) = Some topic"
  shows "\<exists>reply e rest. new_events (handle_mcp_call H payload) tr = EvPub topic reply e # rest \<and>
    on_responses rest = [] \<and>
    get_str ''kind'' reply = Some ''tool.call'' \<and> get_str ''req_id'' reply = Some (cr_req_id req)"
proof (rule wp_new_events, rule wp_handle_mcp_call)
  fix req' topic' evs
  assume "decode_call_request payload = Some req'" "reply_topic (cr_req_id req') = Some topic'"
    "call_trace H req' topic' evs"
  moreover have "starts_with RESPONSE_PREFIX topic"
    using reply_topics.gate_SomeD [OF assms(2)] by simp
  ultimately show "\<exists>reply e rest. since tr (evs @ tr) = EvPub topic reply e # rest \<and> on_responses rest = [] \<and>
    get_str ''kind'' reply = Some ''tool.call'' \<and> get_str ''req_id'' reply = Some (cr_req_id req)"
    using call_trace_reply [of H req' topic' evs] assms by (auto simp: echoes_def)
qed (use assms in auto)

lemma call_replies_once_witness:
  "\<exists>reply e rest. new_events (handle_mcp_call mem_host
       (JObj [(''req_id'', JStr ''r1''), (''name'', JStr ''fs.read'')])) [] =
     EvPub ''astrid.v1.response.r1'' reply e # rest \<and> on_responses rest = []"
  using call_replies_once [of "JObj [(''req_id'', JStr ''r1''), (''name'', JStr ''fs.read'')]"
      "\<lparr>cr_req_id = ''r1'', cr_name = ''fs.read'', cr_arguments = JNull\<rparr>" "''astrid.v1.response.r1''" mem_host "[]"]
  by (auto simp: decode_call_request_def struct_shape_def req_string_def field_def
      reply_topic_def MAX_REQ_ID_LEN_def RESPONSE_PREFIX_def segment_char_def ascii_alnum_def)

text \<open>
  C5: whatever the host answers, an execute request leaves the broker only on behalf of a caller the
  runtime attributes, whose ingress trust was read as present, for a valid tool name that the
  operator's rules allow, and it carries exactly the request's name, id and arguments.
\<close>

theorem call_dispatch_authorised:
  assumes "(exec_topic tool, m) \<in> set (pubs (new_events (handle_mcp_call H payload) tr))"
  shows "\<exists>req (ctx :: caller) bytes v. decode_call_request payload = Some req \<and> cr_name req = tool \<and>
    is_valid_tool_name tool \<and> tool \<noteq> PRETOOLUSE_GATE_TOOL \<and>
    m = execute_request tool (cr_req_id req) (cr_arguments req) \<and> caller_source ctx \<noteq> [] \<and>
    EvCaller (Inr ctx) \<in> set (new_events (handle_mcp_call H payload) tr) \<and>
    EvGet (INGRESS_TRUST_KEY_PREFIX @ caller_source ctx) (Inr (Some bytes)) \<in>
      set (new_events (handle_mcp_call H payload) tr) \<and>
    EvEnv POLICY_RULES_ENV v \<in> set (new_events (handle_mcp_call H payload) tr) \<and>
    evaluate (h_pointer H) (rules_of_setting H v) tool (cr_arguments req) = Allow"
proof -
  let ?P = "\<lambda>evs. (exec_topic tool, m) \<in> set (pubs evs) \<longrightarrow> (\<exists>req ctx bytes v.
    decode_call_request payload = Some req \<and> cr_name req = tool \<and>
    is_valid_tool_name tool \<and> tool \<noteq> PRETOOLUSE_GATE_TOOL \<and>
    m = execute_request tool (cr_req_id req) (cr_arguments req) \<and> caller_source ctx \<noteq> [] \<and>
    EvCaller (Inr ctx) \<in> set evs \<and>
    EvGet (INGRESS_TRUST_KEY_PREFIX @ caller_source ctx) (Inr (Some bytes)) \<in> set evs \<and>
    EvEnv POLICY_RULES_ENV v \<in> set evs \<and>
    evaluate (h_pointer H) (rules_of_setting H v) tool (cr_arguments req) = Allow)"
  have present: "\<exists>bytes. r = Inr (Some bytes)" if "present r" for r
    using that by (auto simp: present_def split: sum.splits option.splits)
  have "?P (since tr (evs @ tr))"
    if "decode_call_request payload = Some req" "reply_topic (cr_req_id req) = Some topic"
      "call_trace H req topic evs" for req topic evs
  proof -
    have topic [simp]: "exec_topic x \<noteq> topic" "topic \<noteq> exec_topic x" for x
      using reply_topics.gate_SomeD [OF that(2)] by simp_all
    from that(3) show ?thesis
    proof cases
      case (dispatched s ctx r v load out disp reply after e)
      obtain bytes where r: "r = Inr (Some bytes)" using present dispatched(5) by blast
      show ?thesis
      proof
        assume "(exec_topic tool, m) \<in> set (pubs (since tr (evs @ tr)))"
        then have "(exec_topic tool, m) \<in> set (pubs disp)"
          using load_trace_facts [OF dispatched(6), of tool m] reply_trace_facts [OF dispatched(9), of tool m]
          by (auto simp: dispatched(1))
        then have "tool = cr_name req" "m = execute_request tool (cr_req_id req) (cr_arguments req)"
          "is_valid_tool_name tool"
          using dispatch_pubs [OF dispatched(8)] by auto
        then show "\<exists>req ctx bytes v. decode_call_request payload = Some req \<and> cr_name req = tool \<and>
            is_valid_tool_name tool \<and> tool \<noteq> PRETOOLUSE_GATE_TOOL \<and>
            m = execute_request tool (cr_req_id req) (cr_arguments req) \<and> caller_source ctx \<noteq> [] \<and>
            EvCaller (Inr ctx) \<in> set (since tr (evs @ tr)) \<and>
            EvGet (INGRESS_TRUST_KEY_PREFIX @ caller_source ctx) (Inr (Some bytes)) \<in> set (since tr (evs @ tr)) \<and>
            EvEnv POLICY_RULES_ENV v \<in> set (since tr (evs @ tr)) \<and>
            evaluate (h_pointer H) (rules_of_setting H v) tool (cr_arguments req) = Allow"
          using that(1) r dispatched(1-5,7) load_trace_facts [OF dispatched(6)]
          by (intro exI [where x = req] exI [where x = ctx] exI [where x = bytes] exI [where x = v]) simp
      qed
    qed (auto dest: load_trace_facts split: decision.splits)
  qed
  then have "wp (handle_mcp_call H payload) (\<lambda>_ t. ?P (since tr t)) tr"
    by (intro wp_handle_mcp_call) auto
  then have "?P (new_events (handle_mcp_call H payload) tr)" by (rule wp_new_events)
  with assms show ?thesis by simp
qed

text \<open>
  A host for the witnesses: the reference store, a caller whose ingress is \<open>shim\<close>, and a bus that
  answers every receive with a result for the request \<open>r1\<close>.
\<close>

definition demo_host :: bhost where
  "demo_host = mem_host\<lparr>
     h_caller := (\<lambda>tr. Inr \<lparr>caller_source = ''shim'', caller_principal = Some ''alice''\<rparr>),
     h_recv := (\<lambda>tr t ms. Inr \<lparr>batch_msgs = [\<lparr>msg_topic = [], msg_payload = ''x'', msg_source = ''cap''\<rparr>],
       batch_dropped = 0, batch_lagged = 0\<rparr>),
     h_parse := (\<lambda>s. Some (JObj [(''call_id'', JStr ''r1'')]))\<rparr>"

definition demo_call :: json where
  "demo_call = JObj [(''req_id'', JStr ''r1''), (''name'', JStr ''fs.read'')]"

definition demo_trusted :: btrace where
  "demo_trusted = [EvSet ''mcp.ingress.trust.shim'' ''1'' None]"

lemma demo_host_simps [simp]:
  "h_get demo_host tr k = Inr (kv_view tr k)" "h_set demo_host tr k v = None"
  "h_del demo_host tr k = None" "h_cas demo_host tr k old new = Inr (kv_view tr k = old)"
  "h_pub demo_host tr t m = None" "h_sub demo_host tr t = None" "h_env demo_host tr k = Inr None"
  "h_poll demo_host tr t = Inr \<lparr>batch_msgs = [], batch_dropped = 0, batch_lagged = 0\<rparr>"
  "h_caller demo_host tr = Inr \<lparr>caller_source = ''shim'', caller_principal = Some ''alice''\<rparr>"
  "h_recv demo_host tr t ms = Inr \<lparr>batch_msgs = [\<lparr>msg_topic = [], msg_payload = ''x'', msg_source = ''cap''\<rparr>],
     batch_dropped = 0, batch_lagged = 0\<rparr>"
  "h_parse demo_host s = Some (JObj [(''call_id'', JStr ''r1'')])"
  "h_time demo_host tr = None"
  by (simp_all add: demo_host_def mem_host_def)

interpretation demo: live_store demo_host
  by unfold_locales auto

lemma demo_loop: "run_state (dispatch_loop demo_host tool ''r1'' EXECUTE_TIMEOUT_MS) tr =
   (OutResult (JStr []) False,
    EvRecv (result_topic tool) EXECUTE_SLICE_MS (h_recv demo_host tr [] 0) #
    EvPoll APPROVAL_REQUEST_TOPIC (h_poll demo_host tr []) # tr)"
  by (subst dispatch_loop.simps, simp add: poll_signal_def host_defs EXECUTE_TIMEOUT_MS_def
      EXECUTE_SLICE_MS_def match_result_def get_str_def)

lemmas request_eval = decode_call_request_def struct_shape_def req_string_def field_def
  reply_topic_def MAX_REQ_ID_LEN_def segment_char_def name_char_def ascii_alnum_def
  PRETOOLUSE_GATE_TOOL_def is_valid_tool_name_def Wire.MAX_TOOL_NAME_LEN_def

lemma demo_dispatches:
  "(exec_topic ''fs.read'', execute_request ''fs.read'' ''r1'' JNull) \<in>
     set (pubs (new_events (handle_mcp_call demo_host demo_call) demo_trusted))"
  by (simp add: handle_mcp_call_def demo_call_def request_eval new_events_def final_trace_def
      host_defs is_ingress_trusted_eq demo_trusted_def key_prefix_defs call_trusted_def load_rules_def
      dispatch_with_approval_def demo_loop outcome_reply_def publish_reply_def since_def)

lemma dispatch_result_origin_witness:
  "fst (run_state (dispatch_with_approval demo_host ''fs.read'' ''r1'' JNull) []) = OutResult (JStr []) False \<and>
   is_valid_tool_name ''fs.read''"
proof -
  have out: "fst (run_state (dispatch_with_approval demo_host ''fs.read'' ''r1'' JNull) []) = OutResult (JStr []) False"
    by (simp add: dispatch_with_approval_def request_eval host_defs demo_loop)
  from dispatch_result_origin [OF out] out show ?thesis by blast
qed

lemma call_dispatch_authorised_witness:
  "\<exists>(ctx :: caller) bytes. EvGet (INGRESS_TRUST_KEY_PREFIX @ caller_source ctx) (Inr (Some bytes)) \<in>
     set (new_events (handle_mcp_call demo_host demo_call) demo_trusted)"
  using call_dispatch_authorised [OF demo_dispatches] by blast

subsection \<open>The native-tool gate and the list\<close>

text \<open>
  a call of the reserved gate tool is answered with \<open>isError: false\<close> whatever the rules say, so
  that a deny cannot be read as a failed hook; the decision rides in the text, which is the
  rendering of a deny exactly when the rules deny the native tool.  Nothing is executed and
  nothing is stored.
\<close>

theorem gate_reply_never_error:
  assumes "decode_call_request payload = Some req" "cr_name req = PRETOOLUSE_GATE_TOOL"
    and "reply_topic (cr_req_id req) = Some topic"
  shows "\<exists>v d reply e rest. new_events (handle_mcp_call H payload) tr = EvPub topic reply e # rest \<and>
    EvEnv POLICY_RULES_ENV v \<in> set rest \<and>
    d = evaluate (h_pointer H) (rules_of_setting H v)
      (or_default [] (get_str ''tool_name'' (cr_arguments req))) (gate_tool_input H (cr_arguments req)) \<and>
    get_bool ''isError'' reply = Some False \<and>
    get_arr ''content'' reply = Some
      [JObj [(''type'', JStr ''text''), (''text'', JStr (h_render H (hook_output d)))]] \<and>
    (get_bool ''continue'' (hook_output d) = Some True \<longleftrightarrow> d = Allow) \<and>
    list_all (\<lambda>e. writes_key e = None) rest \<and> (\<forall>x m. (exec_topic x, m) \<notin> set (pubs rest))"
proof -
  let ?P = "\<lambda>evs. \<exists>v d reply e rest. evs = EvPub topic reply e # rest \<and>
    EvEnv POLICY_RULES_ENV v \<in> set rest \<and>
    d = evaluate (h_pointer H) (rules_of_setting H v)
      (or_default [] (get_str ''tool_name'' (cr_arguments req))) (gate_tool_input H (cr_arguments req)) \<and>
    get_bool ''isError'' reply = Some False \<and>
    get_arr ''content'' reply = Some
      [JObj [(''type'', JStr ''text''), (''text'', JStr (h_render H (hook_output d)))]] \<and>
    (get_bool ''continue'' (hook_output d) = Some True \<longleftrightarrow> d = Allow) \<and>
    list_all (\<lambda>e. writes_key e = None) rest \<and> (\<forall>x m. (exec_topic x, m) \<notin> set (pubs rest))"
  have body: "get_bool ''isError'' (gate_reply_body H i d) = Some False \<and>
      get_arr ''content'' (gate_reply_body H i d) = Some
        [JObj [(''type'', JStr ''text''), (''text'', JStr (h_render H (hook_output d)))]] \<and>
      (get_bool ''continue'' (hook_output d) = Some True \<longleftrightarrow> d = Allow)" for i d
    by (simp add: gate_reply_body_def tool_reply_def mcp_content_def hook_output_def get_bool_def get_arr_def
        split: decision.split)
  have "?P (since tr (evs @ tr))" if "call_trace H req topic evs" for evs
    using that
  proof cases
    case (gate v load tool d audit e e')
    have "list_all (\<lambda>e. writes_key e = None) (audit @ load) \<and> (\<forall>x m. (exec_topic x, m) \<notin> set (pubs (audit @ load)))
      \<and> EvEnv POLICY_RULES_ENV v \<in> set (audit @ load)"
      using load_trace_facts [OF gate(3)] by (auto simp: gate(6) split: decision.split)
    then show ?thesis
      using gate(1,4,5) body by (intro exI [where x = v] exI [where x = d] exI) auto
  qed (use assms(2) in simp_all)
  then have "wp (handle_mcp_call H payload) (\<lambda>_ t. ?P (since tr t)) tr"
    using assms(1,3) by (intro wp_handle_mcp_call) auto
  then show ?thesis by (rule wp_new_events)
qed

lemma gate_reply_never_error_witness:
  "\<exists>reply e rest. new_events (handle_mcp_call mem_host (JObj [(''req_id'', JStr ''r1''),
       (''name'', JStr ''aos_pretooluse_gate''), (''arguments'', JObj [(''tool_name'', JStr ''Bash'')])])) [] =
     EvPub ''astrid.v1.response.r1'' reply e # rest \<and> get_bool ''isError'' reply = Some False"
  using gate_reply_never_error [of "JObj [(''req_id'', JStr ''r1''),
       (''name'', JStr ''aos_pretooluse_gate''), (''arguments'', JObj [(''tool_name'', JStr ''Bash'')])]"
      "\<lparr>cr_req_id = ''r1'', cr_name = ''aos_pretooluse_gate'',
        cr_arguments = JObj [(''tool_name'', JStr ''Bash'')]\<rparr>" "''astrid.v1.response.r1''" mem_host "[]"]
  by (auto simp: request_eval RESPONSE_PREFIX_def)

lemma discovery_quiet: "list_all discovery_event evs \<Longrightarrow> on_responses evs = [] \<and>
   list_all (\<lambda>e. writes_key e = None) evs \<and> (exec_topic x, m) \<notin> set (pubs evs)"
  by (induction evs) (auto simp: discovery_event_def DESCRIBE_REQUEST_TOPIC_def RESPONSE_PREFIX_def
      starts_with_def exec_topic_def)

lemma cache_trace_quiet: "cache_trace H evs \<Longrightarrow> pubs evs = [] \<and> on_responses evs = [] \<and>
   list_all (\<lambda>e. writes_key e \<in> {None, Some CACHE_KEY}) evs"
proof (induction evs)
  case (Cons e evs)
  then show ?case by (cases e) auto
qed simp

text \<open>
  a tools list is read-only but for the descriptor cache.  It answers once, asks the
  capsules at most to describe themselves, executes nothing, writes no key but the cache, and
  writes that only when this very fan-out received a descriptor: an empty fan-out never
  overwrites what was cached.  Each cache write keeps the cap of 512 descriptors, or the size that
  was there before.
\<close>

theorem list_is_read_only:
  assumes "decode_list_request payload = Some i" "reply_topic i = Some topic"
  shows "\<exists>reply e rest. new_events (handle_mcp_list H payload) tr = EvPub topic reply e # rest \<and>
    on_responses rest = [] \<and> get_str ''req_id'' reply = Some i \<and>
    list_all (\<lambda>e. writes_key e \<in> {None, Some CACHE_KEY} \<and> bounded_write H e) rest \<and>
    (\<forall>x m. (exec_topic x, m) \<notin> set (pubs rest)) \<and>
    (received H rest = [] \<longrightarrow> list_all (\<lambda>e. writes_key e = None) rest)"
proof (rule wp_new_events)
  let ?Q = "\<lambda>t. \<exists>reply e rest. since tr t = EvPub topic reply e # rest \<and>
    on_responses rest = [] \<and> get_str ''req_id'' reply = Some i \<and>
    list_all (\<lambda>e. writes_key e \<in> {None, Some CACHE_KEY} \<and> bounded_write H e) rest \<and>
    (\<forall>x m. (exec_topic x, m) \<notin> set (pubs rest)) \<and>
    (received H rest = [] \<longrightarrow> list_all (\<lambda>e. writes_key e = None) rest)"
  have bounded: "list_all (\<lambda>e. bounded_write H e) fanout" if "list_all discovery_event fanout" for fanout
    using that by (induction fanout) (auto simp: discovery_event_def bounded_write_def)
  have traced: "list_all (\<lambda>e. bounded_write H e) evs" if "cache_trace H evs" for evs
    using that by (auto simp: cache_trace_def list_all_iff)
  have "?Q (EvPub topic (JObj [(''kind'', JStr ''tools.list''), (''req_id'', JStr i), (''tools'', tools)]) e # evs @ tr)"
    if snap: "snapshot_trace H evs" for tools e evs
  proof -
    obtain writes fanout reads where evs: "evs = writes @ fanout @ reads"
      and t: "cache_trace H writes" "list_all discovery_event fanout" "cache_trace H reads"
        "list_all (\<lambda>e. writes_key e = None) reads" "received H fanout = [] \<longrightarrow> writes = []"
      using snap unfolding snapshot_trace_def by blast
    have "list_all (\<lambda>e. writes_key e \<in> {None, Some CACHE_KEY}) fanout"
      using discovery_quiet [OF t(2)] by (auto simp: list_all_iff)
    then have "list_all (\<lambda>e. writes_key e \<in> {None, Some CACHE_KEY} \<and> bounded_write H e) evs"
      using cache_trace_quiet [OF t(1)] cache_trace_quiet [OF t(3)] bounded [OF t(2)] traced [OF t(1)]
        traced [OF t(3)] by (auto simp: evs list_all_iff)
    moreover have "received H evs = [] \<longrightarrow> list_all (\<lambda>e. writes_key e = None) evs"
      using t(4,5) discovery_quiet [OF t(2)] by (auto simp: evs)
    ultimately show ?thesis
      using cache_trace_quiet [OF t(1)] cache_trace_quiet [OF t(3)] discovery_quiet [OF t(2)]
      by (intro exI [where x = evs] exI) (auto simp: evs get_str_def)
  qed
  then show "wp (handle_mcp_list H payload) (\<lambda>_. ?Q) tr"
    unfolding handle_mcp_list_def assms option.case
    by (intro wp_bind wp_mono [OF wp_collect_snapshot] wp_publish_reply) blast
qed

lemma list_is_read_only_witness:
  "\<exists>reply e rest. new_events (handle_mcp_list mem_host (JObj [(''req_id'', JStr ''r1'')])) [] =
     EvPub ''astrid.v1.response.r1'' reply e # rest \<and> on_responses rest = []"
  using list_is_read_only [of "JObj [(''req_id'', JStr ''r1'')]" "''r1''" "''astrid.v1.response.r1''" mem_host "[]"]
  by (auto simp: request_eval decode_list_request_def RESPONSE_PREFIX_def)

end
