(* ===== verification/Approval.thy ===== *)
theory Approval
  imports Execute Broker_Spec
begin

text \<open>
  The three respond handlers of the broker (\<open>crates/aos-mcp-broker/src/approval.rs\<close>):
  \<open>handle_mcp_approval\<close> publishes the elicited decision and drains the resumed result,
  \<open>handle_mcp_ingress_respond\<close> records trust for the kernel-stamped caller, and
  \<open>handle_mcp_grant_respond\<close> records and publishes a capsule-grant decision.
\<close>

definition RESUME_TIMEOUT_MS :: nat where "RESUME_TIMEOUT_MS = 50000"
definition RESUME_SLICE_MS :: nat where "RESUME_SLICE_MS = 250"

record approval_respond =
  apr_req_id :: string
  apr_request_id :: string
  apr_decision :: string
  apr_tool_name :: string
  apr_call_id :: string
  apr_reason :: "string option"

definition decode_approval_respond :: "json \<Rightarrow> approval_respond option" where
  "decode_approval_respond j = (if struct_shape 6 j then
     (case (req_string 0 ''req_id'' j, req_string 1 ''request_id'' j, req_string 2 ''decision'' j,
        req_string 3 ''tool_name'' j, req_string 4 ''call_id'' j, maybe_string 5 ''reason'' j) of
        (Some a, Some b, Some c, Some d, Some e, Some f) \<Rightarrow> Some
          \<lparr>apr_req_id = a, apr_request_id = b, apr_decision = c, apr_tool_name = d,
           apr_call_id = e, apr_reason = f\<rparr>
      | _ \<Rightarrow> None) else None)"

record ingress_respond =
  inr_req_id :: string
  inr_accept :: bool

definition decode_ingress_respond :: "json \<Rightarrow> ingress_respond option" where
  "decode_ingress_respond j = (if struct_shape 2 j then
     (case (req_string 0 ''req_id'' j, Option.bind (field 1 ''accept'' j) jbool) of
        (Some a, Some b) \<Rightarrow> Some \<lparr>inr_req_id = a, inr_accept = b\<rparr>
      | _ \<Rightarrow> None) else None)"

record grant_respond =
  grr_req_id :: string
  grr_request_id :: string
  grr_decision :: string
  grr_capsule_id :: string

definition decode_grant_respond :: "json \<Rightarrow> grant_respond option" where
  "decode_grant_respond j = (if struct_shape 4 j then
     (case (req_string 0 ''req_id'' j, req_string 1 ''request_id'' j, req_string 2 ''decision'' j,
        opt_string 3 ''capsule_id'' j) of
        (Some a, Some b, Some c, Some d) \<Rightarrow> Some
          \<lparr>grr_req_id = a, grr_request_id = b, grr_decision = c, grr_capsule_id = d\<rparr>
      | _ \<Rightarrow> None) else None)"

subsection \<open>Replies\<close>

definition deliver_result :: "bhost \<Rightarrow> string \<Rightarrow> string \<Rightarrow> json \<Rightarrow> bool \<Rightarrow> unit bio" where
  "deliver_result H topic req_id content is_error =
     publish_reply H topic (JObj
       [(''kind'', JStr ''tool.call''), (''req_id'', JStr req_id),
        (''content'', mcp_content H content), (''isError'', JBool is_error)])"

definition deliver_error :: "bhost \<Rightarrow> string \<Rightarrow> string \<Rightarrow> string \<Rightarrow> unit bio" where
  "deliver_error H topic req_id body =
     deliver_result H topic req_id (JStr (tagged body)) True"

definition ingress_ack :: "bhost \<Rightarrow> string option \<Rightarrow> string \<Rightarrow> bool \<Rightarrow> unit bio" where
  "ingress_ack H reply req_id granted = (case reply of
     None \<Rightarrow> ret ()
   | Some topic \<Rightarrow> publish_reply H topic (JObj
       [(''kind'', JStr ''ingress.respond''), (''req_id'', JStr req_id), (''granted'', JBool granted)]))"

definition grant_ack :: "bhost \<Rightarrow> string option \<Rightarrow> string \<Rightarrow> bool \<Rightarrow> unit bio" where
  "grant_ack H reply req_id granted = (case reply of
     None \<Rightarrow> ret ()
   | Some topic \<Rightarrow> publish_reply H topic (JObj
       [(''kind'', JStr ''grant.respond''), (''req_id'', JStr req_id), (''granted'', JBool granted)]))"

subsection \<open>Approval: decide, then drain the resumed result\<close>

function drain_result :: "bhost \<Rightarrow> string \<Rightarrow> string \<Rightarrow> nat \<Rightarrow> (json \<times> bool) option bio" where
  "drain_result H sub call_id remaining =
     (if remaining = 0 then ret None
      else do {
        p \<leftarrow> recv H sub (min remaining RESUME_SLICE_MS);
        case (case p of Inl e \<Rightarrow> None | Inr b \<Rightarrow> first_result H call_id (batch_msgs b)) of
          Some found \<Rightarrow> ret (Some found)
        | None \<Rightarrow> drain_result H sub call_id (remaining - min remaining RESUME_SLICE_MS)
      })"
  by pat_completeness auto
termination
  by (relation "measure (\<lambda>(H, sub, call_id, remaining). remaining)") (auto simp: RESUME_SLICE_MS_def)

declare drain_result.simps [simp del]

definition resolve_with_decision ::
  "bhost \<Rightarrow> approval_respond \<Rightarrow> string \<Rightarrow> string \<Rightarrow> string option \<Rightarrow> unit bio" where
  "resolve_with_decision H req resp_topic decision reason =
     (let reply = reply_topic (apr_req_id req) in
      if \<not> is_valid_tool_name (apr_tool_name req) then do {
        publish_decision H resp_topic (apr_request_id req) decision reason;
        (case reply of
           Some r \<Rightarrow> deliver_error H r (apr_req_id req) ''approval echoed an invalid tool name''
         | None \<Rightarrow> ret ())
      } else do {
        s \<leftarrow> subscribe H (result_topic (apr_tool_name req));
        publish_decision H resp_topic (apr_request_id req) decision reason;
        case reply of
          None \<Rightarrow> ret ()
        | Some r \<Rightarrow> do {
            found \<leftarrow> (case s of
                Some e \<Rightarrow> ret None
              | None \<Rightarrow> drain_result H (result_topic (apr_tool_name req)) (apr_call_id req)
                  RESUME_TIMEOUT_MS);
            case found of
              Some ce \<Rightarrow> deliver_result H r (apr_req_id req) (fst ce) (snd ce)
            | None \<Rightarrow> deliver_error H r (apr_req_id req)
                ''tool did not return a result after the approval decision''
          }
      })"

definition handle_mcp_approval :: "bhost \<Rightarrow> json \<Rightarrow> unit bio" where
  "handle_mcp_approval H payload =
     (case decode_approval_respond payload of
        None \<Rightarrow> ret ()
      | Some req \<Rightarrow> (case response_topic (apr_request_id req) of
          None \<Rightarrow> (case reply_topic (apr_req_id req) of
              Some r \<Rightarrow> deliver_error H r (apr_req_id req) ''approval request_id was not routable''
            | None \<Rightarrow> ret ())
        | Some resp_topic \<Rightarrow> do {
            c \<leftarrow> runtime_caller H;
            case c of
              Inl e \<Rightarrow> resolve_with_decision H req resp_topic DENY None
            | Inr ctx \<Rightarrow> do {
                trusted \<leftarrow> is_ingress_trusted H (caller_source ctx);
                if \<not> trusted then resolve_with_decision H req resp_topic DENY None
                else resolve_with_decision H req resp_topic
                  (normalize_decision (apr_decision req)) (apr_reason req)
              }
          }))"

subsection \<open>Ingress consent\<close>

definition handle_mcp_ingress_respond :: "bhost \<Rightarrow> json \<Rightarrow> unit bio" where
  "handle_mcp_ingress_respond H payload =
     (case decode_ingress_respond payload of
        None \<Rightarrow> ret ()
      | Some req \<Rightarrow> (let reply = reply_topic (inr_req_id req) in do {
          c \<leftarrow> runtime_caller H;
          case c of
            Inl e \<Rightarrow> ingress_ack H reply (inr_req_id req) False
          | Inr ctx \<Rightarrow> do {
              had_prompt \<leftarrow> take_ingress_pending H (caller_source ctx);
              if inr_accept req then
                if \<not> had_prompt then ingress_ack H reply (inr_req_id req) False
                else (case ingress_trust_key (caller_source ctx) of
                    Some key \<Rightarrow> do {
                      w \<leftarrow> kv_set H key ''1'';
                      case w of
                        Some e \<Rightarrow> ingress_ack H reply (inr_req_id req) False
                      | None \<Rightarrow> do {
                          _ \<leftarrow> publish H (audit_topic ''ingress_trusted'')
                            (JObj [(''source_id'', JStr (caller_source ctx))]);
                          ingress_ack H reply (inr_req_id req) True
                        }
                    }
                  | None \<Rightarrow> ingress_ack H reply (inr_req_id req) False)
              else ingress_ack H reply (inr_req_id req) False
            }
        }))"

subsection \<open>Capsule grants\<close>

definition clear_grant_marker :: "bhost \<Rightarrow> string \<Rightarrow> unit bio" where
  "clear_grant_marker H capsule_id = do {
     c \<leftarrow> runtime_caller H;
     _ \<leftarrow> take_grant_pending H
       (case c of Inl e \<Rightarrow> [] | Inr ctx \<Rightarrow> or_default [] (caller_principal ctx)) capsule_id;
     ret ()
   }"

definition handle_mcp_grant_respond :: "bhost \<Rightarrow> json \<Rightarrow> unit bio" where
  "handle_mcp_grant_respond H payload =
     (case decode_grant_respond payload of
        None \<Rightarrow> ret ()
      | Some req \<Rightarrow> (let reply = reply_topic (grr_req_id req) in
          case response_topic (grr_request_id req) of
            None \<Rightarrow> do {
              clear_grant_marker H (grr_capsule_id req);
              grant_ack H reply (grr_req_id req) False
            }
          | Some resp_topic \<Rightarrow> do {
              c \<leftarrow> runtime_caller H;
              case c of
                Inl e \<Rightarrow> do {
                  publish_decision H resp_topic (grr_request_id req) DENY None;
                  clear_grant_marker H (grr_capsule_id req);
                  grant_ack H reply (grr_req_id req) False
                }
              | Inr ctx \<Rightarrow> do {
                  trusted \<leftarrow> is_ingress_trusted H (caller_source ctx);
                  if \<not> trusted then do {
                    publish_decision H resp_topic (grr_request_id req) DENY None;
                    clear_grant_marker H (grr_capsule_id req);
                    grant_ack H reply (grr_req_id req) False
                  }
                  else (let decision = normalize_decision (grr_decision req);
                            granted = is_approve_verb decision in do {
                    (case respond_decision_to_record granted of
                       Some rec \<Rightarrow> record_grant_decision H (grr_capsule_id req) rec
                     | None \<Rightarrow> ret ());
                    publish_decision H resp_topic (grr_request_id req) decision None;
                    clear_grant_marker H (grr_capsule_id req);
                    grant_ack H reply (grr_req_id req) granted
                  })
                }
            }))"

subsection \<open>Symbolic execution\<close>

lemma wp_deliver_result [wpI]: "(\<And>e. Q () (EvPub t (JObj [(''kind'', JStr ''tool.call''), (''req_id'', JStr i),
     (''content'', mcp_content H c), (''isError'', JBool b)]) e # tr)) \<Longrightarrow>
   wp (deliver_result H t i c b) Q tr"
  unfolding deliver_result_def by (intro wpI)

lemma wp_deliver_error [wpI]: "(\<And>e. Q () (EvPub t (JObj [(''kind'', JStr ''tool.call''), (''req_id'', JStr i),
     (''content'', mcp_content H (JStr (tagged m))), (''isError'', JBool True)]) e # tr)) \<Longrightarrow>
   wp (deliver_error H t i m) Q tr"
  unfolding deliver_error_def by (intro wpI)

lemma wp_ingress_ack [wpI]:
  assumes "r = None \<Longrightarrow> Q () tr"
    and "\<And>t e. r = Some t \<Longrightarrow> Q () (EvPub t (JObj [(''kind'', JStr ''ingress.respond''),
      (''req_id'', JStr i), (''granted'', JBool g)]) e # tr)"
  shows "wp (ingress_ack H r i g) Q tr"
  unfolding ingress_ack_def by (intro wpI) (use assms in simp_all)

lemma wp_grant_ack [wpI]:
  assumes "r = None \<Longrightarrow> Q () tr"
    and "\<And>t e. r = Some t \<Longrightarrow> Q () (EvPub t (JObj [(''kind'', JStr ''grant.respond''),
      (''req_id'', JStr i), (''granted'', JBool g)]) e # tr)"
  shows "wp (grant_ack H r i g) Q tr"
  unfolding grant_ack_def by (intro wpI) (use assms in simp_all)

definition recv_on :: "string \<Rightarrow> (string, json) event \<Rightarrow> bool" where
  "recv_on sub e \<longleftrightarrow> (\<exists>ms r. e = EvRecv sub ms r \<and> ms \<le> RESUME_SLICE_MS)"

lemma recv_on_quiet: "list_all (recv_on sub) evs \<Longrightarrow> pubs evs = [] \<and> pubs_on t evs = [] \<and>
   on_responses evs = [] \<and> list_all (\<lambda>e. writes_key e = None) evs"
  by (induction evs) (auto simp: recv_on_def)

lemma wp_drain_result:
  "wp (drain_result H sub call_id remaining) (\<lambda>r tr'. \<exists>evs. tr' = evs @ tr \<and> list_all (recv_on sub) evs) tr"
proof (induction H sub call_id remaining arbitrary: tr rule: drain_result.induct)
  case (1 H sub call_id remaining)
  let ?Q = "\<lambda>tr r tr'. \<exists>evs. tr' = evs @ tr \<and> list_all (recv_on sub) evs"
  let ?R = "EvRecv sub (min remaining RESUME_SLICE_MS)"
  have ev: "list_all (recv_on sub) [?R r]" for r by (simp add: recv_on_def)
  show ?case
  proof (cases "remaining = 0")
    case True
    then show ?thesis by (subst drain_result.simps) (auto intro!: wpI)
  next
    case False
    have more: "wp (drain_result H sub call_id (remaining - min remaining RESUME_SLICE_MS)) (?Q tr) (?R r # tr)" for r
    proof (rule wp_mono [OF "1.IH" [OF False sum.case(1)]], elim exE conjE)
      fix x tr' evs
      assume "tr' = evs @ ?R r # tr" "list_all (recv_on sub) evs"
      then show "?Q tr x tr'" using ev [of r] by (intro exI [where x = "evs @ [?R r]"]) simp
    qed
    have one: "?Q tr x (?R r # tr)" for r and x :: "(json \<times> bool) option"
      using ev [of r] by (intro exI [where x = "[?R r]"]) simp
    show ?thesis
      unfolding drain_result.simps [of H sub call_id remaining] if_not_P [OF False]
      by (intro wp_bind wp_recv wp_case_option wp_return more one)
  qed
qed

text \<open>
  The resolution of an approval: for a valid tool name the result subscription comes first, then the
  one decision, then only receives and the one reply.
\<close>

definition resolve_trace :: "bhost \<Rightarrow> approval_respond \<Rightarrow> string \<Rightarrow> string \<Rightarrow> string option \<Rightarrow> btrace \<Rightarrow> bool" where
  "resolve_trace H req t d reason evs \<longleftrightarrow>
     (let decide = EvPub t (decision_envelope (apr_request_id req) d reason) in
      \<exists>e replies waits subs. evs = replies @ waits @ [decide e] @ subs \<and>
        list_all (recv_on (result_topic (apr_tool_name req))) waits \<and>
        (if is_valid_tool_name (apr_tool_name req)
         then \<exists>s. subs = [EvSub (result_topic (apr_tool_name req)) s] else subs = []) \<and>
        (case reply_topic (apr_req_id req) of
           None \<Rightarrow> replies = []
         | Some r \<Rightarrow> \<exists>m e. replies = [EvPub r m e] \<and> get_str ''kind'' m = Some ''tool.call'' \<and>
             get_str ''req_id'' m = Some (apr_req_id req)))"

lemma wp_resolve:
  assumes "\<And>evs. resolve_trace H req t d reason evs \<Longrightarrow> Q () (evs @ tr)"
  shows "wp (resolve_with_decision H req t d reason) Q tr"
proof -
  let ?D = "EvPub t (decision_envelope (apr_request_id req) d reason)"
    and ?S = "EvSub (result_topic (apr_tool_name req))"
    and ?sub = "result_topic (apr_tool_name req)"
  have rule: "Q () (replies @ waits @ ?D e # subs @ tr)"
    if "list_all (recv_on ?sub) waits"
      "if is_valid_tool_name (apr_tool_name req) then \<exists>s. subs = [?S s] else subs = []"
      "case reply_topic (apr_req_id req) of None \<Rightarrow> replies = []
         | Some r \<Rightarrow> \<exists>m e. replies = [EvPub r m e] \<and> get_str ''kind'' m = Some ''tool.call'' \<and>
             get_str ''req_id'' m = Some (apr_req_id req)"
    for replies waits e subs
  proof -
    have "resolve_trace H req t d reason (replies @ waits @ [?D e] @ subs)"
      unfolding resolve_trace_def Let_def using that by blast
    from assms [OF this] show ?thesis by simp
  qed
  show ?thesis
  proof (cases "is_valid_tool_name (apr_tool_name req)")
    case False
    then show ?thesis
      unfolding resolve_with_decision_def Let_def
      using rule [of "[]" "[]"] rule [of "[]" _ "[EvPub _ _ _]"]
      by (auto intro!: wpI simp: get_str_def)
  next
    case valid: True
    show ?thesis
    proof (cases "reply_topic (apr_req_id req)")
      case None
      with valid show ?thesis
        unfolding resolve_with_decision_def Let_def
        using rule [of "[]" "[_]" "[]"] by (auto intro!: wpI)
    next
      case (Some r)
      have final: "wp (case found of
            Some ce \<Rightarrow> deliver_result H r (apr_req_id req) (fst ce) (snd ce)
          | None \<Rightarrow> deliver_error H r (apr_req_id req)
              ''tool did not return a result after the approval decision'') Q (waits @ ?D e # ?S s # tr)"
        if "list_all (recv_on ?sub) waits" for found waits e s
        using rule [OF that, of "[?S s]" "[EvPub r _ _]" e] valid Some
        by (auto intro!: wpI simp: get_str_def split: option.split)
      have drained: "wp (drain_result H ?sub (apr_call_id req) RESUME_TIMEOUT_MS)
         (\<lambda>found. wp (case found of
            Some ce \<Rightarrow> deliver_result H r (apr_req_id req) (fst ce) (snd ce)
          | None \<Rightarrow> deliver_error H r (apr_req_id req)
              ''tool did not return a result after the approval decision'') Q) (?D e # ?S s # tr)" for e s
        by (rule wp_mono [OF wp_drain_result]) (auto intro: final)
      show ?thesis
        unfolding resolve_with_decision_def Let_def
        using valid Some drained final [of "[]" None]
        by (auto intro!: wp_bind wp_subscribe wp_publish_decision wp_return split: option.split)
    qed
  qed
qed

end
