(* ===== verification/Approval_Spec.thy ===== *)
theory Approval_Spec
  imports Approval
begin

text \<open>
  What the respond handlers promise: one decision per routable approval, published after the result
  subscription and an approval only for a trusted caller; trust recorded only for an accepted,
  outstanding prompt of the attributed caller; grants recorded only as approvals of a trusted caller.
\<close>

text \<open>Where the decision of an approval comes from: the caller's trust and the submitted verb.\<close>

definition approval_decision :: "approval_respond \<Rightarrow> btrace \<Rightarrow> string \<Rightarrow> string option \<Rightarrow> bool" where
  "approval_decision req evs d reason \<longleftrightarrow>
     (d = DENY \<and> reason = None) \<or>
     (d = normalize_decision (apr_decision req) \<and> reason = apr_reason req \<and>
       (\<exists>(ctx :: caller) b. EvCaller (Inr ctx) \<in> set evs \<and> caller_source ctx \<noteq> [] \<and>
         EvGet (INGRESS_TRUST_KEY_PREFIX @ caller_source ctx) (Inr (Some b)) \<in> set evs))"

lemma presentD: "present r \<Longrightarrow> \<exists>b. r = Inr (Some b)"
  by (auto simp: present_def split: sum.splits option.splits)

lemma wp_handle_approval:
  assumes "decode_approval_respond payload = Some req" "response_topic (apr_request_id req) = Some t"
    and "\<And>d reason post pre. resolve_trace H req t d reason post \<Longrightarrow>
      approval_decision req pre d reason \<Longrightarrow> pubs pre = [] \<Longrightarrow>
      list_all (\<lambda>e. writes_key e = None) pre \<Longrightarrow> Q () (post @ pre @ tr)"
  shows "wp (handle_mcp_approval H payload) Q tr"
proof -
  have deny: "wp (resolve_with_decision H req t DENY None) Q (pre @ tr)"
    if "pubs pre = []" "list_all (\<lambda>e. writes_key e = None) pre" for pre
    using that assms(3) by (auto intro!: wp_resolve simp: approval_decision_def)
  have ok: "wp (resolve_with_decision H req t (normalize_decision (apr_decision req)) (apr_reason req)) Q
      (EvGet (INGRESS_TRUST_KEY_PREFIX @ caller_source ctx) r # EvCaller (Inr ctx) # tr)"
    if "caller_source ctx \<noteq> []" "present r" for ctx :: caller and r
  proof (rule wp_resolve)
    fix evs
    let ?pre = "[EvGet (INGRESS_TRUST_KEY_PREFIX @ caller_source ctx) r, EvCaller (Inr ctx)]"
    assume "resolve_trace H req t (normalize_decision (apr_decision req)) (apr_reason req) evs"
    moreover have "approval_decision req ?pre (normalize_decision (apr_decision req)) (apr_reason req)"
      using presentD [OF that(2)] that(1) by (auto simp: approval_decision_def)
    ultimately show "Q () (evs @ EvGet (INGRESS_TRUST_KEY_PREFIX @ caller_source ctx) r # EvCaller (Inr ctx) # tr)"
      using assms(3) [of _ _ evs ?pre] by simp
  qed
  show ?thesis
    unfolding handle_mcp_approval_def assms(1,2) option.case
  proof (intro wp_bind wp_caller wp_case_sum)
    fix r :: "host_error + caller" and e assume "r = Inl e"
    then show "wp (resolve_with_decision H req t DENY None) Q (EvCaller r # tr)"
      using deny [of "[EvCaller r]"] by simp
  next
    fix r :: "host_error + caller" and ctx assume r: "r = Inr ctx"
    have no: "wp (resolve_with_decision H req t DENY None) Q (EvCaller (Inr ctx) # tr)"
      using deny [of "[EvCaller (Inr ctx)]"] by simp
    have no': "wp (resolve_with_decision H req t DENY None) Q (EvGet k g # EvCaller (Inr ctx) # tr)" for k g
      using deny [of "[EvGet k g, EvCaller (Inr ctx)]"] by simp
    show "wp (is_ingress_trusted H (caller_source ctx))
      (\<lambda>trusted. wp (if \<not> trusted then resolve_with_decision H req t DENY None
         else resolve_with_decision H req t (normalize_decision (apr_decision req)) (apr_reason req)) Q)
      (EvCaller r # tr)"
      unfolding r using no no' ok by (intro wp_is_ingress_trusted wp_if) simp_all
  qed
qed

lemma envelope_verb: "get_str ''decision'' (decision_envelope i d r) = Some d"
  by (auto simp: decision_envelope_def Let_def get_str_def split: option.splits)

lemma envelope_verb_inj: "decision_envelope i d r = decision_envelope i' d' r' \<Longrightarrow> d = d'"
  by (drule arg_cong [where f = "get_str ''decision''"]) (simp add: envelope_verb)

lemma envelope_not_ack [simp]:
  "JObj ((''kind'', x) # ys) \<noteq> decision_envelope i d r" "decision_envelope i d r \<noteq> JObj ((''kind'', x) # ys)"
  by (auto simp: decision_envelope_def Let_def split: option.splits)

text \<open>
  C8: an approval response for a routable request produces exactly one decision on that request's
  topic.  The decision is one of the four host verbs, and it approves only when the runtime
  attributed the caller, the caller's ingress trust was read as present and the submitted verb was
  an approval; in every other case the tool is unblocked with a deny.  When the echoed tool name is
  valid, the subscription to its result precedes the decision, so the resumed result cannot be missed.
\<close>

theorem approval_decides_once:
  assumes "decode_approval_respond payload = Some req" "response_topic (apr_request_id req) = Some t"
  shows "\<exists>d reason. pubs_on t (new_events (handle_mcp_approval H payload) tr) =
      [decision_envelope (apr_request_id req) d reason] \<and>
    d \<in> {APPROVE, APPROVE_SESSION, APPROVE_ALWAYS, DENY} \<and>
    (is_approve_verb d \<longrightarrow> is_approve_verb (map ascii_lower (trim (apr_decision req))) \<and>
      (\<exists>(ctx :: caller) b. EvCaller (Inr ctx) \<in> set (new_events (handle_mcp_approval H payload) tr) \<and>
        EvGet (INGRESS_TRUST_KEY_PREFIX @ caller_source ctx) (Inr (Some b)) \<in>
          set (new_events (handle_mcp_approval H payload) tr))) \<and>
    (is_valid_tool_name (apr_tool_name req) \<longrightarrow>
      (\<exists>later earlier e s. new_events (handle_mcp_approval H payload) tr = later @
         EvPub t (decision_envelope (apr_request_id req) d reason) e #
         EvSub (result_topic (apr_tool_name req)) s # earlier))"
proof -
  let ?P = "\<lambda>evs. \<exists>d reason. pubs_on t evs = [decision_envelope (apr_request_id req) d reason] \<and>
    d \<in> {APPROVE, APPROVE_SESSION, APPROVE_ALWAYS, DENY} \<and>
    (is_approve_verb d \<longrightarrow> is_approve_verb (map ascii_lower (trim (apr_decision req))) \<and>
      (\<exists>(ctx :: caller) b. EvCaller (Inr ctx) \<in> set evs \<and>
        EvGet (INGRESS_TRUST_KEY_PREFIX @ caller_source ctx) (Inr (Some b)) \<in> set evs)) \<and>
    (is_valid_tool_name (apr_tool_name req) \<longrightarrow> (\<exists>later earlier e s. evs = later @
         EvPub t (decision_envelope (apr_request_id req) d reason) e #
         EvSub (result_topic (apr_tool_name req)) s # earlier))"
  have "?P (post @ pre)"
    if res: "resolve_trace H req t d reason post" and dec: "approval_decision req pre d reason"
      and quiet: "pubs pre = []" for d reason post pre
  proof -
    let ?D = "EvPub t (decision_envelope (apr_request_id req) d reason)"
    obtain e replies waits subs where post: "post = replies @ waits @ [?D e] @ subs"
      and waits: "list_all (recv_on (result_topic (apr_tool_name req))) waits"
      and subs: "if is_valid_tool_name (apr_tool_name req)
         then \<exists>s. subs = [EvSub (result_topic (apr_tool_name req)) s] else subs = []"
      and replies: "case reply_topic (apr_req_id req) of None \<Rightarrow> replies = []
         | Some r \<Rightarrow> \<exists>m e. replies = [EvPub r m e] \<and> get_str ''kind'' m = Some ''tool.call'' \<and>
             get_str ''req_id'' m = Some (apr_req_id req)"
      using res unfolding resolve_trace_def Let_def by blast
    have "pubs_on t replies = []"
      using replies response_topic_SomeD [OF assms(2)] by (auto split: option.splits dest!: reply_topics.gate_SomeD)
    moreover have "pubs_on t subs = []" using subs by (auto split: if_splits)
    moreover have "pubs_on t pre = []" using quiet by (simp add: pubs_on_def)
    ultimately have once: "pubs_on t (post @ pre) = [decision_envelope (apr_request_id req) d reason]"
      using recv_on_quiet [OF waits] by (simp add: post)
    have verb: "d \<in> {APPROVE, APPROVE_SESSION, APPROVE_ALWAYS, DENY}"
      using dec normalize_cases by (auto simp: approval_decision_def)
    have auth: "is_approve_verb d \<longrightarrow> is_approve_verb (map ascii_lower (trim (apr_decision req))) \<and>
      (\<exists>(ctx :: caller) b. EvCaller (Inr ctx) \<in> set (post @ pre) \<and>
        EvGet (INGRESS_TRUST_KEY_PREFIX @ caller_source ctx) (Inr (Some b)) \<in> set (post @ pre))"
      using dec by (auto simp: approval_decision_def normalize_approve_iff)
    have order: "is_valid_tool_name (apr_tool_name req) \<longrightarrow> (\<exists>later earlier e s. post @ pre = later @
         ?D e # EvSub (result_topic (apr_tool_name req)) s # earlier)"
    proof
      assume "is_valid_tool_name (apr_tool_name req)"
      then obtain s where "subs = [EvSub (result_topic (apr_tool_name req)) s]" using subs by auto
      then show "\<exists>later earlier e s. post @ pre = later @ ?D e # EvSub (result_topic (apr_tool_name req)) s # earlier"
        by (intro exI [where x = "replies @ waits"] exI [where x = pre] exI) (simp add: post)
    qed
    show ?thesis
      by (intro exI [where x = d] exI [where x = reason] conjI once verb auth order)
  qed
  then have "wp (handle_mcp_approval H payload) (\<lambda>_ t. ?P (since tr t)) tr"
    using assms by (intro wp_handle_approval) (auto simp flip: append_assoc)
  then show ?thesis by (rule wp_new_events)
qed

lemma approval_decides_once_witness:
  "\<exists>d reason. pubs_on ''astrid.v1.approval.response.q1'' (new_events (handle_mcp_approval mem_host (JObj
      [(''req_id'', JStr ''r1''), (''request_id'', JStr ''q1''), (''decision'', JStr ''approve''),
       (''tool_name'', JStr ''t''), (''call_id'', JStr ''c'')])) []) = [decision_envelope ''q1'' d reason]"
  using approval_decides_once [of "JObj
      [(''req_id'', JStr ''r1''), (''request_id'', JStr ''q1''), (''decision'', JStr ''approve''),
       (''tool_name'', JStr ''t''), (''call_id'', JStr ''c'')]"
      "\<lparr>apr_req_id = ''r1'', apr_request_id = ''q1'', apr_decision = ''approve'', apr_tool_name = ''t'',
        apr_call_id = ''c'', apr_reason = None\<rparr>" "''astrid.v1.approval.response.q1''" mem_host "[]"]
  by (auto simp: decode_approval_respond_def request_eval maybe_string_def response_topic_def
      MAX_REQUEST_ID_LEN_def APPROVAL_RESPONSE_PREFIX_def)

text \<open>
  ingress trust is written only when the user accepted, for the source the runtime attributes to
  the caller, after a prompt marker for that very source was read and deleted in the same run; it is
  the only key the handler ever sets.  An unsolicited or replayed accept writes nothing.
\<close>

theorem ingress_trust_needs_prompt:
  assumes "EvSet k v e \<in> set (new_events (handle_mcp_ingress_respond H payload) tr)"
  shows "\<exists>req (ctx :: caller) b d. decode_ingress_respond payload = Some req \<and> inr_accept req \<and>
    caller_source ctx \<noteq> [] \<and> k = INGRESS_TRUST_KEY_PREFIX @ caller_source ctx \<and> v = ''1'' \<and>
    EvCaller (Inr ctx) \<in> set (new_events (handle_mcp_ingress_respond H payload) tr) \<and>
    EvGet (INGRESS_PENDING_KEY_PREFIX @ caller_source ctx) (Inr (Some b)) \<in>
      set (new_events (handle_mcp_ingress_respond H payload) tr) \<and>
    EvDel (INGRESS_PENDING_KEY_PREFIX @ caller_source ctx) d \<in>
      set (new_events (handle_mcp_ingress_respond H payload) tr)"
proof -
  let ?P = "\<lambda>evs. EvSet k v e \<in> set evs \<longrightarrow> (\<exists>req (ctx :: caller) b d.
    decode_ingress_respond payload = Some req \<and> inr_accept req \<and>
    caller_source ctx \<noteq> [] \<and> k = INGRESS_TRUST_KEY_PREFIX @ caller_source ctx \<and> v = ''1'' \<and>
    EvCaller (Inr ctx) \<in> set evs \<and>
    EvGet (INGRESS_PENDING_KEY_PREFIX @ caller_source ctx) (Inr (Some b)) \<in> set evs \<and>
    EvDel (INGRESS_PENDING_KEY_PREFIX @ caller_source ctx) d \<in> set evs)"
  have "wp (handle_mcp_ingress_respond H payload) (\<lambda>_ t. ?P (since tr t)) tr"
    unfolding handle_mcp_ingress_respond_def Let_def
    by (intro wpI) (auto simp: ingress_pending_key_def ingress_trust_key_def dest!: presentD split: if_splits)
  then have "?P (new_events (handle_mcp_ingress_respond H payload) tr)" by (rule wp_new_events)
  with assms show ?thesis by simp
qed

text \<open>
  a grant response publishes an approval, and records a decision, only for an attributed and
  trusted caller whose verb approves; what it records is the approval of the named capsule, never a
  deny; and whatever happens the prompt marker of the capsule, when there is one, is taken.
\<close>

theorem grant_respond_authorised:
  assumes "e \<in> set (new_events (handle_mcp_grant_respond H payload) tr)"
    and "(\<exists>k v r. e = EvSet k v r) \<or>
      (\<exists>t i d reason r. e = EvPub t (decision_envelope i d reason) r \<and> is_approve_verb d)"
  shows "\<exists>req (ctx :: caller) b. decode_grant_respond payload = Some req \<and>
    is_approve_verb (map ascii_lower (trim (grr_decision req))) \<and>
    EvCaller (Inr ctx) \<in> set (new_events (handle_mcp_grant_respond H payload) tr) \<and>
    caller_source ctx \<noteq> [] \<and>
    EvGet (INGRESS_TRUST_KEY_PREFIX @ caller_source ctx) (Inr (Some b)) \<in>
      set (new_events (handle_mcp_grant_respond H payload) tr) \<and>
    (\<forall>k v r. e = EvSet k v r \<longrightarrow> grr_capsule_id req \<noteq> [] \<and>
      k = GRANT_DECISION_KEY_PREFIX @ grr_capsule_id req \<and> v = as_kv_value GrantApprove)"
proof -
  let ?hit = "\<lambda>e :: (string, json) event. (\<exists>k v r. e = EvSet k v r) \<or>
      (\<exists>t i d reason r. e = EvPub t (decision_envelope i d reason) r \<and> is_approve_verb d)"
  let ?P = "\<lambda>evs. e \<in> set evs \<longrightarrow> ?hit e \<longrightarrow> (\<exists>req (ctx :: caller) b. decode_grant_respond payload = Some req \<and>
    is_approve_verb (map ascii_lower (trim (grr_decision req))) \<and>
    EvCaller (Inr ctx) \<in> set evs \<and> caller_source ctx \<noteq> [] \<and>
    EvGet (INGRESS_TRUST_KEY_PREFIX @ caller_source ctx) (Inr (Some b)) \<in> set evs \<and>
    (\<forall>k v r. e = EvSet k v r \<longrightarrow> grr_capsule_id req \<noteq> [] \<and>
      k = GRANT_DECISION_KEY_PREFIX @ grr_capsule_id req \<and> v = as_kv_value GrantApprove))"
  have "wp (handle_mcp_grant_respond H payload) (\<lambda>_ t. ?P (since tr t)) tr"
    unfolding handle_mcp_grant_respond_def clear_grant_marker_def respond_decision_to_record_def Let_def
    by (intro wpI)
      (auto simp: grant_pending_key_def normalize_approve_iff dest!: presentD dest: envelope_verb_inj
        split: if_splits)
  then have "?P (new_events (handle_mcp_grant_respond H payload) tr)" by (rule wp_new_events)
  with assms show ?thesis by blast
qed

text \<open>Witnesses: the demonstration host, with the prompt marker set, or the ingress trusted.\<close>

definition demo_accept :: json where
  "demo_accept = JObj [(''req_id'', JStr ''r1''), (''accept'', JBool True)]"

definition demo_prompted :: btrace where
  "demo_prompted = [EvSet ''mcp.ingress.pending.shim'' ''1'' None]"

definition demo_grant :: json where
  "demo_grant = JObj [(''req_id'', JStr ''r1''), (''request_id'', JStr ''q1''),
     (''decision'', JStr ''approve''), (''capsule_id'', JStr ''cap'')]"

lemma demo_trusts:
  "EvSet ''mcp.ingress.trust.shim'' ''1'' None \<in>
     set (new_events (handle_mcp_ingress_respond demo_host demo_accept) demo_prompted)"
  by (simp add: handle_mcp_ingress_respond_def demo_accept_def decode_ingress_respond_def request_eval
      take_ingress_pending_def ingress_pending_key_def ingress_trust_key_def key_prefix_defs demo_prompted_def
      ingress_ack_def publish_reply_def host_defs new_events_def final_trace_def since_def Let_def)

lemma ingress_trust_needs_prompt_witness:
  "\<exists>(ctx :: caller) d. EvDel (INGRESS_PENDING_KEY_PREFIX @ caller_source ctx) d \<in>
     set (new_events (handle_mcp_ingress_respond demo_host demo_accept) demo_prompted)"
  using ingress_trust_needs_prompt [OF demo_trusts] by blast

lemma demo_records:
  "EvSet ''mcp.grant.decision.cap'' ''approve'' None \<in>
     set (new_events (handle_mcp_grant_respond demo_host demo_grant) demo_trusted)"
proof -
  have norm: "normalize_decision ''approve'' = APPROVE" by code_simp
  show ?thesis
    by (simp add: handle_mcp_grant_respond_def demo_grant_def decode_grant_respond_def opt_string_def request_eval
      response_topic_def MAX_REQUEST_ID_LEN_def is_ingress_trusted_eq norm respond_decision_to_record_def
      record_grant_decision_def grant_decision_key_def GRANT_DECISION_APPROVE_def publish_decision_def
      clear_grant_marker_def take_grant_pending_def grant_pending_key_def key_prefix_defs demo_trusted_def
      grant_ack_def publish_reply_def host_defs new_events_def final_trace_def since_def Let_def)
qed

lemma grant_respond_authorised_witness:
  "\<exists>(ctx :: caller) b. EvGet (INGRESS_TRUST_KEY_PREFIX @ caller_source ctx) (Inr (Some b)) \<in>
     set (new_events (handle_mcp_grant_respond demo_host demo_grant) demo_trusted)"
  using grant_respond_authorised [OF demo_records] by blast

end
