(* ===== verification/Consent.thy ===== *)
theory Consent
  imports Approval_Spec
begin

text \<open>
  The two consent protocols across the broker's handlers, run on a store without faults: the ingress
  prompt (call, answer, call again) and grant-on-use (refused call, answer, call again).
\<close>

lemma run_trusted: "live_store H \<Longrightarrow> run_state (is_ingress_trusted H s) tr = (if s = [] then (False, tr)
   else (kv_view tr (INGRESS_TRUST_KEY_PREFIX @ s) \<noteq> None,
     EvGet (INGRESS_TRUST_KEY_PREFIX @ s) (Inr (kv_view tr (INGRESS_TRUST_KEY_PREFIX @ s))) # tr))"
  by (simp add: is_ingress_trusted_def ingress_trust_key_def live_store.run_get split: option.split)

lemma keys_distinct [simp]:
  "INGRESS_TRUST_KEY_PREFIX @ a \<noteq> INGRESS_PENDING_KEY_PREFIX @ b"
  "INGRESS_PENDING_KEY_PREFIX @ b \<noteq> INGRESS_TRUST_KEY_PREFIX @ a"
  "GRANT_DECISION_KEY_PREFIX @ a \<noteq> GRANT_PENDING_KEY_PREFIX @ b"
  "GRANT_PENDING_KEY_PREFIX @ b \<noteq> GRANT_DECISION_KEY_PREFIX @ a"
  "GRANT_DECISION_KEY_PREFIX @ a \<noteq> INGRESS_TRUST_KEY_PREFIX @ b"
  "INGRESS_TRUST_KEY_PREFIX \<noteq> INGRESS_PENDING_KEY_PREFIX" "INGRESS_PENDING_KEY_PREFIX \<noteq> INGRESS_TRUST_KEY_PREFIX"
  "GRANT_DECISION_KEY_PREFIX \<noteq> GRANT_PENDING_KEY_PREFIX" "GRANT_PENDING_KEY_PREFIX \<noteq> GRANT_DECISION_KEY_PREFIX"
  by (simp_all add: key_prefix_defs)

text \<open>The state of the ingress prompt after a withheld call, and after an answer.\<close>

lemma withheld_call:
  assumes "live_store H" "\<And>tr. h_caller H tr = Inr ctx" "s = caller_source ctx" "s \<noteq> []"
    and "decode_call_request call = Some req" "cr_name req \<noteq> PRETOOLUSE_GATE_TOOL"
    and "reply_topic (cr_req_id req) = Some topic" "kv_view tr (INGRESS_TRUST_KEY_PREFIX @ s) = None"
  shows "\<exists>e. final_trace (handle_mcp_call H call) tr =
    EvPub topic (consent_reply H req s) e # EvSet (INGRESS_PENDING_KEY_PREFIX @ s) ''1'' None #
    EvGet (INGRESS_TRUST_KEY_PREFIX @ s) (Inr None) # EvCaller (Inr ctx) # tr"
  using assms
  by (simp add: handle_mcp_call_def final_trace_def runtime_caller_def run_trusted
      live_store.run_set mark_ingress_pending_def ingress_pending_key_def publish_reply_def publish_def)

lemma answered_prompt:
  assumes "live_store H" "\<And>tr. h_caller H tr = Inr ctx" "s = caller_source ctx" "s \<noteq> []"
    and "decode_ingress_respond answer = Some r"
    and "kv_view tr (INGRESS_PENDING_KEY_PREFIX @ s) = Some m"
  shows "kv_view (final_trace (handle_mcp_ingress_respond H answer) tr) (INGRESS_PENDING_KEY_PREFIX @ s) = None \<and>
    kv_view (final_trace (handle_mcp_ingress_respond H answer) tr) (INGRESS_TRUST_KEY_PREFIX @ s) =
      (if inr_accept r then Some ''1'' else kv_view tr (INGRESS_TRUST_KEY_PREFIX @ s))"
  using assms
  by (simp add: handle_mcp_ingress_respond_def final_trace_def runtime_caller_def Let_def
      ingress_marker.take_live [of H] ingress_pending_key_def ingress_trust_key_def ingress_ack_def
      live_store.run_set publish_reply_def publish_def split: option.split)

text \<open>
  C6: the ingress consent round trip.  A first call from an untrusted source is withheld: it executes
  nothing, its reply asks for consent, and the answer of the same caller decides.  After an accept
  the source is trusted and stays so; after a decline it is not; in both cases the prompt is spent,
  so a replayed accept after a decline changes nothing.
\<close>

theorem ingress_consent_roundtrip:
  assumes "live_store H" "\<And>tr. h_caller H tr = Inr ctx" "s = caller_source ctx" "s \<noteq> []"
    and "decode_call_request call = Some req" "cr_name req \<noteq> PRETOOLUSE_GATE_TOOL"
    and "reply_topic (cr_req_id req) = Some topic" "kv_view tr (INGRESS_TRUST_KEY_PREFIX @ s) = None"
    and "decode_ingress_respond answer = Some r"
    and "tr1 = final_trace (handle_mcp_call H call) tr"
    and "tr2 = final_trace (handle_mcp_ingress_respond H answer) tr1"
    and "tr3 = final_trace (handle_mcp_ingress_respond H replay) tr2"
  shows "pubs (since tr tr1) = [(topic, consent_reply H req s)] \<and>
    fst (run_state (is_ingress_trusted H s) tr2) = inr_accept r \<and>
    fst (run_state (is_ingress_trusted H s) tr3) = inr_accept r"
proof -
  obtain e where tr1: "tr1 = EvPub topic (consent_reply H req s) e #
      EvSet (INGRESS_PENDING_KEY_PREFIX @ s) ''1'' None #
      EvGet (INGRESS_TRUST_KEY_PREFIX @ s) (Inr None) # EvCaller (Inr ctx) # tr"
    using withheld_call [OF assms(1-8)] assms(10) by auto
  then have two: "kv_view tr2 (INGRESS_PENDING_KEY_PREFIX @ s) = None"
      "kv_view tr2 (INGRESS_TRUST_KEY_PREFIX @ s) = (if inr_accept r then Some ''1'' else None)"
    using answered_prompt [OF assms(1-4,9), of tr1 "''1''"] assms(8,11) by auto
  have "kv_view tr3 (INGRESS_TRUST_KEY_PREFIX @ s) = kv_view tr2 (INGRESS_TRUST_KEY_PREFIX @ s)"
    using assms(1-4) two(1)
    by (simp add: assms(12) handle_mcp_ingress_respond_def final_trace_def runtime_caller_def Let_def
        ingress_marker.take_live [of H] ingress_pending_key_def ingress_ack_def publish_reply_def publish_def
        split: option.split)
  then show ?thesis
    using two assms(1,4) by (simp add: tr1 run_trusted)
qed

text \<open>
  C7: grant-on-use converges.  When a trusted caller approves the grant of a capsule, the decision is
  recorded, and every later refusal of a call for that capsule is answered without a prompt: the
  approval is published to the new awaiter and the client is told to retry.  When the caller
  declines, nothing is recorded and the marker is spent, so the next refusal prompts afresh.
\<close>

theorem grant_convergence:
  assumes "live_store H" "\<And>tr. h_caller H tr = Inr ctx" "caller_source ctx \<noteq> []"
    and "kv_view tr (INGRESS_TRUST_KEY_PREFIX @ caller_source ctx) \<noteq> None"
    and "decode_grant_respond answer = Some r" "response_topic (grr_request_id r) \<noteq> None"
    and "grr_capsule_id r = cap" "cap \<noteq> []" "kv_view tr (GRANT_DECISION_KEY_PREFIX @ cap) = None"
    and "gr_capsule_id g = cap" "response_topic (gr_request_id g) = Some t"
    and "tr1 = final_trace (handle_mcp_grant_respond H answer) tr"
  shows "if is_approve_verb (normalize_decision (grr_decision r))
    then fst (run_state (grant_outcome_reply H req p g) tr1) =
        grant_auto_approve_reply H (cr_req_id req) cap \<and>
      pubs_on t (new_events (grant_outcome_reply H req p g) tr1) = [decision_envelope (gr_request_id g) APPROVE None]
    else fst (run_state (grant_outcome_reply H req p g) tr1) =
        pending_reply H req ''grant_required'' (grant_reply_flag g (cr_name req) (cr_req_id req)) \<and>
      pubs (new_events (grant_outcome_reply H req p g) tr1) = []"
proof -
  obtain rt where rt: "response_topic (grr_request_id r) = Some rt" using assms(6) by auto
  let ?dk = "GRANT_DECISION_KEY_PREFIX @ cap" and ?pk = "GRANT_PENDING_KEY_PREFIX @ cap"
  let ?ok = "is_approve_verb (normalize_decision (grr_decision r))"
  note run = live_store.run_get [OF assms(1)] live_store.run_set [OF assms(1)] live_store.run_del [OF assms(1)]
  have view: "kv_view tr1 ?dk = (if ?ok then Some ''approve'' else None) \<and> kv_view tr1 ?pk = None"
    using assms(1-5,7-9) rt
    by (auto simp: assms(12) handle_mcp_grant_respond_def final_trace_def runtime_caller_def Let_def run
        run_trusted respond_decision_to_record_def record_grant_decision_def grant_decision_key_def
        publish_decision_def publish_def clear_grant_marker_def grant_marker.take_live [of H] grant_pending_key_def
        grant_ack_def publish_reply_def GRANT_DECISION_APPROVE_def split: option.split)
  have parse: "parse_grant_decision ''approve'' = Some GrantApprove"
    using kv_value_roundtrip [of GrantApprove] by (simp add: GRANT_DECISION_APPROVE_def)
  have t: "audit_topic x \<noteq> t" for x using response_topic_SomeD [OF assms(11)] by auto
  show ?thesis
  proof (cases ?ok)
    case True
    then show ?thesis
      using view assms(8,10,11) t
      by (simp add: grant_outcome_reply_def recorded_grant_decision_eq run decision_of_read_def parse
          grant_action_reply_def publish_grant_auto_decision_def publish_decision_def publish_def audit_grant_def
          new_events_def final_trace_def since_def)
  next
    case False
    then show ?thesis
      using view assms(8,10)
      by (simp add: grant_outcome_reply_def recorded_grant_decision_eq run decision_of_read_def
          grant_action_reply_def grant_pending_def grant_pending_key_def mark_grant_pending_def wall_ms_def
          time_now_def new_events_def final_trace_def since_def)
  qed
qed

lemma ingress_consent_roundtrip_witness:
  "fst (run_state (is_ingress_trusted demo_host ''shim'') (final_trace (handle_mcp_ingress_respond demo_host demo_accept)
     (final_trace (handle_mcp_call demo_host demo_call) [])))"
  using ingress_consent_roundtrip [OF demo.live_store_axioms _ refl _ _ _ _ _ _ refl refl refl,
      of "\<lparr>caller_source = ''shim'', caller_principal = Some ''alice''\<rparr>" demo_call
        "\<lparr>cr_req_id = ''r1'', cr_name = ''fs.read'', cr_arguments = JNull\<rparr>"
        "''astrid.v1.response.r1''" "[]" demo_accept "\<lparr>inr_req_id = ''r1'', inr_accept = True\<rparr>" demo_accept]
  by (simp add: demo_call_def demo_accept_def decode_ingress_respond_def request_eval RESPONSE_PREFIX_def)

lemma grant_convergence_witness:
  "pubs_on ''astrid.v1.approval.response.q2'' (new_events (grant_outcome_reply demo_host
      \<lparr>cr_req_id = ''r1'', cr_name = ''fs.read'', cr_arguments = JNull\<rparr> ''alice''
      \<lparr>gr_request_id = ''q2'', gr_principal = [], gr_capsule_id = ''cap''\<rparr>)
      (final_trace (handle_mcp_grant_respond demo_host demo_grant) demo_trusted)) =
    [decision_envelope ''q2'' APPROVE None]"
proof -
  have norm: "is_approve_verb (normalize_decision ''approve'')" by code_simp
  show ?thesis
    using grant_convergence [OF demo.live_store_axioms _ _ _ _ _ _ _ _ _ _ refl,
        of "\<lparr>caller_source = ''shim'', caller_principal = Some ''alice''\<rparr>" demo_trusted demo_grant
          "\<lparr>grr_req_id = ''r1'', grr_request_id = ''q1'', grr_decision = ''approve'', grr_capsule_id = ''cap''\<rparr>"
          "''cap''" "\<lparr>gr_request_id = ''q2'', gr_principal = [], gr_capsule_id = ''cap''\<rparr>"
          "''astrid.v1.approval.response.q2''"] norm
    by (simp add: demo_trusted_def demo_grant_def decode_grant_respond_def opt_string_def request_eval
        response_topic_def MAX_REQUEST_ID_LEN_def APPROVAL_RESPONSE_PREFIX_def key_prefix_defs)
qed

end
