(* ===== verification/Hook_Bridge.thy ===== *)
theory Hook_Bridge
  imports Host
begin

text \<open>
  The hook bridge (\<open>capsules/capsule-hook-bridge/src/lib.rs\<close>): lifecycle events are mapped to hooks,
  fanned out to the subscribed capsules, and their replies merged; hooks of outside hosts (Codex,
  Claude, Grok) are validated, put on the same bus and answered with the context they collected.

  A collection window runs on fuel, each round reading the clock and receiving once.  The JSON of the
  SDK's \<open>HookEventRequest\<close> is the parameter \<open>E\<close>.  Log calls are not modelled.
\<close>

type_synonym hbhost = "(unit, json) host"
type_synonym 'a hbio = "((unit, json) event list, 'a) state"
type_synonym 'a hbresult = "((unit, json) event list, host_error + 'a) state"

definition HOOK_COLLECT_DEADLINE_MS :: nat where "HOOK_COLLECT_DEADLINE_MS = 5000"
definition HOOK_QUIESCENCE_MS :: nat where "HOOK_QUIESCENCE_MS = 25"
definition HOST_HOOK_COLLECT_DEADLINE_MS :: nat where "HOST_HOOK_COLLECT_DEADLINE_MS = 1000"
definition MAX_HOST_PAYLOAD_BYTES :: nat where "MAX_HOST_PAYLOAD_BYTES = 1024 * 1024"
definition MAX_HOST_CONTEXT_BYTES :: nat where "MAX_HOST_CONTEXT_BYTES = 64 * 1024"

subsection \<open>The mapping\<close>

datatype merge_semantics = MergeNone | ToolCallBefore | LastNonNull string

record hook_mapping =
  hm_hook_name :: string
  hm_merge :: merge_semantics

record hook_result =
  hk_skip :: "bool option"
  hk_data :: "json option"

record hook_event_request =
  he_hook :: string
  he_payload :: string
  he_correlation_id :: "string option"

definition hook_table :: "(string \<times> string \<times> merge_semantics) list" where
  "hook_table = [
     (''session_created'', ''session_start'', MergeNone),
     (''session_ended'', ''session_end'', MergeNone),
     (''tool_call_started'', ''before_tool_call'', ToolCallBefore),
     (''tool_call_completed'', ''after_tool_call'', LastNonNull ''modified_result''),
     (''tool_result_persisting'', ''tool_result_persist'', LastNonNull ''transformed_result''),
     (''message_received'', ''message_received'', MergeNone),
     (''message_sending'', ''message_sending'', LastNonNull ''modified_content''),
     (''message_sent'', ''message_sent'', MergeNone),
     (''sub_agent_spawned'', ''subagent_start'', MergeNone),
     (''sub_agent_completed'', ''subagent_stop'', MergeNone),
     (''sub_agent_failed'', ''subagent_stop'', MergeNone),
     (''sub_agent_cancelled'', ''subagent_stop'', MergeNone),
     (''context_compaction_started'', ''on_compaction_started'', MergeNone),
     (''context_compaction_completed'', ''on_compaction_completed'', MergeNone),
     (''kernel_started'', ''kernel_start'', MergeNone),
     (''kernel_shutdown'', ''kernel_stop'', MergeNone)]"

definition LIFECYCLE_PREFIX :: string where "LIFECYCLE_PREFIX = ''astrid.v1.lifecycle.''"

definition mapping_for_event :: "string \<Rightarrow> hook_mapping option" where
  "mapping_for_event event_type =
     map_option (\<lambda>(name, m). \<lparr>hm_hook_name = name, hm_merge = m\<rparr>)
       (map_of (map (\<lambda>(e, row). (LIFECYCLE_PREFIX @ e, row)) hook_table) event_type)"

subsection \<open>The merge\<close>

definition non_null :: "string \<Rightarrow> json \<Rightarrow> json option" where
  "non_null k j = (case jget k j of None \<Rightarrow> None | Some v \<Rightarrow> if v = JNull then None else Some v)"

fun merge_tool_call :: "bool \<Rightarrow> json option \<Rightarrow> json list \<Rightarrow> bool \<times> json option" where
  "merge_tool_call skip last_params [] = (skip, last_params)"
| "merge_tool_call skip last_params (resp # rs) =
     merge_tool_call (skip \<or> or_default False (get_bool ''skip'' resp))
       (case non_null ''modified_params'' resp of None \<Rightarrow> last_params | Some v \<Rightarrow> Some v) rs"

fun merge_last :: "string \<Rightarrow> json option \<Rightarrow> json list \<Rightarrow> json option" where
  "merge_last k last_value [] = last_value"
| "merge_last k last_value (resp # rs) =
     merge_last k (case non_null k resp of None \<Rightarrow> last_value | Some v \<Rightarrow> Some v) rs"

fun apply_merge :: "merge_semantics \<Rightarrow> json list \<Rightarrow> hook_result" where
  "apply_merge MergeNone responses = \<lparr>hk_skip = None, hk_data = None\<rparr>"
| "apply_merge ToolCallBefore responses =
     (case merge_tool_call False None responses of (skip, last_params) \<Rightarrow>
        \<lparr>hk_skip = (if skip then Some True else None), hk_data = last_params\<rparr>)"
| "apply_merge (LastNonNull k) responses = \<lparr>hk_skip = None, hk_data = merge_last k None responses\<rparr>"

subsection \<open>Dispatching a lifecycle event\<close>

definition hex_digit :: "nat \<Rightarrow> char" where
  "hex_digit d = (if d < 10 then char_of (48 + d) else char_of (87 + d))"

definition hex_byte :: "char \<Rightarrow> string" where
  "hex_byte b = [hex_digit (of_char b div 16), hex_digit (of_char b mod 16)]"

definition correlation_id :: "hbhost \<Rightarrow> string hbresult" where
  "correlation_id H = try_bind (random_bytes H 16) (\<lambda>bs. ret (Inr (concat (map hex_byte bs))))"

definition publish_ok :: "hbhost \<Rightarrow> string \<Rightarrow> json \<Rightarrow> unit hbresult" where
  "publish_ok H topic m = do { r \<leftarrow> publish H topic m; ret (case r of None \<Rightarrow> Inr () | Some e \<Rightarrow> Inl e) }"

definition subscribe_ok :: "hbhost \<Rightarrow> string \<Rightarrow> unit hbresult" where
  "subscribe_ok H topic = do { r \<leftarrow> subscribe H topic; ret (case r of None \<Rightarrow> Inr () | Some e \<Rightarrow> Inl e) }"

definition window_elapsed :: "nat \<Rightarrow> nat \<Rightarrow> nat \<Rightarrow> nat" where
  "window_elapsed deadline start now =
     (let ms = (now - start) div 1000000 in if ms < 2 ^ 64 then ms else deadline)"

definition window_timeout :: "nat \<Rightarrow> bool \<Rightarrow> nat \<Rightarrow> nat" where
  "window_timeout deadline have_reply elapsed_ms =
     (if have_reply then min HOOK_QUIESCENCE_MS (deadline - elapsed_ms) else deadline - elapsed_ms)"

definition parsed_payloads :: "hbhost \<Rightarrow> bus_msg list \<Rightarrow> json list" where
  "parsed_payloads H ms = List.map_filter (\<lambda>m. h_parse H (msg_payload m)) ms"

fun collect_replies :: "hbhost \<Rightarrow> string \<Rightarrow> nat \<Rightarrow> nat \<Rightarrow> json list \<Rightarrow> (json list) hbresult" where
  "collect_replies H topic start 0 responses = ret (Inr responses)"
| "collect_replies H topic start (Suc fuel) responses = do {
     now \<leftarrow> monotonic H;
     (let elapsed_ms = window_elapsed HOOK_COLLECT_DEADLINE_MS start now in
      if HOOK_COLLECT_DEADLINE_MS \<le> elapsed_ms then ret (Inr responses)
      else do {
        r \<leftarrow> recv H topic (window_timeout HOOK_COLLECT_DEADLINE_MS (responses \<noteq> []) elapsed_ms);
        case r of
          Inl e \<Rightarrow> ret (if contains ''Timeout'' e then Inr responses else Inl e)
        | Inr b \<Rightarrow>
            if batch_msgs b = [] then ret (Inr responses)
            else collect_replies H topic start fuel (responses @ parsed_payloads H (batch_msgs b))
      })
   }"

definition hook_event_topic :: "string \<Rightarrow> string" where
  "hook_event_topic hook = ''hook.v1.event.'' @ hook"

definition hook_response_topic :: "string \<Rightarrow> string \<Rightarrow> string" where
  "hook_response_topic hook corr = ''hook.v1.response.'' @ hook @ ''.'' @ corr"

definition dispatch_hook ::
  "(hook_event_request \<Rightarrow> json) \<Rightarrow> hbhost \<Rightarrow> nat \<Rightarrow> string \<Rightarrow> json \<Rightarrow> (hook_result option) hbresult" where
  "dispatch_hook E H fuel event_type payload = (case mapping_for_event event_type of
     None \<Rightarrow> ret (Inr None)
   | Some mapping \<Rightarrow>
       (let hook = hm_hook_name mapping; text = h_render H payload in
        if hm_merge mapping = MergeNone then
          try_bind (publish_ok H (hook_event_topic hook)
              (E \<lparr>he_hook = hook, he_payload = text, he_correlation_id = None\<rparr>)) (\<lambda>_. ret (Inr None))
        else
          try_bind (correlation_id H) (\<lambda>corr.
          let reply_topic = hook_response_topic hook corr in
          try_bind (subscribe_ok H reply_topic) (\<lambda>_.
          try_bind (publish_ok H (hook_event_topic hook)
              (E \<lparr>he_hook = hook, he_payload = text, he_correlation_id = Some corr\<rparr>)) (\<lambda>_. do {
            start \<leftarrow> monotonic H;
            try_bind (collect_replies H reply_topic start fuel []) (\<lambda>responses.
            ret (Inr (Some (apply_merge (hm_merge mapping) responses))))
          })))))"

subsection \<open>Hooks of outside hosts\<close>

record oracle_event =
  oe_schema_version :: nat
  oe_principal_id :: string
  oe_host :: string
  oe_session_id :: string
  oe_event :: string
  oe_correlation_id :: string
  oe_route_id :: string
  oe_delivery_id :: string
  oe_turn_id :: "string option"
  oe_workspace_id :: "string option"
  oe_payload :: json

definition decode_oracle_event :: "json \<Rightarrow> oracle_event option" where
  "decode_oracle_event j = (if \<not> struct_shape 11 j then None else do {
     version \<leftarrow> Option.bind (field 0 ''schema_version'' j) ju64;
     version8 \<leftarrow> (if version < 256 then Some version else None);
     principal \<leftarrow> req_string 1 ''principal_id'' j;
     host \<leftarrow> req_string 2 ''host'' j;
     session \<leftarrow> req_string 3 ''session_id'' j;
     event \<leftarrow> req_string 4 ''event'' j;
     corr \<leftarrow> req_string 5 ''correlation_id'' j;
     route \<leftarrow> req_string 6 ''route_id'' j;
     delivery \<leftarrow> req_string 7 ''delivery_id'' j;
     turn \<leftarrow> maybe_string 8 ''turn_id'' j;
     workspace \<leftarrow> maybe_string 9 ''workspace_id'' j;
     payload \<leftarrow> field 10 ''payload'' j;
     Some \<lparr>oe_schema_version = version8, oe_principal_id = principal, oe_host = host, oe_session_id = session,
       oe_event = event, oe_correlation_id = corr, oe_route_id = route, oe_delivery_id = delivery,
       oe_turn_id = turn, oe_workspace_id = workspace, oe_payload = payload\<rparr>
   })"

definition canonical_hook_for_host_event :: "string \<Rightarrow> (string \<times> bool) option" where
  "canonical_hook_for_host_event event = map_of [
     (''session_start'', (''session_start'', False)),
     (''user_prompt_submit'', (''message_received'', True)),
     (''pre_tool_use'', (''before_tool_call'', False)),
     (''permission_request'', (''before_tool_call'', False)),
     (''post_tool_use'', (''after_tool_call'', False)),
     (''pre_compact'', (''on_compaction_started'', False)),
     (''post_compact'', (''on_compaction_completed'', False)),
     (''subagent_start'', (''subagent_start'', False)),
     (''subagent_stop'', (''subagent_stop'', False)),
     (''stop'', (''session_end'', False)),
     (''session_end'', (''session_end'', False))] event"

definition is_clean_segment :: "string \<Rightarrow> nat \<Rightarrow> bool" where
  "is_clean_segment v mx \<longleftrightarrow> v \<noteq> [] \<and> length v \<le> mx \<and> list_all segment_char v"

definition lower_hex_char :: "char \<Rightarrow> bool" where
  "lower_hex_char c = (let n = (of_char c :: nat) in 48 \<le> n \<and> n \<le> 57 \<or> 97 \<le> n \<and> n \<le> 102)"

definition is_lower_hex :: "string \<Rightarrow> nat \<Rightarrow> bool" where
  "is_lower_hex v n \<longleftrightarrow> length v = n \<and> list_all lower_hex_char v"

definition validate_oracle_hook :: "(json \<Rightarrow> string) \<Rightarrow> oracle_event \<Rightarrow> string + unit" where
  "validate_oracle_hook render ev =
     (if oe_schema_version ev \<noteq> 1 then Inl ''unsupported schema version''
      else if oe_host ev \<notin> set [''codex'', ''claude'', ''grok''] then Inl ''unsupported host''
      else if canonical_hook_for_host_event (oe_event ev) = None then Inl ''unsupported host event''
      else if \<not> is_clean_segment (oe_session_id ev) 128 \<or> \<not> is_clean_segment (oe_event ev) 128 \<or>
          \<not> is_clean_segment (oe_delivery_id ev) 128 then Inl ''invalid routed segment''
      else if \<not> is_lower_hex (oe_route_id ev) 64 \<or> \<not> is_lower_hex (oe_correlation_id ev) 32
        then Inl ''invalid route identifier''
      else if oe_delivery_id ev \<noteq> oe_route_id ev @ ''-'' @ oe_correlation_id ev
        then Inl ''delivery identifier does not bind route and correlation''
      else if (case oe_turn_id ev of None \<Rightarrow> False | Some v \<Rightarrow> v = [] \<or> 256 < length v) \<or>
          (case oe_workspace_id ev of None \<Rightarrow> False | Some v \<Rightarrow> \<not> is_clean_segment v 128)
        then Inl ''invalid optional routing metadata''
      else if MAX_HOST_PAYLOAD_BYTES < length (render (oe_payload ev)) then Inl ''host payload exceeds limit''
      else Inr ())"

text \<open>
  \<open>push_context\<close>: the contexts and their used length, unchanged when the addition overflows \<open>usize\<close>
  (32 bits on the capsules' target) or the sum would exceed the limit.
\<close>

definition push_context :: "string list \<times> nat \<Rightarrow> string \<Rightarrow> string list \<times> nat" where
  "push_context acc c = (case acc of (contexts, used) \<Rightarrow>
     (let next_total = used + (if contexts = [] then 0 else 2) + length c in
      if 2 ^ 32 \<le> next_total \<or> MAX_HOST_CONTEXT_BYTES < next_total then acc
      else (contexts @ [c], next_total)))"

definition offered_context :: "json \<Rightarrow> string option" where
  "offered_context j = (case get_str ''additional_context'' j of
     None \<Rightarrow> None | Some c \<Rightarrow> if blank c then None else Some c)"

definition offered_contexts :: "hbhost \<Rightarrow> bus_msg list \<Rightarrow> string list" where
  "offered_contexts H ms = List.map_filter offered_context (parsed_payloads H ms)"

fun context_window :: "hbhost \<Rightarrow> string \<Rightarrow> nat \<Rightarrow> nat \<Rightarrow> string list \<times> nat \<Rightarrow> (string list) hbresult" where
  "context_window H topic start 0 acc = ret (Inr (fst acc))"
| "context_window H topic start (Suc fuel) acc = do {
     now \<leftarrow> monotonic H;
     (let elapsed_ms = window_elapsed HOST_HOOK_COLLECT_DEADLINE_MS start now in
      if HOST_HOOK_COLLECT_DEADLINE_MS \<le> elapsed_ms then ret (Inr (fst acc))
      else do {
        r \<leftarrow> recv H topic (window_timeout HOST_HOOK_COLLECT_DEADLINE_MS (fst acc \<noteq> []) elapsed_ms);
        case r of
          Inl e \<Rightarrow> ret (if contains ''Timeout'' e then Inr (fst acc) else Inl e)
        | Inr b \<Rightarrow>
            if batch_msgs b = [] then ret (Inr (fst acc))
            else context_window H topic start fuel (foldl push_context acc (offered_contexts H (batch_msgs b)))
      })
   }"

definition collect_additional_context :: "hbhost \<Rightarrow> nat \<Rightarrow> string \<Rightarrow> (string option) hbresult" where
  "collect_additional_context H fuel topic = do {
     start \<leftarrow> monotonic H;
     try_bind (context_window H topic start fuel ([], 0)) (\<lambda>contexts.
     ret (Inr (if contexts = [] then None else Some (join_with [CHR 0x0A, CHR 0x0A] contexts))))
   }"

definition opt_str_member :: "string \<Rightarrow> string option \<Rightarrow> (string \<times> json) list" where
  "opt_str_member k v = (case v of None \<Rightarrow> [] | Some s \<Rightarrow> [(k, JStr s)])"

definition canonical_payload :: "oracle_event \<Rightarrow> json" where
  "canonical_payload ev = JObj ([(''principal_id'', JStr (oe_principal_id ev)), (''host'', JStr (oe_host ev)),
     (''session_id'', JStr (oe_session_id ev)), (''source_event'', JStr (oe_event ev))] @
     opt_str_member ''turn_id'' (oe_turn_id ev) @ opt_str_member ''workspace_id'' (oe_workspace_id ev) @
     [(''payload'', oe_payload ev)])"

definition dispatch_oracle_hook ::
  "(hook_event_request \<Rightarrow> json) \<Rightarrow> hbhost \<Rightarrow> nat \<Rightarrow> oracle_event \<Rightarrow> (string option) hbresult" where
  "dispatch_oracle_hook E H fuel ev = (case canonical_hook_for_host_event (oe_event ev) of
     None \<Rightarrow> ret (Inr None)
   | Some (hook, expects_context) \<Rightarrow>
       (let text = h_render H (canonical_payload ev) in
        if \<not> expects_context then
          try_bind (publish_ok H (hook_event_topic hook)
              (E \<lparr>he_hook = hook, he_payload = text, he_correlation_id = None\<rparr>)) (\<lambda>_. ret (Inr None))
        else
          (let reply_topic = hook_response_topic hook (oe_correlation_id ev) in
           try_bind (subscribe_ok H reply_topic) (\<lambda>_.
           try_bind (publish_ok H (hook_event_topic hook)
               (E \<lparr>he_hook = hook, he_payload = text, he_correlation_id = Some (oe_correlation_id ev)\<rparr>)) (\<lambda>_.
           collect_additional_context H fuel reply_topic)))))"

definition oracle_response :: "oracle_event \<Rightarrow> string option \<Rightarrow> json" where
  "oracle_response ev context = JObj ([(''schema_version'', JInt 1), (''principal_id'', JStr (oe_principal_id ev)),
     (''host'', JStr (oe_host ev)), (''session_id'', JStr (oe_session_id ev)), (''event'', JStr (oe_event ev)),
     (''correlation_id'', JStr (oe_correlation_id ev)), (''route_id'', JStr (oe_route_id ev)),
     (''delivery_id'', JStr (oe_delivery_id ev))] @ opt_str_member ''context'' context)"

definition oracle_response_topic :: "oracle_event \<Rightarrow> string" where
  "oracle_response_topic ev = ''oracle.v1.hook.response.'' @ oe_delivery_id ev"

definition handle_oracle_hook ::
  "(hook_event_request \<Rightarrow> json) \<Rightarrow> hbhost \<Rightarrow> nat \<Rightarrow> json \<Rightarrow> unit hbresult" where
  "handle_oracle_hook E H fuel payload = (case decode_oracle_event payload of
     None \<Rightarrow> ret (Inr ())
   | Some ev \<Rightarrow> (case validate_oracle_hook (h_render H) ev of
       Inl reason \<Rightarrow> ret (Inr ())
     | Inr _ \<Rightarrow>
         try_bind (runtime_caller H) (\<lambda>who.
         if caller_principal who \<noteq> Some (oe_principal_id ev) then ret (Inr ())
         else
           try_bind (dispatch_oracle_hook E H fuel ev) (\<lambda>context.
           publish_ok H (oracle_response_topic ev) (oracle_response ev context)))))"

subsection \<open>The interceptors\<close>

datatype bridge_call =
    OnCodexHook | OnClaudeHook | OnGrokHook
  | OnSessionCreated | OnSessionEnded | OnToolCallStarted | OnToolCallCompleted | OnToolResultPersisting
  | OnMessageReceived | OnMessageSending | OnMessageSent | OnSubagentSpawned | OnSubagentCompleted
  | OnSubagentFailed | OnSubagentCancelled | OnCompactionStarted | OnCompactionCompleted
  | OnKernelStarted | OnKernelShutdown

fun lifecycle_event :: "bridge_call \<Rightarrow> string option" where
  "lifecycle_event OnCodexHook = None"
| "lifecycle_event OnClaudeHook = None"
| "lifecycle_event OnGrokHook = None"
| "lifecycle_event OnSessionCreated = Some (LIFECYCLE_PREFIX @ ''session_created'')"
| "lifecycle_event OnSessionEnded = Some (LIFECYCLE_PREFIX @ ''session_ended'')"
| "lifecycle_event OnToolCallStarted = Some (LIFECYCLE_PREFIX @ ''tool_call_started'')"
| "lifecycle_event OnToolCallCompleted = Some (LIFECYCLE_PREFIX @ ''tool_call_completed'')"
| "lifecycle_event OnToolResultPersisting = Some (LIFECYCLE_PREFIX @ ''tool_result_persisting'')"
| "lifecycle_event OnMessageReceived = Some (LIFECYCLE_PREFIX @ ''message_received'')"
| "lifecycle_event OnMessageSending = Some (LIFECYCLE_PREFIX @ ''message_sending'')"
| "lifecycle_event OnMessageSent = Some (LIFECYCLE_PREFIX @ ''message_sent'')"
| "lifecycle_event OnSubagentSpawned = Some (LIFECYCLE_PREFIX @ ''sub_agent_spawned'')"
| "lifecycle_event OnSubagentCompleted = Some (LIFECYCLE_PREFIX @ ''sub_agent_completed'')"
| "lifecycle_event OnSubagentFailed = Some (LIFECYCLE_PREFIX @ ''sub_agent_failed'')"
| "lifecycle_event OnSubagentCancelled = Some (LIFECYCLE_PREFIX @ ''sub_agent_cancelled'')"
| "lifecycle_event OnCompactionStarted = Some (LIFECYCLE_PREFIX @ ''context_compaction_started'')"
| "lifecycle_event OnCompactionCompleted = Some (LIFECYCLE_PREFIX @ ''context_compaction_completed'')"
| "lifecycle_event OnKernelStarted = Some (LIFECYCLE_PREFIX @ ''kernel_started'')"
| "lifecycle_event OnKernelShutdown = Some (LIFECYCLE_PREFIX @ ''kernel_shutdown'')"

text \<open>The interceptors that return the merged result; the others drop it.\<close>

definition returns_result :: "bridge_call \<Rightarrow> bool" where
  "returns_result c \<longleftrightarrow> c \<in> {OnToolCallStarted, OnToolCallCompleted, OnToolResultPersisting, OnMessageSending}"

definition handle_bridge ::
  "(hook_event_request \<Rightarrow> json) \<Rightarrow> hbhost \<Rightarrow> nat \<Rightarrow> bridge_call \<Rightarrow> json \<Rightarrow> (hook_result option) hbresult" where
  "handle_bridge E H fuel c payload = (case lifecycle_event c of
     None \<Rightarrow> try_bind (handle_oracle_hook E H fuel payload) (\<lambda>_. ret (Inr None))
   | Some event_type \<Rightarrow> try_bind (dispatch_hook E H fuel event_type payload) (\<lambda>r.
       ret (Inr (if returns_result c then r else None))))"

end
