(* ===== verification/Hook_Bridge_Spec.thy ===== *)
theory Hook_Bridge_Spec
  imports Hook_Bridge
begin

text \<open>
  The hook bridge, properties: the merged result of a fan-out is a function of the replies received on
  the correlation topic, which was subscribed before the request left; the windows end; and a hook of
  an outside host is put on the bus and answered only for a valid event of the calling principal.
\<close>

subsection \<open>The merge in closed form\<close>

definition vetoed :: "json list \<Rightarrow> bool" where
  "vetoed rs \<longleftrightarrow> (\<exists>r \<in> set rs. get_bool ''skip'' r = Some True)"

definition last_given :: "string \<Rightarrow> json list \<Rightarrow> json option" where
  "last_given k rs = (case rev (List.map_filter (non_null k) rs) of [] \<Rightarrow> None | v # _ \<Rightarrow> Some v)"

lemma last_given_snoc:
  "last_given k (rs @ [r]) = (case non_null k r of None \<Rightarrow> last_given k rs | Some v \<Rightarrow> Some v)"
  by (simp add: last_given_def List.map_filter_def split: option.split)

lemma merge_last_eq: "merge_last k None rs = last_given k rs"
proof -
  have "merge_last k v (rs @ [r]) = (case non_null k r of None \<Rightarrow> merge_last k v rs | Some w \<Rightarrow> Some w)" for v r rs
    by (induction rs arbitrary: v) (simp_all split: option.split)
  then show ?thesis by (induction rs rule: rev_induct) (auto simp: last_given_snoc split: option.split, simp add: last_given_def List.map_filter_def)
qed

lemma merge_tool_call_eq: "merge_tool_call b v rs = (b \<or> vetoed rs, merge_last ''modified_params'' v rs)"
proof (induction rs arbitrary: b v)
  case (Cons r rs)
  then show ?case by (auto simp: vetoed_def or_default_def split: option.splits)
qed (simp add: vetoed_def)

lemma apply_merge_eq:
  "hk_skip (apply_merge m rs) = (if m = ToolCallBefore \<and> vetoed rs then Some True else None)"
  "hk_data (apply_merge m rs) = (case m of MergeNone \<Rightarrow> None | ToolCallBefore \<Rightarrow> last_given ''modified_params'' rs
     | LastNonNull k \<Rightarrow> last_given k rs)"
  by (cases m; simp add: merge_tool_call_eq merge_last_eq)+

subsection \<open>What a window collects\<close>

text \<open>The parsed payloads received on a topic, in order; \<open>waits_on t e\<close>: \<open>e\<close> reads the clock or receives on \<open>t\<close>.\<close>

fun reply_batch :: "hbhost \<Rightarrow> string \<Rightarrow> (unit, json) event \<Rightarrow> json list" where
  "reply_batch H t (EvRecv u ms (Inr b)) = (if u = t then parsed_payloads H (batch_msgs b) else [])"
| "reply_batch H t _ = []"

definition replies_in :: "hbhost \<Rightarrow> string \<Rightarrow> (unit, json) event list \<Rightarrow> json list" where
  "replies_in H t evs = concat (map (reply_batch H t) (rev evs))"

lemma replies_in_simps [simp]:
  "replies_in H t [] = []" "replies_in H t (e # evs) = replies_in H t evs @ reply_batch H t e"
  "replies_in H t (evs @ evs') = replies_in H t evs' @ replies_in H t evs"
  by (simp_all add: replies_in_def)

fun waits_on :: "string \<Rightarrow> (unit, json) event \<Rightarrow> bool" where
  "waits_on t (EvMono n) = True"
| "waits_on t (EvRecv u ms r) = (u = t)"
| "waits_on t _ = False"

lemma parsed_payloads_Nil [simp]: "parsed_payloads H [] = []"
  by (simp add: parsed_payloads_def List.map_filter_def)

lemma wp_published [wpI]:
  "Q (Inr ()) (EvPub t m None # tr) \<Longrightarrow> (\<And>e. Q (Inl e) (EvPub t m (Some e) # tr)) \<Longrightarrow> wp (publish_ok H t m) Q tr"
  unfolding publish_ok_def by (intro wpI) (auto split: option.split)

lemma wp_subscribed [wpI]:
  "Q (Inr ()) (EvSub t None # tr) \<Longrightarrow> (\<And>e. Q (Inl e) (EvSub t (Some e) # tr)) \<Longrightarrow> wp (subscribe_ok H t) Q tr"
  unfolding subscribe_ok_def by (intro wpI) (auto split: option.split)

lemma wp_try_publish:
  "(\<And>e. Q (Inl e) (EvPub t m (Some e) # tr)) \<Longrightarrow> wp (f ()) Q (EvPub t m None # tr) \<Longrightarrow> wp (try_bind (publish_ok H t m) f) Q tr"
  by (simp add: wp_def try_bind_def publish_ok_def host_defs split: option.split)

lemma wp_try_subscribe:
  "(\<And>e. Q (Inl e) (EvSub t (Some e) # tr)) \<Longrightarrow> wp (f ()) Q (EvSub t None # tr) \<Longrightarrow> wp (try_bind (subscribe_ok H t) f) Q tr"
  by (simp add: wp_def try_bind_def subscribe_ok_def host_defs split: option.split)

text \<open>
  The window for replies.  \<open>timely\<close>: a receive follows a reading of the clock inside the window and waits for
  what is left of it, at most the quiescence time once a reply has been parsed (\<open>some\<close>: before these events).
  \<open>ends_window\<close>: the event after which nothing more is collected.\<close>

definition timely :: "hbhost \<Rightarrow> string \<Rightarrow> nat \<Rightarrow> bool \<Rightarrow> (unit, json) event \<Rightarrow> (unit, json) event list \<Rightarrow> bool" where
  "timely H t start some e earlier \<longleftrightarrow> (\<exists>now. e = EvMono now) \<or>
     (\<exists>ms r now rest. e = EvRecv t ms r \<and> earlier = EvMono now # rest \<and>
        window_elapsed HOOK_COLLECT_DEADLINE_MS start now < HOOK_COLLECT_DEADLINE_MS \<and>
        ms = window_timeout HOOK_COLLECT_DEADLINE_MS (some \<or> replies_in H t rest \<noteq> []) (window_elapsed HOOK_COLLECT_DEADLINE_MS start now))"

definition ends_window :: "nat \<Rightarrow> (unit, json) event \<Rightarrow> bool" where
  "ends_window start e = (case e of
     EvMono now \<Rightarrow> HOOK_COLLECT_DEADLINE_MS \<le> window_elapsed HOOK_COLLECT_DEADLINE_MS start now
   | EvRecv u ms (Inl err) \<Rightarrow> contains ''Timeout'' err
   | EvRecv u ms (Inr b) \<Rightarrow> batch_msgs b = []
   | _ \<Rightarrow> False)"

fun is_receive :: "(unit, json) event \<Rightarrow> bool" where
  "is_receive (EvRecv t ms r) = True"
| "is_receive _ = False"

definition collected :: "hbhost \<Rightarrow> string \<Rightarrow> nat \<Rightarrow> nat \<Rightarrow> bool \<Rightarrow> (unit, json) event list \<Rightarrow> bool" where
  "collected H t start fuel some evs \<longleftrightarrow> justified (timely H t start some) evs \<and>
     (length (filter is_receive evs) = fuel \<or> (case evs of [] \<Rightarrow> False | e # _ \<Rightarrow> ends_window start e))"

lemma justified_shift:
  "(\<And>e earlier. R' e earlier \<Longrightarrow> R e (earlier @ ys)) \<Longrightarrow> justified R ys \<Longrightarrow> justified R' xs \<Longrightarrow> justified R (xs @ ys)"
  by (induction xs) auto

lemma timely_shift:
  "timely H t start (some \<or> replies_in H t ys \<noteq> []) e earlier \<Longrightarrow> timely H t start some e (earlier @ ys)"
  by (auto simp: timely_def)

lemma collected_more:
  assumes "collected H t start fuel (some \<or> parsed_payloads H (batch_msgs b) \<noteq> []) evs"
    and "timely H t start some (EvRecv t ms (Inr b)) [EvMono now]"
  shows "collected H t start (Suc fuel) some (evs @ [EvRecv t ms (Inr b), EvMono now])"
proof -
  let ?ys = "[EvRecv t ms (Inr b), EvMono now]"
  have "timely H t start some (EvMono now) []" by (simp add: timely_def)
  then have "justified (timely H t start some) ?ys" using assms(2) by simp
  moreover have "justified (timely H t start (some \<or> replies_in H t ?ys \<noteq> [])) evs" using assms(1) by (simp add: collected_def)
  ultimately have "justified (timely H t start some) (evs @ ?ys)"
    by (intro justified_shift [where R' = "timely H t start (some \<or> replies_in H t ?ys \<noteq> [])"] timely_shift)
  then show ?thesis using assms(1) by (cases evs) (auto simp: collected_def split: if_splits)
qed

text \<open>A result holds every reply of the window; an error that is no timeout is that of the last receive.\<close>

definition window_result :: "hbhost \<Rightarrow> string \<Rightarrow> nat \<Rightarrow> nat \<Rightarrow> json list \<Rightarrow> (unit, json) event list \<Rightarrow> host_error + json list \<Rightarrow> bool" where
  "window_result H t start fuel rs evs r \<longleftrightarrow> (case r of
     Inr xs \<Rightarrow> xs = rs @ replies_in H t evs \<and> collected H t start fuel (rs \<noteq> []) evs
   | Inl e \<Rightarrow> \<not> contains ''Timeout'' e \<and> (\<exists>ms rest. evs = EvRecv t ms (Inl e) # rest))"

lemma collect_replies_run:
  "wp (collect_replies H t start fuel rs) (\<lambda>r tr'. \<exists>evs. tr' = evs @ tr \<and> list_all (waits_on t) evs \<and>
     window_result H t start fuel rs evs r) tr"
proof (induction fuel arbitrary: rs tr)
  case 0
  show ?case by (auto intro!: wpI simp: window_result_def collected_def)
next
  case (Suc fuel)
  have step: "wp (collect_replies H t start fuel (rs @ parsed_payloads H (batch_msgs b)))
      (\<lambda>r tr'. \<exists>evs. tr' = evs @ tr \<and> list_all (waits_on t) evs \<and> window_result H t start (Suc fuel) rs evs r)
      (EvRecv t ms (Inr b) # EvMono now # tr)"
    if timely: "timely H t start (rs \<noteq> []) (EvRecv t ms (Inr b)) [EvMono now]" for b ms now
  proof (rule wp_mono [OF Suc.IH], elim exE conjE)
    fix r tr' evs
    assume evs: "tr' = evs @ EvRecv t ms (Inr b) # EvMono now # tr" "list_all (waits_on t) evs"
      and res: "window_result H t start fuel (rs @ parsed_payloads H (batch_msgs b)) evs r"
    have "window_result H t start (Suc fuel) rs (evs @ [EvRecv t ms (Inr b), EvMono now]) r"
    proof (cases r)
      case (Inl e)
      with res show ?thesis by (auto simp: window_result_def)
    next
      case (Inr xs)
      with res collected_more [OF _ timely, of fuel evs] show ?thesis by (simp add: window_result_def)
    qed
    with evs show "\<exists>evs. tr' = evs @ tr \<and> list_all (waits_on t) evs \<and> window_result H t start (Suc fuel) rs evs r"
      by (intro exI [where x = "evs @ [EvRecv t ms (Inr b), EvMono now]"]) simp
  qed
  show ?case
    unfolding collect_replies.simps
    apply (rule wp_bind, rule wp_monotonic, rule wp_let, rule wp_if)
     apply (rule wp_return, rule exI [where x = "[EvMono _]"], simp add: window_result_def collected_def timely_def ends_window_def)
    apply (rule wp_bind, rule wp_recv, rule wp_case_sum)
     apply (rule wp_return, rule exI [where x = "[EvRecv _ _ _, EvMono _]"])
     apply (force simp: window_result_def collected_def timely_def ends_window_def)
    apply (rule wp_if, rule wp_return, rule exI [where x = "[EvRecv _ _ _, EvMono _]"])
     apply (force simp: window_result_def collected_def timely_def ends_window_def)
    apply (simp, rule step, simp add: timely_def)
    done
qed

text \<open>The first three calls of a dispatch, newest first, and how a dispatch fails.\<close>

definition hook_request ::
  "(hook_event_request \<Rightarrow> json) \<Rightarrow> hbhost \<Rightarrow> hook_mapping \<Rightarrow> json \<Rightarrow> string \<Rightarrow> host_error option \<Rightarrow> (unit, json) event" where
  "hook_request E H m payload bs x = EvPub (hook_event_topic (hm_hook_name m)) (E \<lparr>he_hook = hm_hook_name m,
     he_payload = h_render H payload, he_correlation_id = Some (concat (map hex_byte bs))\<rparr>) x"

definition reply_topic :: "hook_mapping \<Rightarrow> string \<Rightarrow> string" where
  "reply_topic m bs = hook_response_topic (hm_hook_name m) (concat (map hex_byte bs))"

definition dispatch_failed ::
  "(hook_event_request \<Rightarrow> json) \<Rightarrow> hbhost \<Rightarrow> hook_mapping \<Rightarrow> json \<Rightarrow> host_error \<Rightarrow> (unit, json) event list \<Rightarrow> bool" where
  "dispatch_failed E H m payload e new \<longleftrightarrow> new = [EvRandom 16 (Inl e)] \<or> (\<exists>bs.
     new = [EvSub (reply_topic m bs) (Some e), EvRandom 16 (Inr bs)] \<or>
     new = [hook_request E H m payload bs (Some e), EvSub (reply_topic m bs) None, EvRandom 16 (Inr bs)] \<or>
     (\<exists>ms replies s. \<not> contains ''Timeout'' e \<and> new = EvRecv (reply_topic m bs) ms (Inl e) # replies @
        [EvMono s, hook_request E H m payload bs None, EvSub (reply_topic m bs) None, EvRandom 16 (Inr bs)]))"

lemma dispatch_run:
  assumes "mapping_for_event event_type = Some m" and "hm_merge m \<noteq> MergeNone"
  shows "wp (dispatch_hook E H fuel event_type payload) (\<lambda>r tr'. case r of
      Inr x \<Rightarrow> (\<exists>bs s evs.
        tr' = evs @ [EvMono s, hook_request E H m payload bs None, EvSub (reply_topic m bs) None, EvRandom 16 (Inr bs)] @ tr \<and>
        collected H (reply_topic m bs) s fuel False evs \<and> x = Some (apply_merge (hm_merge m) (replies_in H (reply_topic m bs) evs)))
    | Inl e \<Rightarrow> (\<exists>new. tr' = new @ tr \<and> dispatch_failed E H m payload e new)) tr" (is "wp _ ?Q _")
proof -
  have window: "wp (try_bind (collect_replies H (reply_topic m bs) s fuel []) (\<lambda>responses. ret (Inr (Some (apply_merge (hm_merge m) responses)))))
      ?Q (EvMono s # hook_request E H m payload bs None # EvSub (reply_topic m bs) None # EvRandom 16 (Inr bs) # tr)" for bs s
  proof (rule wp_try_bind, rule wp_mono [OF collect_replies_run], elim exE conjE, intro conjI allI impI)
    fix r tr' evs e
    assume "tr' = evs @ EvMono s # hook_request E H m payload bs None # EvSub (reply_topic m bs) None # EvRandom 16 (Inr bs) # tr"
      and "window_result H (reply_topic m bs) s fuel [] evs r" and "r = Inl e"
    then show "?Q (Inl e) tr'" by (auto simp: window_result_def dispatch_failed_def)
  next
    fix r tr' evs x
    assume "tr' = evs @ EvMono s # hook_request E H m payload bs None # EvSub (reply_topic m bs) None # EvRandom 16 (Inr bs) # tr"
      and "window_result H (reply_topic m bs) s fuel [] evs r" and "r = Inr x"
    then show "wp (ret (Inr (Some (apply_merge (hm_merge m) x)))) ?Q tr'"
      by (intro wp_return) (auto simp: window_result_def)
  qed
  have failed: "?Q (Inl e) (EvRandom 16 (Inl e) # tr)" "?Q (Inl e) (EvSub (reply_topic m bs) (Some e) # EvRandom 16 (Inr bs) # tr)"
    "?Q (Inl e) (hook_request E H m payload bs (Some e) # EvSub (reply_topic m bs) None # EvRandom 16 (Inr bs) # tr)" for e bs
    by (auto simp: dispatch_failed_def)
  note plain = reply_topic_def hook_request_def
  show ?thesis
    unfolding dispatch_hook_def assms option.case Let_def correlation_id_def plain if_not_P [OF assms(2)]
    apply (rule wp_try_bind, rule wp_try_bind, rule wp_random_bytes, intro conjI allI impI, simp only: sum.inject sum.distinct)
      apply (rule failed(1) [unfolded plain])
     apply (simp only: sum.distinct)
    apply (rule wp_return, intro conjI allI impI, simp only: sum.distinct)
    apply (simp only: sum.inject, hypsubst_thin)
    apply (rule wp_try_subscribe, rule failed(2) [unfolded plain])
    apply (rule wp_try_publish, rule failed(3) [unfolded plain])
    apply (rule wp_bind, rule wp_monotonic, rule window [unfolded plain])
    done
qed

text \<open>
  C15: The fan-out of a lifecycle event.  On every host, a dispatch with a merge that returns a result makes
  exactly these calls, in this order: it draws the correlation id, subscribes to the reply topic of that
  id, publishes the request that carries the id, and reads the window of replies (\<open>collected\<close>): each receive
  is on the reply topic, inside the window, for the time that is left of it, at most the quiescence time
  once there is a reply; and collecting stops only when the window is over, a receive brings nothing or
  times out, or the rounds (\<open>fuel\<close>) are used up.  The result is the merge of all replies of the
  window: \<open>skip\<close> is set exactly when the event is a tool call and one of them says \<open>skip: true\<close>; \<open>data\<close> is the
  last non-null value of the mapping's field.  A dispatch that fails stops at the call that failed.\<close>

theorem bridge_merges_replies:
  assumes "mapping_for_event event_type = Some m" and "hm_merge m \<noteq> MergeNone"
  shows "case run_state (dispatch_hook E H fuel event_type payload) tr of
      (Inr x, tr') \<Rightarrow> (\<exists>r bs start evs. x = Some r \<and> collected H (reply_topic m bs) start fuel False evs \<and>
        since tr tr' = evs @
          [EvMono start, hook_request E H m payload bs None, EvSub (reply_topic m bs) None, EvRandom 16 (Inr bs)] \<and>
        hk_skip r = (if hm_merge m = ToolCallBefore \<and> vetoed (replies_in H (reply_topic m bs) evs) then Some True else None) \<and>
        hk_data r = (case hm_merge m of MergeNone \<Rightarrow> None
          | ToolCallBefore \<Rightarrow> last_given ''modified_params'' (replies_in H (reply_topic m bs) evs)
          | LastNonNull k \<Rightarrow> last_given k (replies_in H (reply_topic m bs) evs)))
    | (Inl e, tr') \<Rightarrow> dispatch_failed E H m payload e (since tr tr')"
proof -
  obtain r tr' where run: "run_state (dispatch_hook E H fuel event_type payload) tr = (r, tr')" by force
  note ran = wpD [OF dispatch_run [OF assms] run]
  show ?thesis
  proof (cases r)
    case (Inl e)
    then show ?thesis using ran by (auto simp: run)
  next
    case (Inr x)
    with ran obtain bs s evs where "tr' = (evs @
          [EvMono s, hook_request E H m payload bs None, EvSub (reply_topic m bs) None, EvRandom 16 (Inr bs)]) @ tr"
      "collected H (reply_topic m bs) s fuel False evs" "x = Some (apply_merge (hm_merge m) (replies_in H (reply_topic m bs) evs))"
      by auto
    then show ?thesis
      unfolding run Inr prod.case sum.case by (intro exI conjI) (assumption | simp only: since_append apply_merge_eq)+
  qed
qed

text \<open>A host on which one subscriber vetoes and another one gives parameters.\<close>

definition demo_hook_request :: "hook_event_request \<Rightarrow> json" where
  "demo_hook_request r = JObj [(''hook'', JStr (he_hook r)), (''payload'', JStr (he_payload r)),
     (''correlation_id'', case he_correlation_id r of None \<Rightarrow> JNull | Some c \<Rightarrow> JStr c)]"

definition veto_host :: hbhost where
  "veto_host = mem_host\<lparr>
     h_recv := (\<lambda>tr t ms. if list_ex (\<lambda>e. case e of EvRecv _ _ _ \<Rightarrow> True | _ \<Rightarrow> False) tr then Inl ''Timeout''
       else Inr \<lparr>batch_msgs = [\<lparr>msg_topic = t, msg_payload = ''a'', msg_source = []\<rparr>,
         \<lparr>msg_topic = t, msg_payload = ''b'', msg_source = []\<rparr>], batch_dropped = 0, batch_lagged = 0\<rparr>),
     h_parse := (\<lambda>s. if s = ''a'' then Some (JObj [(''skip'', JBool True)])
       else if s = ''b'' then Some (JObj [(''modified_params'', JInt 1)]) else None)\<rparr>"

lemma tool_call_mapping:
  "mapping_for_event (LIFECYCLE_PREFIX @ ''tool_call_started'') = Some \<lparr>hm_hook_name = ''before_tool_call'', hm_merge = ToolCallBefore\<rparr>"
  by (simp add: mapping_for_event_def hook_table_def LIFECYCLE_PREFIX_def)

lemma veto_run:
  "fst (run_state (dispatch_hook demo_hook_request veto_host 3 (LIFECYCLE_PREFIX @ ''tool_call_started'') JNull) []) =
     Inr (Some \<lparr>hk_skip = Some True, hk_data = Some (JInt 1)\<rparr>)"
  unfolding dispatch_hook_def tool_call_mapping
  by (simp add: correlation_id_def try_bind_def subscribe_ok_def publish_ok_def host_defs numeral_3_eq_3 Let_def
      window_elapsed_def window_timeout_def HOOK_COLLECT_DEADLINE_MS_def HOOK_QUIESCENCE_MS_def veto_host_def mem_host_def
      parsed_payloads_def List.map_filter_def non_null_def get_bool_def starts_with_def)

lemma bridge_merges_replies_witness:
  "\<exists>evs topic start. collected veto_host topic start 3 False evs \<and> vetoed (replies_in veto_host topic evs) \<and>
     last_given ''modified_params'' (replies_in veto_host topic evs) = Some (JInt 1)"
proof -
  let ?run = "run_state (dispatch_hook demo_hook_request veto_host 3 (LIFECYCLE_PREFIX @ ''tool_call_started'') JNull) []"
  obtain tr' where run: "?run = (Inr (Some \<lparr>hk_skip = Some True, hk_data = Some (JInt 1)\<rparr>), tr')"
    using veto_run by (cases ?run) simp
  show ?thesis
    using bridge_merges_replies [OF tool_call_mapping, where E = demo_hook_request and H = veto_host and fuel = 3 and payload = JNull and tr = "[]"]
    unfolding run by (simp split: if_splits) metis
qed

subsection \<open>The windows end\<close>

locale bridge_clock = ticking_clock H d for H :: hbhost and d :: nat
begin

lemma reply_window: "window_loop H d (collect_replies H topic start) start (HOOK_COLLECT_DEADLINE_MS * 1000000)"
proof unfold_locales
  fix tr and acc :: "json list" assume "start \<le> h_mono H tr"
  let ?ms = "window_elapsed HOOK_COLLECT_DEADLINE_MS start (h_mono H tr)"
  have inside: "h_mono H tr - start < HOOK_COLLECT_DEADLINE_MS * 1000000" if "\<not> HOOK_COLLECT_DEADLINE_MS \<le> ?ms"
    using that by (auto simp: window_elapsed_def Let_def split: if_splits)
  let ?wait = "window_timeout HOOK_COLLECT_DEADLINE_MS (acc \<noteq> []) ?ms"
  show "(\<forall>k k'. run_state (collect_replies H topic start (Suc k) acc) tr = run_state (collect_replies H topic start (Suc k') acc) tr) \<or>
      h_mono H tr - start < HOOK_COLLECT_DEADLINE_MS * 1000000 \<and>
      (\<exists>acc' tr'. h_mono H tr + d \<le> h_mono H tr' \<and>
        (\<forall>k. run_state (collect_replies H topic start (Suc k) acc) tr = run_state (collect_replies H topic start k acc') tr'))"
    using inside tick [of tr topic ?wait] 
    by (cases "HOOK_COLLECT_DEADLINE_MS \<le> ?ms"; cases "h_recv H (EvMono (h_mono H tr) # tr) topic ?wait")
      (auto simp: monotonic_def recv_def Let_def)
qed

lemma context_window_loop: "window_loop H d (context_window H topic start) start (HOST_HOOK_COLLECT_DEADLINE_MS * 1000000)"
proof unfold_locales
  fix tr and acc :: "string list \<times> nat" assume "start \<le> h_mono H tr"
  let ?ms = "window_elapsed HOST_HOOK_COLLECT_DEADLINE_MS start (h_mono H tr)"
  have inside: "h_mono H tr - start < HOST_HOOK_COLLECT_DEADLINE_MS * 1000000" if "\<not> HOST_HOOK_COLLECT_DEADLINE_MS \<le> ?ms"
    using that by (auto simp: window_elapsed_def Let_def split: if_splits)
  let ?wait = "window_timeout HOST_HOOK_COLLECT_DEADLINE_MS (fst acc \<noteq> []) ?ms"
  show "(\<forall>k k'. run_state (context_window H topic start (Suc k) acc) tr = run_state (context_window H topic start (Suc k') acc) tr) \<or>
      h_mono H tr - start < HOST_HOOK_COLLECT_DEADLINE_MS * 1000000 \<and>
      (\<exists>acc' tr'. h_mono H tr + d \<le> h_mono H tr' \<and>
        (\<forall>k. run_state (context_window H topic start (Suc k) acc) tr = run_state (context_window H topic start k acc') tr'))"
    using inside tick [of tr topic ?wait]
    by (cases "HOST_HOOK_COLLECT_DEADLINE_MS \<le> ?ms"; cases "h_recv H (EvMono (h_mono H tr) # tr) topic ?wait")
      (auto simp: monotonic_def recv_def Let_def simp del: split_paired_Ex split_paired_All)
qed

abbreviation enough :: nat where
  "enough \<equiv> rounds_for d (HOOK_COLLECT_DEADLINE_MS * 1000000)"

lemma replies_stable:
  "enough \<le> fuel \<Longrightarrow> run_state (collect_replies H topic (h_mono H tr) fuel []) (EvMono (h_mono H tr) # tr) =
     run_state (collect_replies H topic (h_mono H tr) enough []) (EvMono (h_mono H tr) # tr)"
  by (rule window_loop.enough_rounds [OF reply_window steady])

lemma contexts_stable:
  assumes "enough \<le> fuel"
  shows "run_state (context_window H topic (h_mono H tr) fuel acc) (EvMono (h_mono H tr) # tr) =
     run_state (context_window H topic (h_mono H tr) enough acc) (EvMono (h_mono H tr) # tr)"
proof -
  have le: "rounds_for d (HOST_HOOK_COLLECT_DEADLINE_MS * 1000000) \<le> enough"
    by (simp add: rounds_for_def HOST_HOOK_COLLECT_DEADLINE_MS_def HOOK_COLLECT_DEADLINE_MS_def ticks_le)
  note stable = window_loop.enough_rounds [OF context_window_loop steady]
  show ?thesis using stable [OF le] stable [OF order_trans [OF le assms]] by simp
qed

lemma bridge_stable:
  assumes "enough \<le> fuel"
  shows "run_state (handle_bridge E H fuel c payload) tr = run_state (handle_bridge E H enough c payload) tr"
proof -
  have "run_state (dispatch_hook E H fuel e payload) tr = run_state (dispatch_hook E H enough e payload) tr" for e tr
    by (simp add: dispatch_hook_def correlation_id_def subscribe_ok_def publish_ok_def try_bind_def host_defs Let_def
        replies_stable [OF assms] split: option.split sum.split)
  moreover have "run_state (dispatch_oracle_hook E H fuel ev) tr = run_state (dispatch_oracle_hook E H enough ev) tr" for ev tr
    by (simp add: dispatch_oracle_hook_def collect_additional_context_def subscribe_ok_def publish_ok_def try_bind_def
        host_defs Let_def contexts_stable [OF assms] split: option.split sum.split)
  ultimately show ?thesis
    by (simp add: handle_bridge_def handle_oracle_hook_def try_bind_def host_defs split: option.split sum.split)
qed

end

text \<open>
  C30: The bridge returns.  On a clock that never goes back and advances by at least \<open>d\<close> nanoseconds
  across a receive, as many rounds as the five seconds of a collection have steps of \<open>d\<close> are enough
  for every interceptor: with more fuel it makes the same calls and returns the same, whatever the
  subscribers send.\<close>

theorem bridge_ends:
  assumes "0 < d" and "\<And>tr. h_mono H tr \<le> h_mono H (EvMono (h_mono H tr) # tr)"
    and "\<And>t ms r tr. h_mono H tr + d \<le> h_mono H (EvRecv t ms r # EvMono (h_mono H tr) # tr)"
    and "rounds_for d (HOOK_COLLECT_DEADLINE_MS * 1000000) \<le> fuel"
  shows "run_state (handle_bridge E H fuel c payload) tr =
    run_state (handle_bridge E H (rounds_for d (HOOK_COLLECT_DEADLINE_MS * 1000000)) c payload) tr"
  using assms by (intro bridge_clock.bridge_stable) unfold_locales

interpretation mem_bridge_clock: bridge_clock mem_host 2000000
  by unfold_locales

interpretation mem_reply_window: window_loop mem_host 2000000 "collect_replies mem_host topic start" start
    "HOOK_COLLECT_DEADLINE_MS * 1000000" for topic start
  by (rule mem_bridge_clock.reply_window)

interpretation mem_context_window: window_loop mem_host 2000000 "context_window mem_host topic start" start
    "HOST_HOOK_COLLECT_DEADLINE_MS * 1000000" for topic start
  by (rule mem_bridge_clock.context_window_loop)

lemma bridge_ends_witness:
  "run_state (handle_bridge demo_hook_request mem_host 9000 OnToolCallStarted JNull) [] =
   run_state (handle_bridge demo_hook_request mem_host 2501 OnToolCallStarted JNull) []"
proof -
  have "rounds_for 2000000 (HOOK_COLLECT_DEADLINE_MS * 1000000) = 2501"
    by (simp add: rounds_for_def ticks_def HOOK_COLLECT_DEADLINE_MS_def)
  then show ?thesis
    using bridge_ends [OF mem_clock.positive mem_clock.steady mem_clock.tick, of 9000] by simp
qed

subsection \<open>Hooks of outside hosts\<close>

text \<open>The contexts kept so far and their length once joined, which stays within the limit.\<close>

definition within_limit :: "string list \<times> nat \<Rightarrow> bool" where
  "within_limit acc \<longleftrightarrow> snd acc = length (join_with [CHR 0x0A, CHR 0x0A] (fst acc)) \<and> snd acc \<le> MAX_HOST_CONTEXT_BYTES"

lemma within_limit_start [simp]: "within_limit ([], 0)"
  by (simp add: within_limit_def)

lemma push_within_limit: "within_limit acc \<Longrightarrow> within_limit (push_context acc c)"
  by (auto simp: within_limit_def push_context_def Let_def length_join_with neq_Nil_conv split: prod.splits)

lemma push_all_within_limit: "within_limit acc \<Longrightarrow> within_limit (foldl push_context acc cs)"
  by (induction cs arbitrary: acc) (simp_all add: push_within_limit)

lemma context_window_run:
  "within_limit acc \<Longrightarrow> wp (context_window H t start fuel acc) (\<lambda>r tr'. \<exists>evs. tr' = evs @ tr \<and>
     list_all (waits_on t) evs \<and> (\<forall>cs. r = Inr cs \<longrightarrow> length (join_with [CHR 0x0A, CHR 0x0A] cs) \<le> MAX_HOST_CONTEXT_BYTES)) tr"
proof (induction fuel arbitrary: acc tr)
  case 0
  then show ?case by (auto simp: within_limit_def intro: wpI)
next
  case (Suc fuel)
  have step: "r = Inr b \<Longrightarrow> wp (context_window H t start fuel (foldl push_context acc (offered_contexts H (batch_msgs b))))
      (\<lambda>r tr'. \<exists>evs. tr' = evs @ tr \<and> list_all (waits_on t) evs \<and>
        (\<forall>cs. r = Inr cs \<longrightarrow> length (join_with [CHR 0x0A, CHR 0x0A] cs) \<le> MAX_HOST_CONTEXT_BYTES))
      (EvRecv t ms r # EvMono now # tr)" for b ms now r
    by (rule wp_mono [OF Suc.IH]) (auto intro: push_all_within_limit [OF Suc.prems] exI [where x = "_ @ [EvRecv t ms (Inr b), EvMono now]"])
  have small: "length (join_with [CHR 0x0A, CHR 0x0A] (fst acc)) \<le> MAX_HOST_CONTEXT_BYTES"
    using Suc.prems by (simp add: within_limit_def)
  show ?case
    unfolding context_window.simps
    by (intro wpI step) (auto intro: exI [where x = "[_]"] exI [where x = "[_, _]"] small)
qed

text \<open>\<open>hook_request_event H E ev e\<close>: a publication of \<open>e\<close> is the hook request that \<open>ev\<close> asks for.\<close>

definition oracle_request :: "(hook_event_request \<Rightarrow> json) \<Rightarrow> hbhost \<Rightarrow> oracle_event \<Rightarrow> (string \<times> json) option" where
  "oracle_request E H ev = map_option (\<lambda>(hook, wants). (hook_event_topic hook, E \<lparr>he_hook = hook,
     he_payload = h_render H (canonical_payload ev),
     he_correlation_id = (if wants then Some (oe_correlation_id ev) else None)\<rparr>)) (canonical_hook_for_host_event (oe_event ev))"

definition context_allowed :: "oracle_event \<Rightarrow> string option \<Rightarrow> bool" where
  "context_allowed ev ctx \<longleftrightarrow> (case ctx of None \<Rightarrow> True | Some c \<Rightarrow>
     oe_event ev = ''user_prompt_submit'' \<and> length c \<le> MAX_HOST_CONTEXT_BYTES)"

lemma wants_context:
  "canonical_hook_for_host_event e = Some (hook, True) \<Longrightarrow> e = ''user_prompt_submit''"
  by (auto simp: canonical_hook_for_host_event_def split: if_splits)

lemma waiting_silent: "list_all (waits_on t) evs \<Longrightarrow> pubs evs = []"
  by (induction evs) (auto elim!: waits_on.elims split: option.splits)

lemma collect_context_run:
  "wp (collect_additional_context H fuel t) (\<lambda>r tr'. \<exists>evs. tr' = evs @ tr \<and> pubs evs = [] \<and>
     (\<forall>c. r = Inr (Some c) \<longrightarrow> length c \<le> MAX_HOST_CONTEXT_BYTES)) tr"
  unfolding collect_additional_context_def
  by (intro wpI wp_mono [OF context_window_run [OF within_limit_start]])
    (auto simp: waiting_silent intro!: wpI exI [where x = "_ @ [EvMono _]"] split: if_splits)

lemma dispatch_oracle_run:
  "wp (dispatch_oracle_hook E H fuel ev) (\<lambda>r tr'. \<exists>evs. tr' = evs @ tr \<and>
     (\<forall>p \<in> set (pubs evs). oracle_request E H ev = Some p) \<and> (\<forall>ctx. r = Inr ctx \<longrightarrow> context_allowed ev ctx)) tr"
  unfolding dispatch_oracle_hook_def Let_def subscribe_ok_def publish_ok_def
  by (intro wpI allI impI conjI wp_mono [OF collect_context_run])
    (auto simp: context_allowed_def oracle_request_def dest!: wants_context split: option.splits
      intro: exI [where x = "[_]"] exI [where x = "[_, _]"] intro!: exI [where x = "_ @ [EvPub _ _ _, EvSub _ _]"])

lemma oracle_topics_differ [simp]: "oracle_response_topic ev \<noteq> hook_event_topic h" "hook_event_topic h \<noteq> oracle_response_topic ev"
  by (simp_all add: oracle_response_topic_def hook_event_topic_def)

text \<open>What a run of the handler publishes: nothing, the hook request, or both it and one response.\<close>

definition oracle_published ::
  "(hook_event_request \<Rightarrow> json) \<Rightarrow> hbhost \<Rightarrow> oracle_event \<Rightarrow> bool \<Rightarrow> (string \<times> json) list \<Rightarrow> bool" where
  "oracle_published E H ev ok ps \<longleftrightarrow> (\<exists>reqs resps. ps = reqs @ resps \<and>
     (\<forall>p \<in> set reqs. oracle_request E H ev = Some p) \<and>
     (resps = [] \<and> \<not> ok \<or> (\<exists>ctx. context_allowed ev ctx \<and> resps = [(oracle_response_topic ev, oracle_response ev ctx)])))"

definition oracle_outcome ::
  "(hook_event_request \<Rightarrow> json) \<Rightarrow> hbhost \<Rightarrow> oracle_event \<Rightarrow> host_error + unit \<Rightarrow> (unit, json) event list \<Rightarrow> bool" where
  "oracle_outcome E H ev r evs \<longleftrightarrow> (\<exists>evs' who. evs = evs' @ [EvCaller who] \<and> (case who of
     Inl e \<Rightarrow> evs' = []
   | Inr w \<Rightarrow> if caller_principal w = Some (oe_principal_id ev) then oracle_published E H ev (r = Inr ()) (pubs evs')
       else evs' = []))"

lemma handle_oracle_run:
  assumes "decode_oracle_event payload = Some ev" and "validate_oracle_hook (h_render H) ev = Inr ()"
  shows "wp (handle_oracle_hook E H fuel payload) (\<lambda>r tr'. \<exists>evs. tr' = evs @ tr \<and> oracle_outcome E H ev r evs) tr"
  unfolding handle_oracle_hook_def assms option.case sum.case publish_ok_def
proof (intro wpI conjI allI impI, goal_cases)
  case (1 r e)
  then show ?case by (intro exI [where x = "[EvCaller r]"]) (simp add: oracle_outcome_def)
next
  case (2 r w)
  then show ?case by (intro exI [where x = "[EvCaller r]"]) (simp add: oracle_outcome_def)
next
  case (3 r w)
  have published: "\<exists>evs'. EvPub (oracle_response_topic ev) (oracle_response ev ctx) e # evs @ EvCaller r # tr = evs' @ tr \<and>
      oracle_outcome E H ev (case e of None \<Rightarrow> Inr () | Some x \<Rightarrow> Inl x) evs'"
    if "\<forall>p\<in>set (pubs evs). oracle_request E H ev = Some p" "context_allowed ev ctx" for evs ctx e
    using 3 that by (intro exI [where x = "EvPub _ _ e # evs @ [EvCaller r]"])
      (auto simp: oracle_outcome_def oracle_published_def)
  have dropped: "\<exists>evs'. evs @ EvCaller r # tr = evs' @ tr \<and> oracle_outcome E H ev (Inl e) evs'"
    if "\<forall>p\<in>set (pubs evs). oracle_request E H ev = Some p" for evs e
    using 3 that by (intro exI [where x = "evs @ [EvCaller r]"]) (auto simp: oracle_outcome_def oracle_published_def)
  show ?case
    by (rule wp_mono [OF dispatch_oracle_run]) (auto intro!: wpI published dropped)
qed

text \<open>
  C16: Only a valid hook of the calling principal goes on the bus, and it is answered once.  On every
  host, whatever an outside host sends: nothing is published unless the payload decodes to an event
  that passes the validation and names the principal that the kernel attributes to the caller; then the
  publications are the request on the canonical hook topic of the event, with its own payload, and the
  response on the delivery id's topic, one segment that binds route and correlation; a run that
  succeeds has exactly one response; and a context goes only to a submitted prompt, at most 64 KiB.\<close>

theorem oracle_hook_authorised:
  "case (decode_oracle_event payload, run_state (handle_oracle_hook E H fuel payload) tr) of
     (None, _, tr') \<Rightarrow> tr' = tr
   | (Some ev, r, tr') \<Rightarrow>
       if validate_oracle_hook (h_render H) ev \<noteq> Inr () then tr' = tr
       else (\<exists>evs. tr' = evs @ tr \<and> oracle_outcome E H ev r evs) \<and>
         oe_delivery_id ev = oe_route_id ev @ ''-'' @ oe_correlation_id ev \<and> list_all segment_char (oe_delivery_id ev)"
proof (cases "decode_oracle_event payload")
  case (Some ev)
  obtain r tr' where run: "run_state (handle_oracle_hook E H fuel payload) tr = (r, tr')" by force
  show ?thesis
  proof (cases "validate_oracle_hook (h_render H) ev = Inr ()")
    case True
    then have "oe_delivery_id ev = oe_route_id ev @ ''-'' @ oe_correlation_id ev" "list_all segment_char (oe_delivery_id ev)"
      by (auto simp: validate_oracle_hook_def is_clean_segment_def split: if_splits)
    with wpD [OF handle_oracle_run [OF Some True] run] True run Some show ?thesis
      by (auto split: sum.splits if_splits)
  next
    case False
    then show ?thesis using Some run by (auto simp: handle_oracle_hook_def split: sum.splits)
  qed
qed (simp add: handle_oracle_hook_def)

end
