(* ===== verification/Hook_Gate.thy ===== *)
theory Hook_Gate
  imports Broker
begin

text \<open>
  The \<open>before_tool_call\<close> responder (\<open>crates/aos-mcp-broker/src/hook_gate.rs\<close>): the same policy on
  the native-tool plane, answered on the correlation topic.
\<close>

record before_tool_call_event =
  btc_payload :: json
  btc_correlation_id :: "string option"

definition decode_before_tool_call :: "json \<Rightarrow> before_tool_call_event option" where
  "decode_before_tool_call j = (if struct_shape 2 j then
     (case maybe_string 1 ''correlation_id'' j of
        Some c \<Rightarrow> Some \<lparr>btc_payload = or_default JNull (field 0 ''payload'' j), btc_correlation_id = c\<rparr>
      | None \<Rightarrow> None) else None)"

definition verdict_body :: "decision \<Rightarrow> json" where
  "verdict_body d = (case d of
     Deny reason \<Rightarrow> JObj [(''skip'', JBool True), (''reason'', JStr reason)]
   | Allow \<Rightarrow> JObj [(''skip'', JBool False)])"

definition verdict :: "bhost \<Rightarrow> string \<Rightarrow> json \<Rightarrow> json bio" where
  "verdict H tool_name tool_input = do {
     rules \<leftarrow> load_rules H;
     (let d = evaluate (h_pointer H) rules tool_name tool_input in do {
        (case d of
           Deny reason \<Rightarrow> audit_deny H ''pretooluse_deny'' tool_name reason
         | Allow \<Rightarrow> ret ());
        ret (verdict_body d)
      })
   }"

definition handle_before_tool_call :: "bhost \<Rightarrow> json \<Rightarrow> unit bio" where
  "handle_before_tool_call H payload = (case decode_before_tool_call payload of
     None \<Rightarrow> ret ()
   | Some event \<Rightarrow> (case btc_correlation_id event of
       None \<Rightarrow> ret ()
     | Some correlation_id \<Rightarrow> (case hook_reply_topic correlation_id of
         None \<Rightarrow> ret ()
       | Some topic \<Rightarrow> do {
           reply \<leftarrow> verdict H (or_default [] (get_str ''tool_name'' (btc_payload event)))
             (gate_tool_input H (btc_payload event));
           publish_reply H topic reply
         })))"

lemma wp_verdict:
  assumes "\<And>v load audit d e. load_trace H v load \<Longrightarrow>
     d = evaluate (h_pointer H) (rules_of_setting H v) tool input \<Longrightarrow>
     audit = (case d of Allow \<Rightarrow> [] | Deny reason \<Rightarrow>
       [EvPub (audit_topic ''pretooluse_deny'') (JObj [(''tool'', JStr tool), (''rule'', JStr reason)]) e]) \<Longrightarrow>
     Q (verdict_body d) (audit @ load @ tr)"
  shows "wp (verdict H tool input) Q tr"
  unfolding verdict_def Let_def
proof (intro wp_bind wp_load_rules)
  fix v load assume load: "load_trace H v load"
  note rule = assms [OF load refl refl]
  show "wp (case evaluate (h_pointer H) (rules_of_setting H v) tool input of
       Allow \<Rightarrow> ret () | Deny reason \<Rightarrow> audit_deny H ''pretooluse_deny'' tool reason)
     (\<lambda>_. wp (ret (verdict_body (evaluate (h_pointer H) (rules_of_setting H v) tool input))) Q) (load @ tr)"
    using rule by (auto intro!: wpI split: decision.split)
qed

text \<open>
  the responder only ever speaks to a routable correlation id, and then its one reply on the
  correlation topic says \<open>skip: true\<close> exactly when the operator's rules, as read from the
  environment in that run, deny the named tool; the store is never written.
\<close>

theorem hook_verdict_follows_policy:
  assumes "decode_before_tool_call payload = Some event"
  shows "(case Option.bind (btc_correlation_id event) hook_reply_topic of
      None \<Rightarrow> new_events (handle_before_tool_call H payload) tr = []
    | Some topic \<Rightarrow> \<exists>v reply.
        EvEnv POLICY_RULES_ENV v \<in> set (new_events (handle_before_tool_call H payload) tr) \<and>
        pubs_on topic (new_events (handle_before_tool_call H payload) tr) = [reply] \<and>
        (get_bool ''skip'' reply = Some True \<longleftrightarrow>
          evaluate (h_pointer H) (rules_of_setting H v)
            (or_default [] (get_str ''tool_name'' (btc_payload event)))
            (gate_tool_input H (btc_payload event)) \<noteq> Allow) \<and>
        list_all (\<lambda>e. writes_key e = None) (new_events (handle_before_tool_call H payload) tr))"
proof (cases "Option.bind (btc_correlation_id event) hook_reply_topic")
  case None
  then show ?thesis
    using assms by (auto simp: handle_before_tool_call_def new_events_def final_trace_def
        split: option.splits Option.bind_splits)
next
  case (Some topic)
  then obtain c where c: "btc_correlation_id event = Some c" "hook_reply_topic c = Some topic"
    by (auto split: Option.bind_splits)
  have t: "topic = REPLY_PREFIX @ c" by (rule hook_topics.gate_SomeD) (rule c)
  have other: "audit_topic x \<noteq> topic" for x by (simp add: t audit_topic_eq REPLY_PREFIX_def)
  let ?tool = "or_default [] (get_str ''tool_name'' (btc_payload event))"
    and ?input = "gate_tool_input H (btc_payload event)"
  let ?P = "\<lambda>evs. \<exists>v reply. EvEnv POLICY_RULES_ENV v \<in> set evs \<and>
        pubs_on topic evs = [reply] \<and>
        (get_bool ''skip'' reply = Some True \<longleftrightarrow>
          evaluate (h_pointer H) (rules_of_setting H v) ?tool ?input \<noteq> Allow) \<and>
        list_all (\<lambda>e. writes_key e = None) evs"
  have "wp (handle_before_tool_call H payload) (\<lambda>_ t. ?P (since tr t)) tr"
    unfolding handle_before_tool_call_def assms c option.case
  proof (intro wp_bind wp_verdict wp_publish_reply)
    fix v :: "host_error + string option" and load audit :: btrace and d e r
    assume "load_trace H v load" "d = evaluate (h_pointer H) (rules_of_setting H v) ?tool ?input"
      "audit = (case d of Allow \<Rightarrow> [] | Deny reason \<Rightarrow>
         [EvPub (audit_topic ''pretooluse_deny'') (JObj [(''tool'', JStr ?tool), (''rule'', JStr reason)]) e])"
    then show "?P (since tr (EvPub topic (verdict_body d) r # audit @ load @ tr))"
      by (intro exI [where x = v] exI [where x = "verdict_body d"])
        (auto simp: load_trace_def other verdict_body_def get_bool_def split: decision.split)
  qed
  then have "?P (new_events (handle_before_tool_call H payload) tr)" by (rule wp_new_events)
  then show ?thesis using Some by simp
qed

lemma hook_verdict_follows_policy_witness:
  "\<exists>reply. pubs_on ''hook.v1.response.before_tool_call.c1''
       (new_events (handle_before_tool_call mem_host (JObj [(''correlation_id'', JStr ''c1''),
          (''payload'', JObj [(''tool_name'', JStr ''Bash'')])])) []) = [reply]"
  using hook_verdict_follows_policy [of
      "JObj [(''correlation_id'', JStr ''c1''), (''payload'', JObj [(''tool_name'', JStr ''Bash'')])]"
      "\<lparr>btc_payload = JObj [(''tool_name'', JStr ''Bash'')], btc_correlation_id = Some ''c1''\<rparr>" mem_host "[]"]
  by (auto simp: decode_before_tool_call_def struct_shape_def maybe_string_def field_def
      hook_reply_topic_def MAX_CORRELATION_LEN_def REPLY_PREFIX_def segment_char_def ascii_alnum_def)

end
