(* ===== verification/Bridge_Gate.thy ===== *)
theory Bridge_Gate
  imports Hook_Bridge_Spec Hook_Gate
begin

text \<open>
  The hook bridge and the policy responder of the MCP broker together.  The bridge publishes a tool call
  with its payload rendered as a JSON string; the responder looks up the tool in the payload as an
  object.  \<open>hook_request_codec\<close> states what the SDK's serialiser does with the three fields of a request.
\<close>

locale hook_request_codec =
  fixes E :: "hook_event_request \<Rightarrow> json"
  assumes object: "\<exists>m. E r = JObj m"
    and payload_member: "jget ''payload'' (E r) = Some (JStr (he_payload r))"
    and correlation_member: "he_correlation_id r = Some c \<Longrightarrow> jget ''correlation_id'' (E r) = Some (JStr c)"
begin

lemma decoded_request:
  assumes "he_correlation_id r = Some c"
  shows "decode_before_tool_call (E r) = Some \<lparr>btc_payload = JStr (he_payload r), btc_correlation_id = Some c\<rparr>"
proof -
  obtain m where m: "E r = JObj m" using object by blast
  show ?thesis
    using payload_member [of r] correlation_member [OF assms] by (simp add: m decode_before_tool_call_def struct_shape_def field_def maybe_string_def)
qed

end

interpretation demo_codec: hook_request_codec demo_hook_request
  by unfold_locales (simp_all add: demo_hook_request_def)

text \<open>A correlation id of the bridge is routable: lower-case hex of sixteen bytes.\<close>

lemma hex_digit_segment: "d < 16 \<Longrightarrow> segment_char (hex_digit d)"
  by (auto simp: hex_digit_def segment_char_def ascii_alnum_def Let_def)

lemma hex_text: "length (concat (map hex_byte bs)) = 2 * length bs" "list_all segment_char (concat (map hex_byte bs))"
  by (induction bs) (auto simp: hex_byte_def intro!: hex_digit_segment less_mult_imp_div_less less_le_trans [OF nat_of_char_less_256])

text \<open>What sixteen random bytes become.\<close>

definition bridge_corr :: "string \<Rightarrow> bool" where
  "bridge_corr c \<longleftrightarrow> length c = 32 \<and> list_all segment_char c"

lemma bridge_corr_routable:
  "bridge_corr c \<Longrightarrow> hook_reply_topic c = Some (hook_response_topic ''before_tool_call'' c)"
  by (cases c) (auto simp: bridge_corr_def hook_reply_topic_def MAX_CORRELATION_LEN_def REPLY_PREFIX_def hook_response_topic_def list_all_iff)

lemma correlation_run:
  assumes "\<And>tr bs. h_random H tr 16 = Inr bs \<Longrightarrow> length bs = 16"
  shows "wp (correlation_id H) (\<lambda>r t. \<exists>b. t = EvRandom 16 b # tr \<and> (\<forall>c. r = Inr c \<longrightarrow> bridge_corr c)) tr"
  using assms [of tr] hex_text
  by (cases "h_random H tr 16") (auto simp: correlation_id_def try_bind_def random_bytes_def wp_def bridge_corr_def)

text \<open>The requests a tool call leads to.\<close>

definition tool_call_request :: "(hook_event_request \<Rightarrow> json) \<Rightarrow> hbhost \<Rightarrow> json \<Rightarrow> (unit, json) event list \<Rightarrow> json \<Rightarrow> bool" where
  "tool_call_request E H call evs m \<longleftrightarrow> (\<exists>corr. bridge_corr corr \<and>
     EvSub (hook_response_topic ''before_tool_call'' corr) None \<in> set evs \<and>
     m = E \<lparr>he_hook = ''before_tool_call'', he_payload = h_render H call, he_correlation_id = Some corr\<rparr>)"

lemma tool_call_requestI:
  "bridge_corr c \<Longrightarrow> EvSub (hook_response_topic ''before_tool_call'' c) None \<in> set evs \<Longrightarrow>
   tool_call_request E H call evs (E \<lparr>he_hook = ''before_tool_call'', he_payload = h_render H call, he_correlation_id = Some c\<rparr>)"
  unfolding tool_call_request_def by blast

lemma collect_silent: "wp (collect_replies H t start fuel rs) (\<lambda>_ tr'. \<exists>evs. tr' = evs @ tr \<and> pubs evs = []) tr"
  by (rule wp_mono [OF collect_replies_run]) (auto simp: waiting_silent)

lemma tool_call_requests:
  assumes "\<And>tr bs. h_random H tr 16 = Inr bs \<Longrightarrow> length bs = 16"
  shows "wp (dispatch_hook E H fuel (LIFECYCLE_PREFIX @ ''tool_call_started'') call)
     (\<lambda>_ tr'. \<forall>t m. (t, m) \<in> set (pubs (since tr tr')) \<longrightarrow> tool_call_request E H call (since tr tr') m) tr"
proof -
  have sent: "wp (do { start \<leftarrow> monotonic H; try_bind (collect_replies H t start fuel []) (\<lambda>rs. ret (Inr (g rs))) })
      (\<lambda>_ tr'. \<forall>u m. (u, m) \<in> set (pubs (since tr tr')) \<longrightarrow> tool_call_request E H call (since tr tr') m) tr1"
    if "extends tr tr1" "\<And>evs u m. (u, m) \<in> set (pubs (since tr tr1)) \<Longrightarrow> tool_call_request E H call (evs @ since tr tr1) m" for t g tr1
    by (rule wp_bind, rule wp_monotonic, rule wp_try_bind, rule wp_mono [OF collect_silent], elim exE conjE)
      (auto simp: that(1) intro!: wp_return intro: that(2) [where evs = "_ @ [EvMono _]", simplified])
  show ?thesis
    unfolding dispatch_hook_def tool_call_mapping option.case Let_def
    apply simp
    apply (rule wp_try_bind, rule wp_mono [OF correlation_run [OF assms]], assumption)
    apply (clarsimp, rule wp_try_subscribe, simp)
    apply (rule wp_try_publish)
     apply (simp add: tool_call_requestI)
    apply (rule sent; simp add: tool_call_requestI)
    done
qed

text \<open>
  C14: A tool call that the bridge fans out is judged without its tool.  On every host, the request that
  the bridge publishes for a tool call has a correlation id that the responder accepts, and the
  responder answers once, with a veto exactly when the operator's rules deny the tool with the empty
  name and no input, whatever the tool call is: a rule about a named tool or about an argument never
  decides.\<close>

theorem bridged_call_ungated:
  assumes "hook_request_codec E" and "\<forall>tr bs. h_random HB tr 16 = Inr bs \<longrightarrow> length bs = 16"
    and "EvPub (hook_event_topic ''before_tool_call'') m e \<in>
      set (new_events (dispatch_hook E HB fuel (LIFECYCLE_PREFIX @ ''tool_call_started'') call) trb)"
  shows "\<exists>corr v reply. EvSub (hook_response_topic ''before_tool_call'' corr) None \<in>
      set (new_events (dispatch_hook E HB fuel (LIFECYCLE_PREFIX @ ''tool_call_started'') call) trb) \<and>
    pubs_on (hook_response_topic ''before_tool_call'' corr) (new_events (handle_before_tool_call HG m) trg) = [reply] \<and>
    EvEnv POLICY_RULES_ENV v \<in> set (new_events (handle_before_tool_call HG m) trg) \<and>
    (get_bool ''skip'' reply = Some True \<longleftrightarrow> evaluate (h_pointer HG) (rules_of_setting HG v) [] JNull \<noteq> Allow)"
proof -
  let ?evs = "new_events (dispatch_hook E HB fuel (LIFECYCLE_PREFIX @ ''tool_call_started'') call) trb"
  have "(hook_event_topic ''before_tool_call'', m) \<in> set (pubs ?evs)" using assms(3) by (rule pubs_memI)
  moreover have "\<forall>t m. (t, m) \<in> set (pubs ?evs) \<longrightarrow> tool_call_request E HB call ?evs m"
    by (rule wp_new_events, rule tool_call_requests) (use assms(2) in blast)
  ultimately obtain c where
    c: "bridge_corr c" "EvSub (hook_response_topic ''before_tool_call'' c) None \<in> set ?evs"
      "m = E \<lparr>he_hook = ''before_tool_call'', he_payload = h_render HB call, he_correlation_id = Some c\<rparr>"
    unfolding tool_call_request_def by blast
  have "decode_before_tool_call m = Some \<lparr>btc_payload = JStr (h_render HB call), btc_correlation_id = Some c\<rparr>"
    using hook_request_codec.decoded_request [OF assms(1), of "\<lparr>he_hook = ''before_tool_call'', he_payload = h_render HB call, he_correlation_id = Some c\<rparr>"]
    by (simp add: c(3))
  from hook_verdict_follows_policy [OF this, of HG trg] show ?thesis
    using bridge_corr_routable [OF c(1)] c(2) by (auto simp: get_str_def gate_tool_input_def)
qed

text \<open>A policy that denies \<open>Bash\<close>, and the call of \<open>Bash\<close> that it lets pass.\<close>

definition no_bash :: rule where
  "no_bash = \<lparr>rule_id = ''no-bash'', rule_effect = EffDeny, rule_tool = ''Bash'', rule_when = []\<rparr>"

definition bash_policy_host :: bhost where
  "bash_policy_host = mem_host\<lparr>h_env := (\<lambda>tr k. Inr (Some ''rules'')),
     h_parse := (\<lambda>s. Some (JArr [JObj [(''id'', JStr ''no-bash''), (''effect'', JStr ''deny''), (''tool'', JStr ''Bash'')]]))\<rparr>"

definition bash_call :: json where
  "bash_call = JObj [(''tool_name'', JStr ''Bash''), (''tool_input'', JObj [(''command'', JStr ''rm'')])]"

lemma bash_rules: "rules_of_setting bash_policy_host v \<in> {[], [no_bash]}"
  by (auto simp: rules_of_setting_def bash_policy_host_def no_bash_def decode_rules_def decode_rule_def struct_shape_def
      req_string_def field_def decode_effect_def unit_variant_def split: sum.split option.split)

lemma bash_denied: "evaluate ptr [no_bash] ''Bash'' x = Deny ''no-bash''" "evaluate ptr [no_bash] [] x = Allow"
proof -
  have "glob_match ''Bash'' ''Bash''" "\<not> glob_match ''Bash'' []" by code_simp+
  then show "evaluate ptr [no_bash] ''Bash'' x = Deny ''no-bash''" "evaluate ptr [no_bash] [] x = Allow"
    by (simp_all add: no_bash_def)
qed

lemma bridged_call_ungated_witness:
  "\<exists>m corr reply. EvPub (hook_event_topic ''before_tool_call'') m None \<in>
      set (new_events (dispatch_hook demo_hook_request mem_host 1 (LIFECYCLE_PREFIX @ ''tool_call_started'') bash_call) []) \<and>
    pubs_on (hook_response_topic ''before_tool_call'' corr) (new_events (handle_before_tool_call bash_policy_host m) []) = [reply] \<and>
    get_bool ''skip'' reply \<noteq> Some True"
proof -
  let ?evs = "new_events (dispatch_hook demo_hook_request mem_host 1 (LIFECYCLE_PREFIX @ ''tool_call_started'') bash_call) []"
  have "\<exists>m. EvPub (hook_event_topic ''before_tool_call'') m None \<in> set ?evs"
    unfolding dispatch_hook_def tool_call_mapping
    by (simp add: new_events_def final_trace_def correlation_id_def try_bind_def subscribe_ok_def publish_ok_def host_defs
        mem_host_def Let_def split: sum.split)
  then obtain m where m: "EvPub (hook_event_topic ''before_tool_call'') m None \<in> set ?evs" by blast
  have random: "\<forall>tr bs. h_random mem_host tr 16 = Inr bs \<longrightarrow> length bs = 16"
    by (auto simp: mem_host_def)
  obtain corr v reply where
    "pubs_on (hook_response_topic ''before_tool_call'' corr) (new_events (handle_before_tool_call bash_policy_host m) []) = [reply]"
    "get_bool ''skip'' reply = Some True \<longleftrightarrow> evaluate (h_pointer bash_policy_host) (rules_of_setting bash_policy_host v) [] JNull \<noteq> Allow"
    using bridged_call_ungated [OF demo_codec.hook_request_codec_axioms random m, where HG = bash_policy_host and trg = "[]"] by blast
  with m bash_rules [of v] show ?thesis by (auto simp: bash_denied(2) simp del: evaluate.simps(2))
qed

end
