(* ===== verification/React_State.thy ===== *)
theory React_State
  imports Host
begin

text \<open>
  The state of the ReAct loop (\<open>capsules/capsule-react/src/lib.rs\<close>, upper part): the persisted turn
  of a session, its phases, the correlation mappings and the set of active sessions.

  The types of \<open>astrid_sdk\<close> (messages, tool definitions, payloads) appear with the constructors the
  code builds or matches and one more for the rest; what the SDK computes on them (serialisation,
  \<open>Message::assistant\<close>, the text of a UUID) is the parameter \<open>sdk\<close>.  A UUID is a natural number, the
  nil UUID is 0.  The store holds typed values: \<open>set_json\<close> writes a turn or a list of sessions,
  \<open>set_bytes\<close> bytes, and a read at the other type is a parse error.
\<close>

datatype tool_call_result = ToolCallResult json
datatype tool_definition = ToolDefinition json

record tool_call =
  tc_id :: string
  tc_name :: string
  tc_arguments :: json

datatype message_role = RoleUser | RoleTool | RoleOther string

datatype message_content =
    ContentText string
  | ContentToolResult tool_call_result
  | ContentOther json

record message =
  msg_role :: message_role
  msg_content :: message_content

datatype stream_event =
    TextDelta string
  | ToolCallStart string string
  | ToolCallDelta string string
  | ToolCallEnd string
  | StreamDone
  | StreamError string
  | StreamOther

datatype ipc_payload =
    AgentResponse string bool string
  | UserInput string string "json option"
  | LlmStreamEvent nat stream_event
  | LlmRequest nat string "message list" "tool_definition list" string
  | ToolExecuteRequest string string json
  | ToolExecuteResult string tool_call_result
  | ToolCancelRequest "string list"
  | IpcOther

datatype react_msg = PIpc ipc_payload | PJson json

record sdk =
  sdk_assistant :: "string \<Rightarrow> message"
  sdk_assistant_with_tools :: "tool_call list \<Rightarrow> message"
  message_to_value :: "message \<Rightarrow> json option"
  message_from_value :: "json \<Rightarrow> message option"
  tool_from_value :: "json \<Rightarrow> tool_definition option"
  uuid_text :: "nat \<Rightarrow> string"

subsection \<open>The turn\<close>

datatype phase = Idle | AwaitingIdentity | AwaitingPromptBuild | Streaming | AwaitingTools

fun phase_name :: "phase \<Rightarrow> string" where
  "phase_name Idle = ''Idle''"
| "phase_name AwaitingIdentity = ''AwaitingIdentity''"
| "phase_name AwaitingPromptBuild = ''AwaitingPromptBuild''"
| "phase_name Streaming = ''Streaming''"
| "phase_name AwaitingTools = ''AwaitingTools''"

record pending_tool_call =
  pt_id :: string
  pt_name :: string
  pt_args_json :: string
  pt_complete :: bool

record dispatched_tool_call =
  dt_id :: string
  dt_name :: string
  dt_arguments :: json
  dt_result :: "tool_call_result option"
  dt_turn_request_id :: nat

record turn_state =
  schema_version :: nat
  session_id :: string
  phase_of :: phase
  system_prompt :: string
  request_id :: nat
  response_text :: string
  pending_stream_tools :: "pending_tool_call list"
  dispatched_tools :: "dispatched_tool_call list"
  current_tools :: "tool_definition list"
  iteration_count :: nat
  phase_entered_at_ms :: nat
  request_model_override :: "string option"

datatype kv_value = VBytes string | VTurn turn_state | VSessions "string list"

type_synonym rhost = "(kv_value, react_msg) host"
type_synonym rtrace = "(kv_value, react_msg) event list"
type_synonym 'a rio = "((kv_value, react_msg) event list, 'a) state"
type_synonym 'a fallible = "((kv_value, react_msg) event list, host_error + 'a) state"

definition DEFAULT_SESSION_ID :: string where "DEFAULT_SESSION_ID = ''default''"
definition TURN_KEY_PREFIX :: string where "TURN_KEY_PREFIX = ''react.turn''"
definition REQUEST_SESSION_PREFIX :: string where "REQUEST_SESSION_PREFIX = ''react.req2sess''"
definition CALL_SESSION_PREFIX :: string where "CALL_SESSION_PREFIX = ''react.call2sess''"
definition ACTIVE_SESSIONS_KEY :: string where "ACTIVE_SESSIONS_KEY = ''react.active_sessions''"
definition DEFAULT_SESSION_TIMEOUT_MS :: nat where "DEFAULT_SESSION_TIMEOUT_MS = 2000"
definition DEFAULT_IDENTITY_TIMEOUT_SECS :: nat where "DEFAULT_IDENTITY_TIMEOUT_SECS = 30"
definition DEFAULT_STREAMING_TIMEOUT_SECS :: nat where "DEFAULT_STREAMING_TIMEOUT_SECS = 120"
definition DEFAULT_TOOL_TIMEOUT_SECS :: nat where "DEFAULT_TOOL_TIMEOUT_SECS = 60"
definition DEFAULT_MAX_ITERATIONS :: nat where "DEFAULT_MAX_ITERATIONS = 25"

definition default_turn :: turn_state where
  "default_turn = \<lparr>schema_version = 1, session_id = DEFAULT_SESSION_ID, phase_of = Idle,
     system_prompt = [], request_id = 0, response_text = [], pending_stream_tools = [],
     dispatched_tools = [], current_tools = [], iteration_count = 0, phase_entered_at_ms = 0,
     request_model_override = None\<rparr>"

subsection \<open>Results and settings\<close>

text \<open>A host call that returns nothing but an error, as a \<open>Result\<close>.\<close>

definition checked :: "host_error option rio \<Rightarrow> unit fallible" where
  "checked m = do { r \<leftarrow> m; ret (case r of None \<Rightarrow> Inr () | Some e \<Rightarrow> Inl e) }"

text \<open>\<open>as u64\<close> of the milliseconds truncates.\<close>

definition now_ms :: "rhost \<Rightarrow> nat rio" where
  "now_ms H = do { t \<leftarrow> time_now H; ret (case t of None \<Rightarrow> 0 | Some ms \<Rightarrow> ms mod 2 ^ 64) }"

text \<open>\<open>env::var\<close> gives the empty string for a missing key.\<close>

definition env_or_empty :: "rhost \<Rightarrow> string \<Rightarrow> (host_error + string) rio" where
  "env_or_empty H k = do { v \<leftarrow> env_var H k; ret (map_sum id (or_default []) v) }"

definition get_config_u64 :: "rhost \<Rightarrow> string \<Rightarrow> nat \<Rightarrow> nat rio" where
  "get_config_u64 H key dflt = do {
     v \<leftarrow> env_or_empty H key;
     ret (case v of
         Inl e \<Rightarrow> dflt
       | Inr s \<Rightarrow> if blank s then dflt else or_default dflt (parse_u64 (trim_quotes (trim s))))
   }"

definition session_timeout_ms :: "rhost \<Rightarrow> nat rio" where
  "session_timeout_ms H = get_config_u64 H ''session_timeout_ms'' DEFAULT_SESSION_TIMEOUT_MS"

subsection \<open>Correlation mappings\<close>

definition turn_key :: "string \<Rightarrow> string" where
  "turn_key sid = TURN_KEY_PREFIX @ ''.'' @ sid"

definition request_key :: "sdk \<Rightarrow> nat \<Rightarrow> string" where
  "request_key A rid = REQUEST_SESSION_PREFIX @ ''.'' @ uuid_text A rid"

definition call_key :: "string \<Rightarrow> string" where
  "call_key call_id = CALL_SESSION_PREFIX @ ''.'' @ call_id"

definition store_request_session :: "sdk \<Rightarrow> rhost \<Rightarrow> nat \<Rightarrow> string \<Rightarrow> unit fallible" where
  "store_request_session A H rid sid = checked (kv_set H (request_key A rid) (VBytes sid))"

definition session_of_bytes :: "host_error + kv_value \<Rightarrow> string option" where
  "session_of_bytes v = (case v of Inr (VBytes b) \<Rightarrow> from_utf8 b | _ \<Rightarrow> None)"

definition lookup_session_by_request :: "sdk \<Rightarrow> rhost \<Rightarrow> nat \<Rightarrow> string option rio" where
  "lookup_session_by_request A H rid = do {
     v \<leftarrow> kv_get_raw H (request_key A rid);
     ret (session_of_bytes v)
   }"

fun store_call_sessions :: "rhost \<Rightarrow> string list \<Rightarrow> string \<Rightarrow> unit fallible" where
  "store_call_sessions H [] sid = ret (Inr ())"
| "store_call_sessions H (c # cs) sid =
     try_bind (checked (kv_set H (call_key c) (VBytes sid))) (\<lambda>_. store_call_sessions H cs sid)"

definition lookup_session_by_call :: "rhost \<Rightarrow> string \<Rightarrow> string option rio" where
  "lookup_session_by_call H call_id = do {
     v \<leftarrow> kv_get_raw H (call_key call_id);
     ret (session_of_bytes v)
   }"

definition delete_request_session :: "sdk \<Rightarrow> rhost \<Rightarrow> nat \<Rightarrow> unit rio" where
  "delete_request_session A H rid = do { _ \<leftarrow> kv_delete H (request_key A rid); ret () }"

definition delete_call_sessions :: "rhost \<Rightarrow> string list \<Rightarrow> unit rio" where
  "delete_call_sessions H call_ids =
     for_each call_ids (\<lambda>c. do { _ \<leftarrow> kv_delete H (call_key c); ret () })"

subsection \<open>Active sessions\<close>

definition sessions_of_read :: "host_error + kv_value option \<Rightarrow> string list" where
  "sessions_of_read v = (case v of Inr (Some (VSessions ss)) \<Rightarrow> ss | _ \<Rightarrow> [])"

definition load_active_sessions :: "rhost \<Rightarrow> string list rio" where
  "load_active_sessions H = do { v \<leftarrow> kv_get H ACTIVE_SESSIONS_KEY; ret (sessions_of_read v) }"

definition register_active_session :: "rhost \<Rightarrow> string \<Rightarrow> unit rio" where
  "register_active_session H sid = do {
     sessions \<leftarrow> load_active_sessions H;
     if sid \<notin> set sessions
     then do { _ \<leftarrow> kv_set H ACTIVE_SESSIONS_KEY (VSessions (sessions @ [sid])); ret () }
     else ret ()
   }"

text \<open>\<open>swap_remove\<close> of the first occurrence: the last element takes its place.\<close>

fun swap_remove :: "'a \<Rightarrow> 'a list \<Rightarrow> 'a list" where
  "swap_remove x [] = []"
| "swap_remove x (y # ys) =
     (if x = y then (if ys = [] then [] else last ys # butlast ys) else y # swap_remove x ys)"

definition unregister_active_session :: "rhost \<Rightarrow> string \<Rightarrow> unit rio" where
  "unregister_active_session H sid = do {
     sessions \<leftarrow> load_active_sessions H;
     if sid \<in> set sessions
     then do { _ \<leftarrow> kv_set H ACTIVE_SESSIONS_KEY (VSessions (swap_remove sid sessions)); ret () }
     else ret ()
   }"

definition clear_ephemeral_keys :: "rhost \<Rightarrow> unit rio" where
  "clear_ephemeral_keys H = do {
     for_each [''react.turn.'', ''react.req2sess.'', ''react.call2sess.'']
       (\<lambda>p. do { _ \<leftarrow> kv_clear_prefix H p; ret () });
     _ \<leftarrow> kv_delete H ACTIVE_SESSIONS_KEY;
     ret ()
   }"

subsection \<open>Operations on the turn\<close>

definition turn_of_read :: "string \<Rightarrow> host_error + kv_value option \<Rightarrow> turn_state" where
  "turn_of_read sid v =
     (let st = (case v of Inr (Some (VTurn s)) \<Rightarrow> s | _ \<Rightarrow> default_turn);
          st' = (if schema_version st = 0 \<or> schema_version st = 1 then st else default_turn)
      in st'\<lparr>session_id := sid\<rparr>)"

definition load_turn :: "rhost \<Rightarrow> string \<Rightarrow> turn_state rio" where
  "load_turn H sid = do { v \<leftarrow> kv_get H (turn_key sid); ret (turn_of_read sid v) }"

definition save_turn :: "rhost \<Rightarrow> turn_state \<Rightarrow> unit fallible" where
  "save_turn H st = checked (kv_set H (turn_key (session_id st)) (VTurn st))"

definition reset_turn :: "rhost \<Rightarrow> turn_state \<Rightarrow> turn_state rio" where
  "reset_turn H st = do {
     u \<leftarrow> new_uuid H;
     ret (st\<lparr>response_text := [], pending_stream_tools := [], dispatched_tools := [], request_id := u\<rparr>)
   }"

definition reset_conversation_turn :: "rhost \<Rightarrow> turn_state \<Rightarrow> turn_state rio" where
  "reset_conversation_turn H st = do {
     st' \<leftarrow> reset_turn H st;
     ret (st'\<lparr>current_tools := [], iteration_count := 0, request_model_override := None\<rparr>)
   }"

definition set_phase :: "rhost \<Rightarrow> phase \<Rightarrow> turn_state \<Rightarrow> turn_state rio" where
  "set_phase H p st = do {
     now \<leftarrow> now_ms H;
     (if p = Idle then unregister_active_session H (session_id st) else ret ());
     ret (st\<lparr>phase_of := p, phase_entered_at_ms := now\<rparr>)
   }"

definition agent_response :: "rhost \<Rightarrow> string \<Rightarrow> string \<Rightarrow> host_error option rio" where
  "agent_response H text sid = publish H ''agent.v1.response'' (PIpc (AgentResponse text True sid))"

definition phase_limit :: "phase \<Rightarrow> nat \<times> string" where
  "phase_limit p = (case p of
     Streaming \<Rightarrow> (DEFAULT_STREAMING_TIMEOUT_SECS, ''streaming_timeout_secs'')
   | AwaitingTools \<Rightarrow> (DEFAULT_TOOL_TIMEOUT_SECS, ''tool_timeout_secs'')
   | _ \<Rightarrow> (DEFAULT_IDENTITY_TIMEOUT_SECS, ''identity_timeout_secs''))"

definition check_phase_timeout :: "rhost \<Rightarrow> turn_state \<Rightarrow> (bool \<times> turn_state) fallible" where
  "check_phase_timeout H st =
     (if phase_of st = Idle then ret (Inr (False, st))
      else do {
        now \<leftarrow> now_ms H;
        if now = 0 \<or> phase_entered_at_ms st = 0 then ret (Inr (False, st))
        else do {
          timeout \<leftarrow> get_config_u64 H (snd (phase_limit (phase_of st))) (fst (phase_limit (phase_of st)));
          if timeout \<le> (now - phase_entered_at_ms st) div 1000 then do {
            _ \<leftarrow> agent_response H (''Request timed out ('' @ phase_name (phase_of st) @
              '' phase exceeded '' @ show_nat timeout @ ''s limit)'') (session_id st);
            st1 \<leftarrow> reset_conversation_turn H st;
            st2 \<leftarrow> set_phase H Idle st1;
            try_bind (save_turn H st2) (\<lambda>_. ret (Inr (True, st2)))
          }
          else ret (Inr (False, st))
        }
      })"

text \<open>The in-flight mappings of a turn.\<close>

definition inflight_calls :: "turn_state \<Rightarrow> string list" where
  "inflight_calls st = map dt_id (dispatched_tools st)"

definition cleanup_inflight_mappings :: "sdk \<Rightarrow> rhost \<Rightarrow> turn_state \<Rightarrow> unit rio" where
  "cleanup_inflight_mappings A H st = do {
     (if request_id st \<noteq> 0 then delete_request_session A H (request_id st) else ret ());
     (if dispatched_tools st \<noteq> [] then delete_call_sessions H (inflight_calls st) else ret ())
   }"

definition check_timeout_with_cleanup :: "sdk \<Rightarrow> rhost \<Rightarrow> turn_state \<Rightarrow> (bool \<times> turn_state) fallible" where
  "check_timeout_with_cleanup A H st =
     (if phase_of st = Idle then ret (Inr (False, st))
      else try_bind (check_phase_timeout H st) (\<lambda>(hit, st').
        if hit then do {
          (if request_id st \<noteq> 0 then delete_request_session A H (request_id st) else ret ());
          (if inflight_calls st \<noteq> [] then delete_call_sessions H (inflight_calls st) else ret ());
          ret (Inr (True, st'))
        }
        else ret (Inr (False, st'))))"

text \<open>Tear a turn down: the tail every abort of the code shares.\<close>

definition abort_turn :: "sdk \<Rightarrow> rhost \<Rightarrow> turn_state \<Rightarrow> unit fallible" where
  "abort_turn A H st = do {
     cleanup_inflight_mappings A H st;
     st1 \<leftarrow> reset_conversation_turn H st;
     st2 \<leftarrow> set_phase H Idle st1;
     save_turn H st2
   }"

end
