(* ===== verification/React_Llm.thy ===== *)
theory React_Llm
  imports React_State
begin

text \<open>
  The model selection and the LLM request of the ReAct loop (\<open>capsules/capsule-react/src/lib.rs\<close>,
  lower part): the registry's broadcast and reply, the per-principal cache, the history fetch, the
  compaction against the context window, and \<open>publish_llm_request\<close>.
\<close>

definition DEFAULT_COMPACT_TIMEOUT_MS :: nat where "DEFAULT_COMPACT_TIMEOUT_MS = 5000"
definition KV_CONTEXT_WINDOW :: string where "KV_CONTEXT_WINDOW = ''react.context_window''"
definition KV_MAX_OUTPUT_TOKENS :: string where "KV_MAX_OUTPUT_TOKENS = ''react.max_output_tokens''"
definition KV_PROVIDER_MODEL :: string where "KV_PROVIDER_MODEL = ''react.llm_provider_model''"
definition COMPACT_REQUEST_TOPIC :: string where "COMPACT_REQUEST_TOPIC = ''context_engine.v1.compact''"
definition COMPACT_RESPONSE_TOPIC :: string where
  "COMPACT_RESPONSE_TOPIC = ''context_engine.v1.response.compact''"
definition COMPACTION_TARGET_NUM :: nat where "COMPACTION_TARGET_NUM = 9"
definition COMPACTION_TARGET_DENOM :: nat where "COMPACTION_TARGET_DENOM = 10"

text \<open>Two literals of the code that occur in several places.\<close>

definition provider_topic_key :: string where "provider_topic_key = ''llm_provider_topic''"
definition provider_topic_prefix :: string where "provider_topic_prefix = ''llm.v1.request.generate.''"

subsection \<open>Selections\<close>

record active_llm =
  llm_topic :: string
  llm_model :: "string option"

datatype broadcast_action = ClearAll | SetTopic string | RejectTopic string | Ignore

definition cleared_cache_keys :: "string list" where
  "cleared_cache_keys = [provider_topic_key, KV_PROVIDER_MODEL, KV_CONTEXT_WINDOW, KV_MAX_OUTPUT_TOKENS]"

definition decide_broadcast :: "json \<Rightarrow> broadcast_action" where
  "decide_broadcast payload =
     (if payload = JNull then ClearAll
      else (case get_str ''request_topic'' payload of
          Some topic \<Rightarrow> if starts_with provider_topic_prefix topic then SetTopic topic else RejectTopic topic
        | None \<Rightarrow> Ignore))"

datatype model_cache_action = CacheModel string | DropModel

definition cached_model_action :: "json \<Rightarrow> model_cache_action" where
  "cached_model_action payload = (case get_str ''id'' payload of
     Some model \<Rightarrow> if \<not> blank model then CacheModel model else DropModel
   | None \<Rightarrow> DropModel)"

definition nonblank :: "string option \<Rightarrow> string option" where
  "nonblank s = (case s of None \<Rightarrow> None | Some m \<Rightarrow> if blank m then None else Some m)"

definition parse_active_provider :: "json \<Rightarrow> active_llm option" where
  "parse_active_provider payload = (case jobj payload of
     None \<Rightarrow> None
   | Some m \<Rightarrow> (case get_str ''request_topic'' payload of
       None \<Rightarrow> None
     | Some topic \<Rightarrow>
         if \<not> starts_with provider_topic_prefix topic then None
         else Some \<lparr>llm_topic = topic, llm_model = nonblank (get_str ''id'' payload)\<rparr>))"

definition resolve_request_model :: "string option \<Rightarrow> active_llm \<Rightarrow> string option" where
  "resolve_request_model override_model active = (case nonblank override_model of
     Some m \<Rightarrow> Some m
   | None \<Rightarrow> nonblank (llm_model active))"

subsection \<open>Numbers in the cache: eight little-endian bytes\<close>

fun le_bytes :: "nat \<Rightarrow> nat \<Rightarrow> string" where
  "le_bytes 0 n = []"
| "le_bytes (Suc k) n = char_of (n mod 256) # le_bytes k (n div 256)"

fun of_le_bytes :: "string \<Rightarrow> nat" where
  "of_le_bytes [] = 0"
| "of_le_bytes (b # bs) = of_char b + 256 * of_le_bytes bs"

definition u64_of_read :: "host_error + kv_value \<Rightarrow> nat option" where
  "u64_of_read v = (case v of
     Inr (VBytes b) \<Rightarrow> if length b = 8 then Some (of_le_bytes b) else None
   | _ \<Rightarrow> None)"

definition cached_context_window :: "rhost \<Rightarrow> nat option rio" where
  "cached_context_window H = do {
     v \<leftarrow> kv_get_raw H KV_CONTEXT_WINDOW;
     ret (case u64_of_read v of None \<Rightarrow> None | Some n \<Rightarrow> if 0 < n then Some n else None)
   }"

definition cached_max_output_tokens :: "rhost \<Rightarrow> nat rio" where
  "cached_max_output_tokens H = do {
     v \<leftarrow> kv_get_raw H KV_MAX_OUTPUT_TOKENS;
     ret (or_default 0 (u64_of_read v))
   }"

subsection \<open>The active selection\<close>

text \<open>The model key follows the topic: both places that learn a selection run this.\<close>

definition reconcile_model :: "rhost \<Rightarrow> json \<Rightarrow> unit rio" where
  "reconcile_model H payload = (case cached_model_action payload of
     CacheModel model \<Rightarrow> do { _ \<leftarrow> kv_set H KV_PROVIDER_MODEL (VBytes model); ret () }
   | DropModel \<Rightarrow> do { _ \<leftarrow> kv_delete H KV_PROVIDER_MODEL; ret () })"

definition cache_limit_if_given :: "rhost \<Rightarrow> json \<Rightarrow> string \<times> string \<Rightarrow> unit rio" where
  "cache_limit_if_given H payload kp = (case get_u64 (snd kp) payload of
     Some v \<Rightarrow> do { _ \<leftarrow> kv_set H (fst kp) (VBytes (le_bytes 8 v)); ret () }
   | None \<Rightarrow> ret ())"

definition cache_limit :: "rhost \<Rightarrow> json \<Rightarrow> string \<times> string \<Rightarrow> unit rio" where
  "cache_limit H payload kp = do {
     _ \<leftarrow> kv_set H (fst kp) (VBytes (le_bytes 8 (or_default 0 (get_u64 (snd kp) payload))));
     ret ()
   }"

definition limit_keys :: "(string \<times> string) list" where
  "limit_keys = [(KV_CONTEXT_WINDOW, ''context_window''), (KV_MAX_OUTPUT_TOKENS, ''max_output_tokens'')]"

definition registry_reply :: "rhost \<Rightarrow> host_error + batch \<Rightarrow> json option" where
  "registry_reply H r = (case r of
     Inl e \<Rightarrow> None
   | Inr b \<Rightarrow> (case batch_msgs b of [] \<Rightarrow> None | m # ms \<Rightarrow> h_parse H (msg_payload m)))"

definition fetch_active_llm_topic_from_registry :: "rhost \<Rightarrow> active_llm option rio" where
  "fetch_active_llm_topic_from_registry H = do {
     s \<leftarrow> subscribe H ''registry.v1.response.get_active_model'';
     case s of
       Some e \<Rightarrow> ret None
     | None \<Rightarrow> do {
         p \<leftarrow> publish H ''registry.v1.get_active_model'' (PJson (JObj []));
         case p of
           Some e \<Rightarrow> ret None
         | None \<Rightarrow> do {
             r \<leftarrow> recv H ''registry.v1.response.get_active_model'' 5000;
             case registry_reply H r of
               None \<Rightarrow> ret None
             | Some payload \<Rightarrow> (case parse_active_provider payload of
                 None \<Rightarrow> ret None
               | Some active \<Rightarrow> do {
                   _ \<leftarrow> kv_set H provider_topic_key (VBytes (llm_topic active));
                   reconcile_model H payload;
                   for_each limit_keys (cache_limit_if_given H payload);
                   ret (Some active)
                 })
           }
       }
   }"

definition cached_topic :: "host_error + kv_value option \<Rightarrow> string option" where
  "cached_topic v = (case v of
     Inr (Some (VBytes b)) \<Rightarrow> (case from_utf8 b of
         None \<Rightarrow> None
       | Some topic \<Rightarrow> if topic = [] then None else Some topic)
   | _ \<Rightarrow> None)"

definition cached_model :: "host_error + kv_value option \<Rightarrow> string option" where
  "cached_model v = (case v of Inr (Some (VBytes b)) \<Rightarrow> nonblank (from_utf8 b) | _ \<Rightarrow> None)"

definition resolve_active_llm :: "rhost \<Rightarrow> active_llm rio" where
  "resolve_active_llm H = do {
     c \<leftarrow> kv_get H provider_topic_key;
     case cached_topic c of
       Some topic \<Rightarrow> do {
         m \<leftarrow> kv_get H KV_PROVIDER_MODEL;
         ret \<lparr>llm_topic = topic, llm_model = cached_model m\<rparr>
       }
     | None \<Rightarrow> do {
         v \<leftarrow> env_var H ''llm_provider_topic'';
         case (case v of Inr (Some topic) \<Rightarrow> if topic = [] then None else Some topic | _ \<Rightarrow> None) of
           Some topic \<Rightarrow> ret \<lparr>llm_topic = topic, llm_model = None\<rparr>
         | None \<Rightarrow> do {
             f \<leftarrow> fetch_active_llm_topic_from_registry H;
             case f of
               Some active \<Rightarrow> ret active
             | None \<Rightarrow> ret \<lparr>llm_topic = ''llm.v1.request.generate.anthropic'', llm_model = None\<rparr>
           }
       }
   }"

definition handle_model_changed :: "rhost \<Rightarrow> json \<Rightarrow> unit fallible" where
  "handle_model_changed H payload = (case decide_broadcast payload of
     ClearAll \<Rightarrow> do {
       for_each cleared_cache_keys (\<lambda>k. do { _ \<leftarrow> kv_delete H k; ret () });
       ret (Inr ())
     }
   | SetTopic topic \<Rightarrow> do {
       _ \<leftarrow> kv_set H provider_topic_key (VBytes topic);
       reconcile_model H payload;
       for_each limit_keys (cache_limit H payload);
       ret (Inr ())
     }
   | RejectTopic topic \<Rightarrow> ret (Inr ())
   | Ignore \<Rightarrow> ret (Inr ()))"

subsection \<open>History\<close>

text \<open>A \<open>Vec<Message>\<close> as JSON: one message that cannot be converted fails the whole.\<close>

definition messages_to_value :: "sdk \<Rightarrow> message list \<Rightarrow> json option" where
  "messages_to_value A ms = map_option JArr (those (map (message_to_value A) ms))"

definition messages_of_response :: "sdk \<Rightarrow> json \<Rightarrow> host_error + message list" where
  "messages_of_response A response = (case jget ''messages'' response of
     None \<Rightarrow> Inr []
   | Some v \<Rightarrow> (case Option.bind (jarr v) (\<lambda>xs. those (map (message_from_value A) xs)) of
       None \<Rightarrow> Inl ''Failed to parse session messages''
     | Some ms \<Rightarrow> Inr ms))"

definition fetch_messages_inner ::
  "sdk \<Rightarrow> rhost \<Rightarrow> string \<Rightarrow> message list option \<Rightarrow> (message list) fallible" where
  "fetch_messages_inner A H sid append_before_read = do {
     timeout \<leftarrow> session_timeout_ms H;
     (let msgs = or_default [] append_before_read;
          base = (''session_id'', JStr sid) in
      case (if msgs = [] then Some (JObj [base])
            else map_option (\<lambda>v. JObj [base, (''append_before_read'', v)]) (messages_to_value A msgs)) of
        None \<Rightarrow> ret (Inl ''Failed to serialize append messages'')
      | Some request \<Rightarrow> try_bind
          (request_response H ''session.v1.request.get_messages'' ''session.v1.response.get_messages''
             (PJson request) timeout)
          (\<lambda>response. ret (messages_of_response A response)))
   }"

definition fetch_messages :: "sdk \<Rightarrow> rhost \<Rightarrow> string \<Rightarrow> (message list) fallible" where
  "fetch_messages A H sid = fetch_messages_inner A H sid None"

definition fetch_messages_with_append ::
  "sdk \<Rightarrow> rhost \<Rightarrow> string \<Rightarrow> message list \<Rightarrow> (message list) fallible" where
  "fetch_messages_with_append A H sid ms = fetch_messages_inner A H sid (Some ms)"

subsection \<open>Compaction\<close>

text \<open>Elements that do not parse are skipped; the bookkeeping fields only feed a log line.\<close>

definition parse_compaction_response :: "sdk \<Rightarrow> json \<Rightarrow> message list option" where
  "parse_compaction_response A payload = (case get_arr ''messages'' payload of
     None \<Rightarrow> None
   | Some xs \<Rightarrow> Some (List.map_filter (message_from_value A) xs))"

definition compaction_target :: "nat \<Rightarrow> nat" where
  "compaction_target max_tokens =
     max_tokens * COMPACTION_TARGET_NUM mod 2 ^ 64 div COMPACTION_TARGET_DENOM"

definition compact_request :: "sdk \<Rightarrow> string \<Rightarrow> message list \<Rightarrow> nat \<Rightarrow> json" where
  "compact_request A sid messages max_tokens = JObj
     [(''session_id'', JStr sid), (''messages'', JArr (List.map_filter (message_to_value A) messages)),
      (''max_tokens'', JInt (int max_tokens)), (''target_tokens'', JInt (int (compaction_target max_tokens)))]"

definition compact_messages :: "sdk \<Rightarrow> rhost \<Rightarrow> string \<Rightarrow> message list \<Rightarrow> message list rio" where
  "compact_messages A H sid messages = do {
     cw \<leftarrow> cached_context_window H;
     case cw of
       None \<Rightarrow> ret messages
     | Some context_window \<Rightarrow> do {
         max_output \<leftarrow> cached_max_output_tokens H;
         (let max_tokens = context_window - max_output in
          if max_tokens = 0 then ret messages
          else do {
            s \<leftarrow> subscribe H COMPACT_RESPONSE_TOPIC;
            case s of
              Some e \<Rightarrow> ret messages
            | None \<Rightarrow> do {
                p \<leftarrow> publish H COMPACT_REQUEST_TOPIC (PJson (compact_request A sid messages max_tokens));
                case p of
                  Some e \<Rightarrow> ret messages
                | None \<Rightarrow> do {
                    r \<leftarrow> recv H COMPACT_RESPONSE_TOPIC DEFAULT_COMPACT_TIMEOUT_MS;
                    ret (or_default messages
                      (Option.bind (registry_reply H r) (parse_compaction_response A)))
                  }
              }
          })
       }
   }"

subsection \<open>The request\<close>

definition NO_MODEL_MESSAGE :: string where
  "NO_MODEL_MESSAGE = ''No LLM model is selected. Run `aos models` to choose one, or install/configure an LLM provider.''"

definition fail_no_model_selected :: "sdk \<Rightarrow> rhost \<Rightarrow> turn_state \<Rightarrow> unit fallible" where
  "fail_no_model_selected A H st = do {
     _ \<leftarrow> agent_response H NO_MODEL_MESSAGE (session_id st);
     abort_turn A H st
   }"

definition publish_llm_request :: "sdk \<Rightarrow> rhost \<Rightarrow> turn_state \<Rightarrow> message list \<Rightarrow> unit fallible" where
  "publish_llm_request A H st messages = do {
     active \<leftarrow> resolve_active_llm H;
     case resolve_request_model (request_model_override st) active of
       None \<Rightarrow> fail_no_model_selected A H st
     | Some model \<Rightarrow> do {
         msgs \<leftarrow> compact_messages A H (session_id st) messages;
         try_bind (store_request_session A H (request_id st) (session_id st)) (\<lambda>_. do {
           p \<leftarrow> publish H (llm_topic active)
             (PIpc (LlmRequest (request_id st) model msgs (current_tools st) (system_prompt st)));
           case p of
             Some e \<Rightarrow> do { delete_request_session A H (request_id st); ret (Inl e) }
           | None \<Rightarrow> ret (Inr ())
         })
       }
   }"

end
