(* ===== verification/React_Loop.thy ===== *)
theory React_Loop
  imports React_Llm
begin

text \<open>
  The interceptors of the ReAct loop (\<open>capsules/capsule-react/src/lib.rs\<close>, \<open>impl ReactLoop\<close>), one
  definition per handler, in the order of the turn: restart, clear, watchdog, lag, prompt, identity,
  prompt build, stream, tool result, cancel.  A handler drops its copy of the turn when it returns,
  so only what it saved survives.
\<close>

definition MAX_REDRIVE_RETRIES :: nat where "MAX_REDRIVE_RETRIES = 20"

definition handle_lifecycle_restart :: "rhost \<Rightarrow> unit fallible" where
  "handle_lifecycle_restart H = do { clear_ephemeral_keys H; ret (Inr ()) }"

definition handle_session_clear :: "rhost \<Rightarrow> json \<Rightarrow> unit fallible" where
  "handle_session_clear H payload =
     (let old_session_id = or_default DEFAULT_SESSION_ID (get_str ''session_id'' payload) in do {
        timeout \<leftarrow> session_timeout_ms H;
        try_bind (request_response H ''session.v1.request.clear'' ''session.v1.response.clear''
            (PJson (JObj [(''session_id'', JStr old_session_id)])) timeout)
          (\<lambda>response. case get_str ''new_session_id'' response of
             None \<Rightarrow> ret (Inl ''Session clear response missing new_session_id'')
           | Some new_session_id \<Rightarrow> do {
               _ \<leftarrow> kv_delete H (turn_key old_session_id);
               unregister_active_session H old_session_id;
               try_bind (save_turn H (default_turn\<lparr>session_id := new_session_id\<rparr>)) (\<lambda>_.
                 checked (publish H ''agent.v1.session_changed'' (PJson (JObj
                   [(''old_session_id'', JStr old_session_id), (''new_session_id'', JStr new_session_id)]))))
             })
      })"

definition handle_watchdog_tick :: "sdk \<Rightarrow> rhost \<Rightarrow> unit fallible" where
  "handle_watchdog_tick A H = do {
     sessions \<leftarrow> load_active_sessions H;
     for_each sessions (\<lambda>sid. do {
       st \<leftarrow> load_turn H sid;
       _ \<leftarrow> check_timeout_with_cleanup A H st;
       ret ()
     });
     ret (Inr ())
   }"

definition LAG_MESSAGE :: string where
  "LAG_MESSAGE = ''Response interrupted: the event bus overflowed and stream data was lost. Please retry.''"

definition unwind_lagged :: "sdk \<Rightarrow> rhost \<Rightarrow> string \<Rightarrow> unit rio" where
  "unwind_lagged A H sid = do {
     st \<leftarrow> load_turn H sid;
     if phase_of st = Streaming \<or> phase_of st = AwaitingTools then do {
       _ \<leftarrow> agent_response H LAG_MESSAGE (session_id st);
       _ \<leftarrow> abort_turn A H st;
       ret ()
     }
     else ret ()
   }"

definition handle_bus_lag :: "sdk \<Rightarrow> rhost \<Rightarrow> unit fallible" where
  "handle_bus_lag A H = do {
     sessions \<leftarrow> load_active_sessions H;
     for_each sessions (unwind_lagged A H);
     ret (Inr ())
   }"

definition handle_cancel :: "sdk \<Rightarrow> rhost \<Rightarrow> string \<Rightarrow> unit fallible" where
  "handle_cancel A H sid = do {
     st \<leftarrow> load_turn H sid;
     if phase_of st = Idle then ret (Inr ())
     else do {
       (if phase_of st = AwaitingTools \<and> dispatched_tools st \<noteq> []
        then do { _ \<leftarrow> publish H ''tool.v1.request.cancel'' (PIpc (ToolCancelRequest (inflight_calls st))); ret () }
        else ret ());
       abort_turn A H st
     }
   }"

definition prompt_override :: "json option \<Rightarrow> string option" where
  "prompt_override context = nonblank (Option.bind context (get_str ''model''))"

definition start_turn :: "sdk \<Rightarrow> rhost \<Rightarrow> string \<Rightarrow> string \<Rightarrow> json option \<Rightarrow> unit fallible" where
  "start_turn A H text sid context = do {
     st \<leftarrow> load_turn H sid;
     try_bind (fetch_messages_with_append A H (session_id st)
         [\<lparr>msg_role = RoleUser, msg_content = ContentText text\<rparr>]) (\<lambda>_. do {
       (if phase_of st \<noteq> Idle then cleanup_inflight_mappings A H st else ret ());
       st1 \<leftarrow> reset_conversation_turn H st;
       st2 \<leftarrow> set_phase H AwaitingIdentity (st1\<lparr>request_model_override := prompt_override context\<rparr>);
       register_active_session H (session_id st2);
       try_bind (save_turn H st2) (\<lambda>_. do {
         root \<leftarrow> env_or_empty H ''workspace_root'';
         checked (publish H ''spark.v1.request.build'' (PJson (JObj
           [(''workspace_root'', JStr (case root of Inl e \<Rightarrow> [] | Inr s \<Rightarrow> s)),
            (''session_id'', JStr (session_id st2))])))
       })
     })
   }"

definition handle_user_prompt :: "sdk \<Rightarrow> rhost \<Rightarrow> ipc_payload \<Rightarrow> unit fallible" where
  "handle_user_prompt A H payload = (case payload of
     UserInput text sid context \<Rightarrow>
       if Option.bind context (get_str ''action'') = Some ''cancel_turn'' then handle_cancel A H sid
       else if blank text then ret (Inr ())
       else start_turn A H text sid context
   | _ \<Rightarrow> ret (Inr ()))"

definition redrive_if_unready :: "rhost \<Rightarrow> phase \<Rightarrow> phase \<Rightarrow> string \<Rightarrow> json \<Rightarrow> bool rio" where
  "redrive_if_unready H expected actual topic payload =
     (if actual = expected then ret False
      else if actual = Idle then
        (let retry = or_default 0 (get_u64 ''_retry'' payload) in
         if retry < MAX_REDRIVE_RETRIES then
           (case payload of
              JObj m \<Rightarrow> do {
                _ \<leftarrow> publish H topic (PJson (JObj (AList.update ''_retry'' (JInt (int (retry + 1))) m)));
                ret True
              }
            | _ \<Rightarrow> ret True)
         else ret True)
      else ret True)"

definition provider_of_topic :: "string \<Rightarrow> string" where
  "provider_of_topic topic = (if starts_with provider_topic_prefix topic
     then drop (length provider_topic_prefix) topic else ''unknown'')"

definition handle_identity_response :: "sdk \<Rightarrow> rhost \<Rightarrow> json \<Rightarrow> unit fallible" where
  "handle_identity_response A H payload = do {
     st \<leftarrow> load_turn H (or_default DEFAULT_SESSION_ID (get_str ''session_id'' payload));
     try_bind (check_timeout_with_cleanup A H st) (\<lambda>(hit, st).
       if hit then ret (Inr ())
       else do {
         r \<leftarrow> redrive_if_unready H AwaitingIdentity (phase_of st) ''spark.v1.response.ready'' payload;
         if r then ret (Inr ())
         else (let prompt = or_default [] (get_str ''prompt'' payload) in do {
           st1 \<leftarrow> set_phase H AwaitingPromptBuild (st\<lparr>system_prompt := prompt\<rparr>);
           try_bind (fetch_messages A H (session_id st1)) (\<lambda>messages.
           try_bind (save_turn H st1) (\<lambda>_. do {
             active \<leftarrow> resolve_active_llm H;
             case resolve_request_model (request_model_override st1) active of
               None \<Rightarrow> fail_no_model_selected A H st1
             | Some model \<Rightarrow> (case messages_to_value A messages of
                 None \<Rightarrow> ret (Inl ''panic: messages do not serialize'')
               | Some ms \<Rightarrow> checked (publish H ''prompt_builder.v1.assemble'' (PJson (JObj
                   [(''messages'', ms), (''system_prompt'', JStr prompt),
                    (''request_id'', JStr (uuid_text A (request_id st1))),
                    (''session_id'', JStr (session_id st1)), (''model'', JStr model),
                    (''provider'', JStr (provider_of_topic (llm_topic active)))]))))
           }))
         })
       })
   }"

definition parse_json_array_field :: "json \<Rightarrow> string \<Rightarrow> (json \<Rightarrow> 'a option) \<Rightarrow> 'a list" where
  "parse_json_array_field payload key decode = (case get_arr key payload of
     None \<Rightarrow> []
   | Some xs \<Rightarrow> List.map_filter decode xs)"

text \<open>The context prefix goes to the last user message of the local copy, when it is text.\<close>

fun prefix_first_user :: "string \<Rightarrow> message list \<Rightarrow> message list" where
  "prefix_first_user prefix [] = []"
| "prefix_first_user prefix (m # ms) =
     (if msg_role m = RoleUser then
        (case msg_content m of
           ContentText text \<Rightarrow> m\<lparr>msg_content := ContentText (prefix @ [CHR 0x0A] @ text)\<rparr> # ms
         | _ \<Rightarrow> m # ms)
      else m # prefix_first_user prefix ms)"

definition apply_user_context :: "json \<Rightarrow> message list \<Rightarrow> message list" where
  "apply_user_context payload messages = (case get_str ''user_context_prefix'' payload of
     None \<Rightarrow> messages
   | Some prefix \<Rightarrow> if prefix = [] then messages
       else rev (prefix_first_user prefix (rev messages)))"

definition handle_prompt_response :: "sdk \<Rightarrow> rhost \<Rightarrow> json \<Rightarrow> unit fallible" where
  "handle_prompt_response A H payload = do {
     st \<leftarrow> load_turn H (or_default DEFAULT_SESSION_ID (get_str ''session_id'' payload));
     try_bind (check_timeout_with_cleanup A H st) (\<lambda>(hit, st).
       if hit then ret (Inr ())
       else do {
         r \<leftarrow> redrive_if_unready H AwaitingPromptBuild (phase_of st)
           ''prompt_builder.v1.response.assemble'' payload;
         if r then ret (Inr ())
         else (let st1 = (case get_str ''system_prompt'' payload of
                     None \<Rightarrow> st | Some p \<Rightarrow> st\<lparr>system_prompt := p\<rparr>);
                   tools = parse_json_array_field payload ''tools'' (tool_from_value A);
                   messages = apply_user_context payload
                     (parse_json_array_field payload ''messages'' (message_from_value A)) in do {
           st2 \<leftarrow> set_phase H Streaming (st1\<lparr>current_tools := tools\<rparr>);
           try_bind (save_turn H st2) (\<lambda>_. publish_llm_request A H st2 messages)
         })
       })
   }"

subsection \<open>The stream\<close>

definition parsed_arguments :: "rhost \<Rightarrow> string \<Rightarrow> json" where
  "parsed_arguments H args = (case h_parse H args of None \<Rightarrow> JObj [] | Some j \<Rightarrow> j)"

definition dispatched_of :: "rhost \<Rightarrow> turn_state \<Rightarrow> dispatched_tool_call list" where
  "dispatched_of H st = map (\<lambda>t. \<lparr>dt_id = pt_id t, dt_name = pt_name t,
     dt_arguments = parsed_arguments H (pt_args_json t), dt_result = None,
     dt_turn_request_id = request_id st\<rparr>) (pending_stream_tools st)"

text \<open>Phase 2 of the dispatch: publish every request, stop at the first failure.\<close>

fun publish_tools :: "rhost \<Rightarrow> turn_state \<Rightarrow> string list \<Rightarrow> dispatched_tool_call list \<Rightarrow> unit fallible" where
  "publish_tools H st call_ids [] = ret (Inr ())"
| "publish_tools H st call_ids (t # ts) = do {
     p \<leftarrow> publish H ''tool.v1.request.execute''
       (PIpc (ToolExecuteRequest (dt_id t) (dt_name t) (dt_arguments t)));
     case p of
       None \<Rightarrow> publish_tools H st call_ids ts
     | Some e \<Rightarrow> do {
         delete_call_sessions H call_ids;
         _ \<leftarrow> agent_response H (''Failed to dispatch tool '' @ dt_name t @ '': '' @ e) (session_id st);
         st1 \<leftarrow> set_phase H Idle st;
         try_bind (save_turn H st1) (\<lambda>_. ret (Inl e))
       }
   }"

definition dispatch_tools :: "rhost \<Rightarrow> turn_state \<Rightarrow> unit fallible" where
  "dispatch_tools H st =
     (let dispatched = dispatched_of H st; call_ids = map dt_id dispatched in
      try_bind (store_call_sessions H call_ids (session_id st)) (\<lambda>_. do {
        st1 \<leftarrow> set_phase H AwaitingTools (st\<lparr>dispatched_tools := dispatched, pending_stream_tools := []\<rparr>);
        saved \<leftarrow> save_turn H st1;
        case saved of
          Inl e \<Rightarrow> do { delete_call_sessions H call_ids; ret (Inl e) }
        | Inr u \<Rightarrow> publish_tools H st1 call_ids dispatched
      }))"

definition handle_stream_done :: "sdk \<Rightarrow> rhost \<Rightarrow> turn_state \<Rightarrow> unit fallible" where
  "handle_stream_done A H st = do {
     delete_request_session A H (request_id st);
     if pending_stream_tools st \<noteq> [] then dispatch_tools H st
     else if response_text st \<noteq> [] then
       try_bind (fetch_messages_with_append A H (session_id st) [sdk_assistant A (response_text st)]) (\<lambda>_.
       try_bind (checked (agent_response H (response_text st) (session_id st))) (\<lambda>_. do {
         st1 \<leftarrow> set_phase H Idle st;
         save_turn H st1
       }))
     else do {
       st1 \<leftarrow> set_phase H Idle st;
       save_turn H st1
     }
   }"

fun update_first_pending ::
  "string \<Rightarrow> (pending_tool_call \<Rightarrow> pending_tool_call) \<Rightarrow> pending_tool_call list \<Rightarrow> pending_tool_call list" where
  "update_first_pending i f [] = []"
| "update_first_pending i f (t # ts) = (if pt_id t = i then f t # ts else t # update_first_pending i f ts)"

definition stream_delta_event :: "string \<Rightarrow> string \<Rightarrow> ipc_payload" where
  "stream_delta_event text sid = AgentResponse text False sid"

definition apply_stream_event :: "sdk \<Rightarrow> rhost \<Rightarrow> stream_event \<Rightarrow> turn_state \<Rightarrow> unit fallible" where
  "apply_stream_event A H event st = (case event of
     TextDelta text \<Rightarrow> do {
       (if text \<noteq> [] then do {
          _ \<leftarrow> publish H ''agent.v1.stream.delta'' (PIpc (stream_delta_event text (session_id st))); ret () }
        else ret ());
       save_turn H (st\<lparr>response_text := response_text st @ text\<rparr>)
     }
   | ToolCallStart i name \<Rightarrow>
       save_turn H (st\<lparr>pending_stream_tools := pending_stream_tools st @
         [\<lparr>pt_id = i, pt_name = name, pt_args_json = [], pt_complete = False\<rparr>]\<rparr>)
   | ToolCallDelta i args_delta \<Rightarrow>
       save_turn H (st\<lparr>pending_stream_tools := update_first_pending i
         (\<lambda>t. t\<lparr>pt_args_json := pt_args_json t @ args_delta\<rparr>) (pending_stream_tools st)\<rparr>)
   | ToolCallEnd i \<Rightarrow>
       save_turn H (st\<lparr>pending_stream_tools := update_first_pending i
         (\<lambda>t. t\<lparr>pt_complete := True\<rparr>) (pending_stream_tools st)\<rparr>)
   | StreamDone \<Rightarrow> handle_stream_done A H st
   | StreamError err \<Rightarrow> do {
       _ \<leftarrow> agent_response H (''LLM error: '' @ err) (session_id st);
       abort_turn A H st
     }
   | StreamOther \<Rightarrow> save_turn H st)"

definition handle_llm_stream :: "sdk \<Rightarrow> rhost \<Rightarrow> ipc_payload \<Rightarrow> unit fallible" where
  "handle_llm_stream A H payload = (case payload of
     LlmStreamEvent rid event \<Rightarrow> do {
       s \<leftarrow> lookup_session_by_request A H rid;
       case s of
         None \<Rightarrow> ret (Inr ())
       | Some sid \<Rightarrow> do {
           st \<leftarrow> load_turn H sid;
           try_bind (check_timeout_with_cleanup A H st) (\<lambda>(hit, st).
             if hit then ret (Inr ())
             else if phase_of st \<noteq> Streaming then ret (Inr ())
             else if request_id st \<noteq> rid then ret (Inr ())
             else do {
               now \<leftarrow> now_ms H;
               apply_stream_event A H event (st\<lparr>phase_entered_at_ms := now\<rparr>)
             })
         }
     }
   | _ \<Rightarrow> ret (Inr ()))"

subsection \<open>Tool results\<close>

datatype record_outcome = Stale | Recorded "dispatched_tool_call list"

fun record_result :: "nat \<Rightarrow> string \<Rightarrow> tool_call_result \<Rightarrow> dispatched_tool_call list \<Rightarrow> record_outcome" where
  "record_result rid call_id result [] = Recorded []"
| "record_result rid call_id result (t # ts) =
     (if dt_id t = call_id then
        (if dt_turn_request_id t \<noteq> 0 \<and> dt_turn_request_id t \<noteq> rid then Stale
         else Recorded (t\<lparr>dt_result := Some result\<rparr> # ts))
      else (case record_result rid call_id result ts of
          Stale \<Rightarrow> Stale
        | Recorded ts' \<Rightarrow> Recorded (t # ts')))"

definition all_done :: "dispatched_tool_call list \<Rightarrow> bool" where
  "all_done ts \<longleftrightarrow> ts \<noteq> [] \<and> list_all (\<lambda>t. dt_result t \<noteq> None) ts"

definition tool_round_messages :: "sdk \<Rightarrow> turn_state \<Rightarrow> message list" where
  "tool_round_messages A st =
     sdk_assistant_with_tools A
       (map (\<lambda>t. \<lparr>tc_id = dt_id t, tc_name = dt_name t, tc_arguments = dt_arguments t\<rparr>) (dispatched_tools st)) #
     List.map_filter (\<lambda>t. map_option (\<lambda>r. \<lparr>msg_role = RoleTool, msg_content = ContentToolResult r\<rparr>) (dt_result t))
       (dispatched_tools st)"

definition max_iterations :: "rhost \<Rightarrow> nat rio" where
  "max_iterations H = do {
     n \<leftarrow> get_config_u64 H ''max_iterations'' DEFAULT_MAX_ITERATIONS;
     ret (if n < 2 ^ 32 then n else DEFAULT_MAX_ITERATIONS)
   }"

text \<open>The end of a tool round: stop at the iteration bound, else start the next generation.\<close>

definition finish_round :: "sdk \<Rightarrow> rhost \<Rightarrow> turn_state \<Rightarrow> unit fallible" where
  "finish_round A H st =
     (let st = st\<lparr>iteration_count := (iteration_count st + 1) mod 2 ^ 32\<rparr>;
          call_ids = inflight_calls st in do {
        limit \<leftarrow> max_iterations H;
        if limit \<le> iteration_count st then do {
          _ \<leftarrow> agent_response H (''Stopped: ReAct loop exceeded maximum of '' @ show_nat limit @ '' iterations.'')
            (session_id st);
          st1 \<leftarrow> reset_conversation_turn H st;
          st2 \<leftarrow> set_phase H Idle st1;
          try_bind (save_turn H st2) (\<lambda>_. do { delete_call_sessions H call_ids; ret (Inr ()) })
        }
        else try_bind (fetch_messages_with_append A H (session_id st) (tool_round_messages A st)) (\<lambda>messages. do {
          st1 \<leftarrow> reset_turn H st;
          st2 \<leftarrow> set_phase H Streaming st1;
          try_bind (save_turn H st2) (\<lambda>_. do {
            delete_call_sessions H call_ids;
            publish_llm_request A H st2 messages
          })
        })
      })"

definition handle_tool_result :: "sdk \<Rightarrow> rhost \<Rightarrow> ipc_payload \<Rightarrow> unit fallible" where
  "handle_tool_result A H payload = (case payload of
     ToolExecuteResult call_id result \<Rightarrow> do {
       s \<leftarrow> lookup_session_by_call H call_id;
       case s of
         None \<Rightarrow> ret (Inr ())
       | Some sid \<Rightarrow> do {
           st \<leftarrow> load_turn H sid;
           try_bind (check_timeout_with_cleanup A H st) (\<lambda>(hit, st).
             if hit then ret (Inr ())
             else if phase_of st \<noteq> AwaitingTools then ret (Inr ())
             else (case record_result (request_id st) call_id result (dispatched_tools st) of
                 Stale \<Rightarrow> ret (Inr ())
               | Recorded ts \<Rightarrow>
                   (let st' = st\<lparr>dispatched_tools := ts\<rparr> in
                    if all_done ts then finish_round A H st' else save_turn H st')))
         }
     }
   | _ \<Rightarrow> ret (Inr ()))"

subsection \<open>The machine\<close>

text \<open>The capsule's interceptor table: what the kernel can deliver to it.\<close>

datatype react_input =
    LifecycleRestart
  | SessionClear json
  | WatchdogTick
  | BusLag
  | UserPrompt ipc_payload
  | IdentityResponse json
  | PromptResponse json
  | LlmStream ipc_payload
  | ToolResult ipc_payload
  | ModelChanged json

fun react_step :: "sdk \<Rightarrow> rhost \<Rightarrow> react_input \<Rightarrow> unit fallible" where
  "react_step A H LifecycleRestart = handle_lifecycle_restart H"
| "react_step A H (SessionClear j) = handle_session_clear H j"
| "react_step A H WatchdogTick = handle_watchdog_tick A H"
| "react_step A H BusLag = handle_bus_lag A H"
| "react_step A H (UserPrompt p) = handle_user_prompt A H p"
| "react_step A H (IdentityResponse j) = handle_identity_response A H j"
| "react_step A H (PromptResponse j) = handle_prompt_response A H j"
| "react_step A H (LlmStream p) = handle_llm_stream A H p"
| "react_step A H (ToolResult p) = handle_tool_result A H p"
| "react_step A H (ModelChanged j) = handle_model_changed H j"

inductive react_reach :: "sdk \<Rightarrow> rhost \<Rightarrow> rtrace \<Rightarrow> bool" for A H where
  reach_start: "react_reach A H []"
| reach_step: "react_reach A H tr \<Longrightarrow> react_reach A H (final_trace (react_step A H i) tr)"

inductive_simps react_reach_step: "react_reach A H (final_trace (react_step A H i) tr)"

end
