(* ===== verification/React_Inv.thy ===== *)
theory React_Inv
  imports React_Loop
begin

text \<open>
  The invariant of the ReAct loop's store: a session whose stored turn is not idle is in the set of
  active sessions, which has no duplicates, so that the watchdog and the lag handler see it.  A run
  is split into neutral calls, which touch neither turns nor the set, and the few that do.
\<close>

definition turn_prefix :: string where "turn_prefix = ''react.turn.''"

definition tracked :: "string \<Rightarrow> bool" where
  "tracked k \<longleftrightarrow> k = ACTIVE_SESSIONS_KEY \<or> starts_with turn_prefix k"

fun neutral :: "(kv_value, react_msg) event \<Rightarrow> bool" where
  "neutral (EvSet k v r) = (\<not> tracked k)"
| "neutral (EvCas k old v r) = (\<not> tracked k)"
| "neutral (EvDel k r) = (\<not> tracked k)"
| "neutral (EvClear p r) = False"
| "neutral _ = True"

abbreviation quiet :: "'a rio \<Rightarrow> bool" where
  "quiet \<equiv> every neutral"

lemma every_case_model [everyI]:
  "(\<And>x. every P (f x)) \<Longrightarrow> every P m \<Longrightarrow> every P (case r of CacheModel x \<Rightarrow> f x | DropModel \<Rightarrow> m)"
  by (cases r) simp_all

lemma every_case_json [everyI]:
  "(\<And>m. every P (f m)) \<Longrightarrow> every P d \<Longrightarrow> every P (case j of JObj m \<Rightarrow> f m | _ \<Rightarrow> d)"
  by (cases j) simp_all

lemma every_checked [everyI]: "every P m \<Longrightarrow> every P (checked m)"
  unfolding checked_def by (intro everyI)

lemma quiet_calls [everyI]:
  "quiet (kv_get H k)" "quiet (kv_get_raw H k)" "quiet (publish H t m)" "quiet (subscribe H t)"
  "quiet (recv H t ms)" "quiet (poll H t)" "quiet (request_response H t u m ms)" "quiet (time_now H)"
  "quiet (env_var H k)" "quiet (new_uuid H)"
  unfolding host_defs by (auto intro!: every_host_call)

lemma quiet_writes [everyI]:
  "\<not> tracked k \<Longrightarrow> quiet (kv_set H k v)" "\<not> tracked k \<Longrightarrow> quiet (kv_delete H k)"
  unfolding host_defs by (auto intro!: every_host_call)

lemma untracked [simp]:
  "\<not> tracked (request_key A rid)" "\<not> tracked (call_key c)" "\<not> tracked provider_topic_key"
  "\<not> tracked KV_PROVIDER_MODEL" "\<not> tracked KV_CONTEXT_WINDOW" "\<not> tracked KV_MAX_OUTPUT_TOKENS"
  by (simp_all add: tracked_def turn_prefix_def starts_with_def request_key_def call_key_def
      REQUEST_SESSION_PREFIX_def CALL_SESSION_PREFIX_def ACTIVE_SESSIONS_KEY_def provider_topic_key_def
      KV_PROVIDER_MODEL_def KV_CONTEXT_WINDOW_def KV_MAX_OUTPUT_TOKENS_def)

lemma tracked_keys [simp]: "tracked ACTIVE_SESSIONS_KEY" "tracked (turn_key s)"
  by (simp_all add: tracked_def turn_prefix_def starts_with_def turn_key_def TURN_KEY_PREFIX_def)

lemma turn_key_inj [simp]: "turn_key a = turn_key b \<longleftrightarrow> a = b"
  by (simp add: turn_key_def)

lemma turn_key_active [simp]: "turn_key a \<noteq> ACTIVE_SESSIONS_KEY" "ACTIVE_SESSIONS_KEY \<noteq> turn_key a"
  by (simp_all add: turn_key_def TURN_KEY_PREFIX_def ACTIVE_SESSIONS_KEY_def)

lemma quiet_now [everyI]: "quiet (now_ms H)"
  unfolding now_ms_def by (intro everyI)

lemma quiet_config [everyI]: "quiet (env_or_empty H k)" "quiet (get_config_u64 H k n)" "quiet (session_timeout_ms H)"
  "quiet (max_iterations H)"
  unfolding session_timeout_ms_def get_config_u64_def env_or_empty_def max_iterations_def by (intro everyI)+

lemma quiet_mappings [everyI]:
  "quiet (store_request_session A H rid s)" "quiet (lookup_session_by_request A H rid)"
  "quiet (lookup_session_by_call H c)" "quiet (delete_request_session A H rid)" "quiet (delete_call_sessions H cs)"
  unfolding store_request_session_def lookup_session_by_request_def lookup_session_by_call_def
    delete_request_session_def delete_call_sessions_def
  by (auto intro!: everyI)

lemma quiet_store_calls [everyI]: "quiet (store_call_sessions H cs s)"
  by (induction cs) (auto intro!: everyI)

lemma quiet_state [everyI]:
  "quiet (load_active_sessions H)" "quiet (load_turn H s)" "quiet (reset_turn H st)"
  "quiet (reset_conversation_turn H st)" "quiet (agent_response H t s)" "quiet (cleanup_inflight_mappings A H st)"
  unfolding load_active_sessions_def load_turn_def reset_conversation_turn_def reset_turn_def agent_response_def
    cleanup_inflight_mappings_def
  by (intro everyI)+

lemma quiet_phase [everyI]: "p \<noteq> Idle \<Longrightarrow> quiet (set_phase H p st)"
  unfolding set_phase_def by (auto intro!: everyI)

lemma quiet_limits [everyI]: "kp \<in> set limit_keys \<Longrightarrow> quiet (cache_limit_if_given H j kp)"
  "kp \<in> set limit_keys \<Longrightarrow> quiet (cache_limit H j kp)"
  unfolding cache_limit_if_given_def cache_limit_def by (auto simp: limit_keys_def intro!: everyI)

lemma quiet_model [everyI]: "quiet (reconcile_model H j)"
  unfolding reconcile_model_def by (intro everyI) simp_all

lemma quiet_registry [everyI]: "quiet (fetch_active_llm_topic_from_registry H)" "quiet (resolve_active_llm H)"
proof -
  show f: "quiet (fetch_active_llm_topic_from_registry H)"
    unfolding fetch_active_llm_topic_from_registry_def by (intro everyI) simp_all
  show "quiet (resolve_active_llm H)"
    unfolding resolve_active_llm_def by (intro everyI f)
qed

lemma quiet_fetch [everyI]: "quiet (fetch_messages_inner A H s m)" "quiet (fetch_messages A H s)"
  "quiet (fetch_messages_with_append A H s ms)"
  unfolding fetch_messages_def fetch_messages_with_append_def fetch_messages_inner_def by (intro everyI)+

lemma quiet_compact [everyI]: "quiet (compact_messages A H s ms)"
  unfolding compact_messages_def cached_context_window_def cached_max_output_tokens_def by (intro everyI)

lemma quiet_redrive [everyI]: "quiet (redrive_if_unready H e a t p)"
  unfolding redrive_if_unready_def by (intro everyI)

subsection \<open>The two parts of the store that are tracked\<close>

definition turn_of :: "rtrace \<Rightarrow> string \<Rightarrow> turn_state" where
  "turn_of tr s = turn_of_read s (Inr (kv_view tr (turn_key s)))"

definition active_of :: "rtrace \<Rightarrow> string list" where
  "active_of tr = sessions_of_read (Inr (kv_view tr ACTIVE_SESSIONS_KEY))"

text \<open>\<open>consistent X tr\<close>: every busy session outside \<open>X\<close> is active.\<close>

definition consistent :: "string set \<Rightarrow> rtrace \<Rightarrow> bool" where
  "consistent X tr \<longleftrightarrow> distinct (active_of tr) \<and>
     (\<forall>s. phase_of (turn_of tr s) \<noteq> Idle \<longrightarrow> s \<in> X \<or> s \<in> set (active_of tr))"

lemma neutral_view: "list_all neutral evs \<Longrightarrow> tracked k \<Longrightarrow> kv_view (evs @ tr) k = kv_view tr k"
proof (induction evs)
  case (Cons e evs)
  then show ?case by (cases "(e # evs @ tr, k)" rule: kv_view.cases) (auto split: if_splits)
qed simp

lemma neutral_same: "list_all neutral evs \<Longrightarrow> turn_of (evs @ tr) = turn_of tr \<and> active_of (evs @ tr) = active_of tr"
  by (auto simp: turn_of_def active_of_def neutral_view fun_eq_iff)

text \<open>A neutral computation leaves both parts as they are.\<close>

lemma wp_quiet:
  assumes "quiet m"
    and "\<And>x tr'. turn_of tr' = turn_of tr \<Longrightarrow> active_of tr' = active_of tr \<Longrightarrow> Q x tr'"
  shows "wp m Q tr"
proof -
  obtain evs where "snd (run_state m tr) = evs @ tr" "list_all neutral evs"
    using assms(1) unfolding every_def by blast
  then show ?thesis using assms(2) neutral_same [of evs tr] by (simp add: wp_iff)
qed

lemma wp_phase: "p \<noteq> Idle \<Longrightarrow> (\<And>x tr'. turn_of tr' = turn_of tr \<Longrightarrow> active_of tr' = active_of tr \<Longrightarrow>
   Q (st\<lparr>phase_of := p, phase_entered_at_ms := x\<rparr>) tr') \<Longrightarrow> wp (set_phase H p st) Q tr"
  unfolding set_phase_def
  by (rule wp_bind, rule wp_quiet [OF quiet_now]) (auto intro!: wpI)

lemma set_swap_remove: "distinct xs \<Longrightarrow> set (swap_remove x xs) = set xs - {x} \<and> distinct (swap_remove x xs)"
proof (induction xs)
  case (Cons y ys)
  have swap: "set (last ys # butlast ys) = set ys \<and> distinct (last ys # butlast ys)" if "ys \<noteq> []"
  proof -
    have eq: "ys = butlast ys @ [last ys]" using that by simp
    have "distinct (butlast ys @ [last ys])" using Cons.prems that by simp
    then show ?thesis using eq by (metis distinct.simps(2) distinct_append list.set(2) set_append
        Un_insert_right append_Nil2 list.set(1) disjoint_insert(1) insert_is_Un sup_bot.right_neutral)
  qed
  show ?case using Cons swap by auto
qed simp

lemma swap_remove_absent [simp]: "x \<notin> set xs \<Longrightarrow> swap_remove x xs = xs"
  by (induction xs) auto

text \<open>What a save of \<open>st\<close> leaves for the next load: a turn of an unknown version reads as the default.\<close>

definition stored :: "turn_state \<Rightarrow> turn_state" where
  "stored st = turn_of_read (session_id st) (Inr (Some (VTurn st)))"

lemma stored_idle [simp]: "phase_of st = Idle \<Longrightarrow> phase_of (stored st) = Idle"
  by (simp add: stored_def turn_of_read_def default_turn_def Let_def)

lemma stored_current [simp]: "schema_version st \<le> 1 \<Longrightarrow> stored st = st"
  by (auto simp: stored_def turn_of_read_def Let_def le_Suc_eq)

lemma turn_of_session [simp]: "session_id (turn_of tr s) = s"
  by (simp add: turn_of_def turn_of_read_def Let_def)

lemma turn_of_version [simp]: "schema_version (turn_of tr s) \<le> 1"
  by (auto simp: turn_of_def turn_of_read_def default_turn_def Let_def)

subsection \<open>A store that works\<close>

text \<open>The store's contract as the loop needs it: reads, writes, deletes and clears succeed.\<close>

locale react_store = live_store H for H :: "(kv_value, react_msg) host" +
  assumes clear_ok: "\<exists>n. h_clear H tr p = Inr n"
    and raw_ok: "kv_view tr k = Some v \<Longrightarrow> h_get_raw H tr k = Inr v"
begin

lemma run_load [simp]: "run_state (load_turn H s) tr = (turn_of tr s, EvGet (turn_key s) (Inr (kv_view tr (turn_key s))) # tr)"
  by (simp add: load_turn_def turn_of_def)

lemma run_active [simp]: "run_state (load_active_sessions H) tr =
    (active_of tr, EvGet ACTIVE_SESSIONS_KEY (Inr (kv_view tr ACTIVE_SESSIONS_KEY)) # tr)"
  by (simp add: load_active_sessions_def active_of_def)

lemma view_get [simp]: "turn_of (EvGet k r # tr) = turn_of tr" "active_of (EvGet k r # tr) = active_of tr"
  by (auto simp: turn_of_def active_of_def)

lemma wp_load: "(\<And>tr'. turn_of tr' = turn_of tr \<Longrightarrow> active_of tr' = active_of tr \<Longrightarrow>
   Q (turn_of tr s) tr') \<Longrightarrow> wp (load_turn H s) Q tr"
  by (simp add: wp_iff)

lemma wp_active: "(\<And>tr'. turn_of tr' = turn_of tr \<Longrightarrow> active_of tr' = active_of tr \<Longrightarrow>
   Q (active_of tr) tr') \<Longrightarrow> wp (load_active_sessions H) Q tr"
  by (simp add: wp_iff)

lemma wp_save: "(\<And>tr'. turn_of tr' = (turn_of tr)(session_id st := stored st) \<Longrightarrow>
    active_of tr' = active_of tr \<Longrightarrow> Q (Inr ()) tr') \<Longrightarrow> wp (save_turn H st) Q tr"
  by (simp add: wp_iff save_turn_def checked_def turn_of_def active_of_def stored_def fun_eq_iff)

lemma wp_unregister: "(\<And>tr'. turn_of tr' = turn_of tr \<Longrightarrow> active_of tr' = swap_remove s (active_of tr) \<Longrightarrow>
    Q () tr') \<Longrightarrow> wp (unregister_active_session H s) Q tr"
  by (simp add: wp_iff unregister_active_session_def)
    (auto simp: turn_of_def active_of_def sessions_of_read_def fun_eq_iff)

lemma wp_register: "(\<And>tr'. turn_of tr' = turn_of tr \<Longrightarrow> 
    active_of tr' = (if s \<in> set (active_of tr) then active_of tr else active_of tr @ [s]) \<Longrightarrow>
    Q () tr') \<Longrightarrow> wp (register_active_session H s) Q tr"
  by (simp add: wp_iff register_active_session_def)
    (auto simp: turn_of_def active_of_def sessions_of_read_def fun_eq_iff)

lemma wp_idle: "(\<And>x tr'. turn_of tr' = turn_of tr \<Longrightarrow> active_of tr' = swap_remove (session_id st) (active_of tr) \<Longrightarrow>
    Q (st\<lparr>phase_of := Idle, phase_entered_at_ms := x\<rparr>) tr') \<Longrightarrow> wp (set_phase H Idle st) Q tr"
  unfolding set_phase_def
  apply (rule wp_bind, rule wp_quiet [OF quiet_now], rule wp_bind, simp)
  apply (rule wp_unregister, rule wp_return)
  apply auto
  done

text \<open>An aborted turn is stored idle, its session is out of the set, and no other turn changes.\<close>

lemma wp_finish:
  assumes "session_id st = s" and "\<And>tr' st'. turn_of tr' = (turn_of tr)(s := stored st') \<Longrightarrow> phase_of st' = Idle \<Longrightarrow>
      session_id st' = s \<Longrightarrow> request_id st' = request_id st \<Longrightarrow>
      active_of tr' = swap_remove s (active_of tr) \<Longrightarrow> wp (f (Inr ()) st') Q tr'"
  shows "wp (do { st1 \<leftarrow> set_phase H Idle st; r \<leftarrow> save_turn H st1; f r st1 }) Q tr"
  apply (rule wp_bind, rule wp_idle, rule wp_bind, rule wp_save, rule assms(2))
  using assms(1) by auto

lemma wp_reset: "(\<And>u tr'. turn_of tr' = turn_of tr \<Longrightarrow> active_of tr' = active_of tr \<Longrightarrow>
    Q (st\<lparr>response_text := [], pending_stream_tools := [], dispatched_tools := [], request_id := u,
      current_tools := [], iteration_count := 0, request_model_override := None\<rparr>) tr') \<Longrightarrow>
   wp (reset_conversation_turn H st) Q tr"
  unfolding reset_conversation_turn_def reset_turn_def
  by (rule wp_bind, rule wp_bind, rule wp_new_uuid)
    (auto intro!: wp_return simp: turn_of_def active_of_def fun_eq_iff)

lemma wp_abort:
  assumes "\<And>tr'. phase_of (turn_of tr' (session_id st)) = Idle \<Longrightarrow>
      (\<And>s. s \<noteq> session_id st \<Longrightarrow> turn_of tr' s = turn_of tr s) \<Longrightarrow>
      active_of tr' = swap_remove (session_id st) (active_of tr) \<Longrightarrow> Q (Inr ()) tr'"
  shows "wp (abort_turn A H st) Q tr"
  unfolding abort_turn_def
  apply (rule wp_bind, rule wp_quiet, rule everyI, rule wp_bind, rule wp_reset, rule wp_bind, rule wp_idle, rule wp_save)
  apply (rule assms)
  apply auto
  done

lemma wp_phase_timeout:
  assumes "phase_of st \<noteq> Idle"
    and "\<And>tr'. turn_of tr' = turn_of tr \<Longrightarrow> active_of tr' = active_of tr \<Longrightarrow> Q (Inr (False, st)) tr'"
    and "\<And>st' tr'. phase_of (turn_of tr' (session_id st)) = Idle \<Longrightarrow>
      (\<And>s. s \<noteq> session_id st \<Longrightarrow> turn_of tr' s = turn_of tr s) \<Longrightarrow>
      active_of tr' = swap_remove (session_id st) (active_of tr) \<Longrightarrow> Q (Inr (True, st')) tr'"
  shows "wp (check_phase_timeout H st) Q tr"
  unfolding check_phase_timeout_def if_not_P [OF assms(1)]
  apply (rule wp_bind, rule wp_quiet, rule everyI, rule wp_if, rule wp_return, rule assms(2), assumption+)
  apply (rule wp_bind, rule wp_quiet, rule everyI, rule wp_if)
   apply (rule wp_bind, rule wp_quiet, rule everyI, rule wp_bind, rule wp_reset, rule wp_bind, rule wp_idle)
   apply (rule wp_try_bind, rule wp_save, simp, rule wp_return, rule assms(3))
      apply (auto intro!: wp_return assms(2))
  done

lemma wp_timeout:
  assumes "\<And>tr'. turn_of tr' = turn_of tr \<Longrightarrow> active_of tr' = active_of tr \<Longrightarrow> Q (Inr (False, st)) tr'"
    and "\<And>st' tr'. phase_of (turn_of tr' (session_id st)) = Idle \<Longrightarrow>
      (\<And>s. s \<noteq> session_id st \<Longrightarrow> turn_of tr' s = turn_of tr s) \<Longrightarrow>
      active_of tr' = swap_remove (session_id st) (active_of tr) \<Longrightarrow> Q (Inr (True, st')) tr'"
  shows "wp (check_timeout_with_cleanup A H st) Q tr"
  unfolding check_timeout_with_cleanup_def
  apply (rule wp_if, rule wp_return, rule assms(1), rule refl, rule refl)
  apply (rule wp_try_bind, rule wp_phase_timeout, assumption)
   apply (auto intro!: wp_return assms(1))[1]
  apply (simp only: sum.inject sum.distinct prod.case if_True simp_thms all_simps)
  apply (rule wp_bind, rule wp_quiet, intro everyI, rule wp_bind, rule wp_quiet, intro everyI, rule wp_return, rule assms(2))
     apply auto
  done

end

interpretation mem_react: react_store mem_host
  by unfold_locales (simp_all add: mem_host_def)

end
