(* ===== verification/React_Bus.thy ===== *)
theory React_Bus
  imports React_Inv
begin

text \<open>
  What the ReAct loop puts on the bus and into the store, on every host: the discipline each event
  of each interceptor keeps, the bound of the re-drive, and the order of a tool dispatch.
\<close>

text \<open>
  The shape of a publication.  A final response and a token delta have topics of their own, a
  generation request names a model, the JSON requests go to the topics the manifest of the capsule
  declares, and a bounced event carries a retry count of at most twenty.
\<close>

definition request_topics :: "string list" where
  "request_topics = [''spark.v1.request.build'', ''prompt_builder.v1.assemble'', ''agent.v1.session_changed'',
     ''context_engine.v1.compact'', ''registry.v1.get_active_model'']"

definition redrive_topics :: "string list" where
  "redrive_topics = [''spark.v1.response.ready'', ''prompt_builder.v1.response.assemble'']"

definition bounced_at_most :: "nat \<Rightarrow> json \<Rightarrow> bool" where
  "bounced_at_most n j = (case get_u64 ''_retry'' j of None \<Rightarrow> False | Some k \<Rightarrow> 0 < k \<and> k \<le> n)"

fun proper_pub :: "string \<Rightarrow> react_msg \<Rightarrow> bool" where
  "proper_pub t (PIpc (AgentResponse text final sid)) =
     (if final then t = ''agent.v1.response'' else t = ''agent.v1.stream.delta'' \<and> text \<noteq> [])"
| "proper_pub t (PIpc (LlmRequest rid model ms tools p)) = (\<not> blank model)"
| "proper_pub t (PIpc (ToolExecuteRequest c n a)) = (t = ''tool.v1.request.execute'')"
| "proper_pub t (PIpc (ToolCancelRequest cs)) = (t = ''tool.v1.request.cancel'' \<and> cs \<noteq> [])"
| "proper_pub t (PIpc _) = False"
| "proper_pub t (PJson j) = (t \<in> set request_topics \<or> t \<in> set redrive_topics \<and> bounced_at_most 20 j)"

text \<open>
  The shape of a write: turns under their own session's key, the session list under its key, a
  provider topic inside the provider namespace, a model that is not blank.
\<close>

fun proper_set :: "string \<Rightarrow> kv_value \<Rightarrow> bool" where
  "proper_set k (VTurn st) = (k = turn_key (session_id st))"
| "proper_set k (VSessions ss) = (k = ACTIVE_SESSIONS_KEY)"
| "proper_set k (VBytes b) = (\<not> tracked k \<and>
     (if k = provider_topic_key then starts_with provider_topic_prefix b
      else if k = KV_PROVIDER_MODEL then \<not> blank b else True))"

fun proper :: "(kv_value, react_msg) event \<Rightarrow> bool" where
  "proper (EvPub t m r) = proper_pub t m"
| "proper (EvSet k v r) = proper_set k v"
| "proper (EvCas k old v r) = False"
| "proper _ = True"

subsection \<open>The discipline, call by call\<close>

lemma proper_calls [everyI]:
  "every proper (kv_get H k)" "every proper (kv_get_raw H k)" "every proper (subscribe H t)"
  "every proper (recv H t ms)" "every proper (request_response H t u m ms)" "every proper (time_now H)"
  "every proper (env_var H k)" "every proper (new_uuid H)" "every proper (kv_delete H k)"
  "every proper (kv_clear_prefix H p)"
  unfolding host_defs by (auto intro!: every_host_call)

lemma proper_publish [everyI]: "proper_pub t m \<Longrightarrow> every proper (publish H t m)"
  unfolding host_defs by (auto intro!: every_host_call)

lemma proper_kv_set [everyI]: "proper_set k v \<Longrightarrow> every proper (kv_set H k v)"
  unfolding host_defs by (auto intro!: every_host_call)

lemma proper_response [everyI]: "every proper (agent_response H t s)"
  unfolding agent_response_def by (intro everyI) simp

lemma proper_state [everyI]:
  "every proper (now_ms H)" "every proper (env_or_empty H k)" "every proper (get_config_u64 H k n)"
  "every proper (session_timeout_ms H)" "every proper (max_iterations H)"
  unfolding now_ms_def session_timeout_ms_def get_config_u64_def env_or_empty_def max_iterations_def
  by (intro everyI)+

lemma proper_mapping_keys [simp]:
  "request_key A rid \<noteq> provider_topic_key" "request_key A rid \<noteq> KV_PROVIDER_MODEL"
  "call_key c \<noteq> provider_topic_key" "call_key c \<noteq> KV_PROVIDER_MODEL" "KV_PROVIDER_MODEL \<noteq> provider_topic_key"
  by (simp_all add: request_key_def call_key_def REQUEST_SESSION_PREFIX_def CALL_SESSION_PREFIX_def
      provider_topic_key_def KV_PROVIDER_MODEL_def)

lemma proper_mappings [everyI]:
  "every proper (store_request_session A H rid s)" "every proper (lookup_session_by_request A H rid)"
  "every proper (lookup_session_by_call H c)" "every proper (delete_request_session A H rid)"
  "every proper (delete_call_sessions H cs)" "every proper (store_call_sessions H cs s)"
  unfolding store_request_session_def lookup_session_by_request_def lookup_session_by_call_def
    delete_request_session_def delete_call_sessions_def
  by (simp_all add: everyI) (induction cs; simp add: everyI)

lemma proper_turn [everyI]:
  "every proper (load_active_sessions H)" "every proper (load_turn H s)" "every proper (reset_turn H st)"
  "every proper (reset_conversation_turn H st)" "every proper (cleanup_inflight_mappings A H st)"
  "every proper (register_active_session H s)" "every proper (unregister_active_session H s)"
  "every proper (save_turn H st)"
  unfolding load_active_sessions_def load_turn_def reset_conversation_turn_def reset_turn_def
    cleanup_inflight_mappings_def register_active_session_def unregister_active_session_def save_turn_def
  by (intro everyI; simp)+

lemma proper_phase [everyI]: "every proper (set_phase H p st)" "every proper (abort_turn A H st)"
  "every proper (check_phase_timeout H st)" "every proper (check_timeout_with_cleanup A H st)"
  unfolding check_timeout_with_cleanup_def check_phase_timeout_def abort_turn_def set_phase_def
  by (intro everyI)+

lemma decide_SetTopic: "decide_broadcast j = SetTopic t \<Longrightarrow> starts_with provider_topic_prefix t"
  by (auto simp: decide_broadcast_def split: if_splits option.splits)

lemma parse_active_topic: "parse_active_provider j = Some a \<Longrightarrow> starts_with provider_topic_prefix (llm_topic a)"
  by (auto simp: parse_active_provider_def split: if_splits option.splits)

lemma cached_model_nonblank: "cached_model_action j = CacheModel m \<Longrightarrow> \<not> blank m"
  by (auto simp: cached_model_action_def split: if_splits option.splits)

lemma request_model_nonblank: "resolve_request_model ov a = Some m \<Longrightarrow> \<not> blank m"
  by (auto simp: resolve_request_model_def nonblank_def split: if_splits option.splits)

lemma proper_model [everyI]: "every proper (reconcile_model H j)"
  unfolding reconcile_model_def
  by (cases "cached_model_action j") (auto dest: cached_model_nonblank intro!: everyI)

lemma proper_limits [everyI]: "every proper (for_each limit_keys (cache_limit_if_given H j))"
  "every proper (for_each limit_keys (cache_limit H j))"
  unfolding cache_limit_if_given_def cache_limit_def limit_keys_def
  by (intro everyI, auto simp: KV_CONTEXT_WINDOW_def KV_MAX_OUTPUT_TOKENS_def KV_PROVIDER_MODEL_def
      provider_topic_key_def tracked_def ACTIVE_SESSIONS_KEY_def turn_prefix_def starts_with_def)+

lemma proper_registry [everyI]: "every proper (fetch_active_llm_topic_from_registry H)"
  unfolding fetch_active_llm_topic_from_registry_def
  by (intro everyI) (simp_all add: request_topics_def parse_active_topic)

lemma proper_resolve [everyI]: "every proper (resolve_active_llm H)"
  unfolding resolve_active_llm_def by (intro everyI)

lemma proper_fetch [everyI]: "every proper (fetch_messages_inner A H s m)" "every proper (fetch_messages A H s)"
  "every proper (fetch_messages_with_append A H s ms)"
  unfolding fetch_messages_def fetch_messages_with_append_def fetch_messages_inner_def by (intro everyI)+

lemma proper_compact [everyI]: "every proper (compact_messages A H s ms)"
  unfolding compact_messages_def cached_context_window_def cached_max_output_tokens_def
  by (intro everyI) (simp add: request_topics_def COMPACT_REQUEST_TOPIC_def)

lemma proper_request [everyI]: "every proper (fail_no_model_selected A H st)" "every proper (publish_llm_request A H st ms)"
  unfolding publish_llm_request_def fail_no_model_selected_def
  by (intro everyI; simp add: request_model_nonblank)+

lemma get_u64_bounce [simp]: "n \<le> 20 \<Longrightarrow> get_u64 k (JObj (AList.update k (JInt (int n)) m)) = Some n"
  by (simp add: get_u64_def update_conv)

lemma bounce_bound [simp]:
  "n < 20 \<Longrightarrow> bounced_at_most 20 (JObj (AList.update ''_retry'' (JInt (1 + int n)) m))"
  using get_u64_bounce [of "Suc n" "''_retry''" m] by (simp add: bounced_at_most_def)

lemma inflight_calls_Nil [simp]: "inflight_calls st = [] \<longleftrightarrow> dispatched_tools st = []"
  by (simp add: inflight_calls_def)

lemma proper_redrive [everyI]:
  "t \<in> set redrive_topics \<Longrightarrow> every proper (redrive_if_unready H e a t p)"
  unfolding redrive_if_unready_def Let_def
  by (cases p) (auto intro!: everyI simp: MAX_REDRIVE_RETRIES_def)

lemma proper_publish_tools [everyI]: "every proper (publish_tools H st cs ts)"
  by (induction ts) (auto intro!: everyI split: option.split)

lemma proper_stream [everyI]: "every proper (dispatch_tools H st)" "every proper (handle_stream_done A H st)"
  "every proper (apply_stream_event A H e st)"
proof -
  show d: "every proper (dispatch_tools H st)" for st
    unfolding dispatch_tools_def by (intro everyI)
  show s: "every proper (handle_stream_done A H st)" for st
    unfolding handle_stream_done_def by (intro everyI d)
  show "every proper (apply_stream_event A H e st)"
    unfolding apply_stream_event_def by (cases e) (auto intro!: everyI s simp: stream_delta_event_def)
qed

lemma proper_round [everyI]: "every proper (finish_round A H st)"
  unfolding finish_round_def by (intro everyI)

lemma every_case_outcome [everyI]:
  "every P m \<Longrightarrow> (\<And>ts. every P (f ts)) \<Longrightarrow> every P (case r of Stale \<Rightarrow> m | Recorded ts \<Rightarrow> f ts)"
  by (cases r) simp_all

lemma step_proper: "every proper (react_step A H i)"
proof (cases i)
  case (UserPrompt p)
  then show ?thesis
    by (auto simp: handle_user_prompt_def handle_cancel_def start_turn_def request_topics_def
        intro!: everyI split: ipc_payload.split)
next
  case (LlmStream p)
  then show ?thesis
    by (auto simp: handle_llm_stream_def intro!: everyI split: ipc_payload.split)
next
  case (ToolResult p)
  then show ?thesis
    by (auto simp: handle_tool_result_def Let_def intro!: everyI split: ipc_payload.split)
next
  case (ModelChanged j)
  then show ?thesis
    by (auto simp: handle_model_changed_def dest: decide_SetTopic intro!: everyI split: broadcast_action.split)
next
  case (IdentityResponse j)
  then show ?thesis
    unfolding IdentityResponse react_step.simps handle_identity_response_def
    by (simp, intro everyI) (simp_all add: request_topics_def redrive_topics_def)
next
  case (PromptResponse j)
  then show ?thesis
    unfolding PromptResponse react_step.simps handle_prompt_response_def
    by (simp, intro everyI) (simp_all add: redrive_topics_def)
qed (auto simp: handle_lifecycle_restart_def clear_ephemeral_keys_def handle_session_clear_def
    handle_watchdog_tick_def handle_bus_lag_def unwind_lagged_def request_topics_def intro!: everyI)

subsection \<open>Properties\<close>

text \<open>
  C3: Whatever is delivered and whatever the store, the bus and the clock answer, every event of an
  interceptor is well formed.  A response marked final goes to the response topic only and a token
  delta, never marked final and never empty, to the delta topic only; a generation request names a
  model that is not blank; tool requests and cancellations go to their topics; a JSON request goes
  to a topic of the manifest; a bounced event carries a retry count of at most twenty.  A turn is
  written under its own session's key only, a cached provider topic lies in the provider namespace,
  a cached model is not blank.\<close>

theorem events_disciplined: "list_all proper (new_events (react_step A H i) tr)"
  by (rule every_new_events [OF step_proper])

text \<open>
  The re-drive of an early response: a response for a turn in the expected phase goes on; one
  for a turn that reads as idle is published once more on its topic with its retry count raised by
  one, as long as the count is below twenty and the payload is an object; in every other case the
  event is dropped and nothing is published.  So an orphaned response is bounced at most twenty
  times.\<close>

theorem redrive_bounded:
  "fst (run_state (redrive_if_unready H expected actual t j) tr) = (actual \<noteq> expected) \<and>
   pubs (new_events (redrive_if_unready H expected actual t j) tr) =
     (case j of
        JObj m \<Rightarrow> if actual \<noteq> expected \<and> actual = Idle \<and> or_default 0 (get_u64 ''_retry'' j) < 20
          then [(t, PJson (JObj (AList.update ''_retry''
                  (JInt (int (or_default 0 (get_u64 ''_retry'' j) + 1))) m)))]
          else []
      | _ \<Rightarrow> [])"
  by (cases j) (simp_all add: redrive_if_unready_def Let_def new_events_def final_trace_def publish_def
      MAX_REDRIVE_RETRIES_def)

subsection \<open>The order of a tool dispatch\<close>

text \<open>
  A tool request is justified by its correlation mapping and by the saved turn that waits for it.
\<close>

definition waiting_turn :: "rhost \<Rightarrow> turn_state \<Rightarrow> turn_state \<Rightarrow> bool" where
  "waiting_turn H st st' \<longleftrightarrow> st' = st\<lparr>dispatched_tools := dispatched_of H st, pending_stream_tools := [],
     phase_of := AwaitingTools, phase_entered_at_ms := phase_entered_at_ms st'\<rparr>"

fun exec_ready :: "rhost \<Rightarrow> turn_state \<Rightarrow> (kv_value, react_msg) event \<Rightarrow> rtrace \<Rightarrow> bool" where
  "exec_ready H st (EvPub t (PIpc (ToolExecuteRequest c n a)) r) earlier =
     (EvSet (call_key c) (VBytes (session_id st)) None \<in> set earlier \<and>
      (\<exists>st'. EvSet (turn_key (session_id st)) (VTurn st') None \<in> set earlier \<and> waiting_turn H st st') \<and>
      (\<exists>d \<in> set (dispatched_of H st). dt_id d = c \<and> dt_name d = n \<and> dt_arguments d = a))"
| "exec_ready H st e earlier = True"

fun plain :: "(kv_value, react_msg) event \<Rightarrow> bool" where
  "plain (EvPub t (PIpc (ToolExecuteRequest c n a)) r) = False"
| "plain e = True"

lemma plain_ready: "plain e \<Longrightarrow> exec_ready H st e evs"
  by (cases e rule: plain.cases) auto

lemma plain_justified: "list_all plain xs \<Longrightarrow> justified (exec_ready H st) evs \<Longrightarrow> justified (exec_ready H st) (xs @ evs)"
  by (rule justified_append) (auto simp: list_all_iff plain_ready)

lemma plain_calls:
  "every plain (kv_get H k)" "every plain (kv_set H k v)" "every plain (kv_delete H k)" "every plain (time_now H)"
  "every plain (agent_response H t s)"
  unfolding agent_response_def host_defs by (auto intro!: every_host_call)

lemma plain_state: "every plain (delete_call_sessions H cs)" "every plain (set_phase H p st)" "every plain (save_turn H st)"
  unfolding delete_call_sessions_def set_phase_def save_turn_def now_ms_def unregister_active_session_def
    load_active_sessions_def
  by (intro everyI plain_calls)+

lemma wp_every: "every P m \<Longrightarrow> (\<And>x evs. list_all P evs \<Longrightarrow> Q x (evs @ tr)) \<Longrightarrow> wp m Q tr"
  by (auto simp: every_def wp_iff) (metis)

lemma store_calls_plain: "wp (store_call_sessions H cs s) (\<lambda>r tr'. \<exists>evs. tr' = evs @ tr \<and> list_all plain evs \<and>
    (\<forall>u. r = Inr u \<longrightarrow> (\<forall>c \<in> set cs. EvSet (call_key c) (VBytes s) None \<in> set evs))) tr"
proof (induction cs arbitrary: tr)
  case (Cons c cs)
  show ?case
    apply (simp only: store_call_sessions.simps checked_def)
    apply (intro wpI)
    subgoal for r
      using Cons.IH [of "EvSet (call_key c) (VBytes s) r # tr"]
      by (cases r) (auto elim!: wp_mono simp: list_all_append)
    done
qed (simp add: wp_return)

text \<open>The publishing phase, from events in which every mapping and the turn are stored.\<close>

lemma publish_tools_justified:
  assumes "justified (exec_ready H st0) evs"
    and "\<And>t e xs. t \<in> set ts \<Longrightarrow> exec_ready H st0 (EvPub ''tool.v1.request.execute''
        (PIpc (ToolExecuteRequest (dt_id t) (dt_name t) (dt_arguments t))) e) (xs @ evs)"
  shows "wp (publish_tools H st cs ts) (\<lambda>_ tr'. \<exists>evs. tr' = evs @ tr \<and> justified (exec_ready H st0) evs) (evs @ tr)"
  using assms
proof (induction ts arbitrary: evs)
  case Nil
  then show ?case by (auto intro!: wp_return)
next
  case (Cons t ts)
  have stop: "every plain (do { delete_call_sessions H cs;
         _ \<leftarrow> agent_response H (''Failed to dispatch tool '' @ dt_name t @ '': '' @ e) (session_id st);
         st1 \<leftarrow> set_phase H Idle st;
         try_bind (save_turn H st1) (\<lambda>_. ret (Inl e)) } :: unit fallible)" for e
    by (intro everyI plain_calls plain_state)
  let ?e = "\<lambda>r. EvPub ''tool.v1.request.execute'' (PIpc (ToolExecuteRequest (dt_id t) (dt_name t) (dt_arguments t))) r"
  have here: "justified (exec_ready H st0) (?e r # evs)" for r
    using Cons.prems(1) Cons.prems(2) [of t r "[]"] by (simp del: exec_ready.simps)
  have later: "wp (publish_tools H st cs ts) (\<lambda>_ tr'. \<exists>evs. tr' = evs @ tr \<and> justified (exec_ready H st0) evs) ((?e r # evs) @ tr)" for r
  proof (rule Cons.IH [OF here])
    fix t' e xs
    assume "t' \<in> set ts"
    then show "exec_ready H st0 (EvPub ''tool.v1.request.execute''
        (PIpc (ToolExecuteRequest (dt_id t') (dt_name t') (dt_arguments t'))) e) (xs @ ?e r # evs)"
      using Cons.prems(2) [of t' e "xs @ [?e r]"] by (simp del: exec_ready.simps)
  qed
  show ?case
    apply (simp only: publish_tools.simps)
    apply (rule wp_bind, rule wp_publish, rule wp_case_option)
    subgoal for r using later [of r] by simp
    subgoal for r e
      apply (rule wp_every, rule stop)
      subgoal for x xs using plain_justified [OF _ here [of r], of xs] by (intro exI [where x = "xs @ ?e r # evs"]) simp
      done
    done
qed

lemma wp_phase_plain: "p \<noteq> Idle \<Longrightarrow> (\<And>n evs. list_all plain evs \<Longrightarrow>
    Q (st\<lparr>phase_of := p, phase_entered_at_ms := n\<rparr>) (evs @ tr)) \<Longrightarrow> wp (set_phase H p st) Q tr"
  unfolding set_phase_def now_ms_def
  by (rule wp_bind, rule wp_every [of plain], intro everyI plain_calls) (auto intro!: wpI)

text \<open>
  C4: Tools are dispatched crash-safely, on every host: whenever a tool request leaves, the mapping
  from its call to the session and the turn that waits for exactly these calls have been stored
  before, successfully; and the request is one of the calls the stream announced, with the
  arguments the stream spelled.\<close>

theorem tools_stored_before_dispatch:
  "justified (exec_ready H st) (new_events (dispatch_tools H st) tr)"
proof -
  let ?ids = "map dt_id (dispatched_of H st)"
  have "wp (dispatch_tools H st) (\<lambda>_ tr'. \<exists>evs. tr' = evs @ tr \<and> justified (exec_ready H st) evs) tr"
    unfolding dispatch_tools_def Let_def
    apply (rule wp_try_bind, rule wp_mono, rule store_calls_plain)
    apply (elim exE conjE, intro conjI allI impI)
    subgoal for r tr1 e evs by (auto intro!: exI [where x = evs] dest: plain_justified [of _ H st "[]"])
    subgoal for r tr1 evs u
      apply (rule wp_bind, rule wp_phase_plain, simp, rule wp_bind, simp only: save_turn_def checked_def)
      apply (rule wp_bind, rule wp_kv_set, rule wp_return)
      subgoal premises prems for n xs r'
      proof -
        note tr1 = prems(1) and plain = prems(2,5) and stored = prems(3) and r = prems(4)
        let ?st = "st\<lparr>dispatched_tools := dispatched_of H st, pending_stream_tools := [],
            phase_of := AwaitingTools, phase_entered_at_ms := n\<rparr>"
        let ?evs = "EvSet (turn_key (session_id st)) (VTurn ?st) r' # xs @ evs"
        have base: "justified (exec_ready H st) ?evs"
          using plain plain_justified [of "xs @ evs" H st "[]"] by (simp add: list_all_append)
        have ready: "exec_ready H st (EvPub ''tool.v1.request.execute''
            (PIpc (ToolExecuteRequest (dt_id t) (dt_name t) (dt_arguments t))) e) (ys @ ?evs)"
          if "t \<in> set (dispatched_of H st)" "r' = None" for t e ys
          using that stored r by (auto simp: waiting_turn_def)
        show ?thesis
        proof (cases r')
          case None
          have "wp (publish_tools H ?st ?ids (dispatched_of H st))
              (\<lambda>_ tr'. \<exists>evs. tr' = evs @ tr \<and> justified (exec_ready H st) evs) (?evs @ tr)"
            by (rule publish_tools_justified [OF base]) (rule ready [OF _ None])
          then show ?thesis using None tr1 by simp
        next
          case (Some e)
          then show ?thesis using plain_justified [OF _ base]
            by (auto simp: tr1 intro!: wpI wp_every [OF plain_state(1)])
        qed
      qed
      done
    done
  then show ?thesis by (auto simp: wp_iff new_events_def final_trace_def)
qed

end
