(* ===== verification/React_Turn.thy ===== *)
theory React_Turn
  imports React_Inv
begin

text \<open>
  The course of a turn of the ReAct loop: the tool round and when it completes, the selection of a
  model and the cache that carries it, the compaction budget, the reassembly of a stream.
\<close>

subsection \<open>The tool round\<close>

definition apply_result ::
  "nat \<Rightarrow> string \<times> tool_call_result \<Rightarrow> dispatched_tool_call list \<Rightarrow> dispatched_tool_call list" where
  "apply_result rid cr ts = (case record_result rid (fst cr) (snd cr) ts of Stale \<Rightarrow> ts | Recorded ts' \<Rightarrow> ts')"

text \<open>The results of a round in the order they arrive, stale ones dropped.\<close>

definition apply_results ::
  "nat \<Rightarrow> (string \<times> tool_call_result) list \<Rightarrow> dispatched_tool_call list \<Rightarrow> dispatched_tool_call list" where
  "apply_results rid rs ts = fold (apply_result rid) rs ts"

definition current_call :: "nat \<Rightarrow> dispatched_tool_call \<Rightarrow> bool" where
  "current_call rid t \<longleftrightarrow> dt_turn_request_id t = 0 \<or> dt_turn_request_id t = rid"

lemma record_ids: "record_result rid c r ts = Recorded ts' \<Longrightarrow> map dt_id ts' = map dt_id ts"
  by (induction ts arbitrary: ts') (auto split: if_splits record_outcome.splits)

lemma apply_result_ids [simp]: "map dt_id (apply_result rid cr ts) = map dt_id ts"
  by (auto simp: apply_result_def record_ids split: record_outcome.split)

lemma record_current:
  "list_all (current_call rid) ts \<Longrightarrow> distinct (map dt_id ts) \<Longrightarrow>
   record_result rid c r ts = Recorded (map (\<lambda>t. if dt_id t = c then t\<lparr>dt_result := Some r\<rparr> else t) ts)"
proof (induction ts)
  case (Cons t ts)
  have "map (\<lambda>t. if dt_id t = c then t\<lparr>dt_result := Some r\<rparr> else t) ts = ts" if "dt_id t = c"
    using that Cons.prems(2) by (auto intro!: map_idI simp: image_iff)
  then show ?case using Cons by (auto simp: current_call_def)
qed simp

lemma apply_results_current:
  "list_all (current_call rid) ts \<Longrightarrow> distinct (map dt_id ts) \<Longrightarrow>
   all_done (apply_results rid rs ts) \<longleftrightarrow> ts \<noteq> [] \<and> (\<forall>t \<in> set ts. dt_result t \<noteq> None \<or> dt_id t \<in> fst ` set rs)"
proof (induction rs arbitrary: ts)
  case Nil
  then show ?case by (simp add: apply_results_def all_done_def list_all_iff)
next
  case (Cons cr rs)
  let ?mark = "\<lambda>t. if dt_id t = fst cr then t\<lparr>dt_result := Some (snd cr)\<rparr> else t"
  have eq: "apply_result rid cr ts = map ?mark ts"
    by (simp add: apply_result_def record_current Cons.prems)
  have "map (dt_id \<circ> ?mark) ts = map dt_id ts" by auto
  then have ids: "distinct (map dt_id (map ?mark ts))" using Cons.prems(2) by (simp only: map_map)
  have cur: "list_all (current_call rid) (map ?mark ts)"
    using Cons.prems(1) by (auto simp: list_all_iff current_call_def)
  show ?case using Cons.IH [OF cur ids] by (auto simp: apply_results_def eq split: if_splits)
qed

text \<open>A call that shares its id with an earlier one never receives a result.\<close>

lemma record_shadowed:
  "dt_id y \<noteq> c \<or> dt_id y \<in> dt_id ` set xs \<Longrightarrow> record_result rid c r (xs @ y # ys) = Recorded ts' \<Longrightarrow>
   \<exists>xs' ys'. ts' = xs' @ y # ys' \<and> map dt_id xs' = map dt_id xs"
proof (induction xs arbitrary: ts')
  case Nil
  then show ?case by (auto split: if_splits record_outcome.splits intro: exI [where x = "[]"])
next
  case (Cons x xs)
  show ?case
  proof (cases "dt_id x = c")
    case True
    then show ?thesis using Cons.prems(2)
      by (intro exI [where x = "x\<lparr>dt_result := Some r\<rparr> # xs"] exI [where x = ys]) (auto split: if_splits)
  next
    case False
    then obtain ts1 where ts1: "record_result rid c r (xs @ y # ys) = Recorded ts1" "ts' = x # ts1"
      using Cons.prems(2) by (auto split: record_outcome.splits)
    obtain xs' ys' where "ts1 = xs' @ y # ys'" "map dt_id xs' = map dt_id xs"
      using Cons.IH [OF _ ts1(1)] Cons.prems(1) False by auto
    then show ?thesis using ts1(2) by (intro exI [where x = "x # xs'"] exI [where x = ys']) simp
  qed
qed

lemma apply_results_shadowed:
  "dt_id y \<in> dt_id ` set xs \<Longrightarrow> \<exists>xs' ys'. apply_results rid rs (xs @ y # ys) = xs' @ y # ys'"
proof (induction rs arbitrary: xs ys)
  case (Cons cr rs)
  have "\<exists>xs' ys'. apply_result rid cr (xs @ y # ys) = xs' @ y # ys' \<and> map dt_id xs' = map dt_id xs"
    using record_shadowed [of y "fst cr" xs rid "snd cr" ys] Cons.prems
    by (auto simp: apply_result_def split: record_outcome.split)
  then obtain xs' ys' where 1: "apply_result rid cr (xs @ y # ys) = xs' @ y # ys'" "map dt_id xs' = map dt_id xs"
    by auto
  then have "dt_id y \<in> dt_id ` set xs'" using Cons.prems by (metis list.set_map)
  from Cons.IH [OF this] show ?case by (simp add: apply_results_def 1)
qed (auto simp: apply_results_def)

text \<open>
  C37: A round of tool calls with distinct ids completes exactly when every call has been answered:
  whatever the order of the results, and however often one is repeated or a foreign one arrives in
  between, the round is done precisely when each of its calls had a result or got one.\<close>

theorem round_completes:
  assumes "ts \<noteq> []" and "distinct (map dt_id ts)" and "list_all (current_call rid) ts"
  shows "all_done (apply_results rid rs ts) \<longleftrightarrow> list_all (\<lambda>t. dt_result t \<noteq> None \<or> dt_id t \<in> set (map fst rs)) ts"
  using apply_results_current [OF assms(3,2)] assms(1) by (auto simp: list_all_iff)

definition demo_call :: "string \<Rightarrow> dispatched_tool_call" where
  "demo_call i = \<lparr>dt_id = i, dt_name = ''read'', dt_arguments = JObj [], dt_result = None, dt_turn_request_id = 7\<rparr>"

definition demo_result :: "string \<Rightarrow> string \<times> tool_call_result" where
  "demo_result i = (i, ToolCallResult (JStr ''ok''))"

lemma round_completes_witness:
  "all_done (apply_results 7 (map demo_result [''b'', ''x'', ''b'', ''a'']) (map demo_call [''a'', ''b'']))"
  by (subst round_completes) (simp_all add: demo_call_def demo_result_def current_call_def)

text \<open>
  C38: A round whose stream announced the same call id twice never completes.  A result is recorded
  in the first call of its id only, so the second one stays open whatever results arrive: the turn
  waits until the tool timeout ends it.\<close>

theorem duplicate_id_hangs:
  assumes "\<not> distinct (map dt_id ts)" and "list_all (\<lambda>t. dt_result t = None) ts"
  shows "\<not> all_done (apply_results rid rs ts)"
proof -
  obtain as bs cs x where split: "map dt_id ts = as @ [x] @ bs @ [x] @ cs"
    using not_distinct_decomp [OF assms(1)] by blast
  define xs y ys where "xs = take (length as + 1 + length bs) ts" and "y = ts ! (length as + 1 + length bs)"
    and "ys = drop (Suc (length as + 1 + length bs)) ts"
  have len: "length as + 1 + length bs < length ts" using arg_cong [OF split, of length] by simp
  have ts: "ts = xs @ y # ys" unfolding xs_def y_def ys_def using len by (simp add: id_take_nth_drop)
  have "map dt_id xs = as @ [x] @ bs" unfolding xs_def by (simp add: take_map [symmetric] split)
  moreover have "dt_id y = x" unfolding y_def using len by (simp add: nth_map [symmetric] split nth_append del: nth_map)
  ultimately have "dt_id y \<in> dt_id ` set xs" by (metis in_set_conv_decomp append_Cons append_Nil list.set_map)
  then obtain xs' ys' where "apply_results rid rs ts = xs' @ y # ys'"
    using apply_results_shadowed ts by blast
  moreover have "dt_result y = None" using assms(2) ts by simp
  ultimately show ?thesis by (simp add: all_done_def)
qed

lemma duplicate_id_hangs_witness:
  "\<not> all_done (apply_results 7 (map demo_result [''a'', ''a'']) (map demo_call [''a'', ''a'']))"
  by (rule duplicate_id_hangs) (simp_all add: demo_call_def)

subsection \<open>The selection of a model\<close>

text \<open>
  The two ways the loop learns a selection agree: the registry's reply to a lookup is taken
  exactly when the same payload as a broadcast would be cached, with the same topic and the same
  model; a payload that clears, that lies outside the provider namespace or that names no topic is
  no selection either way.\<close>

theorem provider_agreement:
  "parse_active_provider j = (case decide_broadcast j of
     SetTopic topic \<Rightarrow> Some \<lparr>llm_topic = topic, llm_model =
       (case cached_model_action j of CacheModel m \<Rightarrow> Some m | DropModel \<Rightarrow> None)\<rparr>
   | _ \<Rightarrow> None)"
  by (cases j) (auto simp: parse_active_provider_def decide_broadcast_def cached_model_action_def nonblank_def
      get_str_def split: option.splits)

lemma of_le_bytes_le: "of_le_bytes (le_bytes k n) = n mod 256 ^ k"
proof (induction k arbitrary: n)
  case (Suc k)
  have "of_char (char_of (n mod 256) :: char) = n mod 256" by simp
  moreover have "n mod 256 + 256 * (n div 256 mod 256 ^ k) = n mod 256 ^ Suc k"
    by (metis mod_mult2_eq power_Suc add.commute mult.commute)
  ultimately show ?case using Suc by simp
qed simp

lemma length_le_bytes [simp]: "length (le_bytes k n) = k"
  by (induction k arbitrary: n) auto

lemma u64_roundtrip: "n < 2 ^ 64 \<Longrightarrow> u64_of_read (Inr (VBytes (le_bytes 8 n))) = Some n"
  by (simp add: u64_of_read_def of_le_bytes_le)

lemma get_u64_bound: "get_u64 k j = Some n \<Longrightarrow> n < 2 ^ 64"
  by (auto simp: get_u64_def bind_eq_Some_conv elim!: ju64.elims split: if_splits)

text \<open>
  The budget a compaction asks for.  For every window up to a ninth of the \<open>u64\<close> range the
  target is nine tenths of it, rounded down; beyond that the product wraps around and the target is
  smaller than the window asks for, and at the first such window it is zero.\<close>

theorem compaction_target_bounds:
  "if n \<le> (2 ^ 64 - 1) div 9 then compaction_target n = 9 * n div 10
   else compaction_target n < 9 * n div 10 \<and> compaction_target ((2 ^ 64 - 1) div 9 + 1) = 0"
proof (cases "n \<le> (2 ^ 64 - 1) div 9")
  case True
  then have "n * 9 < 2 ^ 64" by (simp add: less_eq_div_iff_mult_less_eq)
  then show ?thesis using True by (simp add: compaction_target_def COMPACTION_TARGET_NUM_def COMPACTION_TARGET_DENOM_def mult.commute)
next
  case False
  then have big: "2 ^ 64 \<le> n * 9" by (simp add: div_less_iff_less_mult not_le)
  have "n * 9 mod 2 ^ 64 \<le> n * 9 - 2 ^ 64"
    using big by (metis le_mod_geq mod_less_eq_dividend)
  then have "n * 9 mod 2 ^ 64 + 10 \<le> n * 9" using big by simp
  then have "n * 9 mod 2 ^ 64 div 10 < n * 9 div 10" by linarith
  then show ?thesis using False by (simp add: compaction_target_def COMPACTION_TARGET_NUM_def COMPACTION_TARGET_DENOM_def mult.commute)
qed

text \<open>The cached selection after a broadcast, on a store that works.\<close>

definition utf8_text :: "string option \<Rightarrow> bool" where
  "utf8_text s = (case s of None \<Rightarrow> True | Some t \<Rightarrow> from_utf8 t = Some t)"

context react_store
begin

lemma run_raw [simp]: "kv_view tr k = Some v \<Longrightarrow> run_state (kv_get_raw H k) tr = (Inr v, EvGetRaw k (Inr v) # tr)"
  by (simp add: kv_get_raw_def raw_ok)

lemma selection_cached:
  assumes "decide_broadcast j = SetTopic topic"
  shows "wp (handle_model_changed H j) (\<lambda>_ tr'. kv_view tr' provider_topic_key = Some (VBytes topic) \<and>
     kv_view tr' KV_PROVIDER_MODEL = map_option VBytes (nonblank (get_str ''id'' j)) \<and>
     kv_view tr' KV_CONTEXT_WINDOW = Some (VBytes (le_bytes 8 (or_default 0 (get_u64 ''context_window'' j)))) \<and>
     kv_view tr' KV_MAX_OUTPUT_TOKENS = Some (VBytes (le_bytes 8 (or_default 0 (get_u64 ''max_output_tokens'' j))))) tr"
proof -
  have distinct: "distinct [provider_topic_key, KV_PROVIDER_MODEL, KV_CONTEXT_WINDOW, KV_MAX_OUTPUT_TOKENS]"
    by (simp add: provider_topic_key_def KV_PROVIDER_MODEL_def KV_CONTEXT_WINDOW_def KV_MAX_OUTPUT_TOKENS_def)
  show ?thesis
    using distinct
    by (cases "get_str ''id'' j") (auto simp: handle_model_changed_def assms wp_iff reconcile_model_def
        cached_model_action_def limit_keys_def cache_limit_def nonblank_def)
qed

lemma selection_resolved:
  assumes "kv_view tr provider_topic_key = Some (VBytes topic)" "topic \<noteq> []" "utf8_text (Some topic)"
    and "kv_view tr KV_PROVIDER_MODEL = map_option VBytes (nonblank m)" "utf8_text m"
  shows "fst (run_state (resolve_active_llm H) tr) = \<lparr>llm_topic = topic, llm_model = nonblank m\<rparr>"
  using assms by (auto simp: resolve_active_llm_def cached_topic_def cached_model_def utf8_text_def nonblank_def
      split: option.splits if_splits)

lemma window_resolved:
  assumes "kv_view tr KV_CONTEXT_WINDOW = Some (VBytes (le_bytes 8 n))" "n < 2 ^ 64"
  shows "fst (run_state (cached_context_window H) tr) = (if 0 < n then Some n else None)"
  using assms by (simp add: cached_context_window_def u64_roundtrip)

lemma broadcast_resolves:
  assumes "decide_broadcast j = SetTopic topic"
    and "utf8_text (get_str ''request_topic'' j)" and "utf8_text (get_str ''id'' j)"
  shows "case final_trace (handle_model_changed H j) tr of tr' \<Rightarrow>
     fst (run_state (resolve_active_llm H) tr') = \<lparr>llm_topic = topic, llm_model = nonblank (get_str ''id'' j)\<rparr> \<and>
     fst (run_state (cached_context_window H) tr') =
       (case get_u64 ''context_window'' j of None \<Rightarrow> None | Some n \<Rightarrow> if 0 < n then Some n else None)"
proof -
  let ?tr = "final_trace (handle_model_changed H j) tr"
  note cached = wp_final [OF selection_cached [OF assms(1)], of tr]
  have topic: "get_str ''request_topic'' j = Some topic" "starts_with provider_topic_prefix topic"
    using assms(1) by (auto simp: decide_broadcast_def split: if_splits option.splits)
  have "topic \<noteq> []" using topic(2) by (auto simp: starts_with_def provider_topic_prefix_def)
  then have "fst (run_state (resolve_active_llm H) ?tr) = \<lparr>llm_topic = topic, llm_model = nonblank (get_str ''id'' j)\<rparr>"
    using cached assms topic(1) by (intro selection_resolved) auto
  moreover have "or_default 0 (get_u64 ''context_window'' j) < 2 ^ 64"
    by (cases "get_u64 ''context_window'' j") (auto dest: get_u64_bound)
  then have "fst (run_state (cached_context_window H) ?tr) =
      (if 0 < or_default 0 (get_u64 ''context_window'' j) then Some (or_default 0 (get_u64 ''context_window'' j)) else None)"
    using cached by (intro window_resolved) auto
  ultimately show ?thesis by (simp split: option.split)
qed

lemma selection_cleared:
  assumes "decide_broadcast j = ClearAll"
  shows "wp (handle_model_changed H j) (\<lambda>r tr'. list_all (\<lambda>k. kv_view tr' k = None) cleared_cache_keys) tr"
  by (simp add: handle_model_changed_def assms wp_iff cleared_cache_keys_def)

end

text \<open>
  A change of the selected model reaches the next request.  On a store that works, once a
  broadcast with a provider topic is handled, the selection that is resolved next is that topic with
  the model id the same payload carries, no model when the id is absent or blank, whatever was cached
  before; and the context window is the payload's, or unknown when it has none.  A clearing broadcast
  leaves none of the four cached keys; any other payload changes nothing.\<close>

theorem selection_follows_broadcast:
  assumes "react_store H" and "utf8_text (get_str ''request_topic'' j)" and "utf8_text (get_str ''id'' j)"
  shows "case final_trace (handle_model_changed H j) tr of tr' \<Rightarrow> (case decide_broadcast j of
     SetTopic topic \<Rightarrow>
       fst (run_state (resolve_active_llm H) tr') = \<lparr>llm_topic = topic, llm_model = nonblank (get_str ''id'' j)\<rparr> \<and>
       fst (run_state (cached_context_window H) tr') =
         (case get_u64 ''context_window'' j of None \<Rightarrow> None | Some n \<Rightarrow> if 0 < n then Some n else None)
   | ClearAll \<Rightarrow> list_all (\<lambda>k. kv_view tr' k = None) cleared_cache_keys
   | _ \<Rightarrow> tr' = tr)"
proof (cases "decide_broadcast j")
  case (SetTopic topic)
  then show ?thesis using react_store.broadcast_resolves [OF assms(1) SetTopic assms(2,3), of tr] by simp
next
  case ClearAll
  then show ?thesis using wp_final [OF react_store.selection_cleared [OF assms(1) ClearAll, of tr]] by simp
qed (simp_all add: handle_model_changed_def final_trace_def)

definition demo_provider :: json where
  "demo_provider = JObj [(''request_topic'', JStr ''llm.v1.request.generate.x''), (''id'', JStr ''m''), (''context_window'', JInt 9)]"

lemma selection_follows_broadcast_witness:
  "fst (run_state (resolve_active_llm mem_host) (final_trace (handle_model_changed mem_host demo_provider) [])) =
     \<lparr>llm_topic = ''llm.v1.request.generate.x'', llm_model = Some ''m''\<rparr>"
proof -
  have dec: "decide_broadcast demo_provider = SetTopic ''llm.v1.request.generate.x''"
    and texts: "utf8_text (get_str ''request_topic'' demo_provider)" "utf8_text (get_str ''id'' demo_provider)"
    and model: "nonblank (get_str ''id'' demo_provider) = Some ''m''"
    by code_simp+
  show ?thesis
    using selection_follows_broadcast [OF mem_react.react_store_axioms texts, of "[]"] unfolding dec model by simp
qed

subsection \<open>The stream\<close>

text \<open>
  What a stream means, read off the whole sequence of events: the text is the concatenation of the
  text deltas, and every announced call has as arguments the deltas of its id that follow.
\<close>

fun spec_text :: "stream_event list \<Rightarrow> string" where
  "spec_text [] = []"
| "spec_text (TextDelta t # es) = t @ spec_text es"
| "spec_text (e # es) = spec_text es"

fun spec_args :: "string \<Rightarrow> stream_event list \<Rightarrow> string" where
  "spec_args i [] = []"
| "spec_args i (ToolCallDelta j a # es) = (if i = j then a @ spec_args i es else spec_args i es)"
| "spec_args i (e # es) = spec_args i es"

fun spec_calls :: "stream_event list \<Rightarrow> pending_tool_call list" where
  "spec_calls [] = []"
| "spec_calls (ToolCallStart i n # es) =
     \<lparr>pt_id = i, pt_name = n, pt_args_json = spec_args i es, pt_complete = ToolCallEnd i \<in> set es\<rparr> # spec_calls es"
| "spec_calls (e # es) = spec_calls es"

fun started :: "stream_event \<Rightarrow> string option" where
  "started (ToolCallStart i n) = Some i"
| "started e = None"

definition call_ids_of :: "stream_event list \<Rightarrow> string list" where
  "call_ids_of es = List.map_filter started es"

fun terminal :: "stream_event \<Rightarrow> bool" where
  "terminal StreamDone = True"
| "terminal (StreamError e) = True"
| "terminal e = False"

text \<open>What one event that does not end the stream does to the turn.\<close>

definition absorb :: "stream_event \<Rightarrow> turn_state \<Rightarrow> turn_state" where
  "absorb e st = (case e of
     TextDelta t \<Rightarrow> st\<lparr>response_text := response_text st @ t\<rparr>
   | ToolCallStart i n \<Rightarrow> st\<lparr>pending_stream_tools := pending_stream_tools st @
       [\<lparr>pt_id = i, pt_name = n, pt_args_json = [], pt_complete = False\<rparr>]\<rparr>
   | ToolCallDelta i a \<Rightarrow> st\<lparr>pending_stream_tools := update_first_pending i
       (\<lambda>t. t\<lparr>pt_args_json := pt_args_json t @ a\<rparr>) (pending_stream_tools st)\<rparr>
   | ToolCallEnd i \<Rightarrow> st\<lparr>pending_stream_tools := update_first_pending i
       (\<lambda>t. t\<lparr>pt_complete := True\<rparr>) (pending_stream_tools st)\<rparr>
   | _ \<Rightarrow> st)"

definition extended :: "stream_event list \<Rightarrow> pending_tool_call \<Rightarrow> pending_tool_call" where
  "extended es p = p\<lparr>pt_args_json := pt_args_json p @ spec_args (pt_id p) es,
     pt_complete := pt_complete p \<or> ToolCallEnd (pt_id p) \<in> set es\<rparr>"

lemma update_first_distinct: "distinct (map pt_id ps) \<Longrightarrow>
    update_first_pending i f ps = map (\<lambda>p. if pt_id p = i then f p else p) ps"
proof (induction ps)
  case (Cons p ps)
  have "map (\<lambda>q. if pt_id q = pt_id p then f q else q) ps = ps"
    using Cons.prems by (auto intro!: map_idI simp: image_iff)
  then show ?case using Cons by auto
qed simp

lemma absorb_all:
  "distinct (map pt_id (pending_stream_tools st) @ call_ids_of es) \<Longrightarrow> list_all (\<lambda>e. \<not> terminal e) es \<Longrightarrow>
   fold absorb es st = st\<lparr>response_text := response_text st @ spec_text es,
     pending_stream_tools := map (extended es) (pending_stream_tools st) @ spec_calls es\<rparr>"
proof (induction es arbitrary: st)
  case Nil
  then show ?case by (simp add: extended_def)
next
  case (Cons e es)
  let ?ps = "pending_stream_tools st"
  have ps: "distinct (map pt_id ?ps)" and es: "list_all (\<lambda>e. \<not> terminal e) es"
    using Cons.prems by simp_all
  have step: "fold absorb (e # es) st = fold absorb es (absorb e st)" by simp
  show ?case
  proof (cases e)
    case (ToolCallStart i n)
    have "distinct (map pt_id (pending_stream_tools (absorb e st)) @ call_ids_of es)"
      using Cons.prems(1) by (simp add: ToolCallStart absorb_def call_ids_of_def List.map_filter_simps)
    from Cons.IH [OF this es] show ?thesis
      by (simp add: ToolCallStart absorb_def extended_def comp_def)
  next
    case (ToolCallDelta i a)
    have "distinct (map pt_id (pending_stream_tools (absorb e st)) @ call_ids_of es)"
      using Cons.prems(1) ps by (simp add: ToolCallDelta absorb_def call_ids_of_def List.map_filter_simps update_first_distinct comp_def if_distrib cong: if_cong)
    from Cons.IH [OF this es] show ?thesis
      by (auto simp add: ToolCallDelta absorb_def extended_def comp_def update_first_distinct ps)
  next
    case (ToolCallEnd i)
    have "distinct (map pt_id (pending_stream_tools (absorb e st)) @ call_ids_of es)"
      using Cons.prems(1) ps by (simp add: ToolCallEnd absorb_def call_ids_of_def List.map_filter_simps update_first_distinct comp_def if_distrib cong: if_cong)
    from Cons.IH [OF this es] show ?thesis
      by (auto simp add: ToolCallEnd absorb_def extended_def comp_def update_first_distinct ps)
  qed (use Cons in \<open>simp_all add: absorb_def extended_def call_ids_of_def List.map_filter_simps\<close>)
qed

lemma absorb_frame [simp]:
  "session_id (absorb e st) = session_id st" "phase_of (absorb e st) = phase_of st"
  "request_id (absorb e st) = request_id st" "schema_version (absorb e st) = schema_version st"
  "absorb e (st\<lparr>phase_entered_at_ms := n\<rparr>) = (absorb e st)\<lparr>phase_entered_at_ms := n\<rparr>"
  by (cases e; simp add: absorb_def)+

lemma fold_absorb_frame [simp]:
  "fold absorb es (st\<lparr>phase_entered_at_ms := n\<rparr>) = (fold absorb es st)\<lparr>phase_entered_at_ms := n\<rparr>"
  by (induction es arbitrary: st) auto

text \<open>A store and a session capsule that work, and no clock: no timeout interferes.\<close>

locale calm_react = react_store +
  fixes A :: sdk
  assumes no_clock: "h_time H tr = None"
    and rpc_ok: "\<exists>j ms. h_rpc H tr t u p n = Inr j \<and> messages_of_response A j = Inr ms"
    and pub_ok: "h_pub H tr t m = None"
    and value_ok: "message_to_value A msg \<noteq> None"
begin

lemma run_now [simp]: "run_state (now_ms H) tr = (0, EvTime None # tr)"
  by (simp add: now_ms_def time_now_def no_clock)

lemma run_publish [simp]: "run_state (publish H t m) tr = (None, EvPub t m None # tr)"
  by (simp add: publish_def pub_ok)

lemma wp_publish_ok: "Q None (EvPub t m None # tr) \<Longrightarrow> wp (publish H t m) Q tr"
  by (simp add: wp_iff)

lemma run_timeout: "phase_of st \<noteq> Idle \<Longrightarrow> run_state (check_timeout_with_cleanup A H st) tr = (Inr (False, st), EvTime None # tr)"
  by (simp add: check_timeout_with_cleanup_def check_phase_timeout_def try_bind_def)

lemma run_save [simp]: "run_state (save_turn H st) tr = (Inr (), EvSet (turn_key (session_id st)) (VTurn st) None # tr)"
  by (simp add: save_turn_def checked_def)

end

text \<open>The tracked parts of the store after one more event.\<close>

lemma turn_of_Cons [simp]:
  "turn_of (EvSet (turn_key s) (VTurn st) None # tr) = (turn_of tr)(s := turn_of_read s (Inr (Some (VTurn st))))"
  "turn_of (EvTime d # tr) = turn_of tr" "turn_of (EvPub t m r # tr) = turn_of tr"
  "turn_of (EvGet k x # tr) = turn_of tr" "turn_of (EvGetRaw k y # tr) = turn_of tr"
  "turn_of (EvEnv k z # tr) = turn_of tr" "turn_of (EvRpc t u m n w # tr) = turn_of tr"
  by (auto simp: turn_of_def fun_eq_iff)

lemma active_of_Cons [simp]:
  "active_of (EvTime d # tr) = active_of tr" "active_of (EvEnv k z # tr) = active_of tr"
  "active_of (EvRpc t u m n w # tr) = active_of tr"
  by (simp_all add: active_of_def)

lemma turn_of_read_current [simp]:
  "schema_version st \<le> Suc 0 \<Longrightarrow> session_id st = s \<Longrightarrow> turn_of_read s (Inr (Some (VTurn st))) = st"
  by (auto simp: turn_of_read_def Let_def le_Suc_eq)

lemma turn_of_version_Suc [simp]: "schema_version (turn_of tr s) \<le> Suc 0"
  using turn_of_version [of tr s] by simp

text \<open>The state of a stream under way.\<close>

definition streaming :: "sdk \<Rightarrow> nat \<Rightarrow> string \<Rightarrow> rtrace \<Rightarrow> bool" where
  "streaming A rid s tr \<longleftrightarrow> kv_view tr (request_key A rid) = Some (VBytes s) \<and> from_utf8 s = Some s \<and>
     phase_of (turn_of tr s) = Streaming \<and> request_id (turn_of tr s) = rid"

lemma turn_of_plain [simp]:
  "turn_of (EvDel (request_key A rid) r # tr) = turn_of tr"
  "turn_of (rev (map (\<lambda>x. EvPub (t x) (m x) None) xs) @ tr) = turn_of tr"
  "turn_of (rev (map (\<lambda>c. EvSet (call_key (k c)) (v c) None) cs) @ tr) = turn_of tr"
  using neutral_same [of "[EvDel (request_key A rid) r]" tr] neutral_same [of "rev (map (\<lambda>x. EvPub (t x) (m x) None) xs)" tr]
    neutral_same [of "rev (map (\<lambda>c. EvSet (call_key (k c)) (v c) None) cs)" tr]
  by (simp_all add: list_all_iff)

lemma pubs_on_plain [simp]:
  "pubs_on u (rev (map (\<lambda>x. EvPub t (m x) None) xs)) = (if t = u then map m xs else [])"
  "pubs_on u (rev (map (\<lambda>c. EvSet (k c) (v c) None) cs)) = []"
  by (induction xs, simp_all, induction cs, simp_all)

lemma plain_deletes [simp]:
  "turn_of (rev (map (\<lambda>c. EvDel (call_key c) None) cs) @ tr) = turn_of tr"
  "pubs_on u (rev (map (\<lambda>c. EvDel (call_key c) None) cs)) = []"
  using neutral_same [of "rev (map (\<lambda>c. EvDel (call_key c) None) cs)" tr]
  by (simp_all add: list_all_iff del: not_None_eq) (thin_tac "_ = _ \<and> _ = _", induction cs, simp_all)

definition deliver :: "sdk \<Rightarrow> rhost \<Rightarrow> nat \<Rightarrow> stream_event list \<Rightarrow> unit rio" where
  "deliver A H rid es = for_each es (\<lambda>e. do { handle_llm_stream A H (LlmStreamEvent rid e); ret () })"

lemma turn_key_request [simp]: "turn_key s \<noteq> request_key A rid"
  by (simp add: turn_key_def request_key_def TURN_KEY_PREFIX_def REQUEST_SESSION_PREFIX_def)

context calm_react
begin

lemma run_stream_event:
  assumes "streaming A rid s tr"
  shows "run_state (handle_llm_stream A H (LlmStreamEvent rid e)) tr =
     run_state (apply_stream_event A H e ((turn_of tr s)\<lparr>phase_entered_at_ms := 0\<rparr>))
       (EvTime None # EvTime None # EvGet (turn_key s) (Inr (kv_view tr (turn_key s))) #
        EvGetRaw (request_key A rid) (Inr (VBytes s)) # tr)"
  using assms by (simp add: handle_llm_stream_def streaming_def lookup_session_by_request_def session_of_bytes_def
      try_bind_def run_timeout)

text \<open>One event that does not end the stream.\<close>

lemma stream_step:
  assumes "streaming A rid s tr" and "\<not> terminal e"
  shows "wp (handle_llm_stream A H (LlmStreamEvent rid e)) (\<lambda>r tr'. streaming A rid s tr' \<and>
     turn_of tr' = (turn_of tr)(s := absorb e ((turn_of tr s)\<lparr>phase_entered_at_ms := 0\<rparr>)) \<and>
     pubs_on ''agent.v1.response'' tr' = pubs_on ''agent.v1.response'' tr \<and>
     pubs_on ''tool.v1.request.execute'' tr' = pubs_on ''tool.v1.request.execute'' tr) tr"
  using assms(2) assms(1)
  by (cases e) (simp_all add: wp_iff run_stream_event [OF assms(1)] apply_stream_event_def absorb_def streaming_def del: absorb_frame)

lemma deliver_absorbs:
  "streaming A rid s tr \<Longrightarrow> list_all (\<lambda>e. \<not> terminal e) es \<Longrightarrow>
   wp (deliver A H rid es) (\<lambda>_ tr'. streaming A rid s tr' \<and>
     (\<exists>n. turn_of tr' s = (fold absorb es (turn_of tr s))\<lparr>phase_entered_at_ms := n\<rparr>) \<and>
     pubs_on ''agent.v1.response'' tr' = pubs_on ''agent.v1.response'' tr \<and>
     pubs_on ''tool.v1.request.execute'' tr' = pubs_on ''tool.v1.request.execute'' tr) tr"
  unfolding deliver_def
proof (induction es arbitrary: tr)
  case Nil
  then show ?case by (auto intro!: wp_return exI [where x = "phase_entered_at_ms (turn_of tr s)"])
next
  case (Cons e es)
  have more: "wp (for_each es (\<lambda>e. do { handle_llm_stream A H (LlmStreamEvent rid e); ret () })) (\<lambda>_ tr'. streaming A rid s tr' \<and>
     (\<exists>n. turn_of tr' s = (fold absorb (e # es) (turn_of tr s))\<lparr>phase_entered_at_ms := n\<rparr>) \<and>
     pubs_on ''agent.v1.response'' tr' = pubs_on ''agent.v1.response'' tr \<and>
     pubs_on ''tool.v1.request.execute'' tr' = pubs_on ''tool.v1.request.execute'' tr) tr1"
    if "streaming A rid s tr1" "turn_of tr1 s = absorb e ((turn_of tr s)\<lparr>phase_entered_at_ms := 0\<rparr>)"
      "pubs_on ''agent.v1.response'' tr1 = pubs_on ''agent.v1.response'' tr"
      "pubs_on ''tool.v1.request.execute'' tr1 = pubs_on ''tool.v1.request.execute'' tr" for tr1
    by (rule wp_mono, rule Cons.IH [OF that(1)]) (use Cons.prems(2) that in auto)
  show ?case
    apply (simp only: for_each.simps, rule wp_bind, rule wp_bind, rule wp_mono, rule stream_step, rule Cons.prems(1))
    using Cons.prems(2) apply simp
    apply (elim conjE, rule wp_return, rule more)
       apply (simp_all del: absorb_frame)
    done
qed

text \<open>The three endings of a stream.\<close>

lemma run_store_calls: "run_state (store_call_sessions H cs s) tr =
    (Inr (), rev (map (\<lambda>c. EvSet (call_key c) (VBytes s) None) cs) @ tr)"
  by (induction cs arbitrary: tr) (simp_all add: try_bind_def checked_def)

lemma run_publish_tools: "run_state (publish_tools H st cs ts) tr =
    (Inr (), rev (map (\<lambda>t. EvPub ''tool.v1.request.execute''
      (PIpc (ToolExecuteRequest (dt_id t) (dt_name t) (dt_arguments t))) None) ts) @ tr)"
  by (induction ts arbitrary: tr) simp_all

lemma wp_end_turn: "wp (do { st1 \<leftarrow> set_phase H Idle st; save_turn H st1 })
    (\<lambda>_ tr'. phase_of (turn_of tr' (session_id st)) = Idle \<and> (\<forall>t. pubs_on t tr' = pubs_on t tr)) tr"
  by (simp add: wp_iff set_phase_def unregister_active_session_def turn_of_def turn_of_read_def default_turn_def Let_def)

lemma all_values: "\<exists>v. messages_to_value A ms = Some v"
  unfolding messages_to_value_def
proof (induction ms)
  case (Cons m ms)
  moreover obtain y where "message_to_value A m = Some y" using value_ok [of m] by auto
  ultimately show ?case by auto
qed simp

lemma wp_fetch: "wp (fetch_messages_inner A H s m)
    (\<lambda>r tr'. (\<exists>hs. r = Inr hs) \<and> turn_of tr' = turn_of tr \<and> active_of tr' = active_of tr \<and> (\<forall>t. pubs_on t tr' = pubs_on t tr)) tr"
proof -
  note val = all_values [of "or_default [] m"]
  have rpc: "wp (request_response H t u p n) (\<lambda>r tr'. (\<exists>j ms. r = Inr j \<and> messages_of_response A j = Inr ms) \<and>
      turn_of tr' = turn_of tr1 \<and> active_of tr' = active_of tr1 \<and> (\<forall>t. pubs_on t tr' = pubs_on t tr1)) tr1" for t u p n tr1
    using rpc_ok by (auto simp: wp_iff request_response_def)
  show ?thesis
    unfolding fetch_messages_inner_def session_timeout_ms_def get_config_u64_def env_or_empty_def Let_def
    apply (rule wp_bind, rule wp_bind, rule wp_bind, rule wp_env_var, rule wp_return, rule wp_return)
    apply (rule wp_case_option)
    using val apply (auto split: if_splits)[1]
    apply (rule wp_try_bind, rule wp_mono, rule rpc)
    apply (auto intro!: wp_return)
    done
qed

lemma wp_append: "wp (fetch_messages_with_append A H s ms)
    (\<lambda>r tr'. (\<exists>hs. r = Inr hs) \<and> turn_of tr' = turn_of tr \<and> active_of tr' = active_of tr \<and> (\<forall>t. pubs_on t tr' = pubs_on t tr)) tr"
  unfolding fetch_messages_with_append_def by (rule wp_fetch)

lemma stream_end:
  assumes "streaming A rid s tr"
  shows "wp (handle_llm_stream A H (LlmStreamEvent rid StreamDone)) (\<lambda>_ tr'.
     pubs_on ''agent.v1.response'' tr' = pubs_on ''agent.v1.response'' tr @
       (if pending_stream_tools (turn_of tr s) = [] \<and> response_text (turn_of tr s) \<noteq> []
        then [PIpc (AgentResponse (response_text (turn_of tr s)) True s)] else []) \<and>
     pubs_on ''tool.v1.request.execute'' tr' = pubs_on ''tool.v1.request.execute'' tr @
       map (\<lambda>p. PIpc (ToolExecuteRequest (pt_id p) (pt_name p) (parsed_arguments H (pt_args_json p))))
         (pending_stream_tools (turn_of tr s)) \<and>
     phase_of (turn_of tr' s) = (if pending_stream_tools (turn_of tr s) = [] then Idle else AwaitingTools)) tr"
proof -
  let ?st = "(turn_of tr s)\<lparr>phase_entered_at_ms := 0\<rparr>"
  let ?Q = "\<lambda>(_ :: host_error + unit) tr'. pubs_on ''agent.v1.response'' tr' = pubs_on ''agent.v1.response'' tr @
       (if pending_stream_tools (turn_of tr s) = [] \<and> response_text (turn_of tr s) \<noteq> []
        then [PIpc (AgentResponse (response_text (turn_of tr s)) True s)] else []) \<and>
     pubs_on ''tool.v1.request.execute'' tr' = pubs_on ''tool.v1.request.execute'' tr @
       map (\<lambda>p. PIpc (ToolExecuteRequest (pt_id p) (pt_name p) (parsed_arguments H (pt_args_json p))))
         (pending_stream_tools (turn_of tr s)) \<and>
     phase_of (turn_of tr' s) = (if pending_stream_tools (turn_of tr s) = [] then Idle else AwaitingTools)"
  have "wp (handle_stream_done A H ?st) ?Q tr1"
    if "turn_of tr1 = turn_of tr" "\<And>t. pubs_on t tr1 = pubs_on t tr" for tr1
  proof (cases "pending_stream_tools (turn_of tr s) = []")
    case False
    then show ?thesis
      by (simp add: wp_iff handle_stream_done_def delete_request_session_def dispatch_tools_def try_bind_def that
          run_store_calls run_publish_tools set_phase_def dispatched_of_def comp_def Let_def)
  next
    case True
    have finish: "wp (do { st1 \<leftarrow> set_phase H Idle ?st; save_turn H st1 }) ?Q tr2"
      if "pubs_on ''agent.v1.response'' tr2 = pubs_on ''agent.v1.response'' tr @
          (if response_text (turn_of tr s) \<noteq> [] then [PIpc (AgentResponse (response_text (turn_of tr s)) True s)] else [])"
        "pubs_on ''tool.v1.request.execute'' tr2 = pubs_on ''tool.v1.request.execute'' tr" for tr2
      by (rule wp_mono, rule wp_end_turn) (simp add: True that)
    show ?thesis
      unfolding handle_stream_done_def delete_request_session_def
      apply (rule wp_bind, rule wp_bind, rule wp_kv_delete, rule wp_return, rule wp_if)
       apply (simp add: True)
      apply (rule wp_if, rule wp_try_bind, rule wp_mono, rule wp_append)
       apply (elim conjE exE, simp only: sum.inject sum.distinct simp_thms all_simps)
       apply (rule wp_try_bind, simp only: checked_def agent_response_def)
       apply (rule wp_bind, rule wp_publish_ok, rule wp_return)
       apply (simp only: option.case sum.inject sum.distinct simp_thms all_simps)
       apply (rule finish; simp add: that)
      apply (rule finish; simp add: that)
      done
  qed
  then show ?thesis by (simp add: wp_iff run_stream_event [OF assms] apply_stream_event_def)
qed

end

lemma parsed_calls_Nil [simp]: "spec_calls es = [] \<longleftrightarrow> call_ids_of es = []"
  by (induction es rule: spec_calls.induct) (simp_all add: call_ids_of_def List.map_filter_simps)

lemma stream_meaning:
  assumes "calm_react H A" and "streaming A rid s tr"
    and "response_text (turn_of tr s) = []" and "pending_stream_tools (turn_of tr s) = []"
    and "list_all (\<lambda>e. \<not> terminal e) es" and "distinct (call_ids_of es)"
  shows "case final_trace (deliver A H rid (es @ [StreamDone])) tr of tr' \<Rightarrow>
     pubs_on ''agent.v1.response'' tr' = pubs_on ''agent.v1.response'' tr @
       (if call_ids_of es = [] \<and> spec_text es \<noteq> [] then [PIpc (AgentResponse (spec_text es) True s)] else []) \<and>
     pubs_on ''tool.v1.request.execute'' tr' = pubs_on ''tool.v1.request.execute'' tr @
       map (\<lambda>p. PIpc (ToolExecuteRequest (pt_id p) (pt_name p) (parsed_arguments H (pt_args_json p)))) (spec_calls es) \<and>
     phase_of (turn_of tr' s) = (if call_ids_of es = [] then Idle else AwaitingTools)"
proof -
  let ?Q = "\<lambda>tr'. pubs_on ''agent.v1.response'' tr' = pubs_on ''agent.v1.response'' tr @
       (if call_ids_of es = [] \<and> spec_text es \<noteq> [] then [PIpc (AgentResponse (spec_text es) True s)] else []) \<and>
     pubs_on ''tool.v1.request.execute'' tr' = pubs_on ''tool.v1.request.execute'' tr @
       map (\<lambda>p. PIpc (ToolExecuteRequest (pt_id p) (pt_name p) (parsed_arguments H (pt_args_json p)))) (spec_calls es) \<and>
     phase_of (turn_of tr' s) = (if call_ids_of es = [] then Idle else AwaitingTools)"
  have split: "for_each (es @ [e]) f = do { for_each es f; f e }" for e and f :: "stream_event \<Rightarrow> unit rio" and es
    by (induction es) simp_all
  have fold: "fold absorb es (turn_of tr s) = (turn_of tr s)\<lparr>response_text := spec_text es, pending_stream_tools := spec_calls es\<rparr>"
    using absorb_all [of "turn_of tr s" es] assms(3-6) by simp
  have "wp (deliver A H rid (es @ [StreamDone])) (\<lambda>_. ?Q) tr"
    apply (simp only: deliver_def split)
    apply (rule wp_bind, rule wp_mono, rule calm_react.deliver_absorbs [OF assms(1,2,5), unfolded deliver_def])
    apply (elim conjE exE, rule wp_bind, rule wp_mono, rule calm_react.stream_end [OF assms(1)], assumption)
    apply (rule wp_return, simp add: fold)
    done
  from wp_final [OF this] show ?thesis by simp
qed

text \<open>
  C2: A stream is reassembled exactly.  On a working store and session capsule, with a clock that cannot
  be read, so that no timeout interferes, the deliveries of a
  stream that announces every call id once, with text and argument deltas interleaved in any way,
  followed by its end, publish what the whole sequence means: with no calls, one final response that
  is the concatenation of the text deltas (none if that is empty), and the turn is idle; with calls,
  no response and one tool request for each call, in the order of announcement, with the parse of
  the concatenated argument deltas of its id, and the turn waits for the tools.\<close>

theorem stream_reassembled:
  assumes "calm_react H A" and "streaming A rid s tr"
    and "response_text (turn_of tr s) = []" and "pending_stream_tools (turn_of tr s) = []"
    and "list_all (\<lambda>e. \<not> terminal e) es" and "distinct (call_ids_of es)"
  shows "case final_trace (deliver A H rid (es @ [StreamDone])) tr of tr' \<Rightarrow>
     pubs_on ''agent.v1.response'' tr' = pubs_on ''agent.v1.response'' tr @
       (if call_ids_of es = [] \<and> spec_text es \<noteq> [] then [PIpc (AgentResponse (spec_text es) True s)] else []) \<and>
     pubs_on ''tool.v1.request.execute'' tr' = pubs_on ''tool.v1.request.execute'' tr @
       map (\<lambda>p. PIpc (ToolExecuteRequest (pt_id p) (pt_name p) (parsed_arguments H (pt_args_json p)))) (spec_calls es) \<and>
     phase_of (turn_of tr' s) = (if call_ids_of es = [] then Idle else AwaitingTools)"
  using stream_meaning [OF assms] .

definition demo_sdk :: sdk where
  "demo_sdk = \<lparr>sdk_assistant = (\<lambda>t. \<lparr>msg_role = RoleOther ''assistant'', msg_content = ContentText t\<rparr>),
     sdk_assistant_with_tools = (\<lambda>ts. \<lparr>msg_role = RoleOther ''assistant'', msg_content = ContentOther (JArr [])\<rparr>),
     message_to_value = (\<lambda>m. case msg_content m of ContentText t \<Rightarrow> Some (JStr t) | _ \<Rightarrow> Some JNull),
     message_from_value = (\<lambda>j. case j of JStr t \<Rightarrow> Some \<lparr>msg_role = RoleUser, msg_content = ContentText t\<rparr> | _ \<Rightarrow> None),
     tool_from_value = (\<lambda>j. Some (ToolDefinition j)), uuid_text = (\<lambda>n. show_nat n)\<rparr>"

text \<open>The in-memory host with a session capsule that answers every request with an empty object.\<close>

definition demo_react :: rhost where
  "demo_react = mem_host\<lparr>h_rpc := (\<lambda>tr t u m ms. Inr (JObj []))\<rparr>"

interpretation demo: react_store demo_react
  by unfold_locales (simp_all add: demo_react_def mem_host_def)

lemma demo_store: "react_store demo_react"
  by (rule demo.react_store_axioms)

interpretation demo_calm: calm_react demo_react demo_sdk
  by unfold_locales (auto simp: demo_react_def mem_host_def demo_sdk_def messages_of_response_def split: message_content.split)

definition demo_stream :: rtrace where
  "demo_stream = [EvSet (turn_key ''s1'') (VTurn (default_turn\<lparr>session_id := ''s1'', phase_of := Streaming, request_id := 7\<rparr>)) None,
     EvSet (request_key demo_sdk 7) (VBytes ''s1'') None]"

definition demo_events :: "stream_event list" where
  "demo_events = [TextDelta ''let me '', ToolCallStart ''a'' ''read'', ToolCallDelta ''a'' ''{'', TextDelta ''look'',
     ToolCallStart ''b'' ''list'', ToolCallDelta ''a'' ''}'', ToolCallEnd ''a'']"

lemma stream_reassembled_witness:
  "pubs_on ''tool.v1.request.execute'' (final_trace (deliver demo_sdk demo_react 7 (demo_events @ [StreamDone])) demo_stream) =
     [PIpc (ToolExecuteRequest ''a'' ''read'' (parsed_arguments demo_react ''{}'')),
      PIpc (ToolExecuteRequest ''b'' ''list'' (parsed_arguments demo_react []))]"
proof -
  have hyps: "streaming demo_sdk 7 ''s1'' demo_stream" "response_text (turn_of demo_stream ''s1'') = []"
      "pending_stream_tools (turn_of demo_stream ''s1'') = []" "list_all (\<lambda>e. \<not> terminal e) demo_events"
      "distinct (call_ids_of demo_events)"
    and result: "spec_calls demo_events = [\<lparr>pt_id = ''a'', pt_name = ''read'', pt_args_json = ''{}'', pt_complete = True\<rparr>,
      \<lparr>pt_id = ''b'', pt_name = ''list'', pt_args_json = [], pt_complete = False\<rparr>]"
      "pubs_on ''tool.v1.request.execute'' demo_stream = []"
    by code_simp+
  show ?thesis
    using stream_reassembled [OF demo_calm.calm_react_axioms hyps] by (simp add: result)
qed

subsection \<open>The beginning and the bound of a turn\<close>

definition cap_message :: "nat \<Rightarrow> string" where
  "cap_message limit = ''Stopped: ReAct loop exceeded maximum of '' @ show_nat limit @ '' iterations.''"

definition fresh_turn :: "json option \<Rightarrow> nat \<Rightarrow> nat \<Rightarrow> turn_state \<Rightarrow> turn_state" where
  "fresh_turn c u n st = st\<lparr>response_text := [], pending_stream_tools := [], dispatched_tools := [],
     request_id := u, current_tools := [], iteration_count := 0, request_model_override := prompt_override c,
     phase_of := AwaitingIdentity, phase_entered_at_ms := n\<rparr>"

context react_store
begin

lemma prompt_effect:
  "wp (start_turn A H msg s c) (\<lambda>r tr'.
     (r \<noteq> Inr () \<and> turn_of tr' = turn_of tr \<and> active_of tr' = active_of tr) \<or>
     s \<in> set (active_of tr') \<and> (\<exists>u n. turn_of tr' = (turn_of tr)(s := fresh_turn c u n (turn_of tr s)))) tr"
  unfolding start_turn_def
  apply (rule wp_bind, rule wp_load, rule wp_try_bind, rule wp_quiet, rule everyI)
  apply (intro conjI allI impI, simp)
  apply (rule wp_bind, rule wp_quiet, intro everyI, rule wp_bind, rule wp_reset, rule wp_bind, rule wp_phase, simp)
  apply (rule wp_bind, rule wp_register, rule wp_try_bind, rule wp_save)
  apply (simp only: sum.inject sum.distinct simp_thms all_simps)
  apply (rule wp_quiet, intro everyI)
  apply (rule disjI2, rule conjI, simp)
  apply (simp add: fresh_turn_def stored_def)
  apply (intro exI, rule refl)
  done

lemma run_delete_calls: "run_state (delete_call_sessions H cs) tr =
    ((), rev (map (\<lambda>c. EvDel (call_key c) None) cs) @ tr)"
  unfolding delete_call_sessions_def by (induction cs arbitrary: tr) simp_all

lemma wp_set_idle:
  assumes "\<And>n tr'. (\<And>t. pubs_on t tr' = pubs_on t tr) \<Longrightarrow> Q (st\<lparr>phase_of := Idle, phase_entered_at_ms := n\<rparr>) tr'"
  shows "wp (set_phase H Idle st) Q tr"
  unfolding set_phase_def now_ms_def
  apply (rule wp_bind, rule wp_bind, rule wp_time_now, rule wp_return, rule wp_bind)
  apply (simp add: wp_iff unregister_active_session_def assms)
  done

lemma cap_effect:
  assumes "fst (run_state (max_iterations H) tr) = limit" "limit \<le> (iteration_count st + 1) mod 2 ^ 32"
  shows "wp (finish_round A H st) (\<lambda>r tr'. phase_of (turn_of tr' (session_id st)) = Idle \<and>
     (\<forall>t. pubs_on t tr' = pubs_on t tr @ (if t = ''agent.v1.response''
        then [PIpc (AgentResponse (cap_message limit) True (session_id st))] else []))) tr"
proof -
  have limit: "wp (max_iterations H) (\<lambda>x tr'. x = limit \<and> (\<forall>t. pubs_on t tr' = pubs_on t tr)) tr"
    using assms(1) by (simp add: wp_iff max_iterations_def get_config_u64_def env_or_empty_def env_var_def)
  show ?thesis
    unfolding finish_round_def Let_def
    apply (rule wp_bind, rule wp_mono, rule limit, rule wp_if)
     apply (rule wp_bind, simp only: agent_response_def, rule wp_publish)
     apply (rule wp_bind, simp only: reset_conversation_turn_def reset_turn_def)
     apply (rule wp_bind, rule wp_bind, rule wp_new_uuid, rule wp_return, rule wp_return)
     apply (rule wp_bind, rule wp_set_idle, rule wp_try_bind, simp only: save_turn_def checked_def)
     apply (simp add: wp_iff run_delete_calls cap_message_def turn_of_read_def default_turn_def Let_def)
    using assms(2) apply simp
    done
qed

end

text \<open>A turn with a model override moves on with every response it waits for.\<close>

definition overridden :: "string \<Rightarrow> phase \<Rightarrow> rtrace \<Rightarrow> bool" where
  "overridden s p tr \<longleftrightarrow> phase_of (turn_of tr s) = p \<and> nonblank (request_model_override (turn_of tr s)) \<noteq> None"

context calm_react
begin

lemma start_succeeds: "fst (run_state (start_turn A H msg s c) tr) = Inr ()"
proof -
  have "wp (start_turn A H msg s c) (\<lambda>r _. r = Inr ()) tr"
    unfolding start_turn_def env_or_empty_def
    apply (rule wp_bind, rule wp_load, rule wp_try_bind, rule wp_mono, rule wp_append)
    apply (elim conjE exE, simp only: sum.inject sum.distinct simp_thms all_simps)
    apply (rule wp_bind, rule wp_quiet, intro everyI, rule wp_bind, rule wp_reset, rule wp_bind, rule wp_phase, simp)
    apply (rule wp_bind, rule wp_register, rule wp_try_bind, rule wp_save)
    apply (simp only: sum.inject sum.distinct simp_thms all_simps checked_def)
    apply (rule wp_bind, rule wp_bind, rule wp_env_var, rule wp_return, rule wp_bind, rule wp_publish_ok, rule wp_return)
    apply simp
    done
  then show ?thesis by (simp add: wp_iff)
qed

lemma wp_calm_timeout: "phase_of st \<noteq> Idle \<Longrightarrow> Q (Inr (False, st)) (EvTime None # tr) \<Longrightarrow>
    wp (check_timeout_with_cleanup A H st) Q tr"
  by (simp add: wp_iff run_timeout)

lemma wp_request_quiet:
  assumes "nonblank (request_model_override st) \<noteq> None"
    and "\<And>x tr'. turn_of tr' = turn_of tr \<Longrightarrow> active_of tr' = active_of tr \<Longrightarrow> Q x tr'"
  shows "wp (publish_llm_request A H st ms) Q tr"
proof -
  obtain m where m: "resolve_request_model (request_model_override st) active = Some m" for active
    using assms(1) by (auto simp: resolve_request_model_def)
  show ?thesis
    unfolding publish_llm_request_def m
    by (rule wp_bind, rule wp_quiet, rule everyI, simp only: option.case, rule wp_quiet, intro everyI, rule assms(2)) auto
qed

lemma start_overrides:
  assumes "nonblank (prompt_override c) \<noteq> None" "s \<notin> set (active_of tr)"
  shows "wp (start_turn A H msg s c) (\<lambda>_ t. overridden s AwaitingIdentity t \<and> active_of t = active_of tr @ [s]) tr"
  unfolding start_turn_def
  apply (rule wp_bind, rule wp_load, rule wp_try_bind, rule wp_mono, rule wp_append)
  apply (elim conjE exE, simp only: sum.inject sum.distinct simp_thms all_simps)
  apply (rule wp_bind, rule wp_quiet, intro everyI, rule wp_bind, rule wp_reset, rule wp_bind, rule wp_phase, simp)
  apply (rule wp_bind, rule wp_register, rule wp_try_bind, rule wp_save)
  apply (simp only: sum.inject sum.distinct simp_thms all_simps)
  apply (rule wp_quiet, intro everyI)
  using assms by (auto simp: overridden_def)

lemma redrive_ready [simp]: "redrive_if_unready H p p t j = ret False"
  by (simp add: redrive_if_unready_def)

lemma prompt_advances:
  assumes "overridden s AwaitingPromptBuild tr" "get_str ''session_id'' j = Some s"
  shows "wp (handle_prompt_response A H j) (\<lambda>_ t. overridden s Streaming t \<and> active_of t = active_of tr) tr"
proof -
  have phase: "phase_of (turn_of tr s) = AwaitingPromptBuild" and model: "nonblank (request_model_override (turn_of tr s)) \<noteq> None"
    using assms(1) by (simp_all add: overridden_def)
  show ?thesis
    unfolding handle_prompt_response_def assms(2) or_default_simps Let_def
    apply (rule wp_bind, rule wp_load, rule wp_try_bind, rule wp_calm_timeout, simp add: phase)
    apply (simp only: sum.inject sum.distinct simp_thms all_simps prod.case if_False phase redrive_ready State_Monad.bind_left_identity)
    apply (rule wp_bind, rule wp_phase, simp, rule wp_try_bind, rule wp_save)
    apply (simp only: sum.inject sum.distinct simp_thms all_simps)
    apply (rule wp_request_quiet)
    using model apply (simp split: option.split)
    using model apply (auto simp: overridden_def split: option.split)
    done
qed

lemma identity_advances:
  assumes "overridden s AwaitingIdentity tr" "get_str ''session_id'' j = Some s"
  shows "wp (handle_identity_response A H j) (\<lambda>_ t. overridden s AwaitingPromptBuild t \<and> active_of t = active_of tr) tr"
proof -
  have phase: "phase_of (turn_of tr s) = AwaitingIdentity" and model: "nonblank (request_model_override (turn_of tr s)) \<noteq> None"
    using assms(1) by (simp_all add: overridden_def)
  obtain m where m: "resolve_request_model (request_model_override (turn_of tr s)) active = Some m" for active
    using model by (auto simp: resolve_request_model_def)
  show ?thesis
    unfolding handle_identity_response_def assms(2) or_default_simps Let_def
    apply (rule wp_bind, rule wp_load, rule wp_try_bind, rule wp_calm_timeout, simp add: phase)
    apply (simp only: sum.inject sum.distinct simp_thms all_simps prod.case if_False phase redrive_ready State_Monad.bind_left_identity)
    apply (rule wp_bind, rule wp_phase, simp, rule wp_try_bind, simp only: fetch_messages_def, rule wp_mono, rule wp_fetch)
    apply (elim conjE exE, simp only: sum.inject sum.distinct simp_thms all_simps)
    apply (rule wp_try_bind, rule wp_save)
    apply (simp only: sum.inject sum.distinct simp_thms all_simps)
    apply (rule wp_bind, rule wp_quiet, rule everyI)
    apply (simp add: m)
    apply (rule wp_quiet, intro everyI)
    using model apply (auto simp: overridden_def)
    done
qed

end

text \<open>
  What a prompt starts.  On a store that works, a prompt that is not blank and no cancellation
  either leaves every turn and the active set as they were, because the session capsule did not
  take the message, or starts a turn of its session from scratch: a new generation, waiting for the
  identity, with no text, calls or tools of an earlier turn, the iteration count at zero and the
  model override of this prompt only; the session is active and no other turn changes.\<close>

theorem prompt_starts_turn:
  assumes "react_store H" and "\<not> blank msg" and "Option.bind c (get_str ''action'') \<noteq> Some ''cancel_turn''"
  shows "case run_state (handle_user_prompt A H (UserInput msg s c)) tr of (r, tr') \<Rightarrow>
     (r \<noteq> Inr () \<and> turn_of tr' = turn_of tr \<and> active_of tr' = active_of tr) \<or>
     s \<in> set (active_of tr') \<and> (\<exists>u n. turn_of tr' = (turn_of tr)(s := fresh_turn c u n (turn_of tr s)))"
  using react_store.prompt_effect [OF assms(1), where A = A and msg = msg and s = s and c = c and tr = tr] assms(2,3)
  by (simp add: handle_user_prompt_def wp_def)

lemma prompt_starts_turn_witness:
  "\<exists>u n. turn_of (final_trace (handle_user_prompt demo_sdk demo_react (UserInput ''hi'' ''s1'' None)) []) =
     (turn_of [])(''s1'' := fresh_turn None u n (turn_of [] ''s1''))"
proof -
  have hyps: "\<not> blank ''hi''" "Option.bind None (get_str ''action'') \<noteq> Some ''cancel_turn''"
    by code_simp+
  have ok: "fst (run_state (handle_user_prompt demo_sdk demo_react (UserInput ''hi'' ''s1'' None)) []) = Inr ()"
    by (simp add: handle_user_prompt_def hyps demo_calm.start_succeeds)
  show ?thesis
    using prompt_starts_turn [OF demo.react_store_axioms hyps, where A = demo_sdk and s = "''s1''" and tr = "[]"] ok
    by (auto simp: final_trace_def split: prod.splits)
qed

text \<open>
  The loop is bounded.  When a tool round ends and the count of iterations has reached the
  configured limit, the turn is stored idle and the only publication is the final response that says
  so: no further generation is requested, on a store that works.\<close>

theorem iteration_cap:
  assumes "react_store H" and "fst (run_state (max_iterations H) tr) \<le> (iteration_count st + 1) mod 2 ^ 32"
  shows "case final_trace (finish_round A H st) tr of tr' \<Rightarrow>
     phase_of (turn_of tr' (session_id st)) = Idle \<and>
     (\<forall>t. pubs_on t tr' = pubs_on t tr @ (if t = ''agent.v1.response''
        then [PIpc (AgentResponse (cap_message (fst (run_state (max_iterations H) tr))) True (session_id st))] else []))"
  using wp_final [OF react_store.cap_effect [OF assms(1) refl assms(2), of A]] by simp

lemma iteration_cap_witness:
  "pubs_on ''llm.v1.request.generate.x'' (final_trace (finish_round demo_sdk demo_react (default_turn\<lparr>iteration_count := 24\<rparr>)) []) = []"
proof -
  have cap: "fst (run_state (max_iterations demo_react) []) \<le> (iteration_count (default_turn\<lparr>iteration_count := 24\<rparr>) + 1) mod 2 ^ 32"
    by (simp add: max_iterations_def get_config_u64_def env_or_empty_def env_var_def demo_react_def mem_host_def
        default_turn_def DEFAULT_MAX_ITERATIONS_def)
  have other: "(''llm.v1.request.generate.x'' = ''agent.v1.response'') = False" by simp
  note bound = iteration_cap [OF demo.react_store_axioms cap, where A = demo_sdk]
  show ?thesis
    using spec [OF conjunct2 [OF bound], of "''llm.v1.request.generate.x''"] by (simp only: other if_False append_Nil2 pubs_on_simps)
qed

end
