(* ===== verification/Registry_Select.thy ===== *)
theory Registry_Select
  imports Host
begin

text \<open>
  The pure part of the model registry (\<open>capsules/capsule-registry/src/selection.rs\<close>): canonical model
  ids, the resolution of an operator's input, the reconciliation of a stored selection, and the
  answers of the \<open>models\<close> command.  \<open>ProviderEntry\<close> is a contract type of the SDK; its fields are those
  the code reads.
\<close>

definition LLM_REQUEST_GENERATE_PREFIX :: string where
  "LLM_REQUEST_GENERATE_PREFIX = ''llm.v1.request.generate.''"
definition SUB_LIST :: string where "SUB_LIST = ''list''"
definition SUB_CURRENT :: string where "SUB_CURRENT = ''current''"
definition SUB_SET :: string where "SUB_SET = ''set''"
definition SUB_UNSET :: string where "SUB_UNSET = ''unset''"

record provider_entry =
  pe_id :: string
  pe_description :: string
  pe_request_topic :: string
  pe_stream_topic :: string
  pe_capabilities :: "string list"
  pe_context_window :: "nat option"
  pe_max_output_tokens :: "nat option"

record registry_state =
  rs_providers :: "provider_entry list"
  rs_active_model_id :: "string option"

definition is_known_subcommand :: "string \<Rightarrow> bool" where
  "is_known_subcommand sub \<longleftrightarrow> sub \<in> set [SUB_LIST, SUB_CURRENT, SUB_SET, SUB_UNSET]"

definition first_arg :: "string list \<Rightarrow> string" where
  "first_arg args = (case args of [] \<Rightarrow> [] | a # _ \<Rightarrow> a)"

definition second_arg :: "string list \<Rightarrow> string option" where
  "second_arg args = (case args of _ # a # _ \<Rightarrow> Some a | _ \<Rightarrow> None)"

definition wants_json :: "string list \<Rightarrow> bool" where
  "wants_json args \<longleftrightarrow> ''--json'' \<in> set args"

definition subcommand_needs_discovery :: "string list \<Rightarrow> bool" where
  "subcommand_needs_discovery args =
     (if first_arg args = SUB_LIST then True
      else if first_arg args = SUB_CURRENT then wants_json args
      else if first_arg args = SUB_SET then second_arg args \<noteq> None
      else False)"

subsection \<open>Canonical ids\<close>

text \<open>\<open>split_once(':')\<close>: the parts around the first colon.\<close>

fun split_colon :: "string \<Rightarrow> (string \<times> string) option" where
  "split_colon [] = None"
| "split_colon (c # cs) = (if c = CHR '':'' then Some ([], cs)
     else map_option (\<lambda>(a, b). (c # a, b)) (split_colon cs))"

definition qualifier_of :: "string \<Rightarrow> string" where
  "qualifier_of i = (case split_colon i of None \<Rightarrow> i | Some (cap, _) \<Rightarrow> cap)"

definition bare_model_of :: "string \<Rightarrow> string" where
  "bare_model_of i = (case split_colon i of None \<Rightarrow> i | Some (_, model) \<Rightarrow> model)"

datatype resolve_error = UnknownModel string | AmbiguousModel "string list"

fun resolve_message :: "resolve_error \<Rightarrow> string" where
  "resolve_message (UnknownModel input) = ''unknown model: '' @ input"
| "resolve_message (AmbiguousModel cs) = ''ambiguous model; candidates: '' @ join_with '', '' cs"

text \<open>The end of a pass over the entries: one match binds, several are ambiguous, none goes on.\<close>

definition pass_result ::
  "provider_entry list \<Rightarrow> resolve_error + provider_entry \<Rightarrow> resolve_error + provider_entry" where
  "pass_result ms otherwise = (case ms of
     [] \<Rightarrow> otherwise
   | [one] \<Rightarrow> Inr one
   | _ \<Rightarrow> Inl (AmbiguousModel (map pe_id ms)))"

definition resolve_selection :: "string \<Rightarrow> provider_entry list \<Rightarrow> resolve_error + provider_entry" where
  "resolve_selection input entries = (case find (\<lambda>e. pe_id e = input) entries of
     Some exact \<Rightarrow> Inr exact
   | None \<Rightarrow> pass_result (filter (\<lambda>e. bare_model_of (pe_id e) = input) entries)
       (case split_colon input of
          None \<Rightarrow> Inl (UnknownModel input)
        | Some (cap, model) \<Rightarrow> pass_result
            (filter (\<lambda>e. qualifier_of (pe_id e) = cap \<and> bare_model_of (pe_id e) = model) entries)
            (Inl (UnknownModel input))))"

definition is_valid_provider_qualifier :: "string \<Rightarrow> bool" where
  "is_valid_provider_qualifier c \<longleftrightarrow> c \<noteq> [] \<and> list_all (\<lambda>b. ascii_alnum b \<or> b = CHR ''-'' \<or> b = CHR ''_'') c"

definition request_topic_qualifier :: "string \<Rightarrow> string option" where
  "request_topic_qualifier topic =
     (if starts_with LLM_REQUEST_GENERATE_PREFIX topic
      then (let candidate = drop (length LLM_REQUEST_GENERATE_PREFIX) topic in
        if is_valid_provider_qualifier candidate then Some candidate else None)
      else None)"

subsection \<open>The stored selection\<close>

datatype reconcile_outcome = Unchanged | Remapped string provider_entry | Cleared string

definition reconcile_in_place :: "registry_state \<Rightarrow> registry_state \<times> reconcile_outcome" where
  "reconcile_in_place st = (case rs_active_model_id st of
     None \<Rightarrow> (st, Unchanged)
   | Some i \<Rightarrow>
       if rs_providers st = [] then (st, Unchanged)
       else if list_ex (\<lambda>p. pe_id p = i) (rs_providers st) then (st, Unchanged)
       else (case find (\<lambda>p. qualifier_of (pe_id p) = i) (rs_providers st) of
           Some dflt \<Rightarrow> (st\<lparr>rs_active_model_id := Some (pe_id dflt)\<rparr>, Remapped i dflt)
         | None \<Rightarrow> (st\<lparr>rs_active_model_id := None\<rparr>, Cleared i)))"

definition auto_select_in_place :: "registry_state \<Rightarrow> registry_state \<times> provider_entry option" where
  "auto_select_in_place st =
     (if rs_active_model_id st \<noteq> None then (st, None)
      else (case rs_providers st of
          [] \<Rightarrow> (st, None)
        | p # _ \<Rightarrow> (st\<lparr>rs_active_model_id := Some (pe_id p)\<rparr>, Some p)))"

subsection \<open>Answers of the \<open>models\<close> command\<close>

definition opt_num :: "nat option \<Rightarrow> json" where
  "opt_num n = (case n of None \<Rightarrow> JNull | Some k \<Rightarrow> JInt (int k))"

definition entry_to_json :: "provider_entry \<Rightarrow> json" where
  "entry_to_json e = JObj [(''id'', JStr (pe_id e)), (''description'', JStr (pe_description e)),
     (''request_topic'', JStr (pe_request_topic e)), (''stream_topic'', JStr (pe_stream_topic e)),
     (''capabilities'', JArr (map JStr (pe_capabilities e))), (''context_window'', opt_num (pe_context_window e)),
     (''max_output_tokens'', opt_num (pe_max_output_tokens e))]"

definition list_row :: "string option \<Rightarrow> provider_entry \<Rightarrow> string" where
  "list_row active e = (if active = Some (pe_id e) then ''* '' else ''  '') @ pe_id e @ ''  '' @ pe_description e"

definition render_list_table :: "provider_entry list \<Rightarrow> string option \<Rightarrow> string" where
  "render_list_table entries active =
     (if entries = [] then ''No LLM models available''
      else butlast (concat (map (\<lambda>e. list_row active e @ [CHR 0x0A]) entries)))"

definition ok_output :: "string \<Rightarrow> json" where
  "ok_output s = JObj [(''exit_code'', JInt 0), (''output'', JStr s)]"

definition err_output :: "string \<Rightarrow> json" where
  "err_output s = JObj [(''exit_code'', JInt 1), (''error'', JStr s)]"

text \<open>\<open>render\<close> is \<open>serde_json::Value::to_string\<close>.\<close>

definition models_result ::
  "(json \<Rightarrow> string) \<Rightarrow> string list \<Rightarrow> provider_entry list \<Rightarrow> string option \<Rightarrow> json" where
  "models_result render args entries active =
     (if first_arg args = SUB_LIST then
        (if wants_json args then ok_output (render (JArr (map entry_to_json entries)))
         else ok_output (render_list_table entries active))
      else if first_arg args = SUB_CURRENT then
        (if wants_json args then ok_output (render (JObj [(''active'',
           case Option.bind active (\<lambda>i. find (\<lambda>e. pe_id e = i) entries) of
             None \<Rightarrow> JNull | Some e \<Rightarrow> entry_to_json e)]))
         else ok_output (or_default ''none'' active))
      else if first_arg args = SUB_SET then
        (case second_arg args of
           None \<Rightarrow> err_output ''usage: models set <id>''
         | Some input \<Rightarrow> (case resolve_selection input entries of
             Inr e \<Rightarrow> ok_output (''active model set to '' @ pe_id e)
           | Inl err \<Rightarrow> err_output (resolve_message err)))
      else if first_arg args = SUB_UNSET then ok_output ''active model cleared''
      else if first_arg args = [] then err_output ''usage: models <list|current|set|unset> [--json]''
      else err_output (''unknown subcommand '' @ [CHR 0x27] @ first_arg args @ [CHR 0x27] @
        ''; usage: models <list|current|set|unset> [--json]''))"

end
