(* ===== verification/Registry.thy ===== *)
theory Registry
  imports Registry_Select
begin

text \<open>
  The registry capsule (\<open>capsules/capsule-registry/src/lib.rs\<close>): discovery of providers, the persisted
  state, the request handlers, the \<open>models\<close> command and the event loop.

  The deserialiser of \<open>ProviderEntry\<close> is generated in the SDK and a parameter (\<open>entry_codec\<close>).  The
  discovery loop ends when its window of real time is over; it runs on fuel here, and running out of
  fuel is the behaviour of a clock that jumps past the window.  The process-wide request counter is
  an argument that the functions return advanced.
\<close>

datatype reg_value = RState registry_state | RBytes string

type_synonym ghost = "(reg_value, json) host"
type_synonym 'a gio = "((reg_value, json) event list, 'a) state"

record entry_codec =
  entry_of_value :: "json \<Rightarrow> provider_entry option"
  value_of_entry :: "provider_entry \<Rightarrow> json"

definition KERNEL_UUID :: string where "KERNEL_UUID = ''00000000-0000-0000-0000-000000000000''"
definition LLM_DESCRIBE_REQUEST_TOPIC :: string where "LLM_DESCRIBE_REQUEST_TOPIC = ''llm.v1.request.describe''"
definition LLM_DESCRIBE_RESPONSE_TOPIC :: string where "LLM_DESCRIBE_RESPONSE_TOPIC = ''llm.v1.response.describe''"
definition CLI_RUN_TOPIC :: string where "CLI_RUN_TOPIC = ''cli.v1.command.run.aos-registry''"
definition CLI_RESULT_TOPIC_PREFIX :: string where "CLI_RESULT_TOPIC_PREFIX = ''cli.v1.command.result.''"
definition MAX_RUN_ID_LEN :: nat where "MAX_RUN_ID_LEN = 64"
definition CLI_RUN_COMMAND :: string where "CLI_RUN_COMMAND = ''models''"
definition PROVIDER_WINDOW_MS :: nat where "PROVIDER_WINDOW_MS = 500"
definition STATE_KEY :: string where "STATE_KEY = ''registry_state''"
definition MODEL_CHANGED_TOPIC :: string where "MODEL_CHANGED_TOPIC = ''registry.v1.active_model_changed''"

definition lower_hex_or_hyphen :: "char \<Rightarrow> bool" where
  "lower_hex_or_hyphen b \<longleftrightarrow> (let n = of_char b :: nat in 48 \<le> n \<and> n \<le> 57 \<or> 97 \<le> n \<and> n \<le> 102 \<or> n = 45)"

definition is_valid_req_id :: "string \<Rightarrow> bool" where
  "is_valid_req_id r \<longleftrightarrow> r \<noteq> [] \<and> length r \<le> MAX_RUN_ID_LEN \<and> list_all lower_hex_or_hyphen r"

definition is_models_command :: "json \<Rightarrow> bool" where
  "is_models_command payload \<longleftrightarrow> get_str ''command'' payload = Some CLI_RUN_COMMAND"

subsection \<open>The persisted state\<close>

definition empty_registry :: registry_state where
  "empty_registry = \<lparr>rs_providers = [], rs_active_model_id = None\<rparr>"

definition state_of_read :: "host_error + reg_value option \<Rightarrow> registry_state" where
  "state_of_read v = (case v of Inr (Some (RState st)) \<Rightarrow> st | _ \<Rightarrow> empty_registry)"

definition load_state :: "ghost \<Rightarrow> registry_state gio" where
  "load_state H = do { v \<leftarrow> kv_get H STATE_KEY; ret (state_of_read v) }"

definition save_state :: "ghost \<Rightarrow> registry_state \<Rightarrow> unit gio" where
  "save_state H st = do {
     expected \<leftarrow> kv_get H STATE_KEY;
     r \<leftarrow> kv_cas H STATE_KEY (case expected of Inl e \<Rightarrow> None | Inr v \<Rightarrow> v) (RState st);
     (case r of
        Inr done \<Rightarrow> ret ()
      | Inl e \<Rightarrow> do { _ \<leftarrow> kv_set H STATE_KEY (RState st); ret () })
   }"

subsection \<open>Discovery\<close>

definition stamp_entry :: "entry_codec \<Rightarrow> json \<Rightarrow> provider_entry option" where
  "stamp_entry E j = (case entry_of_value E j of
     None \<Rightarrow> None
   | Some p \<Rightarrow> (case request_topic_qualifier (pe_request_topic p) of
       None \<Rightarrow> None
     | Some cap \<Rightarrow> Some (p\<lparr>pe_id := cap @ '':'' @ pe_id p\<rparr>)))"

definition stamp_message_providers :: "entry_codec \<Rightarrow> ghost \<Rightarrow> string \<Rightarrow> provider_entry list" where
  "stamp_message_providers E H payload = (case h_parse H payload of
     None \<Rightarrow> []
   | Some j \<Rightarrow> (case get_arr ''providers'' j of
       None \<Rightarrow> []
     | Some arr \<Rightarrow> List.map_filter (stamp_entry E) arr))"

fun dedupe_seen :: "string list \<Rightarrow> provider_entry list \<Rightarrow> provider_entry list" where
  "dedupe_seen seen [] = []"
| "dedupe_seen seen (p # ps) =
     (if pe_id p \<in> set seen then dedupe_seen seen ps else p # dedupe_seen (pe_id p # seen) ps)"

definition dedupe_providers_by_id :: "provider_entry list \<Rightarrow> provider_entry list" where
  "dedupe_providers_by_id ps = dedupe_seen [] ps"

definition elapsed_ms :: "nat \<Rightarrow> nat \<Rightarrow> nat" where
  "elapsed_ms start now = min ((now - start) div 1000000) (2 ^ 64 - 1)"

fun discover_window :: "entry_codec \<Rightarrow> ghost \<Rightarrow> nat \<Rightarrow> nat \<Rightarrow> provider_entry list \<Rightarrow> provider_entry list gio" where
  "discover_window E H start 0 acc = ret acc"
| "discover_window E H start (Suc fuel) acc = do {
     now \<leftarrow> monotonic H;
     (let remaining = PROVIDER_WINDOW_MS - elapsed_ms start now in
      if remaining = 0 then ret acc
      else do {
        r \<leftarrow> recv H LLM_DESCRIBE_RESPONSE_TOPIC (min remaining 100);
        case r of
          Inl e \<Rightarrow> ret acc
        | Inr b \<Rightarrow> discover_window E H start fuel
            (acc @ concat (map (\<lambda>m. stamp_message_providers E H (msg_payload m)) (batch_msgs b)))
      })
   }"

definition discover_providers :: "entry_codec \<Rightarrow> ghost \<Rightarrow> nat \<Rightarrow> provider_entry list gio" where
  "discover_providers E H fuel = do {
     s \<leftarrow> subscribe H LLM_DESCRIBE_RESPONSE_TOPIC;
     case s of
       Some e \<Rightarrow> ret []
     | None \<Rightarrow> do {
         p \<leftarrow> publish H LLM_DESCRIBE_REQUEST_TOPIC (JObj []);
         case p of
           Some e \<Rightarrow> ret []
         | None \<Rightarrow> do {
             start \<leftarrow> monotonic H;
             ps \<leftarrow> discover_window E H start fuel [];
             ret (dedupe_providers_by_id ps)
           }
       }
   }"

definition has_kernel_message :: "batch \<Rightarrow> bool" where
  "has_kernel_message b \<longleftrightarrow> list_ex (\<lambda>m. msg_source m = KERNEL_UUID) (batch_msgs b)"

subsection \<open>Announcing a selection\<close>

definition publish_model_changed :: "entry_codec \<Rightarrow> ghost \<Rightarrow> provider_entry \<Rightarrow> unit gio" where
  "publish_model_changed E H p = do { _ \<leftarrow> publish H MODEL_CHANGED_TOPIC (value_of_entry E p); ret () }"

definition cleared_payload :: json where "cleared_payload = JNull"

definition publish_model_cleared :: "ghost \<Rightarrow> unit gio" where
  "publish_model_cleared H = do { _ \<leftarrow> publish H MODEL_CHANGED_TOPIC cleared_payload; ret () }"

definition reconcile_active_model :: "entry_codec \<Rightarrow> ghost \<Rightarrow> registry_state \<Rightarrow> registry_state gio" where
  "reconcile_active_model E H st = (case reconcile_in_place st of
     (st', Unchanged) \<Rightarrow> ret st'
   | (st', Remapped from to) \<Rightarrow> do { save_state H st'; publish_model_changed E H to; ret st' }
   | (st', Cleared from) \<Rightarrow> do { save_state H st'; publish_model_cleared H; ret st' })"

definition auto_select_defaults :: "entry_codec \<Rightarrow> ghost \<Rightarrow> registry_state \<Rightarrow> registry_state gio" where
  "auto_select_defaults E H st = (case auto_select_in_place st of
     (st', None) \<Rightarrow> ret st'
   | (st', Some p) \<Rightarrow> do { save_state H st'; publish_model_changed E H p; ret st' })"

subsection \<open>Requests\<close>

text \<open>Providers of the state, discovered and stored when there are none.\<close>

definition refresh_providers :: "entry_codec \<Rightarrow> ghost \<Rightarrow> nat \<Rightarrow> registry_state \<Rightarrow> registry_state gio" where
  "refresh_providers E H fuel st = do {
     ps \<leftarrow> discover_providers E H fuel;
     (if ps \<noteq> [] then do { save_state H (st\<lparr>rs_providers := ps\<rparr>); ret (st\<lparr>rs_providers := ps\<rparr>) } else ret st)
   }"

definition handle_get_providers :: "entry_codec \<Rightarrow> ghost \<Rightarrow> nat \<Rightarrow> unit gio" where
  "handle_get_providers E H fuel = do {
     ps \<leftarrow> discover_providers E H fuel;
     st \<leftarrow> load_state H;
     st1 \<leftarrow> (if ps \<noteq> [] then do { save_state H (st\<lparr>rs_providers := ps\<rparr>); ret (st\<lparr>rs_providers := ps\<rparr>) } else ret st);
     _ \<leftarrow> publish H ''registry.v1.response.get_providers'' (JArr (map (value_of_entry E) (rs_providers st1)));
     ret ()
   }"

definition active_entry :: "registry_state \<Rightarrow> provider_entry option" where
  "active_entry st = Option.bind (rs_active_model_id st) (\<lambda>i. find (\<lambda>p. pe_id p = i) (rs_providers st))"

definition handle_get_active_model :: "entry_codec \<Rightarrow> ghost \<Rightarrow> nat \<Rightarrow> unit gio" where
  "handle_get_active_model E H fuel = do {
     st \<leftarrow> load_state H;
     st1 \<leftarrow> (if rs_providers st = [] then refresh_providers E H fuel st else ret st);
     st2 \<leftarrow> reconcile_active_model E H st1;
     st3 \<leftarrow> auto_select_defaults E H st2;
     _ \<leftarrow> publish H ''registry.v1.response.get_active_model''
       (case active_entry st3 of None \<Rightarrow> JNull | Some p \<Rightarrow> value_of_entry E p);
     ret ()
   }"

definition extract_request_field :: "json \<Rightarrow> string \<Rightarrow> string option" where
  "extract_request_field payload key = (case Option.bind (jget ''data'' payload) (get_str key) of
     Some s \<Rightarrow> Some s
   | None \<Rightarrow> get_str key payload)"

definition with_corr_id :: "(string \<times> json) list \<Rightarrow> string option \<Rightarrow> json" where
  "with_corr_id m corr = JObj (case corr of None \<Rightarrow> m | Some c \<Rightarrow> AList.update ''corr_id'' (JStr c) m)"

definition set_active_model_ok_response :: "entry_codec \<Rightarrow> provider_entry \<Rightarrow> string option \<Rightarrow> json" where
  "set_active_model_ok_response E p corr =
     with_corr_id [(''status'', JStr ''ok''), (''active_model'', value_of_entry E p)] corr"

definition set_active_model_error_response :: "string \<Rightarrow> string option \<Rightarrow> json" where
  "set_active_model_error_response e corr = with_corr_id [(''error'', JStr e)] corr"

definition SET_RESPONSE_TOPIC :: string where "SET_RESPONSE_TOPIC = ''registry.v1.response.set_active_model''"

definition set_active_model_by_id ::
  "entry_codec \<Rightarrow> ghost \<Rightarrow> nat \<Rightarrow> string \<Rightarrow> string option \<Rightarrow> unit gio" where
  "set_active_model_by_id E H fuel model_id corr = do {
     st \<leftarrow> load_state H;
     st1 \<leftarrow> (if rs_providers st = []
        then do { ps \<leftarrow> discover_providers E H fuel; ret (st\<lparr>rs_providers := ps\<rparr>) } else ret st);
     case resolve_selection model_id (rs_providers st1) of
       Inr p \<Rightarrow> do {
         save_state H (st1\<lparr>rs_active_model_id := Some (pe_id p)\<rparr>);
         publish_model_changed E H p;
         _ \<leftarrow> publish H SET_RESPONSE_TOPIC (set_active_model_ok_response E p corr);
         ret ()
       }
     | Inl e \<Rightarrow> do {
         _ \<leftarrow> publish H SET_RESPONSE_TOPIC (set_active_model_error_response (resolve_message e) corr);
         ret ()
       }
   }"

definition handle_set_active_model :: "entry_codec \<Rightarrow> ghost \<Rightarrow> nat \<Rightarrow> json \<Rightarrow> unit gio" where
  "handle_set_active_model E H fuel payload =
     (let corr = extract_request_field payload ''corr_id'' in
      case extract_request_field payload ''model_id'' of
        None \<Rightarrow> do {
          _ \<leftarrow> publish H SET_RESPONSE_TOPIC (set_active_model_error_response ''missing model_id'' corr);
          ret ()
        }
      | Some i \<Rightarrow> set_active_model_by_id E H fuel i corr)"

subsection \<open>The event loop\<close>

definition dispatch_registry_message :: "entry_codec \<Rightarrow> ghost \<Rightarrow> nat \<Rightarrow> bus_msg \<Rightarrow> unit gio" where
  "dispatch_registry_message E H fuel m =
     (if starts_with ''registry.v1.response.'' (msg_topic m) \<or> msg_topic m = MODEL_CHANGED_TOPIC then ret ()
      else if msg_topic m = ''registry.v1.get_providers'' then handle_get_providers E H fuel
      else if msg_topic m = ''registry.v1.get_active_model'' then handle_get_active_model E H fuel
      else if msg_topic m = ''registry.v1.set_active_model'' then
        (case h_parse H (msg_payload m) of
           None \<Rightarrow> ret ()
         | Some payload \<Rightarrow> handle_set_active_model E H fuel payload)
      else ret ())"

definition dispatch_registry_messages :: "entry_codec \<Rightarrow> ghost \<Rightarrow> nat \<Rightarrow> batch \<Rightarrow> unit gio" where
  "dispatch_registry_messages E H fuel b = for_each (batch_msgs b) (dispatch_registry_message E H fuel)"

definition selection_options :: "registry_state \<Rightarrow> json" where
  "selection_options st = JArr (map (\<lambda>p. JObj [(''id'', JStr (pe_id p)), (''label'', JStr (pe_id p)),
     (''description'', JStr (pe_description p))]) (rs_providers st))"

text \<open>The counter \<open>n\<close> is \<open>REQUEST_COUNTER\<close>; the advanced value is returned.\<close>

definition emit_model_selection :: "entry_codec \<Rightarrow> ghost \<Rightarrow> nat \<Rightarrow> nat \<Rightarrow> nat gio" where
  "emit_model_selection E H fuel n = do {
     ps \<leftarrow> discover_providers E H fuel;
     st \<leftarrow> load_state H;
     st1 \<leftarrow> (if ps \<noteq> [] then do { save_state H (st\<lparr>rs_providers := ps\<rparr>); ret (st\<lparr>rs_providers := ps\<rparr>) } else ret st);
     (if rs_providers st1 = [] then ret n
      else do {
        now \<leftarrow> monotonic H;
        _ \<leftarrow> publish H ''registry.v1.response.models'' (JObj [(''type'', JStr ''selection_required''),
          (''request_id'', JStr (''models-'' @ show_nat now @ ''-'' @ show_nat n)), (''title'', JStr ''Select LLM Model''),
          (''options'', selection_options st1), (''callback_topic'', JStr ''registry.v1.selection.callback'')]);
        ret ((n + 1) mod 2 ^ 64)
      })
   }"

fun dispatch_command_messages :: "entry_codec \<Rightarrow> ghost \<Rightarrow> nat \<Rightarrow> nat \<Rightarrow> bus_msg list \<Rightarrow> nat gio" where
  "dispatch_command_messages E H fuel n [] = ret n"
| "dispatch_command_messages E H fuel n (m # ms) = (case h_parse H (msg_payload m) of
     None \<Rightarrow> dispatch_command_messages E H fuel n ms
   | Some payload \<Rightarrow>
       (case split_whitespace (or_default [] (get_str ''text'' payload)) of
          [] \<Rightarrow> dispatch_command_messages E H fuel n ms
        | cmd # rest \<Rightarrow>
            if cmd = ''/models'' then
              (case rest of
                 arg # _ \<Rightarrow> do {
                   set_active_model_by_id E H fuel arg None;
                   dispatch_command_messages E H fuel n ms
                 }
               | [] \<Rightarrow> do {
                   n' \<leftarrow> emit_model_selection E H fuel n;
                   dispatch_command_messages E H fuel n' ms
                 })
            else dispatch_command_messages E H fuel n ms))"

definition run_args :: "json \<Rightarrow> string list" where
  "run_args payload = (case get_arr ''args'' payload of None \<Rightarrow> [] | Some xs \<Rightarrow> List.map_filter jstr xs)"

definition succeeded :: "json \<Rightarrow> bool" where
  "succeeded body \<longleftrightarrow> jget ''exit_code'' body = Some (JInt 0)"

text \<open>One accepted run: discover if needed, heal, answer, and perform the side effect.\<close>

definition run_models :: "entry_codec \<Rightarrow> ghost \<Rightarrow> nat \<Rightarrow> string \<Rightarrow> string list \<Rightarrow> unit gio" where
  "run_models E H fuel topic args = do {
     st \<leftarrow> load_state H;
     st1 \<leftarrow> (if subcommand_needs_discovery args \<and> rs_providers st = [] then refresh_providers E H fuel st else ret st);
     st2 \<leftarrow> reconcile_active_model E H st1;
     (let body = models_result (h_render H) args (rs_providers st2) (rs_active_model_id st2) in do {
        (if first_arg args = SUB_SET \<and> succeeded body then
           (case second_arg args of
              None \<Rightarrow> ret ()
            | Some input \<Rightarrow> set_active_model_by_id E H fuel input None)
         else if first_arg args = SUB_UNSET \<and> rs_active_model_id st2 \<noteq> None then do {
           save_state H (st2\<lparr>rs_active_model_id := None\<rparr>);
           publish_model_cleared H
         }
         else ret ());
        _ \<leftarrow> publish H topic body;
        ret ()
      })
   }"

definition dispatch_cli_run_message :: "entry_codec \<Rightarrow> ghost \<Rightarrow> nat \<Rightarrow> bus_msg \<Rightarrow> unit gio" where
  "dispatch_cli_run_message E H fuel m = (case h_parse H (msg_payload m) of
     None \<Rightarrow> ret ()
   | Some payload \<Rightarrow> (case get_str ''req_id'' payload of
       None \<Rightarrow> ret ()
     | Some req_id \<Rightarrow>
         if \<not> is_valid_req_id req_id then ret ()
         else if \<not> is_models_command payload then ret ()
         else (let args = run_args payload; topic = CLI_RESULT_TOPIC_PREFIX @ req_id in
           if \<not> is_known_subcommand (first_arg args) then do {
             _ \<leftarrow> publish H topic (models_result (h_render H) args [] None);
             ret ()
           }
           else run_models E H fuel topic args)))"

definition dispatch_cli_run_messages :: "entry_codec \<Rightarrow> ghost \<Rightarrow> nat \<Rightarrow> batch \<Rightarrow> unit gio" where
  "dispatch_cli_run_messages E H fuel b = for_each (batch_msgs b) (dispatch_cli_run_message E H fuel)"

definition dispatch_selection_message :: "entry_codec \<Rightarrow> ghost \<Rightarrow> nat \<Rightarrow> bus_msg \<Rightarrow> unit gio" where
  "dispatch_selection_message E H fuel m = (case h_parse H (msg_payload m) of
     None \<Rightarrow> ret ()
   | Some payload \<Rightarrow> (case extract_request_field payload ''selected_id'' of
       None \<Rightarrow> ret ()
     | Some i \<Rightarrow> set_active_model_by_id E H fuel i None))"

definition dispatch_selection_messages :: "entry_codec \<Rightarrow> ghost \<Rightarrow> nat \<Rightarrow> batch \<Rightarrow> unit gio" where
  "dispatch_selection_messages E H fuel b = for_each (batch_msgs b) (dispatch_selection_message E H fuel)"

text \<open>What \<open>run\<close> does before its loop, and one round of the loop; the result says whether it goes on.\<close>

definition registry_start :: "entry_codec \<Rightarrow> ghost \<Rightarrow> nat \<Rightarrow> (host_error + unit) gio" where
  "registry_start E H fuel =
     try_bind (do { s \<leftarrow> subscribe H ''registry.v1.*''; ret (case s of None \<Rightarrow> Inr () | Some e \<Rightarrow> Inl e) }) (\<lambda>_.
     try_bind (do { s \<leftarrow> subscribe H ''cli.v1.command.execute''; ret (case s of None \<Rightarrow> Inr () | Some e \<Rightarrow> Inl e) }) (\<lambda>_.
     try_bind (do { s \<leftarrow> subscribe H CLI_RUN_TOPIC; ret (case s of None \<Rightarrow> Inr () | Some e \<Rightarrow> Inl e) }) (\<lambda>_.
     try_bind (do { s \<leftarrow> subscribe H ''registry.v1.selection.callback''; ret (case s of None \<Rightarrow> Inr () | Some e \<Rightarrow> Inl e) }) (\<lambda>_.
     try_bind (do { s \<leftarrow> subscribe H ''astrid.v1.capsules_loaded''; ret (case s of None \<Rightarrow> Inr () | Some e \<Rightarrow> Inl e) }) (\<lambda>_. do {
       _ \<leftarrow> recv H ''astrid.v1.capsules_loaded'' 5000;
       ps \<leftarrow> discover_providers E H fuel;
       st \<leftarrow> load_state H;
       st1 \<leftarrow> (if ps \<noteq> [] then do { save_state H (st\<lparr>rs_providers := ps\<rparr>); ret (st\<lparr>rs_providers := ps\<rparr>) } else ret st);
       st2 \<leftarrow> reconcile_active_model E H st1;
       _ \<leftarrow> auto_select_defaults E H st2;
       ret (Inr ())
     })))))"

definition registry_reload :: "entry_codec \<Rightarrow> ghost \<Rightarrow> nat \<Rightarrow> unit gio" where
  "registry_reload E H fuel = do {
     ps \<leftarrow> discover_providers E H fuel;
     st \<leftarrow> load_state H;
     (if ps \<noteq> [] then do {
        save_state H (st\<lparr>rs_providers := ps\<rparr>);
        st1 \<leftarrow> reconcile_active_model E H (st\<lparr>rs_providers := ps\<rparr>);
        _ \<leftarrow> auto_select_defaults E H st1;
        ret ()
      }
      else ret ())
   }"

definition registry_round :: "entry_codec \<Rightarrow> ghost \<Rightarrow> nat \<Rightarrow> nat \<Rightarrow> (bool \<times> nat) gio" where
  "registry_round E H fuel n = do {
     r \<leftarrow> recv H ''registry.v1.*'' 5000;
     case r of
       Inl e \<Rightarrow> ret (False, n)
     | Inr b \<Rightarrow> do {
         dispatch_registry_messages E H fuel b;
         c \<leftarrow> poll H ''cli.v1.command.execute'';
         n' \<leftarrow> (case c of Inl e \<Rightarrow> ret n | Inr cb \<Rightarrow> dispatch_command_messages E H fuel n (batch_msgs cb));
         v \<leftarrow> poll H CLI_RUN_TOPIC;
         (case v of Inl e \<Rightarrow> ret () | Inr vb \<Rightarrow> dispatch_cli_run_messages E H fuel vb);
         s \<leftarrow> poll H ''registry.v1.selection.callback'';
         (case s of Inl e \<Rightarrow> ret () | Inr sb \<Rightarrow> dispatch_selection_messages E H fuel sb);
         l \<leftarrow> poll H ''astrid.v1.capsules_loaded'';
         (case l of Inl e \<Rightarrow> ret ()
          | Inr lb \<Rightarrow> if has_kernel_message lb then registry_reload E H fuel else ret ());
         ret (True, n')
       }
   }"

end
