(* ===== verification/Registry_Spec.thy ===== *)
theory Registry_Spec
  imports Registry
begin

text \<open>
  Correctness of the model registry: which entry an operator's input names, which entries a fan-out
  yields and that it ends, which model is reported as active, what selecting a model broadcasts,
  stores and answers, and the topics the event loop publishes on.
\<close>

subsection \<open>Canonical ids\<close>

lemma split_colon_Some: "split_colon s = Some (a, b) \<Longrightarrow> s = a @ CHR '':'' # b \<and> CHR '':'' \<notin> set a"
  by (induction s arbitrary: a) (auto split: if_splits)

lemma split_colon_append: "CHR '':'' \<notin> set a \<Longrightarrow> split_colon (a @ CHR '':'' # b) = Some (a, b)"
  by (induction a) auto

lemma qualifier_no_colon: "is_valid_provider_qualifier c \<Longrightarrow> CHR '':'' \<notin> set c"
  by (auto simp: is_valid_provider_qualifier_def list_all_iff ascii_alnum_def)

text \<open>
  A routed entry is one a fan-out can yield: its id is qualified by the last segment of its request
  topic, and that segment is a valid qualifier.
\<close>

definition routed :: "provider_entry \<Rightarrow> bool" where
  "routed e = (case split_colon (pe_id e) of
     None \<Rightarrow> False
   | Some (cap, model) \<Rightarrow> is_valid_provider_qualifier cap \<and>
       pe_request_topic e = LLM_REQUEST_GENERATE_PREFIX @ cap)"

lemma routed_id: "routed e \<Longrightarrow> pe_id e = qualifier_of (pe_id e) @ CHR '':'' # bare_model_of (pe_id e)"
  by (auto simp: routed_def qualifier_of_def bare_model_of_def dest!: split_colon_Some split: option.splits)

lemma routed_topic: "routed e \<Longrightarrow> pe_request_topic e = LLM_REQUEST_GENERATE_PREFIX @ qualifier_of (pe_id e)"
  by (auto simp: routed_def qualifier_of_def split: option.splits)

lemma routed_qualified:
  assumes "routed e" "split_colon s = Some (cap, m)" "qualifier_of (pe_id e) = cap" "bare_model_of (pe_id e) = m"
  shows "pe_id e = s"
  using routed_id [OF assms(1)] split_colon_Some [OF assms(2)] assms(3,4) by simp

lemma request_topic_qualifier_Some:
  "request_topic_qualifier t = Some c \<longleftrightarrow> t = LLM_REQUEST_GENERATE_PREFIX @ c \<and> is_valid_provider_qualifier c"
  by (auto simp: request_topic_qualifier_def Let_def starts_with_iff)

lemma stamp_entry_routed: "stamp_entry E j = Some p \<Longrightarrow> routed p"
  by (auto simp: stamp_entry_def routed_def request_topic_qualifier_Some qualifier_no_colon split_colon_append
      split: option.splits)

subsection \<open>Resolution\<close>

lemma pass_result_cases:
  "case pass_result ms r of
     Inr e \<Rightarrow> ms = [e] \<or> ms = [] \<and> r = Inr e
   | Inl (AmbiguousModel cs) \<Rightarrow> cs = map pe_id ms \<and> 2 \<le> length cs \<or> ms = [] \<and> r = Inl (AmbiguousModel cs)
   | Inl (UnknownModel i) \<Rightarrow> ms = [] \<and> r = Inl (UnknownModel i)"
  by (auto simp: pass_result_def split: list.splits sum.splits resolve_error.splits)

lemma qualified_pass_empty:
  assumes "list_all routed es" "find (\<lambda>e. pe_id e = input) es = None" "split_colon input = Some (cap, m)"
  shows "filter (\<lambda>e. qualifier_of (pe_id e) = cap \<and> bare_model_of (pe_id e) = m) es = []"
  using assms routed_qualified [OF _ assms(3)] by (auto simp: filter_empty_conv find_None_iff list_all_iff)

lemma resolve_two_passes:
  assumes "list_all routed es"
  shows "resolve_selection input es = (case find (\<lambda>e. pe_id e = input) es of
     Some exact \<Rightarrow> Inr exact
   | None \<Rightarrow> pass_result (filter (\<lambda>e. bare_model_of (pe_id e) = input) es) (Inl (UnknownModel input)))"
proof (cases "find (\<lambda>e. pe_id e = input) es")
  case None
  then have "(case split_colon input of None \<Rightarrow> r | Some (cap, m) \<Rightarrow> pass_result
      (filter (\<lambda>e. qualifier_of (pe_id e) = cap \<and> bare_model_of (pe_id e) = m) es) r) = r" for r
    using qualified_pass_empty [OF assms None]
    by (cases "split_colon input") (auto simp: pass_result_def)
  then show ?thesis by (simp add: resolve_selection_def None)
qed (simp add: resolve_selection_def)

lemma find_exact: "distinct (map f es) \<Longrightarrow> e \<in> set es \<Longrightarrow> find (\<lambda>x. f x = f e) es = Some e"
  by (induction es) (auto simp: image_iff)

lemma find_in: "find P xs = Some x \<Longrightarrow> x \<in> set xs \<and> P x"
  by (auto simp: find_split)

lemma find_never [simp]: "find (\<lambda>x. False) xs = None"
  by (induction xs) auto

lemma resolve_in: "resolve_selection input es = Inr e \<Longrightarrow> e \<in> set es"
proof -
  have "pass_result (filter P es) r = Inr e \<Longrightarrow> e \<in> set es \<or> r = Inr e" for P r
    by (auto simp: pass_result_def split: list.splits) (metis filter_is_subset list.set_intros(1) subsetD)
  then show "resolve_selection input es = Inr e \<Longrightarrow> e \<in> set es"
    by (auto simp: resolve_selection_def dest: find_in split: option.splits)
qed

text \<open>
  The entry an operator's input names.  Among routed entries with distinct ids, an input that is
  an id resolves to its entry, whatever bare names it collides with.  Otherwise it resolves exactly
  when one entry has it as its bare model name; several are ambiguous, with all of them listed, and
  none is unknown.  A qualified input that is not an id never resolves.\<close>

theorem resolution_reference:
  assumes "list_all routed es" and "distinct (map pe_id es)"
  shows "case resolve_selection input es of
     Inr e \<Rightarrow> e \<in> set es \<and> (pe_id e = input \<or>
       input \<notin> pe_id ` set es \<and> filter (\<lambda>x. bare_model_of (pe_id x) = input) es = [e])
   | Inl (AmbiguousModel cs) \<Rightarrow> input \<notin> pe_id ` set es \<and> 2 \<le> length cs \<and>
       cs = map pe_id (filter (\<lambda>x. bare_model_of (pe_id x) = input) es)
   | Inl (UnknownModel i) \<Rightarrow> i = input \<and> input \<notin> pe_id ` set es \<and>
       filter (\<lambda>x. bare_model_of (pe_id x) = input) es = []"
proof (cases "find (\<lambda>e. pe_id e = input) es")
  case None
  then have "input \<notin> pe_id ` set es" by (auto simp: find_None_iff)
  then show ?thesis
    using None pass_result_cases [of "filter (\<lambda>x. bare_model_of (pe_id x) = input) es" "Inl (UnknownModel input)"]
      resolve_in [of input es]
    by (auto simp: resolve_two_passes [OF assms(1)] split: sum.splits resolve_error.splits)
next
  case (Some e)
  then show ?thesis by (auto simp: resolve_two_passes [OF assms(1)] dest: find_in)
qed

definition demo_entry :: "string \<Rightarrow> string \<Rightarrow> provider_entry" where
  "demo_entry cap m = \<lparr>pe_id = cap @ '':'' @ m, pe_description = ''d'',
     pe_request_topic = LLM_REQUEST_GENERATE_PREFIX @ cap, pe_stream_topic = ''s'', pe_capabilities = [],
     pe_context_window = Some 9, pe_max_output_tokens = None\<rparr>"

definition demo_entries :: "provider_entry list" where
  "demo_entries = [demo_entry ''a'' ''m'', demo_entry ''b'' ''m'', demo_entry ''b'' ''k:9'']"

lemma demo_entries_routed: "list_all routed demo_entries" "distinct (map pe_id demo_entries)"
  by code_simp+

lemma resolution_reference_witness:
  "resolve_selection ''m'' demo_entries = Inl (AmbiguousModel [''a:m'', ''b:m'']) \<and>
   [''a:m'', ''b:m''] = map pe_id (filter (\<lambda>x. bare_model_of (pe_id x) = ''m'') demo_entries)"
proof -
  have ambiguous: "resolve_selection ''m'' demo_entries = Inl (AmbiguousModel [''a:m'', ''b:m''])" by code_simp
  then show ?thesis using resolution_reference [OF demo_entries_routed, of "''m''"] by simp
qed

subsection \<open>Discovery\<close>

lemma seen_distinct:
  "distinct (map pe_id (dedupe_seen seen ps)) \<and> set (map pe_id (dedupe_seen seen ps)) \<inter> set seen = {}"
  by (induction seen ps rule: dedupe_seen.induct) auto

lemma seen_subset: "set (dedupe_seen seen ps) \<subseteq> set ps"
  by (induction seen ps rule: dedupe_seen.induct) auto

lemma stamp_message_routed: "list_all routed (stamp_message_providers E H payload)"
  by (auto simp: stamp_message_providers_def List.map_filter_def list_all_iff intro: stamp_entry_routed
      split: option.split)

lemma window_routed:
  "list_all routed acc \<Longrightarrow> wp (discover_window E H start fuel acc) (\<lambda>ps _. list_all routed ps) tr"
proof (induction fuel arbitrary: acc tr)
  case (Suc fuel)
  have "list_all routed (acc @ concat (map (\<lambda>m. stamp_message_providers E H (msg_payload m)) ms))" for ms
    using Suc.prems stamp_message_routed by (induction ms) (auto simp: list_all_iff)
  then show ?case unfolding discover_window.simps by (intro wpI Suc) (use Suc.prems in auto)
qed (auto intro: wpI)

lemma discover_routed:
  "wp (discover_providers E H fuel) (\<lambda>ps _. list_all routed ps \<and> distinct (map pe_id ps)) tr"
  unfolding discover_providers_def
proof (intro wpI)
  fix r1 r2 r3
  show "wp (discover_window E H r3 fuel [])
     (\<lambda>ps. wp (ret (dedupe_providers_by_id ps)) (\<lambda>ps _. list_all routed ps \<and> distinct (map pe_id ps)))
     (EvMono r3 # EvPub LLM_DESCRIBE_REQUEST_TOPIC (JObj []) r2 # EvSub LLM_DESCRIBE_RESPONSE_TOPIC r1 # tr)"
    using seen_distinct [of "[]"] seen_subset [of "[]"]
    by (intro wp_mono [OF window_routed]) (auto intro!: wpI simp: dedupe_providers_by_id_def list_all_iff)
qed simp_all

lemma routed_resolves:
  "distinct (map pe_id es) \<Longrightarrow> list_all (\<lambda>p. resolve_selection (pe_id p) es = Inr p) es"
  by (auto simp: list_all_iff resolve_selection_def find_exact)

text \<open>
  C36: What a fan-out yields.  Whatever the answers are, every entry that \<open>discover_providers\<close> returns
  is qualified by the concrete generate topic it is requested on, no two entries share an id, and
  each entry is what its own id resolves to.\<close>

theorem discovery_routable:
  "case fst (run_state (discover_providers E H fuel) tr) of ps \<Rightarrow>
     list_all routed ps \<and> distinct (map pe_id ps) \<and>
     list_all (\<lambda>p. resolve_selection (pe_id p) ps = Inr p) ps"
  using discover_routed [of E H fuel tr] by (simp add: wp_iff routed_resolves)

text \<open>On a ticking clock a fan-out reads it in at most \<open>window_rounds d\<close> rounds.\<close>

definition window_rounds :: "nat \<Rightarrow> nat" where
  "window_rounds d = rounds_for d 500000000"

lemma window_open: "PROVIDER_WINDOW_MS \<le> elapsed_ms start now \<longleftrightarrow> 500000000 \<le> now - start"
  by (auto simp: PROVIDER_WINDOW_MS_def elapsed_ms_def)

locale registry_clock = ticking_clock H d for H :: ghost and d :: nat
begin

lemma window_stable:
  "start \<le> h_mono H tr \<Longrightarrow> ticks d (500000000 - (h_mono H tr - start)) < fuel \<Longrightarrow>
   ticks d (500000000 - (h_mono H tr - start)) < fuel' \<Longrightarrow>
   run_state (discover_window E H start fuel acc) tr = run_state (discover_window E H start fuel' acc) tr"
proof (induction fuel arbitrary: fuel' acc tr)
  case (Suc k)
  then obtain k' where k': "fuel' = Suc k'" by (cases fuel') auto
  let ?now = "h_mono H tr"
  show ?case
  proof (cases "500000000 \<le> ?now - start")
    case True
    then show ?thesis by (simp add: k' monotonic_def window_open)
  next
    case False
    have step: "ticks d (500000000 - (h_mono H (EvRecv t ms r # EvMono ?now # tr) - start)) < n"
      if "ticks d (500000000 - (?now - start)) < Suc n" for t ms r n
      using tick [of tr t ms r] False Suc.prems(1) by (intro rounds_step [OF _ _ that]) auto
    have later: "start \<le> h_mono H (EvRecv t ms r # EvMono ?now # tr)" for t ms r
      using tick [of tr t ms r] Suc.prems(1) by linarith
    show ?thesis
      using Suc.IH [OF later step step, of k'] Suc.prems False
      by (simp add: k' monotonic_def recv_def window_open Let_def split: sum.split)
  qed
qed simp

lemma discover_stable:
  assumes "window_rounds d \<le> fuel"
  shows "run_state (discover_providers E H fuel) tr = run_state (discover_providers E H (window_rounds d)) tr"
proof -
  have enough: "ticks d (500000000 - x) < n" if "window_rounds d \<le> n" for x n
    using that ticks_le [of "500000000 - x" 500000000] by (simp add: window_rounds_def rounds_for_def)
  have "run_state (discover_window E H (h_mono H t) fuel []) (EvMono (h_mono H t) # t) =
      run_state (discover_window E H (h_mono H t) (window_rounds d) []) (EvMono (h_mono H t) # t)" for t
    using steady enough [OF assms] enough [OF order_refl] by (rule window_stable)
  then show ?thesis
    by (simp add: discover_providers_def host_defs split: option.split)
qed

end

text \<open>
  A fan-out ends.  On a monotonic clock that never goes back and advances by at least \<open>d\<close> nanoseconds across a
  receive, \<open>window_rounds d\<close> rounds are enough: with more fuel the fan-out returns the same entries
  after the same calls, whatever the bus delivers.\<close>

theorem discovery_ends:
  assumes "0 < d" and "\<And>tr. h_mono H tr \<le> h_mono H (EvMono (h_mono H tr) # tr)"
    and "\<And>t ms r tr. h_mono H tr + d \<le> h_mono H (EvRecv t ms r # EvMono (h_mono H tr) # tr)"
    and "window_rounds d \<le> fuel"
  shows "run_state (discover_providers E H fuel) tr = run_state (discover_providers E H (window_rounds d)) tr"
  using assms by (intro registry_clock.discover_stable) unfold_locales

interpretation mem_registry_clock: registry_clock mem_host 2000000
  by unfold_locales

definition rendered_codec :: entry_codec where
  "rendered_codec = \<lparr>entry_of_value = (\<lambda>j. None), value_of_entry = entry_to_json\<rparr>"

lemma discovery_ends_witness:
  "run_state (discover_providers rendered_codec mem_host 1000) [] = run_state (discover_providers rendered_codec mem_host 251) []"
proof -
  have "window_rounds 2000000 = 251" by (simp add: window_rounds_def rounds_for_def ticks_def)
  then show ?thesis
    using discovery_ends [OF _ mem_clock.steady mem_clock.tick, of 1000 rendered_codec "[]"] by simp
qed

end
