(* ===== verification/Registry_Requests.thy ===== *)
theory Registry_Requests
  imports Registry_Spec
begin

text \<open>
  The request handlers of the registry: which model \<open>get_active_model\<close> reports, what selecting a model
  broadcasts, stores and answers, what a save does to a concurrent write, and the topics of the event
  loop.  Everything here holds on every host, whatever its store, bus and clock answer.
\<close>

text \<open>A computation of which only the events and the result are known.\<close>

definition loaded :: "ghost \<Rightarrow> (reg_value, json) event list \<Rightarrow> registry_state" where
  "loaded H tr = state_of_read (h_get H tr STATE_KEY)"

lemma wp_load_state: "Q (loaded H tr) (EvGet STATE_KEY (h_get H tr STATE_KEY) # tr) \<Longrightarrow>
   wp (load_state H) Q tr"
  by (simp add: load_state_def loaded_def wp_iff kv_get_def)

subsection \<open>Events of the building blocks\<close>

fun stored_value :: "('v, 'm) event \<Rightarrow> 'v option" where
  "stored_value (EvSet k v e) = Some v"
| "stored_value (EvCas k old v r) = Some v"
| "stored_value _ = None"

definition stored_values :: "('v, 'm) event list \<Rightarrow> 'v set" where
  "stored_values evs = {v. Some v \<in> stored_value ` set evs}"

lemma stored_values_simps [simp]:
  "stored_values [] = {}"
  "stored_values (e # evs) = (case stored_value e of None \<Rightarrow> {} | Some v \<Rightarrow> {v}) \<union> stored_values evs"
  "stored_values (evs @ evs') = stored_values evs \<union> stored_values evs'"
  by (auto simp: stored_values_def split: option.split)

text \<open>\<open>describing\<close>: an event of a fan-out; \<open>saving\<close>: of a save; \<open>off t\<close>: no publication on \<open>t\<close>.\<close>

definition describing :: "(reg_value, json) event \<Rightarrow> bool" where
  "describing e \<longleftrightarrow> stored_value e = None \<and>
     (case pub_of e of None \<Rightarrow> True | Some (t, m) \<Rightarrow> t = LLM_DESCRIBE_REQUEST_TOPIC)"

definition saving :: "registry_state \<Rightarrow> (reg_value, json) event \<Rightarrow> bool" where
  "saving st e \<longleftrightarrow> pub_of e = None \<and> stored_value e \<in> {None, Some (RState st)}"

definition off :: "string \<Rightarrow> (reg_value, json) event \<Rightarrow> bool" where
  "off t e \<longleftrightarrow> (case pub_of e of None \<Rightarrow> True | Some (t', m) \<Rightarrow> t' \<noteq> t)"

lemma every_calls [everyI]:
  "(\<And>r. P (EvSub t r)) \<Longrightarrow> every P (subscribe H t)"
  "(\<And>r. P (EvPub t m r)) \<Longrightarrow> every P (publish H t m)"
  "(\<And>r. P (EvRecv t ms r)) \<Longrightarrow> every P (recv H t ms)"
  "(\<And>r. P (EvPoll t r)) \<Longrightarrow> every P (poll H t)"
  "(\<And>r. P (EvGet k r)) \<Longrightarrow> every P (kv_get H k)"
  "(\<And>r. P (EvSet k v r)) \<Longrightarrow> every P (kv_set H k v)"
  "(\<And>r. P (EvCas k old v r)) \<Longrightarrow> every P (kv_cas H k old v)"
  "(\<And>r. P (EvMono r)) \<Longrightarrow> every P (monotonic H)"
  by (simp_all add: host_defs every_host_call)

lemma window_describing: "every describing (discover_window E H start fuel acc)"
  by (induction fuel arbitrary: acc) (auto intro!: everyI simp: describing_def)

lemma discover_describing: "every describing (discover_providers E H fuel)"
  unfolding discover_providers_def
  by (intro everyI window_describing) (simp_all add: describing_def)

lemma save_saving: "every (saving st) (save_state H st)"
  unfolding save_state_def by (intro everyI) (simp_all add: saving_def)

lemma describing_off: "describing e \<Longrightarrow> t \<noteq> LLM_DESCRIBE_REQUEST_TOPIC \<Longrightarrow> off t e"
  by (auto simp: describing_def off_def split: option.splits)

lemma saving_off: "saving st e \<Longrightarrow> off t e"
  by (simp add: saving_def off_def)

lemma pubs_on_off [simp]: "list_all (off t) evs \<Longrightarrow> pubs_on t evs = []"
  by (induction evs) (auto simp: off_def split: option.splits)

lemma stored_describing: "list_all describing evs \<Longrightarrow> stored_values evs = {}"
  by (induction evs) (auto simp: describing_def)

lemma stored_saving: "list_all (saving st) evs \<Longrightarrow> stored_values evs \<subseteq> {RState st}"
  by (induction evs) (auto simp: saving_def split: option.split)

lemma save_stores: "wp (save_state H st) (\<lambda>_ tr'. extends tr tr' \<and> stored_values (since tr tr') = {RState st} \<and>
    list_all (saving st) (since tr tr')) tr"
  unfolding save_state_def by (intro wpI) (simp_all add: saving_def)

lemma model_changed_off: "t \<noteq> MODEL_CHANGED_TOPIC \<Longrightarrow> every (off t) (publish_model_changed E H p)"
  "t \<noteq> MODEL_CHANGED_TOPIC \<Longrightarrow> every (off t) (publish_model_cleared H)"
  unfolding publish_model_changed_def publish_model_cleared_def by (intro everyI, simp add: off_def)+

lemma discover_off: "t \<noteq> LLM_DESCRIBE_REQUEST_TOPIC \<Longrightarrow> every (off t) (discover_providers E H fuel)"
  by (rule every_mono [OF discover_describing describing_off])

lemma save_off: "every (off t) (save_state H st)"
  by (rule every_mono [OF save_saving saving_off])

lemmas block_off [everyI] = discover_off save_off model_changed_off

lemma reconcile_result: "fst (run_state (reconcile_active_model E H st) tr) = fst (reconcile_in_place st)"
  by (simp add: reconcile_active_model_def split: prod.split reconcile_outcome.split)

lemma auto_select_result: "fst (run_state (auto_select_defaults E H st) tr) = fst (auto_select_in_place st)"
  by (simp add: auto_select_defaults_def split: prod.split option.split)

lemma every_case_reconcile [everyI]:
  "every P m \<Longrightarrow> (\<And>a b. every P (f a b)) \<Longrightarrow> (\<And>a. every P (g a)) \<Longrightarrow>
   every P (case r of Unchanged \<Rightarrow> m | Remapped a b \<Rightarrow> f a b | Cleared a \<Rightarrow> g a)"
  by (cases r) simp_all

lemma reconcile_off [everyI]: "t \<noteq> MODEL_CHANGED_TOPIC \<Longrightarrow> every (off t) (reconcile_active_model E H st)"
  unfolding reconcile_active_model_def by (intro everyI)

lemma auto_select_off [everyI]: "t \<noteq> MODEL_CHANGED_TOPIC \<Longrightarrow> every (off t) (auto_select_defaults E H st)"
  unfolding auto_select_defaults_def by (intro everyI)

subsection \<open>The active model\<close>

text \<open>
  The abstract contract: the selected entry if the selection is an id, the first entry of the provider
  the selection names if it is a bare provider id, the first entry otherwise.
\<close>

definition preferred :: "string option \<Rightarrow> provider_entry list \<Rightarrow> provider_entry option" where
  "preferred active ps = (case find (\<lambda>p. active = Some (pe_id p)) ps of
     Some p \<Rightarrow> Some p
   | None \<Rightarrow> (case find (\<lambda>p. active = Some (qualifier_of (pe_id p))) ps of
       Some p \<Rightarrow> Some p
     | None \<Rightarrow> (case ps of [] \<Rightarrow> None | p # _ \<Rightarrow> Some p)))"

definition settle :: "registry_state \<Rightarrow> registry_state" where
  "settle st = fst (auto_select_in_place (fst (reconcile_in_place st)))"

lemma find_same_key: "find (\<lambda>p. f p = k) ps = Some x \<Longrightarrow> (\<And>p. g p = g x \<Longrightarrow> f p = k) \<Longrightarrow>
   find (\<lambda>p. g p = g x) ps = Some x"
  by (induction ps) (auto split: if_splits)

lemma settle_preferred: "active_entry (settle st) = preferred (rs_active_model_id st) (rs_providers st)"
proof (cases "rs_active_model_id st")
  case None
  then show ?thesis
    by (cases "rs_providers st")
      (simp_all add: settle_def reconcile_in_place_def auto_select_in_place_def active_entry_def preferred_def)
next
  case (Some i)
  have sym: "find (\<lambda>p. i = f p) ps = find (\<lambda>p. f p = i) ps" for f :: "provider_entry \<Rightarrow> string" and ps
    by (rule arg_cong [where f = "\<lambda>P. find P ps"]) auto
  consider (none) "rs_providers st = []"
    | (exact) p where "rs_providers st \<noteq> []" "find (\<lambda>p. pe_id p = i) (rs_providers st) = Some p"
    | (bare) p where "rs_providers st \<noteq> []" "find (\<lambda>p. pe_id p = i) (rs_providers st) = None"
        "find (\<lambda>p. qualifier_of (pe_id p) = i) (rs_providers st) = Some p"
    | (gone) "rs_providers st \<noteq> []" "find (\<lambda>p. pe_id p = i) (rs_providers st) = None"
        "find (\<lambda>p. qualifier_of (pe_id p) = i) (rs_providers st) = None"
    by (metis not_None_eq)
  then show ?thesis
  proof cases
    case exact
    then have "list_ex (\<lambda>p. pe_id p = i) (rs_providers st)" by (auto simp: list_ex_iff dest: find_in)
    then show ?thesis using Some exact
      by (simp add: settle_def reconcile_in_place_def auto_select_in_place_def active_entry_def preferred_def sym)
  next
    case bare
    then have "\<not> list_ex (\<lambda>p. pe_id p = i) (rs_providers st)" by (auto simp: list_ex_iff find_None_iff)
    moreover have "find (\<lambda>q. pe_id q = pe_id p) (rs_providers st) = Some p"
      using bare(3) by (rule find_same_key [where f = "\<lambda>p. qualifier_of (pe_id p)"])
        (use find_in [OF bare(3)] in auto)
    ultimately show ?thesis using Some bare
      by (simp add: settle_def reconcile_in_place_def auto_select_in_place_def active_entry_def preferred_def sym)
  next
    case gone
    then have "\<not> list_ex (\<lambda>p. pe_id p = i) (rs_providers st)" by (auto simp: list_ex_iff find_None_iff)
    then show ?thesis using Some gone
      by (cases "rs_providers st")
        (simp_all add: settle_def reconcile_in_place_def auto_select_in_place_def active_entry_def preferred_def sym)
  qed (use Some in \<open>simp add: settle_def reconcile_in_place_def auto_select_in_place_def active_entry_def preferred_def\<close>)
qed

text \<open>The providers a request works with: the stored ones, a fan-out's when there are none.\<close>

definition known_providers ::
  "entry_codec \<Rightarrow> ghost \<Rightarrow> nat \<Rightarrow> (reg_value, json) event list \<Rightarrow> provider_entry list" where
  "known_providers E H fuel tr = (if rs_providers (loaded H tr) \<noteq> [] then rs_providers (loaded H tr)
     else fst (run_state (discover_providers E H fuel) (EvGet STATE_KEY (h_get H tr STATE_KEY) # tr)))"

definition ACTIVE_RESPONSE_TOPIC :: string where
  "ACTIVE_RESPONSE_TOPIC = ''registry.v1.response.get_active_model''"

lemma topics_differ [simp]:
  "ACTIVE_RESPONSE_TOPIC \<noteq> LLM_DESCRIBE_REQUEST_TOPIC" "ACTIVE_RESPONSE_TOPIC \<noteq> MODEL_CHANGED_TOPIC"
  "MODEL_CHANGED_TOPIC \<noteq> LLM_DESCRIBE_REQUEST_TOPIC" "SET_RESPONSE_TOPIC \<noteq> LLM_DESCRIBE_REQUEST_TOPIC"
  "SET_RESPONSE_TOPIC \<noteq> MODEL_CHANGED_TOPIC" "MODEL_CHANGED_TOPIC \<noteq> SET_RESPONSE_TOPIC"
  by (simp_all add: ACTIVE_RESPONSE_TOPIC_def LLM_DESCRIBE_REQUEST_TOPIC_def MODEL_CHANGED_TOPIC_def
      SET_RESPONSE_TOPIC_def)

lemma off_read [simp]: "off t (EvGet k r)" "pub_of (EvGet k r) = None"
  by (simp_all add: off_def)

lemma refresh_run:
  "wp (refresh_providers E H fuel st) (\<lambda>st' tr'. \<exists>evs. tr' = evs @ tr \<and>
     st' = st\<lparr>rs_providers := (case fst (run_state (discover_providers E H fuel) tr) of [] \<Rightarrow> rs_providers st | ps \<Rightarrow> ps)\<rparr> \<and>
     list_all (off ACTIVE_RESPONSE_TOPIC) evs) tr"
  unfolding refresh_providers_def
  by (intro wpI every_wp [OF discover_off [where t = ACTIVE_RESPONSE_TOPIC]]
      every_wp [OF save_off [where t = ACTIVE_RESPONSE_TOPIC]] topics_differ) (auto split: list.split)

lemmas active_off =
  every_wp [OF reconcile_off [where t = ACTIVE_RESPONSE_TOPIC]] every_wp [OF auto_select_off [where t = ACTIVE_RESPONSE_TOPIC]]

lemma active_settles:
  "wp (do { st1 \<leftarrow> reconcile_active_model E H st; auto_select_defaults E H st1 })
     (\<lambda>st' tr'. \<exists>evs. tr' = evs @ tr \<and> st' = settle st \<and> list_all (off ACTIVE_RESPONSE_TOPIC) evs) tr"
  by (intro wpI active_off topics_differ)
    (auto simp: reconcile_result auto_select_result settle_def)

lemma get_active_run:
  "wp (handle_get_active_model E H fuel) (\<lambda>_ tr'. pubs_on ACTIVE_RESPONSE_TOPIC (since tr tr') =
     [case preferred (rs_active_model_id (loaded H tr)) (known_providers E H fuel tr) of
        None \<Rightarrow> JNull | Some p \<Rightarrow> value_of_entry E p]) tr"
proof -
  let ?tr = "EvGet STATE_KEY (h_get H tr STATE_KEY) # tr"
  let ?answer = "\<lambda>ps. case preferred (rs_active_model_id (loaded H tr)) ps of None \<Rightarrow> JNull | Some p \<Rightarrow> value_of_entry E p"
  have tail: "wp (do { st2 \<leftarrow> reconcile_active_model E H st; st3 \<leftarrow> auto_select_defaults E H st2;
        _ \<leftarrow> publish H ''registry.v1.response.get_active_model''
          (case active_entry st3 of None \<Rightarrow> JNull | Some p \<Rightarrow> value_of_entry E p);
        ret () })
      (\<lambda>_ tr'. pubs_on ACTIVE_RESPONSE_TOPIC (since tr tr') = [?answer (rs_providers st)]) (evs @ ?tr)"
    if "list_all (off ACTIVE_RESPONSE_TOPIC) evs" "rs_active_model_id st = rs_active_model_id (loaded H tr)" for st evs
    using that settle_preferred [of st] unfolding settle_def ACTIVE_RESPONSE_TOPIC_def [symmetric]
    by (intro wpI active_off topics_differ)
      (simp add: reconcile_result auto_select_result)
  show ?thesis
  proof (cases "rs_providers (loaded H tr) = []")
    case True
    then have known: "wp (refresh_providers E H fuel (loaded H tr)) (\<lambda>st' tr'. \<exists>evs. tr' = evs @ ?tr \<and>
        list_all (off ACTIVE_RESPONSE_TOPIC) evs \<and> st' = (loaded H tr)\<lparr>rs_providers := known_providers E H fuel tr\<rparr>) ?tr"
      by (intro wp_mono [OF refresh_run]) (auto simp: known_providers_def split: list.split)
    show ?thesis
      unfolding handle_get_active_model_def
      by (rule wp_bind, rule wp_load_state, rule wp_bind)
        (use known in \<open>auto simp: True elim!: wp_mono intro: tail [where st = "(loaded H tr)\<lparr>rs_providers := known_providers E H fuel tr\<rparr>", simplified]\<close>)
  next
    case False
    then show ?thesis
      using tail [of "[]" "loaded H tr"]
      by (simp add: handle_get_active_model_def wp_bind wp_load_state wp_return known_providers_def)
  qed
qed

text \<open>
  \<open>get_active_model\<close> answers once, with the preferred entry of the known providers: the stored
  selection if it is an id; after an upgrade the first entry of the provider it names; else the first
  entry; and \<open>null\<close> only when no provider is known.  It holds on every host, lost writes included.\<close>

theorem get_active_model_answers:
  "pubs_on ACTIVE_RESPONSE_TOPIC (new_events (handle_get_active_model E H fuel) tr) =
     [case preferred (rs_active_model_id (loaded H tr)) (known_providers E H fuel tr) of
        None \<Rightarrow> JNull | Some p \<Rightarrow> value_of_entry E p]"
  by (rule wp_new_events [OF get_active_run])

subsection \<open>Selecting a model\<close>

lemma stored_mono: "list_all (saving st) evs \<Longrightarrow> stored_value e = Some v \<Longrightarrow> e \<in> set evs \<Longrightarrow> v = RState st"
  by (auto simp: saving_def list_all_iff)

lemma providers_known:
  "wp (if rs_providers (loaded H tr) = []
       then do { ps \<leftarrow> discover_providers E H fuel; ret ((loaded H tr)\<lparr>rs_providers := ps\<rparr>) } else ret (loaded H tr))
     (\<lambda>st tr'. \<exists>evs. tr' = evs @ EvGet STATE_KEY (h_get H tr STATE_KEY) # tr \<and> list_all describing evs \<and>
        st = (loaded H tr)\<lparr>rs_providers := known_providers E H fuel tr\<rparr>)
     (EvGet STATE_KEY (h_get H tr STATE_KEY) # tr)"
  by (intro wpI every_wp [OF discover_describing]) (auto simp: known_providers_def)

lemma save_run:
  "(\<And>evs. list_all (saving st) evs \<Longrightarrow> stored_values evs = {RState st} \<Longrightarrow> Q () (evs @ tr)) \<Longrightarrow> wp (save_state H st) Q tr"
  by (rule wp_mono [OF save_stores]) (auto elim!: extendsE)

lemma off_lists:
  "list_all (saving st) evs \<Longrightarrow> list_all (off t) evs"
  "list_all describing evs \<Longrightarrow> t \<noteq> LLM_DESCRIBE_REQUEST_TOPIC \<Longrightarrow> list_all (off t) evs"
  by (auto simp: list_all_iff intro: saving_off describing_off)

definition select_outcome ::
  "entry_codec \<Rightarrow> provider_entry list \<Rightarrow> string \<Rightarrow> string option \<Rightarrow> (reg_value, json) event list \<Rightarrow> bool" where
  "select_outcome E ps i corr evs = (case resolve_selection i ps of
     Inr p \<Rightarrow> pubs_on MODEL_CHANGED_TOPIC evs = [value_of_entry E p] \<and>
       pubs_on SET_RESPONSE_TOPIC evs = [set_active_model_ok_response E p corr] \<and>
       stored_values evs = {RState \<lparr>rs_providers = ps, rs_active_model_id = Some (pe_id p)\<rparr>}
   | Inl e \<Rightarrow> pubs_on MODEL_CHANGED_TOPIC evs = [] \<and>
       pubs_on SET_RESPONSE_TOPIC evs = [set_active_model_error_response (resolve_message e) corr] \<and>
       stored_values evs = {})"

lemma select_run:
  "wp (set_active_model_by_id E H fuel i corr)
     (\<lambda>_ tr'. select_outcome E (known_providers E H fuel tr) i corr (since tr tr')) tr"
proof -
  let ?ps = "known_providers E H fuel tr"
  let ?st = "(loaded H tr)\<lparr>rs_providers := ?ps\<rparr>"
  have tail: "wp (case resolve_selection i ?ps of
       Inr p \<Rightarrow> do {
         save_state H (?st\<lparr>rs_active_model_id := Some (pe_id p)\<rparr>);
         publish_model_changed E H p;
         _ \<leftarrow> publish H SET_RESPONSE_TOPIC (set_active_model_ok_response E p corr);
         ret ()
       }
     | Inl e \<Rightarrow> do {
         _ \<leftarrow> publish H SET_RESPONSE_TOPIC (set_active_model_error_response (resolve_message e) corr);
         ret ()
       }) (\<lambda>_ tr'. select_outcome E ?ps i corr (since tr tr')) (evs @ EvGet STATE_KEY r # tr)"
    if "list_all describing evs" for evs r
    unfolding publish_model_changed_def using that
    by (intro wpI save_run) (simp_all add: select_outcome_def off_lists stored_describing)
  show ?thesis
    unfolding set_active_model_by_id_def
    by (rule wp_bind, rule wp_load_state, rule wp_bind, rule wp_mono [OF providers_known]) (auto intro: tail)
qed

text \<open>
  Selecting a model is answered once.  When the input resolves among the known
  providers, the only state any write carries has that entry's canonical id as its selection, the
  entry is broadcast once and the reply confirms it; when it does not resolve, nothing is written,
  nothing is broadcast and the reply is the error.  The correlation id is echoed in both.\<close>

theorem selection_all_or_nothing:
  "case new_events (set_active_model_by_id E H fuel i corr) tr of evs \<Rightarrow>
   case resolve_selection i (known_providers E H fuel tr) of
     Inr p \<Rightarrow> pubs_on MODEL_CHANGED_TOPIC evs = [value_of_entry E p] \<and>
       pubs_on SET_RESPONSE_TOPIC evs = [set_active_model_ok_response E p corr] \<and>
       stored_values evs = {RState \<lparr>rs_providers = known_providers E H fuel tr, rs_active_model_id = Some (pe_id p)\<rparr>}
   | Inl e \<Rightarrow> pubs_on MODEL_CHANGED_TOPIC evs = [] \<and>
       pubs_on SET_RESPONSE_TOPIC evs = [set_active_model_error_response (resolve_message e) corr] \<and>
       stored_values evs = {}"
  using wp_new_events [OF select_run [where tr = tr and E = E and H = H and fuel = fuel and i = i and corr = corr]] by (simp add: select_outcome_def)

text \<open>
  A save does not see a write that came after its load.  On a store that works, the state an
  operation computed from an earlier load replaces what any other operation stored in between: the
  compare-and-swap compares with the value read again just before it.\<close>

theorem save_replaces_concurrent:
  assumes "live_store H" and "\<And>tr k v. h_cas H tr k (kv_view tr k) v = Inr True"
  shows "case run_state (load_state H) tr of (st, tr1) \<Rightarrow>
     case final_trace (save_state H other) tr1 of tr2 \<Rightarrow>
       kv_view tr2 STATE_KEY = Some (RState other) \<and>
       kv_view (final_trace (save_state H (f st)) tr2) STATE_KEY = Some (RState (f st))"
proof -
  have stored: "kv_view (final_trace (save_state H st) t) STATE_KEY = Some (RState st)" for st t
    using live_store.get_ok [OF assms(1)] assms(2) [of "EvGet STATE_KEY (Inr (kv_view t STATE_KEY)) # t" STATE_KEY "RState st"]
    by (simp add: save_state_def final_trace_def kv_get_def kv_cas_def)
  then show ?thesis by (simp split: prod.split)
qed

lemma save_replaces_concurrent_witness:
  "kv_view (final_trace (save_state mem_host empty_registry)
     (final_trace (save_state mem_host \<lparr>rs_providers = demo_entries, rs_active_model_id = Some ''a:m''\<rparr>)
       (snd (run_state (load_state mem_host) [])))) STATE_KEY = Some (RState empty_registry)"
proof -
  have cas: "h_cas mem_host tr k (kv_view tr k) v = Inr True" for tr k and v :: reg_value
    by (simp add: mem_host_def)
  show ?thesis
    using save_replaces_concurrent [OF mem.live_store_axioms cas, where f = "\<lambda>st. st" and tr = "[]"
      and other = "\<lparr>rs_providers = demo_entries, rs_active_model_id = Some ''a:m''\<rparr>"]
    by (simp add: load_state_def kv_get_def mem_host_def state_of_read_def)
qed

subsection \<open>The topics of the event loop\<close>

definition registry_topics :: "string list" where
  "registry_topics = [LLM_DESCRIBE_REQUEST_TOPIC, MODEL_CHANGED_TOPIC, SET_RESPONSE_TOPIC,
     ACTIVE_RESPONSE_TOPIC, ''registry.v1.response.get_providers'', ''registry.v1.response.models'']"

text \<open>A result topic is the prefix and one plain segment of at most 64 characters.\<close>

definition plain_segment :: "string \<Rightarrow> bool" where
  "plain_segment s \<longleftrightarrow> s \<noteq> [] \<and> length s \<le> 64 \<and> list_all (\<lambda>c. c \<noteq> CHR ''.'' \<and> c \<noteq> CHR ''*'') s"

definition topic_allowed :: "(reg_value, json) event \<Rightarrow> bool" where
  "topic_allowed e = (case pub_of e of None \<Rightarrow> True
   | Some (t, m) \<Rightarrow> t \<in> set registry_topics \<or>
       starts_with CLI_RESULT_TOPIC_PREFIX t \<and> plain_segment (drop (length CLI_RESULT_TOPIC_PREFIX) t))"

definition key_allowed :: "(reg_value, json) event \<Rightarrow> bool" where
  "key_allowed e \<longleftrightarrow> writes_key e \<in> {None, Some STATE_KEY}"

lemma valid_req_id_plain: "is_valid_req_id r \<Longrightarrow> plain_segment r"
  by (auto simp: is_valid_req_id_def plain_segment_def lower_hex_or_hyphen_def MAX_RUN_ID_LEN_def list_all_iff Let_def)

lemma allowed_topics [simp]:
  "topic_allowed (EvPub LLM_DESCRIBE_REQUEST_TOPIC m r)" "topic_allowed (EvPub MODEL_CHANGED_TOPIC m r)"
  "topic_allowed (EvPub SET_RESPONSE_TOPIC m r)" "topic_allowed (EvPub ''registry.v1.response.get_active_model'' m r)"
  "topic_allowed (EvPub ''registry.v1.response.get_providers'' m r)"
  "topic_allowed (EvPub ''registry.v1.response.models'' m r)"
  by (simp_all add: topic_allowed_def registry_topics_def ACTIVE_RESPONSE_TOPIC_def)

lemma allowed_result [simp]: "is_valid_req_id r \<Longrightarrow> topic_allowed (EvPub (CLI_RESULT_TOPIC_PREFIX @ r) m x)"
  by (simp add: topic_allowed_def valid_req_id_plain)

lemma allowed_silent [simp]:
  "topic_allowed (EvSub t r)" "topic_allowed (EvRecv t ms b)" "topic_allowed (EvPoll t b)" "topic_allowed (EvGet k v)"
  "topic_allowed (EvSet k w e)" "topic_allowed (EvCas k old w c)" "topic_allowed (EvMono n)"
  by (simp_all add: topic_allowed_def)

lemma allowed_keys [simp]:
  "key_allowed (EvSub t r)" "key_allowed (EvRecv t ms b)" "key_allowed (EvPoll t b)" "key_allowed (EvGet k v)"
  "key_allowed (EvSet STATE_KEY w e)" "key_allowed (EvCas STATE_KEY old w c)" "key_allowed (EvMono n)"
  "key_allowed (EvPub t m e)"
  by (simp_all add: key_allowed_def)

definition disciplined :: "(reg_value, json) event \<Rightarrow> bool" where
  "disciplined e \<longleftrightarrow> topic_allowed e \<and> key_allowed e"

lemma window_disciplined [everyI]: "every disciplined (discover_window E H start fuel acc)"
  by (induction fuel arbitrary: acc) (auto intro!: everyI simp: disciplined_def)

lemma blocks_disciplined [everyI]:
  "every disciplined (save_state H st)" "every disciplined (load_state H)"
  "every disciplined (publish_model_changed E H p)" "every disciplined (publish_model_cleared H)"
  "every disciplined (discover_providers E H fuel)"
  unfolding save_state_def load_state_def publish_model_changed_def publish_model_cleared_def discover_providers_def
  by (intro everyI; simp add: disciplined_def)+

lemma settling_disciplined [everyI]:
  "every disciplined (reconcile_active_model E H st)" "every disciplined (auto_select_defaults E H st)"
  "every disciplined (refresh_providers E H fuel st)"
  unfolding reconcile_active_model_def auto_select_defaults_def refresh_providers_def by (intro everyI)+

lemma requests_disciplined [everyI]:
  "every disciplined (handle_get_providers E H fuel)" "every disciplined (handle_get_active_model E H fuel)"
  "every disciplined (set_active_model_by_id E H fuel i corr)" "every disciplined (emit_model_selection E H fuel n)"
  unfolding handle_get_providers_def handle_get_active_model_def set_active_model_by_id_def emit_model_selection_def
  by (intro everyI; simp add: disciplined_def)+

lemma set_disciplined [everyI]: "every disciplined (handle_set_active_model E H fuel payload)"
  unfolding handle_set_active_model_def by (intro everyI) (simp add: disciplined_def)

lemma run_models_disciplined:
  "topic_allowed (EvPub t (JObj []) None) \<Longrightarrow> every disciplined (run_models E H fuel t args)"
  unfolding run_models_def by (intro everyI) (simp add: disciplined_def topic_allowed_def)

lemma cli_disciplined [everyI]: "every disciplined (dispatch_cli_run_message E H fuel m)"
  unfolding dispatch_cli_run_message_def Let_def by (intro everyI run_models_disciplined) (auto simp: disciplined_def)

lemma every_case_list [everyI]:
  "every P m \<Longrightarrow> (\<And>x xs. every P (f x xs)) \<Longrightarrow> every P (case r of [] \<Rightarrow> m | x # xs \<Rightarrow> f x xs)"
  by (cases r) simp_all

lemma commands_disciplined [everyI]: "every disciplined (dispatch_command_messages E H fuel n ms)"
  by (induction ms arbitrary: n) (simp_all only: dispatch_command_messages.simps, auto intro!: everyI)

lemma dispatch_disciplined [everyI]:
  "every disciplined (dispatch_registry_messages E H fuel b)" "every disciplined (dispatch_cli_run_messages E H fuel b)"
  "every disciplined (dispatch_selection_messages E H fuel b)" "every disciplined (registry_reload E H fuel)"
  unfolding dispatch_registry_messages_def dispatch_registry_message_def dispatch_cli_run_messages_def
    dispatch_selection_messages_def dispatch_selection_message_def registry_reload_def
  by (intro everyI)+

text \<open>
  What a round of the event loop may do.  Whatever arrives, it publishes only on the registry's
  own topics and on \<open>cli.v1.command.result.\<close> followed by one plain segment, so an untrusted request
  id can neither reach a deeper topic nor be a wildcard; and it writes no key but the registry state.\<close>

theorem registry_round_disciplined:
  "list_all topic_allowed (new_events (registry_round E H fuel n) tr) \<and>
   list_all key_allowed (new_events (registry_round E H fuel n) tr)"
proof -
  have "every disciplined (registry_round E H fuel n)"
    unfolding registry_round_def by (intro everyI) (simp_all add: disciplined_def)
  from every_new_events [OF this, of tr] show ?thesis by (simp add: disciplined_def list_all_iff)
qed

end
