(* ===== verification/Registry_React.thy ===== *)
theory Registry_React
  imports Registry_Requests React_Turn
begin

text \<open>
  The registry and the ReAct loop together: what the registry broadcasts is what the loop acts on.
  The serialiser of a provider entry is a parameter of both; \<open>entry_fields\<close> states what the loop relies
  on: the fields of the entry are there under the names of the contract.
\<close>

lemma white_start: "is_white (c # g) \<Longrightarrow> of_char c \<in> {9 :: nat, 10, 11, 12, 13, 32, 194, 225, 226, 227}"
  by (auto simp: is_white_def Let_def split: list.splits)

lemma utf8_chars_nonempty: "[] \<notin> set (utf8_chars s)"
  by (induction s rule: utf8_chars.induct) auto

lemma trim_groups_Nil: "trim_groups gs = [] \<longleftrightarrow> (\<forall>g\<in>set gs. is_white g)"
  by (auto simp: trim_groups_def dropWhile_eq_Nil_conv dest: set_dropWhileD)
    (metis dropWhile_eq_Nil_conv hd_dropWhile hd_in_set)

lemma blank_first: "blank (c # cs) \<Longrightarrow> is_white (c # takeWhile is_cont cs)"
proof -
  assume "blank (c # cs)"
  then have "set (trim_groups (utf8_chars (c # cs))) \<subseteq> {[]}" by (auto simp: blank_def trim_def concat_eq_Nil_conv)
  moreover have "set (trim_groups gs) \<subseteq> set gs" for gs
    by (auto simp: trim_groups_def dest!: set_dropWhileD)
  ultimately have "trim_groups (utf8_chars (c # cs)) = []"
    using utf8_chars_nonempty [of "c # cs"] by (metis last_in_set singletonD subsetD)
  then show ?thesis by (simp add: trim_groups_Nil)
qed

lemma routed_not_blank: "routed p \<Longrightarrow> \<not> blank (pe_id p)"
proof
  assume "routed p" "blank (pe_id p)"
  then obtain c cs where c: "pe_id p = c # cs" "ascii_alnum c \<or> c = CHR ''-'' \<or> c = CHR ''_''"
    using routed_id [of p]
    by (cases "qualifier_of (pe_id p)")
      (auto simp: routed_def qualifier_of_def is_valid_provider_qualifier_def split: option.splits)
  with white_start [OF blank_first [of c cs]] \<open>blank (pe_id p)\<close> show False
    by (auto simp: ascii_alnum_def)
qed

locale entry_fields =
  fixes E :: entry_codec
  assumes field_id: "get_str ''id'' (value_of_entry E p) = Some (pe_id p)"
    and field_topic: "get_str ''request_topic'' (value_of_entry E p) = Some (pe_request_topic p)"
    and field_window: "get_u64 ''context_window'' (value_of_entry E p) =
      (case pe_context_window p of None \<Rightarrow> None | Some n \<Rightarrow> if n < 2 ^ 64 then Some n else None)"
begin

lemma broadcast_of_routed: "routed p \<Longrightarrow> decide_broadcast (value_of_entry E p) = SetTopic (pe_request_topic p)"
  using field_topic [of p]
  by (auto simp: decide_broadcast_def routed_topic LLM_REQUEST_GENERATE_PREFIX_def provider_topic_prefix_def
      get_str_def starts_with_iff)

lemma nonblank_routed: "routed p \<Longrightarrow> nonblank (Some (pe_id p)) = Some (pe_id p)"
  by (simp add: nonblank_def routed_not_blank)

lemma routed_reaches:
  assumes "react_store HR" "routed p" "from_utf8 (pe_id p) = Some (pe_id p)"
    "from_utf8 (pe_request_topic p) = Some (pe_request_topic p)"
  shows "case final_trace (handle_model_changed HR (value_of_entry E p)) tr of tr' \<Rightarrow>
    fst (run_state (resolve_active_llm HR) tr') = \<lparr>llm_topic = pe_request_topic p, llm_model = Some (pe_id p)\<rparr> \<and>
    fst (run_state (cached_context_window HR) tr') = (case pe_context_window p of
      None \<Rightarrow> None | Some n \<Rightarrow> if 0 < n \<and> n < 2 ^ 64 then Some n else None)"
  using react_store.broadcast_resolves [OF assms(1) broadcast_of_routed [OF assms(2)], of tr] assms(2-4)
  by (auto simp: field_id field_topic field_window utf8_text_def nonblank_routed split: option.splits)

end

text \<open>The registry's own rendering of an entry (\<open>entry_to_json\<close>) keeps the contract.\<close>

interpretation rendered: entry_fields rendered_codec
  by unfold_locales
    (simp_all add: rendered_codec_def entry_to_json_def get_str_def get_u64_def opt_num_def split: option.split)

lemma known_routed: "list_all routed (rs_providers (loaded H tr)) \<Longrightarrow> list_all routed (known_providers E H fuel tr)"
  using discover_routed [of E H fuel "EvGet STATE_KEY (h_get H tr STATE_KEY) # tr"]
  by (simp add: known_providers_def wp_iff)

text \<open>
  C9: A selection made in the registry is the one the ReAct loop uses.  When the input resolves, the one
  broadcast of \<open>set_active_model_by_id\<close>, handled by the loop on a store that works, makes the next
  resolution of the active model return the entry's request topic and canonical id, and its context
  window; nothing the loop had cached before survives.\<close>

theorem selection_reaches_react:
  assumes "entry_fields E" and "react_store HR" and "list_all routed (rs_providers (loaded H tr))"
    and "resolve_selection i (known_providers E H fuel tr) = Inr p"
    and "from_utf8 (pe_id p) = Some (pe_id p)" and "from_utf8 (pe_request_topic p) = Some (pe_request_topic p)"
  shows "case pubs_on MODEL_CHANGED_TOPIC (new_events (set_active_model_by_id E H fuel i corr) tr) of
     [j] \<Rightarrow> (case final_trace (handle_model_changed HR j) tr' of tr'' \<Rightarrow>
       fst (run_state (resolve_active_llm HR) tr'') = \<lparr>llm_topic = pe_request_topic p, llm_model = Some (pe_id p)\<rparr> \<and>
       fst (run_state (cached_context_window HR) tr'') = (case pe_context_window p of
         None \<Rightarrow> None | Some n \<Rightarrow> if 0 < n \<and> n < 2 ^ 64 then Some n else None))
   | _ \<Rightarrow> False"
proof -
  have "routed p"
    using known_routed [OF assms(3)] resolve_in [OF assms(4)] by (auto simp: list_all_iff)
  moreover have "pubs_on MODEL_CHANGED_TOPIC (new_events (set_active_model_by_id E H fuel i corr) tr) = [value_of_entry E p]"
    using wp_new_events [OF select_run [where tr = tr and E = E and H = H and fuel = fuel and i = i and corr = corr]]
    by (simp add: select_outcome_def assms(4))
  ultimately show ?thesis
    using entry_fields.routed_reaches [OF assms(1,2) _ assms(5,6), of tr'] by simp
qed

definition demo_registry :: "(reg_value, json) event list" where
  "demo_registry = [EvSet STATE_KEY (RState \<lparr>rs_providers = demo_entries, rs_active_model_id = None\<rparr>) None]"

lemma selection_reaches_react_witness:
  "case pubs_on MODEL_CHANGED_TOPIC (new_events (set_active_model_by_id rendered_codec mem_host 251 ''k:9'' None) demo_registry) of
     [j] \<Rightarrow> fst (run_state (resolve_active_llm mem_host) (final_trace (handle_model_changed mem_host j) [])) =
       \<lparr>llm_topic = ''llm.v1.request.generate.b'', llm_model = Some ''b:k:9''\<rparr>
   | _ \<Rightarrow> False"
proof -
  have stored: "loaded mem_host demo_registry = \<lparr>rs_providers = demo_entries, rs_active_model_id = None\<rparr>"
    by (simp add: loaded_def demo_registry_def mem_host_def state_of_read_def)
  have known: "known_providers rendered_codec mem_host 251 demo_registry = demo_entries"
    by (simp add: known_providers_def stored demo_entries_def)
  have resolves: "resolve_selection ''k:9'' demo_entries = Inr (demo_entry ''b'' ''k:9'')" by code_simp
  have texts: "from_utf8 (pe_id (demo_entry ''b'' ''k:9'')) = Some (pe_id (demo_entry ''b'' ''k:9''))"
      "from_utf8 (pe_request_topic (demo_entry ''b'' ''k:9'')) = Some (pe_request_topic (demo_entry ''b'' ''k:9''))"
      "pe_id (demo_entry ''b'' ''k:9'') = ''b:k:9''"
      "pe_request_topic (demo_entry ''b'' ''k:9'') = ''llm.v1.request.generate.b''"
    by code_simp+
  show ?thesis
    using selection_reaches_react [OF rendered.entry_fields_axioms mem_react.react_store_axioms, where
        H = mem_host and tr = demo_registry and fuel = 251 and i = "''k:9''" and p = "demo_entry ''b'' ''k:9''"
        and corr = None and tr' = "[]"] demo_entries_routed resolves texts
    by (auto simp: stored known split: list.splits)
qed

end
