(* ===== verification/Session.thy ===== *)
theory Session
  imports Host
begin

text \<open>
  The session store (\<open>capsules/capsule-session/src/lib.rs\<close>), lower part: the stored conversation, its
  migration, the compare-and-swap loops, and the operations every surface shares (list, metadata,
  update, delete, search).

  A stored value is the session it decodes to (\<open>SData\<close>) or bytes that do not decode (\<open>SBytes\<close>).  What
  the SDK computes (messages as JSON, the text of a UUID) and Unicode lower case are the parameter
  \<open>session_lib\<close>.  The pages of a search run on fuel.
\<close>

subsection \<open>Data\<close>

datatype chat_role = System | User | Assistant | Tool
datatype content_part = PartText string | PartImage json
datatype chat_content = ChatText string | MultiPart "content_part list" | ToolCalls json | ToolResult json

record chat_message =
  chat_role :: chat_role
  chat_content :: chat_content

record session_lib =
  chat_to_json :: "chat_message \<Rightarrow> json"
  chat_of_json :: "json \<Rightarrow> chat_message option"
  session_uuid :: "nat \<Rightarrow> string"
  to_lowercase :: "string \<Rightarrow> string"

record session_data =
  sd_schema_version :: nat
  sd_parent :: "string option"
  sd_created_at :: "nat option"
  sd_updated_at :: "nat option"
  sd_title :: "string option"
  sd_archived :: bool
  sd_meta :: "string option"
  sd_messages :: "chat_message list"

datatype sess_value = SData session_data | SBytes string

type_synonym shost = "(sess_value, json) host"
type_synonym 'a sio = "((sess_value, json) event list, 'a) state"
type_synonym 'a sresult = "((sess_value, json) event list, host_error + 'a) state"

definition SESSION_KEY_PREFIX :: string where "SESSION_KEY_PREFIX = ''session.data''"
definition SESSION_DEFAULT_ID :: string where "SESSION_DEFAULT_ID = ''default''"
definition SESSION_DATA_SCHEMA_VERSION :: nat where "SESSION_DATA_SCHEMA_VERSION = 2"
definition DEFAULT_LIST_LIMIT :: nat where "DEFAULT_LIST_LIMIT = 50"
definition MAX_LIST_LIMIT :: nat where "MAX_LIST_LIMIT = 200"
definition DEFAULT_SEARCH_LIMIT :: nat where "DEFAULT_SEARCH_LIMIT = 20"
definition MAX_SEARCH_LIMIT :: nat where "MAX_SEARCH_LIMIT = 100"
definition SEARCH_KEY_SCAN_BUDGET :: nat where "SEARCH_KEY_SCAN_BUDGET = 200"
definition LIST_TOTAL_COUNT_CAP :: nat where "LIST_TOTAL_COUNT_CAP = 1024"
definition PREVIEW_MAX_CHARS :: nat where "PREVIEW_MAX_CHARS = 80"
definition SNIPPET_MAX_CHARS :: nat where "SNIPPET_MAX_CHARS = 120"
definition META_MAX_BYTES :: nat where "META_MAX_BYTES = 8192"
definition CAS_RETRY_LIMIT :: nat where "CAS_RETRY_LIMIT = 8"

definition session_key_prefix :: string where "session_key_prefix = SESSION_KEY_PREFIX @ ''.''"
definition session_key :: "string \<Rightarrow> string" where "session_key sid = session_key_prefix @ sid"

definition now_unix :: "shost \<Rightarrow> nat option sio" where
  "now_unix H = do { t \<leftarrow> time_now H; ret (map_option (\<lambda>ms. ms div 1000) t) }"

subsection \<open>Previews and summaries\<close>

fun first_some :: "('a \<Rightarrow> 'b option) \<Rightarrow> 'a list \<Rightarrow> 'b option" where
  "first_some f [] = None"
| "first_some f (x # xs) = (case f x of None \<Rightarrow> first_some f xs | Some y \<Rightarrow> Some y)"

fun part_text :: "content_part \<Rightarrow> string option" where
  "part_text (PartText t) = Some t"
| "part_text (PartImage j) = None"

definition message_text :: "chat_message \<Rightarrow> string option" where
  "message_text m = (case chat_content m of
     ChatText s \<Rightarrow> Some s
   | MultiPart parts \<Rightarrow> first_some part_text parts
   | ToolCalls j \<Rightarrow> None
   | ToolResult j \<Rightarrow> None)"

definition ellipsis :: string where "ellipsis = [CHR 0xE2, CHR 0x80, CHR 0xA6]"

definition truncate_chars :: "string \<Rightarrow> nat \<Rightarrow> string" where
  "truncate_chars s mx = (if length (utf8_chars s) \<le> mx then s
     else concat (take mx (utf8_chars s)) @ ellipsis)"

definition session_preview :: "chat_message list \<Rightarrow> string option" where
  "session_preview ms = (case find (\<lambda>m. chat_role m = User) ms of
     None \<Rightarrow> None
   | Some m \<Rightarrow> map_option (\<lambda>t. truncate_chars (trim t) PREVIEW_MAX_CHARS) (message_text m))"

definition session_last_message_preview :: "chat_message list \<Rightarrow> string option" where
  "session_last_message_preview ms =
     map_option (\<lambda>t. truncate_chars (trim t) PREVIEW_MAX_CHARS) (first_some message_text (rev ms))"

definition json_opt_str :: "string option \<Rightarrow> json" where
  "json_opt_str s = (case s of None \<Rightarrow> JNull | Some t \<Rightarrow> JStr t)"

definition json_opt_nat :: "nat option \<Rightarrow> json" where
  "json_opt_nat n = (case n of None \<Rightarrow> JNull | Some k \<Rightarrow> JInt (int k))"

definition session_summary_json :: "string \<Rightarrow> session_data \<Rightarrow> json" where
  "session_summary_json sid d = JObj [(''session_id'', JStr sid), (''title'', json_opt_str (sd_title d)),
     (''preview'', json_opt_str (session_preview (sd_messages d))),
     (''last_message_preview'', json_opt_str (session_last_message_preview (sd_messages d))),
     (''message_count'', JInt (int (length (sd_messages d)))),
     (''created_at'', json_opt_nat (sd_created_at d)), (''updated_at'', json_opt_nat (sd_updated_at d)),
     (''archived'', JBool (sd_archived d)), (''parent_session_id'', json_opt_str (sd_parent d)),
     (''meta'', json_opt_str (sd_meta d))]"

subsection \<open>Patches\<close>

datatype 'a patch = KeepField | SetField 'a

definition string_patch_from :: "json \<Rightarrow> string \<Rightarrow> string option patch" where
  "string_patch_from payload key = (case get_str key payload of
     None \<Rightarrow> KeepField
   | Some s \<Rightarrow> if s = [] then SetField None else SetField (Some s))"

definition bool_patch_from :: "json \<Rightarrow> string \<Rightarrow> bool patch" where
  "bool_patch_from payload key = (case get_bool key payload of None \<Rightarrow> KeepField | Some b \<Rightarrow> SetField b)"

fun patched :: "'a patch \<Rightarrow> 'a \<Rightarrow> 'a" where
  "patched KeepField old = old"
| "patched (SetField new) old = new"

definition apply_update_patch ::
  "session_data \<Rightarrow> string option patch \<Rightarrow> bool patch \<Rightarrow> string option patch \<Rightarrow> host_error + session_data" where
  "apply_update_patch d title archived meta =
     (let new_meta = (case meta of SetField (Some m) \<Rightarrow> m | _ \<Rightarrow> []) in
      if META_MAX_BYTES < length new_meta
      then Inl (''session meta exceeds '' @ show_nat META_MAX_BYTES @ '' bytes (got '' @ show_nat (length new_meta) @ '')'')
      else Inr (d\<lparr>sd_title := patched title (sd_title d), sd_archived := patched archived (sd_archived d),
        sd_meta := patched meta (sd_meta d)\<rparr>))"

subsection \<open>Lifecycle events\<close>

datatype session_event_kind = Created | Updated | Deleted

fun kind_str :: "session_event_kind \<Rightarrow> string" where
  "kind_str Created = ''created''"
| "kind_str Updated = ''updated''"
| "kind_str Deleted = ''deleted''"

definition publish_session_event :: "shost \<Rightarrow> session_event_kind \<Rightarrow> string \<Rightarrow> json \<Rightarrow> unit sio" where
  "publish_session_event H kind sid summary = do {
     _ \<leftarrow> publish H (''session.v1.event.'' @ kind_str kind)
       (JObj [(''kind'', JStr (kind_str kind)), (''session_id'', JStr sid), (''summary'', summary)]);
     ret ()
   }"

subsection \<open>Matching\<close>

text \<open>\<open>str::find\<close>: the byte offset of the first occurrence.\<close>

fun find_sub :: "string \<Rightarrow> string \<Rightarrow> nat option" where
  "find_sub p [] = (if p = [] then Some 0 else None)"
| "find_sub p (c # s) = (if starts_with p (c # s) then Some 0 else map_option Suc (find_sub p s))"

definition snippet_around :: "string \<Rightarrow> string \<Rightarrow> nat \<Rightarrow> string" where
  "snippet_around text text_lower byte_pos =
     (let char_pos = length (utf8_chars (take byte_pos text_lower));
          total = length (utf8_chars text);
          start0 = char_pos - SNIPPET_MAX_CHARS div 2;
          stop = min (start0 + SNIPPET_MAX_CHARS) total;
          start = stop - SNIPPET_MAX_CHARS;
          excerpt = concat (take (stop - start) (drop start (utf8_chars text))) in
      (if 0 < start then ellipsis else []) @ trim excerpt @ (if stop < total then ellipsis else []))"

fun search_from ::
  "session_lib \<Rightarrow> string \<Rightarrow> nat \<Rightarrow> string option \<Rightarrow> chat_message list \<Rightarrow> nat \<times> string option" where
  "search_from A query count snippet [] = (count, snippet)"
| "search_from A query count snippet (m # ms) = (case message_text m of
     None \<Rightarrow> search_from A query count snippet ms
   | Some text \<Rightarrow> (case find_sub query (to_lowercase A text) of
       None \<Rightarrow> search_from A query count snippet ms
     | Some pos \<Rightarrow> search_from A query (min (count + 1) (2 ^ 32 - 1))
         (case snippet of None \<Rightarrow> Some (snippet_around text (to_lowercase A text) pos) | Some s \<Rightarrow> Some s) ms))"

definition search_messages ::
  "session_lib \<Rightarrow> chat_message list \<Rightarrow> string \<Rightarrow> (nat \<times> string option) option" where
  "search_messages A ms query = (case search_from A query 0 None ms of
     (count, snippet) \<Rightarrow> if count = 0 then None else Some (count, snippet))"

subsection \<open>Loading and migrating\<close>

definition default_session :: session_data where
  "default_session = \<lparr>sd_schema_version = SESSION_DATA_SCHEMA_VERSION, sd_parent = None, sd_created_at = None,
     sd_updated_at = None, sd_title = None, sd_archived = False, sd_meta = None, sd_messages = []\<rparr>"

definition migrate :: "session_data \<Rightarrow> session_data + session_data \<times> bool" where
  "migrate d =
     (if sd_schema_version d < SESSION_DATA_SCHEMA_VERSION
      then Inr (d\<lparr>sd_schema_version := SESSION_DATA_SCHEMA_VERSION\<rparr>, True)
      else if sd_schema_version d = SESSION_DATA_SCHEMA_VERSION then Inr (d, False)
      else Inl default_session)"

definition touch :: "nat \<Rightarrow> session_data \<Rightarrow> session_data" where
  "touch now d = d\<lparr>sd_created_at := Some (or_default now (sd_created_at d)), sd_updated_at := Some now\<rparr>"

definition touch_opt :: "nat option \<Rightarrow> session_data \<Rightarrow> session_data" where
  "touch_opt now d = (case now of None \<Rightarrow> d | Some n \<Rightarrow> touch n d)"

fun decode_session :: "sess_value \<Rightarrow> session_data" where
  "decode_session (SData d) = d"
| "decode_session (SBytes b) = default_session"

definition load_session :: "shost \<Rightarrow> string \<Rightarrow> (session_data \<times> sess_value option) sio" where
  "load_session H sid = do {
     raw \<leftarrow> kv_get H (session_key sid);
     case raw of
       Inl e \<Rightarrow> ret (default_session, None)
     | Inr v \<Rightarrow> (case v of
         None \<Rightarrow> ret (default_session, None)
       | Some bytes \<Rightarrow> (case migrate (decode_session bytes) of
           Inr (migrated, needs_save) \<Rightarrow>
             if needs_save then do {
               r \<leftarrow> kv_cas H (session_key sid) (Some bytes) (SData migrated);
               ret (migrated, Some (case r of Inr True \<Rightarrow> SData migrated | _ \<Rightarrow> bytes))
             }
             else ret (migrated, Some bytes)
         | Inl fresh \<Rightarrow> ret (fresh, Some bytes)))
   }"

definition contended :: "string \<Rightarrow> string \<Rightarrow> host_error" where
  "contended sid what = ''session '' @ [CHR 0x27] @ sid @ [CHR 0x27] @ '' '' @ what @ '' contended for '' @
     show_nat CAS_RETRY_LIMIT @ '' attempts; giving up to avoid unbounded retry''"

text \<open>The retry loops; \<open>k\<close> attempts are left.\<close>

fun modify_loop ::
  "shost \<Rightarrow> string \<Rightarrow> (session_data \<Rightarrow> session_data) \<Rightarrow> nat \<Rightarrow> session_data sresult" where
  "modify_loop H sid f 0 = ret (Inl (contended sid ''write''))"
| "modify_loop H sid f (Suc k) = do {
     (data, expected) \<leftarrow> load_session H sid;
     r \<leftarrow> kv_cas H (session_key sid) expected (SData (f data));
     case r of
       Inl e \<Rightarrow> ret (Inl e)
     | Inr swapped \<Rightarrow> if swapped then ret (Inr (f data)) else modify_loop H sid f k
   }"

definition modify_atomic :: "shost \<Rightarrow> string \<Rightarrow> (session_data \<Rightarrow> session_data) \<Rightarrow> session_data sresult" where
  "modify_atomic H sid f = modify_loop H sid f CAS_RETRY_LIMIT"

fun modify_existing_loop ::
  "shost \<Rightarrow> string \<Rightarrow> (session_data \<Rightarrow> host_error + session_data) \<Rightarrow> nat \<Rightarrow> session_data option sresult" where
  "modify_existing_loop H sid f 0 = ret (Inl (contended sid ''update''))"
| "modify_existing_loop H sid f (Suc k) = do {
     (data, expected) \<leftarrow> load_session H sid;
     case expected of
       None \<Rightarrow> ret (Inr None)
     | Some bytes \<Rightarrow> (case f data of
         Inl e \<Rightarrow> ret (Inl e)
       | Inr new \<Rightarrow> do {
           r \<leftarrow> kv_cas H (session_key sid) (Some bytes) (SData new);
           case r of
             Inl e \<Rightarrow> ret (Inl e)
           | Inr swapped \<Rightarrow> if swapped then ret (Inr (Some new)) else modify_existing_loop H sid f k
         })
   }"

definition modify_existing ::
  "shost \<Rightarrow> string \<Rightarrow> (session_data \<Rightarrow> host_error + session_data) \<Rightarrow> session_data option sresult" where
  "modify_existing H sid f = modify_existing_loop H sid f CAS_RETRY_LIMIT"

subsection \<open>Shared operations\<close>

definition is_visible :: "bool \<Rightarrow> bool \<Rightarrow> bool" where
  "is_visible archived include_archived \<longleftrightarrow> \<not> archived \<or> include_archived"

definition clamp_to :: "nat \<Rightarrow> nat \<Rightarrow> nat option \<Rightarrow> nat" where
  "clamp_to mx dflt l = (case l of None \<Rightarrow> dflt | Some n \<Rightarrow> max 1 (min mx n))"

definition clamp_list_limit :: "nat option \<Rightarrow> nat" where
  "clamp_list_limit l = clamp_to MAX_LIST_LIMIT DEFAULT_LIST_LIMIT l"

definition clamp_search_limit :: "nat option \<Rightarrow> nat" where
  "clamp_search_limit l = clamp_to MAX_SEARCH_LIMIT DEFAULT_SEARCH_LIMIT l"

definition strip_key :: "string \<Rightarrow> string option" where
  "strip_key key = (if starts_with session_key_prefix key then Some (drop (length session_key_prefix) key) else None)"

fun list_summaries :: "shost \<Rightarrow> bool \<Rightarrow> string list \<Rightarrow> json list sio" where
  "list_summaries H include_archived [] = ret []"
| "list_summaries H include_archived (key # keys) = (case strip_key key of
     None \<Rightarrow> list_summaries H include_archived keys
   | Some sid \<Rightarrow> do {
       (data, raw) \<leftarrow> load_session H sid;
       rest \<leftarrow> list_summaries H include_archived keys;
       ret (if is_visible (sd_archived data) include_archived then session_summary_json sid data # rest else rest)
     })"

definition do_list ::
  "shost \<Rightarrow> bool \<Rightarrow> string option \<Rightarrow> nat \<Rightarrow> (json list \<times> string option \<times> nat option) sresult" where
  "do_list H include_archived cursor limit =
     try_bind (list_keys_page H session_key_prefix cursor limit) (\<lambda>page. do {
       sessions \<leftarrow> list_summaries H include_archived (page_keys page);
       ks \<leftarrow> list_keys H session_key_prefix;
       ret (Inr (sessions, page_next page,
         (case ks of Inr keys \<Rightarrow> if length keys \<le> LIST_TOTAL_COUNT_CAP then Some (length keys) else None | Inl e \<Rightarrow> None)))
     })"

definition do_get_meta :: "shost \<Rightarrow> string \<Rightarrow> json option sresult" where
  "do_get_meta H sid = try_bind (kv_get H (session_key sid)) (\<lambda>v. case v of
     None \<Rightarrow> ret (Inr None)
   | Some b \<Rightarrow> do { (data, raw) \<leftarrow> load_session H sid; ret (Inr (Some (session_summary_json sid data))) })"

definition do_update ::
  "shost \<Rightarrow> string \<Rightarrow> string option patch \<Rightarrow> bool patch \<Rightarrow> string option patch \<Rightarrow> json option sresult" where
  "do_update H sid title archived meta = (case apply_update_patch default_session title archived meta of
     Inl e \<Rightarrow> ret (Inl e)
   | Inr d \<Rightarrow> do {
       now \<leftarrow> now_unix H;
       try_bind (modify_existing H sid (\<lambda>data. map_sum id (touch_opt now) (apply_update_patch data title archived meta)))
         (\<lambda>updated. case updated of
            None \<Rightarrow> ret (Inr None)
          | Some data \<Rightarrow> (let summary = session_summary_json sid data in do {
              publish_session_event H Updated sid summary;
              ret (Inr (Some summary))
            }))
     })"

definition do_delete :: "shost \<Rightarrow> string \<Rightarrow> bool sresult" where
  "do_delete H sid = try_bind (kv_get H (session_key sid)) (\<lambda>v. case v of
     None \<Rightarrow> ret (Inr False)
   | Some b \<Rightarrow> do {
       r \<leftarrow> kv_delete H (session_key sid);
       case r of
         Some e \<Rightarrow> ret (Inl e)
       | None \<Rightarrow> do { publish_session_event H Deleted sid JNull; ret (Inr True) }
     })"

definition search_hit :: "string \<Rightarrow> session_data \<Rightarrow> nat \<Rightarrow> string option \<Rightarrow> json" where
  "search_hit sid data count snippet = JObj [(''session_id'', JStr sid), (''title'', json_opt_str (sd_title data)),
     (''snippet'', json_opt_str snippet), (''match_count'', JInt (int count)),
     (''updated_at'', json_opt_nat (sd_updated_at data))]"

text \<open>
  One page of a search: \<open>Inl\<close> ends the scan with the results and the cursor, \<open>Inr\<close> goes on with the
  results and the number of scanned keys so far.
\<close>

fun scan_keys ::
  "session_lib \<Rightarrow> shost \<Rightarrow> string \<Rightarrow> bool \<Rightarrow> nat \<Rightarrow> json list \<Rightarrow> nat \<Rightarrow> string list \<Rightarrow>
   (json list \<times> string + json list \<times> nat) sio" where
  "scan_keys A H query include_archived limit results scanned [] = ret (Inr (results, scanned))"
| "scan_keys A H query include_archived limit results scanned (key # keys) = (case strip_key key of
     None \<Rightarrow> scan_keys A H query include_archived limit results scanned keys
   | Some sid \<Rightarrow> do {
       (data, raw) \<leftarrow> load_session H sid;
       (let scanned' = min (scanned + 1) (2 ^ 32 - 1);
            hit = (if is_visible (sd_archived data) include_archived then search_messages A (sd_messages data) query else None);
            results' = (case hit of None \<Rightarrow> results | Some (count, snippet) \<Rightarrow> results @ [search_hit sid data count snippet]) in
        if hit \<noteq> None \<and> limit \<le> length results' then ret (Inl (results', key))
        else if SEARCH_KEY_SCAN_BUDGET \<le> scanned' then ret (Inl (results', key))
        else scan_keys A H query include_archived limit results' scanned' keys)
     })"

fun search_pages ::
  "session_lib \<Rightarrow> shost \<Rightarrow> string \<Rightarrow> bool \<Rightarrow> nat \<Rightarrow> nat \<Rightarrow> json list \<Rightarrow> nat \<Rightarrow> string option \<Rightarrow>
   (json list \<times> string option) option sresult" where
  "search_pages A H query include_archived limit 0 results scanned cursor = ret (Inr None)"
| "search_pages A H query include_archived limit (Suc fuel) results scanned cursor =
     try_bind (list_keys_page H session_key_prefix cursor MAX_LIST_LIMIT) (\<lambda>page.
       if page_keys page = [] then ret (Inr (Some (results, None)))
       else do {
         r \<leftarrow> scan_keys A H query include_archived limit results scanned (page_keys page);
         case r of
           Inl (results', key) \<Rightarrow> ret (Inr (Some (results', Some key)))
         | Inr (results', scanned') \<Rightarrow> (case page_next page of
             Some next \<Rightarrow> search_pages A H query include_archived limit fuel results' scanned' (Some next)
           | None \<Rightarrow> ret (Inr (Some (results', None))))
       })"

text \<open>\<open>None\<close> of the inner option: the fuel did not suffice.\<close>

definition do_search ::
  "session_lib \<Rightarrow> shost \<Rightarrow> nat \<Rightarrow> string \<Rightarrow> bool \<Rightarrow> string option \<Rightarrow> nat \<Rightarrow> (json list \<times> string option) option sresult" where
  "do_search A H fuel query include_archived cursor limit =
     (let query_lower = to_lowercase A query in
      if query_lower = [] then ret (Inr (Some ([], None)))
      else search_pages A H query_lower include_archived limit fuel [] 0 cursor)"

definition transcript_json :: "session_lib \<Rightarrow> chat_message list \<Rightarrow> nat option \<Rightarrow> json" where
  "transcript_json A ms limit = JArr (map (chat_to_json A)
     (case limit of Some n \<Rightarrow> drop (length ms - n) ms | None \<Rightarrow> ms))"

end
