(* ===== verification/Session_Handlers.thy ===== *)
theory Session_Handlers
  imports Session
begin

text \<open>
  The session store, upper part: the interceptors, the agent's tools and the operator's command, all
  over the shared operations.  A handler returns \<open>Ok(())\<close> or an error that the kernel reports; the
  text of a \<open>serde\<close> error is left out of a message.
\<close>

subsection \<open>Requests\<close>

definition request_session :: "json \<Rightarrow> string" where
  "request_session payload = or_default SESSION_DEFAULT_ID (get_str ''session_id'' payload)"

definition require_correlation_id :: "json \<Rightarrow> string \<Rightarrow> host_error + string" where
  "require_correlation_id payload name = (case get_str ''correlation_id'' payload of
     Some s \<Rightarrow> if s \<noteq> [] \<and> CHR ''.'' \<notin> set s then Inr s
       else Inl (name @ '' request missing or invalid correlation_id (must be non-empty, no dots)'')
   | None \<Rightarrow> Inl (name @ '' request missing or invalid correlation_id (must be non-empty, no dots)''))"

definition sent :: "shost \<Rightarrow> string \<Rightarrow> json \<Rightarrow> unit sresult" where
  "sent H topic j = do { r \<leftarrow> publish H topic j; ret (case r of None \<Rightarrow> Inr () | Some e \<Rightarrow> Inl e) }"

text \<open>\<open>Vec<Message>\<close> from JSON.\<close>

definition messages_of_json :: "session_lib \<Rightarrow> json \<Rightarrow> chat_message list option" where
  "messages_of_json A j = Option.bind (jarr j) (\<lambda>xs. those (map (chat_of_json A) xs))"

definition append_messages :: "chat_message list \<Rightarrow> nat option \<Rightarrow> session_data \<Rightarrow> session_data" where
  "append_messages ms now d = touch_opt now (d\<lparr>sd_messages := sd_messages d @ ms\<rparr>)"

definition handle_append :: "session_lib \<Rightarrow> shost \<Rightarrow> json \<Rightarrow> unit sresult" where
  "handle_append A H payload =
     (case (case jget ''messages'' payload of None \<Rightarrow> Some [] | Some j \<Rightarrow> messages_of_json A j) of
        None \<Rightarrow> ret (Inl ''Failed to parse messages'')
      | Some ms \<Rightarrow>
          if ms = [] then ret (Inr ())
          else do {
            now \<leftarrow> now_unix H;
            r \<leftarrow> modify_atomic H (request_session payload) (append_messages ms now);
            ret (map_sum id (\<lambda>_. ()) r)
          })"

definition append_and_read :: "session_lib \<Rightarrow> shost \<Rightarrow> json \<Rightarrow> session_data sresult" where
  "append_and_read A H payload = (case jget ''append_before_read'' payload of
     Some j \<Rightarrow> (case messages_of_json A j of
         None \<Rightarrow> ret (Inl ''Failed to parse append_before_read'')
       | Some ms \<Rightarrow>
           if ms = [] then do { (d, raw) \<leftarrow> load_session H (request_session payload); ret (Inr d) }
           else do {
             now \<leftarrow> now_unix H;
             modify_atomic H (request_session payload) (append_messages ms now)
           })
   | None \<Rightarrow> do { (d, raw) \<leftarrow> load_session H (request_session payload); ret (Inr d) })"

definition handle_get_messages :: "session_lib \<Rightarrow> shost \<Rightarrow> json \<Rightarrow> unit sresult" where
  "handle_get_messages A H payload =
     (case require_correlation_id payload ''get_messages'' of
        Inl e \<Rightarrow> ret (Inl e)
      | Inr corr \<Rightarrow> try_bind (append_and_read A H payload) (\<lambda>data.
          sent H (''session.v1.response.get_messages.'' @ corr)
            (JObj [(''correlation_id'', JStr corr), (''messages'', JArr (map (chat_to_json A) (sd_messages data)))])))"

definition fresh_session :: "string \<Rightarrow> nat option \<Rightarrow> session_data" where
  "fresh_session parent now = \<lparr>sd_schema_version = SESSION_DATA_SCHEMA_VERSION, sd_parent = Some parent,
     sd_created_at = now, sd_updated_at = now, sd_title = None, sd_archived = False, sd_meta = None, sd_messages = []\<rparr>"

definition handle_clear :: "session_lib \<Rightarrow> shost \<Rightarrow> json \<Rightarrow> unit sresult" where
  "handle_clear A H payload =
     (let old = request_session payload in
      case require_correlation_id payload ''clear'' of
        Inl e \<Rightarrow> ret (Inl e)
      | Inr corr \<Rightarrow> do {
          u \<leftarrow> new_uuid H;
          now \<leftarrow> now_unix H;
          (let sid = session_uuid A u; data = fresh_session old now in
           try_bind (kv_cas H (session_key sid) None (SData data)) (\<lambda>created.
             if \<not> created then ret (Inl (''session '' @ [CHR 0x27] @ sid @ [CHR 0x27] @
               '' UUID collision detected; refusing to overwrite existing session''))
             else do {
               publish_session_event H Created sid (session_summary_json sid data);
               sent H (''session.v1.response.clear.'' @ corr)
                 (JObj [(''correlation_id'', JStr corr), (''new_session_id'', JStr sid), (''old_session_id'', JStr old)])
             }))
        })"

definition request_limit :: "json \<Rightarrow> nat option" where
  "request_limit payload = map_option (\<lambda>l. min l (2 ^ 32 - 1)) (get_u64 ''limit'' payload)"

definition request_archived :: "json \<Rightarrow> bool" where
  "request_archived payload = or_default False (get_bool ''include_archived'' payload)"

definition handle_list :: "shost \<Rightarrow> json \<Rightarrow> unit sresult" where
  "handle_list H payload =
     (case require_correlation_id payload ''list'' of
        Inl e \<Rightarrow> ret (Inl e)
      | Inr corr \<Rightarrow> try_bind (do_list H (request_archived payload) (get_str ''cursor'' payload)
            (clamp_list_limit (request_limit payload))) (\<lambda>(sessions, next_cursor, total).
          sent H (''session.v1.response.list.'' @ corr)
            (JObj [(''correlation_id'', JStr corr), (''sessions'', JArr sessions),
               (''next_cursor'', json_opt_str next_cursor), (''total'', json_opt_nat total)])))"

definition handle_get_meta :: "shost \<Rightarrow> json \<Rightarrow> unit sresult" where
  "handle_get_meta H payload =
     (case require_correlation_id payload ''get_meta'' of
        Inl e \<Rightarrow> ret (Inl e)
      | Inr corr \<Rightarrow> try_bind (do_get_meta H (request_session payload)) (\<lambda>session.
          sent H (''session.v1.response.get_meta.'' @ corr)
            (JObj [(''correlation_id'', JStr corr), (''session'', or_default JNull session)])))"

definition handle_update :: "shost \<Rightarrow> json \<Rightarrow> unit sresult" where
  "handle_update H payload =
     (case require_correlation_id payload ''update'' of
        Inl e \<Rightarrow> ret (Inl e)
      | Inr corr \<Rightarrow> try_bind (do_update H (request_session payload) (string_patch_from payload ''title'')
            (bool_patch_from payload ''archived'') (string_patch_from payload ''meta'')) (\<lambda>session.
          sent H (''session.v1.response.update.'' @ corr)
            (JObj [(''correlation_id'', JStr corr), (''session'', or_default JNull session)])))"

definition handle_delete :: "shost \<Rightarrow> json \<Rightarrow> unit sresult" where
  "handle_delete H payload =
     (case require_correlation_id payload ''delete'' of
        Inl e \<Rightarrow> ret (Inl e)
      | Inr corr \<Rightarrow> try_bind (do_delete H (request_session payload)) (\<lambda>deleted.
          sent H (''session.v1.response.delete.'' @ corr)
            (JObj [(''correlation_id'', JStr corr), (''deleted'', JBool deleted)])))"

text \<open>A search that runs out of fuel returns nothing here; \<open>search_bounded\<close> states how much is enough.\<close>

definition handle_search :: "session_lib \<Rightarrow> shost \<Rightarrow> nat \<Rightarrow> json \<Rightarrow> unit sresult" where
  "handle_search A H fuel payload =
     (case require_correlation_id payload ''search'' of
        Inl e \<Rightarrow> ret (Inl e)
      | Inr corr \<Rightarrow> try_bind (do_search A H fuel (or_default [] (get_str ''query'' payload)) (request_archived payload)
            (get_str ''cursor'' payload) (clamp_search_limit (request_limit payload))) (\<lambda>found. case found of
          None \<Rightarrow> ret (Inl ''out of fuel'')
        | Some (results, next_cursor) \<Rightarrow> sent H (''session.v1.response.search.'' @ corr)
            (JObj [(''correlation_id'', JStr corr), (''results'', JArr results),
               (''next_cursor'', json_opt_str next_cursor)])))"

subsection \<open>The agent's tools\<close>

definition list_threads :: "shost \<Rightarrow> bool option \<Rightarrow> nat option \<Rightarrow> json sresult" where
  "list_threads H include_archived limit =
     try_bind (do_list H (or_default False include_archived) None
         (clamp_list_limit (case limit of None \<Rightarrow> Some DEFAULT_LIST_LIMIT | Some l \<Rightarrow> Some l)))
       (\<lambda>(sessions, next_cursor, total). ret (Inr (JObj [(''sessions'', JArr sessions),
          (''next_cursor'', json_opt_str next_cursor)])))"

definition get_thread :: "session_lib \<Rightarrow> shost \<Rightarrow> string \<Rightarrow> nat option \<Rightarrow> json sresult" where
  "get_thread A H sid limit = do {
     (data, raw) \<leftarrow> load_session H sid;
     ret (Inr (JObj [(''session_id'', JStr sid), (''messages'', transcript_json A (sd_messages data) limit)]))
   }"

definition search_conversations ::
  "session_lib \<Rightarrow> shost \<Rightarrow> nat \<Rightarrow> string \<Rightarrow> nat option \<Rightarrow> bool option \<Rightarrow> json sresult" where
  "search_conversations A H fuel query limit include_archived =
     try_bind (do_search A H fuel query (or_default False include_archived) None
         (clamp_search_limit (case limit of None \<Rightarrow> Some DEFAULT_SEARCH_LIMIT | Some l \<Rightarrow> Some l)))
       (\<lambda>found. ret (case found of
          None \<Rightarrow> Inl ''out of fuel''
        | Some (results, next_cursor) \<Rightarrow> Inr (JObj [(''results'', JArr results), (''next_cursor'', json_opt_str next_cursor)])))"

subsection \<open>The operator's command\<close>

record command_flags =
  flag_all :: bool
  flag_limit :: "nat option"

definition parse_u32 :: "string \<Rightarrow> nat option" where
  "parse_u32 s = (case parse_u64 s of None \<Rightarrow> None | Some n \<Rightarrow> if n < 2 ^ 32 then Some n else None)"

fun parse_args :: "command_flags \<Rightarrow> string list \<Rightarrow> string list \<Rightarrow> command_flags \<times> string list" where
  "parse_args flags positional [] = (flags, positional)"
| "parse_args flags positional [tok] =
     (if tok = ''--all'' then (flags\<lparr>flag_all := True\<rparr>, positional)
      else if tok = ''-y'' \<or> starts_with ''--'' tok then (flags, positional)
      else (flags, positional @ [tok]))"
| "parse_args flags positional (tok # arg # rest) =
     (if tok = ''--all'' then parse_args (flags\<lparr>flag_all := True\<rparr>) positional (arg # rest)
      else if tok = ''--limit'' then parse_args (flags\<lparr>flag_limit := parse_u32 arg\<rparr>) positional rest
      else if tok = ''-y'' \<or> starts_with ''--'' tok then parse_args flags positional (arg # rest)
      else parse_args flags (positional @ [tok]) (arg # rest))"

definition no_flags :: command_flags where "no_flags = \<lparr>flag_all = False, flag_limit = None\<rparr>"

definition newline :: string where "newline = [CHR 0x0A]"

definition trim_end :: "string \<Rightarrow> string" where
  "trim_end s = concat (rev (dropWhile is_white (rev (utf8_chars s))))"

definition quoted_id :: "string \<Rightarrow> string" where
  "quoted_id s = [CHR 0x27] @ s @ [CHR 0x27]"

fun join_words :: "string list \<Rightarrow> string" where
  "join_words [] = []"
| "join_words [w] = w"
| "join_words (w # v # vs) = w @ '' '' @ join_words (v # vs)"

definition list_line :: "json \<Rightarrow> string" where
  "list_line s = or_default ''?'' (get_str ''session_id'' s) @ ''  '' @
     (case get_str ''title'' s of Some t \<Rightarrow> t | None \<Rightarrow> or_default ''(no title)'' (get_str ''preview'' s)) @
     ''  ('' @ show_nat (or_default 0 (get_u64 ''message_count'' s)) @ '' msgs, updated '' @
     (case get_u64 ''updated_at'' s of Some u \<Rightarrow> show_nat u | None \<Rightarrow> ''-'') @ '')'' @
     (if or_default False (get_bool ''archived'' s) then '' [archived]'' else []) @ newline"

definition cmd_list :: "shost \<Rightarrow> string list \<Rightarrow> string sresult" where
  "cmd_list H args = (case parse_args no_flags [] args of (flags, positional) \<Rightarrow>
     try_bind (do_list H (flag_all flags) None (clamp_list_limit (flag_limit flags))) (\<lambda>(sessions, next_cursor, total).
       ret (Inr (if sessions = [] then ''No sessions.''
         else trim_end ((case total of Some t \<Rightarrow> show_nat t @ '' session(s):'' @ newline | None \<Rightarrow> []) @
           concat (map list_line sessions))))))"

fun role_name :: "chat_role \<Rightarrow> string" where
  "role_name System = ''system''"
| "role_name User = ''user''"
| "role_name Assistant = ''assistant''"
| "role_name Tool = ''tool''"

definition show_line :: "chat_message \<Rightarrow> string" where
  "show_line m = role_name (chat_role m) @ '': '' @ or_default ''(non-text content)'' (message_text m) @ newline"

definition cmd_show :: "shost \<Rightarrow> string list \<Rightarrow> string sresult" where
  "cmd_show H args = (case parse_args no_flags [] args of (flags, positional) \<Rightarrow> (case positional of
     [] \<Rightarrow> ret (Inr ''Usage: session show <id> [--limit N]'')
   | sid # extra \<Rightarrow> do {
       (data, raw) \<leftarrow> load_session H sid;
       ret (Inr (if sd_messages data = []
         then ''Session '' @ quoted_id sid @ '' has no messages (or does not exist).''
         else trim_end (concat (map show_line (case flag_limit flags of
             Some n \<Rightarrow> drop (length (sd_messages data) - n) (sd_messages data)
           | None \<Rightarrow> sd_messages data)))))
     }))"

definition rename_usage :: string where
  "rename_usage = ''Usage: session rename <id> <title'' @ ellipsis @ ''>''"

definition cmd_rename :: "shost \<Rightarrow> string list \<Rightarrow> string sresult" where
  "cmd_rename H args = (case snd (parse_args no_flags [] args) of
     [] \<Rightarrow> ret (Inr rename_usage)
   | sid # title_parts \<Rightarrow>
       if title_parts = [] then ret (Inr rename_usage)
       else try_bind (do_update H sid (SetField (Some (join_words title_parts))) KeepField KeepField) (\<lambda>r.
         ret (Inr (case r of
           Some s \<Rightarrow> ''Renamed session '' @ quoted_id sid @ '' to: '' @ join_words title_parts
         | None \<Rightarrow> ''No such session: '' @ quoted_id sid))))"

definition cmd_set_archived :: "shost \<Rightarrow> string list \<Rightarrow> bool \<Rightarrow> string sresult" where
  "cmd_set_archived H args archived = (case snd (parse_args no_flags [] args) of
     [] \<Rightarrow> ret (Inr (''Usage: session '' @ (if archived then ''archive'' else ''unarchive'') @ '' <id>''))
   | sid # extra \<Rightarrow> try_bind (do_update H sid KeepField (SetField archived) KeepField) (\<lambda>r.
       ret (Inr (case r of
         Some s \<Rightarrow> (if archived then ''Archived'' else ''Unarchived'') @ '' session '' @ quoted_id sid
       | None \<Rightarrow> ''No such session: '' @ quoted_id sid))))"

definition cmd_delete :: "shost \<Rightarrow> string list \<Rightarrow> string sresult" where
  "cmd_delete H args = (case snd (parse_args no_flags [] args) of
     [] \<Rightarrow> ret (Inr ''Usage: session delete <id>'')
   | sid # extra \<Rightarrow> try_bind (do_delete H sid) (\<lambda>deleted.
       ret (Inr (if deleted then ''Deleted session '' @ quoted_id sid @ '' (irreversible).''
         else ''No such session: '' @ quoted_id sid))))"

definition hit_line :: "json \<Rightarrow> string" where
  "hit_line r = or_default ''?'' (get_str ''session_id'' r) @ ''  '' @ or_default ''(no title)'' (get_str ''title'' r) @
     ''  ('' @ show_nat (or_default 0 (get_u64 ''match_count'' r)) @ '' hits)  '' @
     or_default [] (get_str ''snippet'' r) @ newline"

definition cmd_search :: "session_lib \<Rightarrow> shost \<Rightarrow> nat \<Rightarrow> string list \<Rightarrow> string sresult" where
  "cmd_search A H fuel args = (case parse_args no_flags [] args of (flags, positional) \<Rightarrow>
     if positional = [] then ret (Inr (''Usage: session search <query'' @ ellipsis @ ''> [--all] [--limit N]''))
     else (let query = join_words positional in
       try_bind (do_search A H fuel query (flag_all flags) None (clamp_search_limit (flag_limit flags))) (\<lambda>found.
         ret (case found of
           None \<Rightarrow> Inl ''out of fuel''
         | Some (results, next_cursor) \<Rightarrow> Inr (if results = [] then ''No matches for '' @ quoted_id query @ ''.''
             else trim_end (show_nat (length results) @ '' match(es) for '' @ quoted_id query @ '':'' @ newline @
               concat (map hit_line results)))))))"

definition run_session_command :: "session_lib \<Rightarrow> shost \<Rightarrow> nat \<Rightarrow> string \<Rightarrow> string sresult" where
  "run_session_command A H fuel line = (let tokens = drop 1 (split_whitespace line);
       sub = (case tokens of [] \<Rightarrow> [] | s # _ \<Rightarrow> s); rest = drop 1 tokens in
     if sub = ''list'' \<or> sub = [] then cmd_list H rest
     else if sub = ''show'' then cmd_show H rest
     else if sub = ''rename'' then cmd_rename H rest
     else if sub = ''archive'' then cmd_set_archived H rest True
     else if sub = ''unarchive'' then cmd_set_archived H rest False
     else if sub = ''delete'' then cmd_delete H rest
     else if sub = ''search'' then cmd_search A H fuel rest
     else ret (Inr (''Unknown session subcommand '' @ quoted_id sub @
       ''. Try: list, show, rename, archive, unarchive, delete, search.'')))"

definition handle_command :: "session_lib \<Rightarrow> shost \<Rightarrow> nat \<Rightarrow> json \<Rightarrow> unit sresult" where
  "handle_command A H fuel payload = do {
     r \<leftarrow> run_session_command A H fuel (or_default [] (get_str ''text'' payload));
     sent H ''agent.v1.response'' (JObj [(''type'', JStr ''agent_response''),
       (''text'', JStr (case r of Inr s \<Rightarrow> s | Inl e \<Rightarrow> ''Error: '' @ e)), (''is_final'', JBool True),
       (''session_id'', JStr (request_session payload))])
   }"

end
