(* ===== verification/Session_Spec.thy ===== *)
theory Session_Spec
  imports Session_Handlers
begin

text \<open>
  Correctness of the session store: no update is lost, what an append leaves to be read, and what an update
  and a clear may write.
\<close>

subsection \<open>Loading\<close>

text \<open>The session that a stored value stands for, after migration; a missing one is the default.\<close>

definition healed :: "session_data \<Rightarrow> session_data" where
  "healed d = (case migrate d of Inr (m, needs_save) \<Rightarrow> m | Inl fresh \<Rightarrow> fresh)"

definition current :: "sess_value option \<Rightarrow> session_data" where
  "current v = (case v of None \<Rightarrow> default_session | Some b \<Rightarrow> healed (decode_session b))"

lemma migrate_migrated: "migrate d = Inr (m, True) \<Longrightarrow> migrate m = Inr (m, False)"
  by (auto simp: migrate_def split: if_splits)

lemma current_migrated: "migrate d = Inr (m, True) \<Longrightarrow> current (Some (SData m)) = m"
  by (simp add: current_def healed_def migrate_migrated)

lemma current_simps [simp]: "current None = default_session"
  by (simp add: current_def)

lemma current_kept: "sd_schema_version d = SESSION_DATA_SCHEMA_VERSION \<Longrightarrow> current (Some (SData d)) = d"
  by (simp add: current_def healed_def migrate_def)

text \<open>
  Upkeep: an event that publishes nothing and changes nothing but the version of the session \<open>sid\<close>; a
  lost swap changes nothing.
\<close>

fun upkeep :: "string \<Rightarrow> (sess_value, json) event \<Rightarrow> bool" where
  "upkeep sid (EvSet k v e) = False"
| "upkeep sid (EvDel k e) = False"
| "upkeep sid (EvClear p r) = False"
| "upkeep sid (EvPub t m e) = False"
| "upkeep sid (EvCas k old new r) = (k = session_key sid \<and> (r = Inr True \<longrightarrow>
     (case (old, new) of (Some b, SData m) \<Rightarrow> migrate (decode_session b) = Inr (m, True) | _ \<Rightarrow> False)))"
| "upkeep sid e = True"

lemma load_run:
  "wp (load_session H sid) (\<lambda>(d, raw) tr'. \<exists>evs. tr' = evs @ tr \<and> list_all (upkeep sid) evs \<and> d = current raw) tr"
  unfolding load_session_def
  by (intro wpI) (auto simp: current_def healed_def migrate_migrated split: sum.split bool.split)

lemma load_wp: "(\<And>d raw evs. list_all (upkeep sid) evs \<Longrightarrow> d = current raw \<Longrightarrow> Q (d, raw) (evs @ tr)) \<Longrightarrow>
   wp (load_session H sid) Q tr"
  by (rule wp_mono [OF load_run]) auto

definition committed :: "string \<Rightarrow> (session_data \<Rightarrow> session_data) \<Rightarrow> host_error + session_data \<Rightarrow> (sess_value, json) event list \<Rightarrow> bool" where
  "committed sid f r evs = (case r of
     Inr d \<Rightarrow> \<exists>old before. evs = EvCas (session_key sid) old (SData d) (Inr True) # before \<and>
       d = f (current old) \<and> list_all (upkeep sid) before
   | Inl e \<Rightarrow> list_all (upkeep sid) evs)"

lemma committed_append: "committed sid f r evs \<Longrightarrow> list_all (upkeep sid) before \<Longrightarrow> committed sid f r (evs @ before)"
  by (auto simp: committed_def split: sum.splits)

lemma modify_loop_run:
  "wp (modify_loop H sid f k) (\<lambda>r tr'. \<exists>evs. tr' = evs @ tr \<and> committed sid f r evs) tr"
proof (induction k arbitrary: tr)
  case 0
  show ?case by (simp add: wp_return committed_def)
next
  case (Suc k)
  have again: "wp (modify_loop H sid f k) (\<lambda>r tr'. \<exists>evs. tr' = evs @ tr \<and> committed sid f r evs) (e # before @ tr)"
    if "upkeep sid e" "list_all (upkeep sid) before" for e before
    using that committed_append [where before = "e # before"] by (intro wp_mono [OF Suc.IH]) fastforce
  show ?case
    unfolding modify_loop.simps
    by (intro wpI load_wp again) (auto simp: committed_def)
qed

text \<open>
  C11: No update is lost.  On every host, whatever other writers do: when \<open>modify_atomic\<close> succeeds, its
  last call is a winning swap, and the value that swap replaced is the one the change was applied to;
  everything before is upkeep.  When it fails, nothing but upkeep happened.\<close>

theorem modify_loses_no_update:
  "case run_state (modify_atomic H sid f) tr of (r, tr') \<Rightarrow> \<exists>evs. tr' = evs @ tr \<and> (case r of
     Inr d \<Rightarrow> \<exists>old before. evs = EvCas (session_key sid) old (SData d) (Inr True) # before \<and>
       d = f (current old) \<and> list_all (upkeep sid) before
   | Inl e \<Rightarrow> list_all (upkeep sid) evs)"
  using modify_loop_run [of H sid f CAS_RETRY_LIMIT tr] unfolding modify_atomic_def wp_def committed_def by simp

subsection \<open>Updates\<close>

definition replaced ::
  "string \<Rightarrow> (session_data \<Rightarrow> host_error + session_data) \<Rightarrow> host_error + session_data option \<Rightarrow> (sess_value, json) event list \<Rightarrow> bool" where
  "replaced sid f r evs = (case r of
     Inr (Some d) \<Rightarrow> \<exists>b before. evs = EvCas (session_key sid) (Some b) (SData d) (Inr True) # before \<and>
       f (current (Some b)) = Inr d \<and> list_all (upkeep sid) before
   | _ \<Rightarrow> list_all (upkeep sid) evs)"

lemma replaced_append: "replaced sid f r evs \<Longrightarrow> list_all (upkeep sid) before \<Longrightarrow> replaced sid f r (evs @ before)"
  by (auto simp: replaced_def split: sum.splits option.splits)

lemma existing_loop_run:
  "wp (modify_existing_loop H sid f k) (\<lambda>r tr'. \<exists>evs. tr' = evs @ tr \<and> replaced sid f r evs) tr"
proof (induction k arbitrary: tr)
  case 0
  show ?case by (simp add: wp_return replaced_def)
next
  case (Suc k)
  have again: "wp (modify_existing_loop H sid f k) (\<lambda>r tr'. \<exists>evs. tr' = evs @ tr \<and> replaced sid f r evs) (e # before @ tr)"
    if "upkeep sid e" "list_all (upkeep sid) before" for e before
    using that replaced_append [where before = "e # before"] by (intro wp_mono [OF Suc.IH]) fastforce
  show ?case
    unfolding modify_existing_loop.simps
    by (intro wpI load_wp again) (auto simp: replaced_def)
qed

lemma patch_fields:
  assumes "apply_update_patch c title archived meta = Inr d"
  shows "sd_title d = patched title (sd_title c)" "sd_archived d = patched archived (sd_archived c)"
    "sd_meta d = patched meta (sd_meta c)" "sd_messages d = sd_messages c" "sd_parent d = sd_parent c"
  using assms by (auto simp: apply_update_patch_def Let_def split: if_splits)

lemma touch_fields [simp]:
  "sd_title (touch_opt now d) = sd_title d" "sd_archived (touch_opt now d) = sd_archived d"
  "sd_meta (touch_opt now d) = sd_meta d" "sd_messages (touch_opt now d) = sd_messages d"
  "sd_parent (touch_opt now d) = sd_parent d"
  "sd_schema_version (touch_opt now d) = sd_schema_version d"
  by (simp_all add: touch_opt_def touch_def split: option.split)

text \<open>What an update of the session \<open>sid\<close> did: the fields of its patch and no other.\<close>

definition patched_fields ::
  "string option patch \<Rightarrow> bool patch \<Rightarrow> string option patch \<Rightarrow> session_data \<Rightarrow> session_data \<Rightarrow> bool" where
  "patched_fields title archived meta c d \<longleftrightarrow> sd_title d = patched title (sd_title c) \<and>
     sd_archived d = patched archived (sd_archived c) \<and> sd_meta d = patched meta (sd_meta c) \<and>
     sd_messages d = sd_messages c \<and> sd_parent d = sd_parent c"

definition updated_event :: "string \<Rightarrow> session_data \<Rightarrow> json" where
  "updated_event sid d = JObj [(''kind'', JStr ''updated''), (''session_id'', JStr sid),
     (''summary'', session_summary_json sid d)]"

definition update_outcome ::
  "string \<Rightarrow> string option patch \<Rightarrow> bool patch \<Rightarrow> string option patch \<Rightarrow> host_error + json option \<Rightarrow>
   (sess_value, json) event list \<Rightarrow> bool" where
  "update_outcome sid title archived meta r evs = (case r of
     Inr (Some s) \<Rightarrow> \<exists>b d e before. evs = EvPub ''session.v1.event.updated'' (updated_event sid d) e #
         EvCas (session_key sid) (Some b) (SData d) (Inr True) # before \<and> list_all (upkeep sid) before \<and>
       patched_fields title archived meta (current (Some b)) d \<and> s = session_summary_json sid d
   | _ \<Rightarrow> list_all (upkeep sid) evs)"

lemma update_run:
  "wp (do_update H sid title archived meta) (\<lambda>r tr'. \<exists>evs. tr' = evs @ tr \<and> update_outcome sid title archived meta r evs) tr"
proof (cases "apply_update_patch default_session title archived meta")
  case (Inr d0)
  show ?thesis
    unfolding do_update_def Inr sum.case now_unix_def modify_existing_def
  proof (intro wpI, rule wp_mono [OF existing_loop_run], elim exE conjE)
    fix t r tr' evs
    let ?f = "\<lambda>data. map_sum id (touch_opt (map_option (\<lambda>ms. ms div 1000) t)) (apply_update_patch data title archived meta)"
    assume evs: "tr' = evs @ EvTime t # tr" "replaced sid ?f r evs"
    have fields: "patched_fields title archived meta c d" if "?f c = Inr d" for c d
      using that patch_fields [of c title archived meta]
      by (cases "apply_update_patch c title archived meta") (auto simp: patched_fields_def)
    show "(\<forall>e. r = Inl e \<longrightarrow> (\<exists>evs. tr' = evs @ tr \<and> update_outcome sid title archived meta (Inl e) evs)) \<and>
      (\<forall>x. r = Inr x \<longrightarrow> wp (case x of None \<Rightarrow> ret (Inr None)
          | Some data \<Rightarrow> let summary = session_summary_json sid data in publish_session_event H Updated sid summary \<bind>
              (\<lambda>_. ret (Inr (Some summary))))
        (\<lambda>r tr'. \<exists>evs. tr' = evs @ tr \<and> update_outcome sid title archived meta r evs) tr')"
      using evs fields
      by (auto simp: replaced_def update_outcome_def publish_session_event_def updated_event_def intro!: wpI
          split: option.splits)
  qed
qed (simp add: do_update_def wp_return update_outcome_def)

text \<open>
  An update changes what its patch names and creates nothing.  On every host, when \<open>do_update\<close>
  reports a thread, its writes are upkeep and one winning swap of an existing value, whose fields are
  the patched ones and whose messages and parent are unchanged, followed by one event with that
  thread's summary.  When it reports none or fails, nothing but upkeep happened, and an oversized
  \<open>meta\<close> is refused before any call.\<close>

theorem update_by_presence:
  "case run_state (do_update H sid title archived meta) tr of (r, tr') \<Rightarrow> \<exists>evs. tr' = evs @ tr \<and>
     (case r of
        Inr (Some s) \<Rightarrow> \<exists>b d e before. evs = EvPub ''session.v1.event.updated'' (updated_event sid d) e #
            EvCas (session_key sid) (Some b) (SData d) (Inr True) # before \<and> list_all (upkeep sid) before \<and>
          patched_fields title archived meta (current (Some b)) d \<and> s = session_summary_json sid d
      | _ \<Rightarrow> list_all (upkeep sid) evs) \<and>
     (case meta of SetField (Some m) \<Rightarrow> length m \<le> META_MAX_BYTES \<or> evs = [] | _ \<Rightarrow> True)"
proof -
  have oversize: "do_update H sid title archived meta = ret (Inl e)"
    if "apply_update_patch default_session title archived meta = Inl e" for e
    using that by (simp add: do_update_def)
  have big: "case meta of SetField (Some m) \<Rightarrow> length m \<le> META_MAX_BYTES \<or>
      (\<exists>e. apply_update_patch default_session title archived meta = Inl e) | _ \<Rightarrow> True"
    by (simp add: apply_update_patch_def split: patch.split option.split)
  show ?thesis
    using update_run [of H sid title archived meta tr] big oversize
    unfolding wp_def update_outcome_def
    by (auto split: prod.splits patch.splits option.splits) 
qed

text \<open>An SDK whose messages are plain texts.\<close>

definition plain_lib :: session_lib where
  "plain_lib = \<lparr>
     chat_to_json = (\<lambda>m. case message_text m of Some t \<Rightarrow> JStr t | None \<Rightarrow> JNull),
     chat_of_json = (\<lambda>j. case j of JStr t \<Rightarrow> Some \<lparr>chat_role = User, chat_content = ChatText t\<rparr> | _ \<Rightarrow> None),
     session_uuid = show_nat, to_lowercase = (\<lambda>s. s)\<rparr>"

subsection \<open>Clearing\<close>

text \<open>A clear on a store whose swaps are honest.\<close>

definition cleared_to :: "json \<Rightarrow> (sess_value, json) event list \<Rightarrow> (sess_value, json) event list \<Rightarrow> bool" where
  "cleared_to payload tr tr' \<longleftrightarrow> (\<exists>sid now. kv_view tr (session_key sid) = None \<and>
     kv_view tr' (session_key sid) = Some (SData (fresh_session (request_session payload) now)) \<and>
     get_str ''new_session_id'' (last (JNull # map snd (pubs (since tr tr')))) = Some sid)"

lemma clear_run:
  assumes "kv_store H" "kv_view tr k = Some v"
  shows "wp (handle_clear A H payload) (\<lambda>r tr'. kv_view tr' k = Some v \<and> (r = Inr () \<longrightarrow> cleared_to payload tr tr')) tr"
proof -
  have swap: "wp (kv_cas H key None d) Q t"
    if "\<And>r. (r = Inr True \<Longrightarrow> kv_view t key = None) \<Longrightarrow> Q r (EvCas key None d r # t)" for key d Q t
    using that by (intro kv_store.wp_cas_view [OF assms(1)]) auto
  show ?thesis
    supply wp_kv_cas [wpI del]
    unfolding handle_clear_def Let_def publish_session_event_def sent_def now_unix_def
    by (intro wpI swap) (use assms(2) in \<open>auto simp: cleared_to_def get_str_def intro!: wpI\<close>)
qed

text \<open>
  Clearing keeps history.  On a store whose reads and swaps are honest, a clear leaves every stored
  value as it is; when it succeeds, the session that its last publication names was free before and is
  now an empty one whose parent is the cleared session.\<close>

theorem clear_keeps_history:
  assumes "kv_store H" and "kv_view tr k = Some v"
  shows "case run_state (handle_clear A H payload) tr of (r, tr') \<Rightarrow> kv_view tr' k = Some v \<and>
     (case r of Inl e \<Rightarrow> True
      | Inr u \<Rightarrow> \<exists>sid now. kv_view tr (session_key sid) = None \<and>
          kv_view tr' (session_key sid) = Some (SData (fresh_session (request_session payload) now)) \<and>
          get_str ''new_session_id'' (last (JNull # map snd (pubs (since tr tr')))) = Some sid)"
  using clear_run [OF assms, of A payload] by (auto simp: wp_def cleared_to_def split: prod.splits sum.splits)

definition old_session :: session_data where
  "old_session = default_session\<lparr>sd_messages := [\<lparr>chat_role = User, chat_content = ChatText ''a''\<rparr>]\<rparr>"

definition old_trace :: "(sess_value, json) event list" where
  "old_trace = [EvSet (session_key ''default'') (SData old_session) None]"

definition clear_request :: json where
  "clear_request = JObj [(''correlation_id'', JStr ''k1'')]"

lemma clear_keeps_history_witness:
  "case run_state (handle_clear plain_lib mem_host clear_request) old_trace of (r, tr') \<Rightarrow>
     kv_view tr' (session_key ''default'') = Some (SData old_session) \<and>
     (case r of Inl e \<Rightarrow> True
      | Inr u \<Rightarrow> \<exists>sid now. kv_view old_trace (session_key sid) = None \<and>
          kv_view tr' (session_key sid) = Some (SData (fresh_session (request_session clear_request) now)) \<and>
          get_str ''new_session_id'' (last (JNull # map snd (pubs (since old_trace tr')))) = Some sid)"
  by (rule clear_keeps_history [OF mem.kv_store_axioms]) (simp add: old_trace_def)

subsection \<open>Appending and reading back\<close>

locale atomic_store = live_store H for H :: shost +
  assumes cas_ok: "h_cas H tr k old new = Inr (kv_view tr k = old)"
begin

lemma run_cas [simp]: "run_state (kv_cas H k old new) tr = (Inr (kv_view tr k = old), EvCas k old new (Inr (kv_view tr k = old)) # tr)"
  by (simp add: kv_cas_def cas_ok)

lemma load_atomic:
  "wp (load_session H sid) (\<lambda>(d, raw) tr'. d = current (kv_view tr (session_key sid)) \<and>
     raw = kv_view tr' (session_key sid) \<and> current raw = d \<and> (\<exists>evs. tr' = evs @ tr \<and> pubs evs = [])) tr"
proof (cases "kv_view tr (session_key sid)")
  case None
  then show ?thesis by (simp add: load_session_def wp_iff)
next
  case (Some b)
  then show ?thesis
    by (cases "migrate (decode_session b)")
      (auto simp: load_session_def wp_iff current_def healed_def migrate_migrated split: prod.splits
        intro: exI [where x = "[_]"] exI [where x = "[_, _]"])
qed

lemma loop_succeeds:
  "wp (modify_loop H sid f (Suc k)) (\<lambda>r tr'. r = Inr (f (current (kv_view tr (session_key sid)))) \<and>
     kv_view tr' (session_key sid) = Some (SData (f (current (kv_view tr (session_key sid))))) \<and>
     (\<exists>evs. tr' = evs @ tr \<and> pubs evs = [])) tr"
  unfolding modify_loop.simps
  by (rule wp_bind, rule wp_mono [OF load_atomic]) (auto simp: wp_iff intro: exI [where x = "_ # _"])

lemma modify_succeeds:
  "wp (modify_atomic H sid f) (\<lambda>r tr'. r = Inr (f (current (kv_view tr (session_key sid)))) \<and>
     kv_view tr' (session_key sid) = Some (SData (f (current (kv_view tr (session_key sid))))) \<and>
     (\<exists>evs. tr' = evs @ tr \<and> pubs evs = [])) tr"
  unfolding modify_atomic_def CAS_RETRY_LIMIT_def numeral_eq_Suc by (rule loop_succeeds)

end

interpretation mem_session: atomic_store mem_host
  by unfold_locales simp

definition append_request :: "string \<Rightarrow> json \<Rightarrow> json" where
  "append_request sid ms = JObj [(''session_id'', JStr sid), (''messages'', ms)]"

definition read_request :: "string \<Rightarrow> string \<Rightarrow> json" where
  "read_request sid corr = JObj [(''session_id'', JStr sid), (''correlation_id'', JStr corr)]"

lemma request_fields [simp]:
  "request_session (append_request sid j) = sid" "jget ''messages'' (append_request sid j) = Some j"
  "request_session (read_request sid corr) = sid" "jget ''append_before_read'' (read_request sid corr) = None"
  "get_str ''correlation_id'' (read_request sid corr) = Some corr"
  by (simp_all add: request_session_def append_request_def read_request_def get_str_def)

context atomic_store
begin

lemma append_stores:
  assumes "messages_of_json A j = Some ms" "ms \<noteq> []"
  shows "\<exists>now. kv_view (final_trace (handle_append A H (append_request sid j)) tr) (session_key sid) =
    Some (SData (append_messages ms now (current (kv_view tr (session_key sid)))))"
proof -
  have "wp (handle_append A H (append_request sid j)) (\<lambda>_ tr'. \<exists>now. kv_view tr' (session_key sid) =
      Some (SData (append_messages ms now (current (kv_view tr (session_key sid)))))) tr"
    using assms unfolding handle_append_def now_unix_def
    by (simp del: kv_view.simps) (intro wpI wp_mono [OF modify_succeeds], auto)
  then show ?thesis by (rule wp_final)
qed

lemma read_replies:
  assumes "corr \<noteq> []" "CHR ''.'' \<notin> set corr"
  shows "pubs_on (''session.v1.response.get_messages.'' @ corr) (new_events (handle_get_messages A H (read_request sid corr)) tr) =
    [JObj [(''correlation_id'', JStr corr),
      (''messages'', JArr (map (chat_to_json A) (sd_messages (current (kv_view tr (session_key sid))))))]]"
proof -
  have "wp (handle_get_messages A H (read_request sid corr))
      (\<lambda>_ tr'. pubs_on (''session.v1.response.get_messages.'' @ corr) (since tr tr') =
       [JObj [(''correlation_id'', JStr corr),
        (''messages'', JArr (map (chat_to_json A) (sd_messages (current (kv_view tr (session_key sid))))))]]) tr"
    using assms unfolding handle_get_messages_def append_and_read_def sent_def
    by (simp add: require_correlation_id_def)
      (intro wpI wp_mono [OF load_atomic], auto simp: pubs_on_def intro!: wpI)
  then show ?thesis by (rule wp_new_events)
qed

end

text \<open>
  What is appended is what is read.  On a store that works, after an append of messages a read
  replies, once and on the topic of its correlation id, with the messages the session had followed by
  the appended ones, each as the codec writes it.\<close>

theorem append_then_read:
  assumes "atomic_store H" and "messages_of_json A j = Some ms" and "ms \<noteq> []"
    and "corr \<noteq> []" and "CHR ''.'' \<notin> set corr"
  shows "case final_trace (handle_append A H (append_request sid j)) tr of tr' \<Rightarrow>
    pubs_on (''session.v1.response.get_messages.'' @ corr) (new_events (handle_get_messages A H (read_request sid corr)) tr') =
    [JObj [(''correlation_id'', JStr corr), (''messages'', JArr (map (chat_to_json A)
       (sd_messages (current (kv_view tr (session_key sid))) @ ms)))]]"
proof -
  let ?d = "current (kv_view tr (session_key sid))"
  obtain now where stored: "kv_view (final_trace (handle_append A H (append_request sid j)) tr) (session_key sid) =
      Some (SData (append_messages ms now ?d))"
    using atomic_store.append_stores [OF assms(1-3)] by blast
  have "sd_schema_version ?d = SESSION_DATA_SCHEMA_VERSION"
    by (auto simp: current_def healed_def migrate_def default_session_def split: option.splits)
  then have "current (Some (SData (append_messages ms now ?d))) = append_messages ms now ?d"
    by (intro current_kept) (simp add: append_messages_def)
  then show ?thesis
    using atomic_store.read_replies [OF assms(1,4,5)] stored by (simp add: append_messages_def)
qed

lemma append_then_read_witness:
  "case final_trace (handle_append plain_lib mem_host (append_request ''s1'' (JArr [JStr ''b'']))) [] of tr' \<Rightarrow>
    pubs_on ''session.v1.response.get_messages.k1'' (new_events (handle_get_messages plain_lib mem_host (read_request ''s1'' ''k1'')) tr') =
    [JObj [(''correlation_id'', JStr ''k1''), (''messages'', JArr [JStr ''b''])]]"
proof -
  have parsed: "messages_of_json plain_lib (JArr [JStr ''b'']) = Some [\<lparr>chat_role = User, chat_content = ChatText ''b''\<rparr>]"
    by (simp add: messages_of_json_def plain_lib_def)
  have shown: "chat_to_json plain_lib \<lparr>chat_role = User, chat_content = ChatText ''b''\<rparr> = JStr ''b''"
    by (simp add: plain_lib_def message_text_def)
  show ?thesis
    using append_then_read [OF mem_session.atomic_store_axioms parsed, of "''k1''" "''s1''" "[]"]
    by (simp add: shown default_session_def)
qed

text \<open>
  C35: A session of a newer schema, or one that does not decode, loses its history to the next append:
  the store then holds the appended messages alone.\<close>

theorem newer_session_truncated:
  assumes "atomic_store H" and "messages_of_json A j = Some ms" and "ms \<noteq> []"
    and "kv_view tr (session_key sid) = Some b"
    and "case b of SData d \<Rightarrow> SESSION_DATA_SCHEMA_VERSION < sd_schema_version d | SBytes t \<Rightarrow> True"
  shows "\<exists>d. kv_view (final_trace (handle_append A H (append_request sid j)) tr) (session_key sid) = Some (SData d) \<and>
    sd_messages d = ms \<and> sd_parent d = None"
proof -
  have "current (Some b) = default_session"
    using assms(5) by (auto simp: current_def healed_def migrate_def default_session_def split: sess_value.splits)
  then show ?thesis
    using atomic_store.append_stores [OF assms(1-3), of sid tr] assms(4)
    by (auto simp: append_messages_def default_session_def)
qed

definition newer_trace :: "(sess_value, json) event list" where
  "newer_trace = [EvSet (session_key ''s1'') (SData (old_session\<lparr>sd_schema_version := 3\<rparr>)) None]"

lemma newer_session_truncated_witness:
  "\<exists>d. kv_view (final_trace (handle_append plain_lib mem_host (append_request ''s1'' (JArr [JStr ''b''])))
      newer_trace) (session_key ''s1'') = Some (SData d) \<and>
    sd_messages d = [\<lparr>chat_role = User, chat_content = ChatText ''b''\<rparr>] \<and> sd_parent d = None"
proof -
  have stored: "kv_view newer_trace (session_key ''s1'') = Some (SData (old_session\<lparr>sd_schema_version := 3\<rparr>))"
    by (simp add: newer_trace_def)
  show ?thesis
    by (rule newer_session_truncated [OF mem_session.atomic_store_axioms _ _ stored])
      (simp_all add: messages_of_json_def plain_lib_def SESSION_DATA_SCHEMA_VERSION_def)
qed

end
