(* ===== verification/Session_Search.thy ===== *)
theory Session_Search
  imports Session_Spec
begin

text \<open>
  The search over a principal's sessions: how much of the store one call reads, how many hits it
  returns, and that the walk over the pages ends.  Of the host's listing the code relies on the
  contract that a page holds keys of the requested prefix (\<open>listing\<close>).
\<close>

fun is_read :: "(sess_value, json) event \<Rightarrow> bool" where
  "is_read (EvGet k r) = True"
| "is_read _ = False"

definition reads :: "(sess_value, json) event list \<Rightarrow> nat" where
  "reads evs = length (filter is_read evs)"

lemma reads_simps [simp]:
  "reads [] = 0" "reads (e # evs) = (if is_read e then Suc (reads evs) else reads evs)"
  "reads (evs @ evs') = reads evs + reads evs'"
  by (simp_all add: reads_def)

lemma load_reads_once: "wp (load_session H sid) (\<lambda>_ tr'. \<exists>evs. tr' = evs @ tr \<and> reads evs = 1) tr"
  unfolding load_session_def
  by (intro wpI) (auto intro: exI [where x = "[_]"] exI [where x = "[_, _]"])

locale listing =
  fixes H :: shost
  assumes prefixed: "h_keys_page H tr session_key_prefix c n = Inr page \<Longrightarrow> list_all (\<lambda>k. strip_key k \<noteq> None) (page_keys page)"
begin

lemma scan_run:
  "list_all (\<lambda>k. strip_key k \<noteq> None) keys \<Longrightarrow> length results < limit \<Longrightarrow> scanned < SEARCH_KEY_SCAN_BUDGET \<Longrightarrow>
   wp (scan_keys A H query inc limit results scanned keys) (\<lambda>r tr'. \<exists>evs. tr' = evs @ tr \<and> (case r of
      Inl (hits, key) \<Rightarrow> length hits \<le> limit \<and> scanned + reads evs \<le> SEARCH_KEY_SCAN_BUDGET
    | Inr (hits, scanned') \<Rightarrow> length hits < limit \<and> scanned' = scanned + length keys \<and> reads evs = length keys \<and>
        scanned' < SEARCH_KEY_SCAN_BUDGET)) tr"
proof (induction keys arbitrary: results scanned tr)
  case Nil
  then show ?case by (simp add: wp_return)
next
  case (Cons key keys)
  obtain sid where sid: "strip_key key = Some sid" using Cons.prems(1) by auto
  have small: "min (scanned + 1) (2 ^ 32 - 1) = scanned + 1"
    using Cons.prems(3) by (simp add: SEARCH_KEY_SCAN_BUDGET_def)
  show ?case
    unfolding scan_keys.simps sid option.case
  proof (rule wp_bind, rule wp_mono [OF load_reads_once], elim exE conjE)
    fix x :: "session_data \<times> sess_value option" and tr1 evs assume evs: "tr1 = evs @ tr" "reads evs = 1"
    obtain data raw where x: "x = (data, raw)" by (cases x)
    let ?hit = "if is_visible (sd_archived data) inc then search_messages A (sd_messages data) query else None"
    let ?results = "case ?hit of None \<Rightarrow> results | Some (count, snippet) \<Rightarrow> results @ [search_hit sid data count snippet]"
    have grows: "length ?results \<le> Suc (length results)" by (simp split: option.split)
    have kept: "length ?results < limit" if "\<not> (?hit \<noteq> None \<and> limit \<le> length ?results)"
      using that Cons.prems(2) by (cases ?hit) (auto simp: not_le)
    have rest: "wp (scan_keys A H query inc limit ?results (scanned + 1) keys) (\<lambda>r tr'. \<exists>evs. tr' = evs @ tr \<and> (case r of
      Inl (hits, key) \<Rightarrow> length hits \<le> limit \<and> scanned + reads evs \<le> SEARCH_KEY_SCAN_BUDGET
    | Inr (hits, scanned') \<Rightarrow> length hits < limit \<and> scanned' = scanned + length (key # keys) \<and>
        reads evs = length (key # keys) \<and> scanned' < SEARCH_KEY_SCAN_BUDGET)) tr1"
      if "length ?results < limit" "scanned + 1 < SEARCH_KEY_SCAN_BUDGET"
      using that Cons.prems(1) evs by (intro wp_mono [OF Cons.IH]) (auto split: sum.splits)
    show "wp (case x of (data, raw) \<Rightarrow> let scanned' = min (scanned + 1) (2 ^ 32 - 1);
            hit = (if is_visible (sd_archived data) inc then search_messages A (sd_messages data) query else None);
            results' = (case hit of None \<Rightarrow> results | Some (count, snippet) \<Rightarrow> results @ [search_hit sid data count snippet]) in
        if hit \<noteq> None \<and> limit \<le> length results' then ret (Inl (results', key))
        else if SEARCH_KEY_SCAN_BUDGET \<le> scanned' then ret (Inl (results', key))
        else scan_keys A H query inc limit results' scanned' keys)
      (\<lambda>r tr'. \<exists>evs. tr' = evs @ tr \<and> (case r of
        Inl (hits, key) \<Rightarrow> length hits \<le> limit \<and> scanned + reads evs \<le> SEARCH_KEY_SCAN_BUDGET
      | Inr (hits, scanned') \<Rightarrow> length hits < limit \<and> scanned' = scanned + length (key # keys) \<and>
          reads evs = length (key # keys) \<and> scanned' < SEARCH_KEY_SCAN_BUDGET)) tr1"
      unfolding x prod.case Let_def small
      using Cons.prems(2,3) grows kept evs by (intro wp_if wp_return rest) auto
  qed
qed

lemma pages_run:
  "SEARCH_KEY_SCAN_BUDGET < fuel + scanned \<Longrightarrow> length results < limit \<Longrightarrow> scanned < SEARCH_KEY_SCAN_BUDGET \<Longrightarrow>
   wp (search_pages A H query inc limit fuel results scanned cursor) (\<lambda>r tr'. r \<noteq> Inr None \<and>
     (\<exists>evs. tr' = evs @ tr \<and> scanned + reads evs \<le> SEARCH_KEY_SCAN_BUDGET) \<and>
     (case r of Inr (Some (hits, next)) \<Rightarrow> length hits \<le> limit | _ \<Rightarrow> True)) tr"
proof (induction fuel arbitrary: results scanned cursor tr)
  case (Suc fuel)
  have page: "wp (list_keys_page H session_key_prefix cursor MAX_LIST_LIMIT) Q tr"
    if "\<And>r. (\<And>page. r = Inr page \<Longrightarrow> list_all (\<lambda>k. strip_key k \<noteq> None) (page_keys page)) \<Longrightarrow>
      Q r (EvKeysPage session_key_prefix cursor MAX_LIST_LIMIT r # tr)" for Q
    using that prefixed by (auto simp: list_keys_page_def wp_iff)
  show ?case
    unfolding search_pages.simps
  proof (intro wp_try_bind page conjI allI impI wp_if wp_return)
    fix r :: "host_error + key_page" and pg
    assume prefixed: "\<And>page. r = Inr page \<Longrightarrow> list_all (\<lambda>k. strip_key k \<noteq> None) (page_keys page)"
      and r: "r = Inr pg" and some: "page_keys pg \<noteq> []"
    let ?tr = "EvKeysPage session_key_prefix cursor MAX_LIST_LIMIT r # tr"
    have more: "1 \<le> length (page_keys pg)" using some by (cases "page_keys pg") auto
    show "wp (do { r \<leftarrow> scan_keys A H query inc limit results scanned (page_keys pg);
         case r of
           Inl (results', key) \<Rightarrow> ret (Inr (Some (results', Some key)))
         | Inr (results', scanned') \<Rightarrow> (case page_next pg of
             Some next \<Rightarrow> search_pages A H query inc limit fuel results' scanned' (Some next)
           | None \<Rightarrow> ret (Inr (Some (results', None)))) })
       (\<lambda>r tr'. r \<noteq> Inr None \<and> (\<exists>evs. tr' = evs @ tr \<and> scanned + reads evs \<le> SEARCH_KEY_SCAN_BUDGET) \<and>
         (case r of Inr (Some (hits, next)) \<Rightarrow> length hits \<le> limit | _ \<Rightarrow> True)) ?tr"
    proof (rule wp_bind, rule wp_mono [OF scan_run], goal_cases)
      case (4 x t)
      then obtain evs where evs: "t = evs @ ?tr" and outcome: "case x of
          Inl (hits, key) \<Rightarrow> length hits \<le> limit \<and> scanned + reads evs \<le> SEARCH_KEY_SCAN_BUDGET
        | Inr (hits, scanned') \<Rightarrow> length hits < limit \<and> scanned' = scanned + length (page_keys pg) \<and>
            reads evs = length (page_keys pg) \<and> scanned' < SEARCH_KEY_SCAN_BUDGET" by auto
      have again: "wp (search_pages A H query inc limit fuel hits (scanned + length (page_keys pg)) (Some nxt))
          (\<lambda>r tr'. r \<noteq> Inr None \<and> (\<exists>evs. tr' = evs @ tr \<and> scanned + reads evs \<le> SEARCH_KEY_SCAN_BUDGET) \<and>
          (case r of Inr (Some (hits, next)) \<Rightarrow> length hits \<le> limit | _ \<Rightarrow> True)) t"
        if "x = Inr (hits, scanned')" for hits scanned' nxt
        using that outcome evs more Suc.prems(1) by (intro wp_mono [OF Suc.IH]) auto
      show ?case
      proof (cases x)
        case (Inl hit)
        then show ?thesis using outcome evs Suc.prems(2) by (auto intro!: wpI split: prod.splits)
      next
        case (Inr found)
        then show ?thesis
          using outcome evs Suc.prems again
          by (cases found; cases "page_next pg") (auto intro!: wpI)
      qed
    qed (use Suc.prems prefixed [OF r] in auto)
  qed (use Suc.prems in auto)
qed simp

end

interpretation mem_listing: listing mem_host
  by unfold_locales (auto simp: mem_host_def)

lemma clamped_positive: "0 < clamp_search_limit l" "clamp_search_limit l \<le> MAX_SEARCH_LIMIT"
  by (auto simp: clamp_search_limit_def clamp_to_def DEFAULT_SEARCH_LIMIT_def MAX_SEARCH_LIMIT_def split: option.split)

text \<open>
  C34: A search ends within its budget.  If the host's pages hold keys of the requested prefix, then with
  the limit that every surface passes, 201 pages of fuel suffice for any store and any query: the search
  loads at most 200 sessions and returns at most the limit of hits.  A page is empty (the search stops)
  or costs at least one read, so no store can make it run on.\<close>

theorem search_bounded:
  assumes "listing H" and "SEARCH_KEY_SCAN_BUDGET < fuel"
  shows "case run_state (do_search A H fuel query inc cursor (clamp_search_limit l)) tr of (r, tr') \<Rightarrow>
    r \<noteq> Inr None \<and> (\<exists>evs. tr' = evs @ tr \<and> reads evs \<le> 200) \<and>
    (case r of Inr (Some (hits, nxt)) \<Rightarrow> length hits \<le> clamp_search_limit l | _ \<Rightarrow> True)"
proof -
  have "wp (do_search A H fuel query inc cursor (clamp_search_limit l)) (\<lambda>r tr'. r \<noteq> Inr None \<and>
     (\<exists>evs. tr' = evs @ tr \<and> 0 + reads evs \<le> SEARCH_KEY_SCAN_BUDGET) \<and>
     (case r of Inr (Some (hits, nxt)) \<Rightarrow> length hits \<le> clamp_search_limit l | _ \<Rightarrow> True)) tr"
    unfolding do_search_def Let_def
    using assms(2) clamped_positive(1) [of l]
    by (intro wp_if wp_return listing.pages_run [OF assms(1)]) (auto simp: SEARCH_KEY_SCAN_BUDGET_def)
  then show ?thesis by (simp add: wp_def SEARCH_KEY_SCAN_BUDGET_def split: prod.splits)
qed

text \<open>A store whose single page never ends: every cursor leads to the same key again.\<close>

definition endless_host :: shost where
  "endless_host = mem_host\<lparr>h_keys_page := (\<lambda>tr p c n. Inr \<lparr>page_keys = [session_key ''s1''], page_next = Some ''again''\<rparr>)\<rparr>"

interpretation endless: listing endless_host
  by unfold_locales (auto simp: endless_host_def strip_key_def session_key_def starts_with_append)

lemma search_bounded_witness:
  "case run_state (do_search plain_lib endless_host 201 ''a'' True None (clamp_search_limit (Some 5))) [] of (r, tr') \<Rightarrow>
    r \<noteq> Inr None \<and> (\<exists>evs. tr' = evs @ [] \<and> reads evs \<le> 200) \<and>
    (case r of Inr (Some (hits, nxt)) \<Rightarrow> length hits \<le> clamp_search_limit (Some 5) | _ \<Rightarrow> True)"
  by (rule search_bounded [OF endless.listing_axioms]) (simp add: SEARCH_KEY_SCAN_BUDGET_def)

end
