(* ===== verification/Context_Engine.thy ===== *)
theory Context_Engine
  imports Host
begin

text \<open>
  The context engine (\<open>capsules/capsule-context-engine/src/lib.rs\<close>, \<open>strategy.rs\<close>): the compaction
  strategy, the fan-out to plugins before it, the two request handlers and the event loop.

  The counter of request ids is an argument that the functions return advanced; the hook fan-out runs
  on fuel, each round reading the clock and receiving once.  The texts of \<open>serde\<close>'s errors are a
  parameter (\<open>serde_errors\<close>).
\<close>

type_synonym chost = "(unit, json) host"
type_synonym 'a cio = "((unit, json) event list, 'a) state"

record serde_errors =
  compact_error :: "json \<Rightarrow> string"
  estimate_error :: "json \<Rightarrow> string"

subsection \<open>Requests\<close>

record compact_call =
  cq_session_id :: string
  cq_messages :: "json list"
  cq_max_tokens :: nat
  cq_target_tokens :: nat

definition decode_compact_call :: "json \<Rightarrow> compact_call option" where
  "decode_compact_call j = (if struct_shape 4 j then
     (case (req_string 0 ''session_id'' j, Option.bind (field 1 ''messages'' j) jarr,
        Option.bind (field 2 ''max_tokens'' j) ju64, Option.bind (field 3 ''target_tokens'' j) ju64) of
        (Some sid, Some ms, Some mx, Some tg) \<Rightarrow> Some \<lparr>cq_session_id = sid, cq_messages = ms,
          cq_max_tokens = mx, cq_target_tokens = tg\<rparr>
      | _ \<Rightarrow> None) else None)"

definition decode_estimate_call :: "json \<Rightarrow> json list option" where
  "decode_estimate_call j = (if struct_shape 1 j then Option.bind (field 0 ''messages'' j) jarr else None)"

definition compact_response :: "json list \<Rightarrow> bool \<Rightarrow> nat \<Rightarrow> string \<Rightarrow> json" where
  "compact_response ms compacted removed strategy = JObj [(''messages'', JArr ms), (''compacted'', JBool compacted),
     (''messages_removed'', JInt (int removed)), (''strategy'', JStr strategy)]"

text \<open>A plugin's answer: every field optional, the list under either of two names but not both.\<close>

record hook_response =
  hr_skip :: "bool option"
  hr_pinned_message_ids :: "string list"
  hr_custom_strategy :: "string option"

definition maybe_bool :: "json option \<Rightarrow> bool option option" where
  "maybe_bool v = (case v of None \<Rightarrow> Some None | Some JNull \<Rightarrow> Some None
     | Some j \<Rightarrow> (case jbool j of None \<Rightarrow> None | Some b \<Rightarrow> Some (Some b)))"

definition string_list :: "json \<Rightarrow> string list option" where
  "string_list j = Option.bind (jarr j) (\<lambda>xs. those (map jstr xs))"

definition pinned_ids :: "json \<Rightarrow> string list option" where
  "pinned_ids j = (case (field 1 ''pinnedMessageIds'' j, jget ''protected_message_ids'' j) of
     (None, None) \<Rightarrow> Some []
   | (Some v, None) \<Rightarrow> string_list v
   | (None, Some v) \<Rightarrow> string_list v
   | (Some v, Some w) \<Rightarrow> None)"

definition decode_hook_response :: "json \<Rightarrow> hook_response option" where
  "decode_hook_response j = (if struct_shape 3 j then
     (case (maybe_bool (field 0 ''skip'' j), pinned_ids j, maybe_string 2 ''customStrategy'' j) of
        (Some s, Some ids, Some c) \<Rightarrow> Some \<lparr>hr_skip = s, hr_pinned_message_ids = ids, hr_custom_strategy = c\<rparr>
      | _ \<Rightarrow> None) else None)"

definition has_any_field :: "hook_response \<Rightarrow> bool" where
  "has_any_field r \<longleftrightarrow> hr_skip r \<noteq> None \<or> hr_pinned_message_ids r \<noteq> [] \<or> hr_custom_strategy r \<noteq> None"

subsection \<open>Configuration\<close>

definition DEFAULT_HOOK_POLL_TIMEOUT_MS :: nat where "DEFAULT_HOOK_POLL_TIMEOUT_MS = 2000"
definition MAX_HOOK_RESPONSES :: nat where "MAX_HOOK_RESPONSES = 50"
definition HOOK_FIRST_RESPONSE_MS :: nat where "HOOK_FIRST_RESPONSE_MS = 250"
definition HOOK_IDLE_GRACE_MS :: nat where "HOOK_IDLE_GRACE_MS = 100"
definition DEFAULT_KEEP_RECENT :: nat where "DEFAULT_KEEP_RECENT = 10"
definition HOOK_POLL_INTERVAL_MS :: nat where "HOOK_POLL_INTERVAL_MS = 1000"

record engine_config =
  hook_timeout_ms :: nat
  hook_first_response_ms :: nat
  hook_idle_grace_ms :: nat
  keep_recent :: nat

text \<open>\<open>usize\<close> has 32 bits on the capsules' target (\<open>wasm32\<close>).\<close>

definition parse_usize :: "string \<Rightarrow> nat option" where
  "parse_usize s = (case parse_u64 s of None \<Rightarrow> None | Some n \<Rightarrow> if n < 2 ^ 32 then Some n else None)"

definition env_u64 :: "chost \<Rightarrow> string \<Rightarrow> nat \<Rightarrow> nat cio" where
  "env_u64 H key dflt = do { v \<leftarrow> env_var H key; ret (or_default dflt (Option.bind (config_text v) parse_u64)) }"

definition load_config :: "chost \<Rightarrow> engine_config cio" where
  "load_config H = do {
     k \<leftarrow> env_var H ''keep_recent'';
     t \<leftarrow> env_u64 H ''hook_timeout_ms'' DEFAULT_HOOK_POLL_TIMEOUT_MS;
     f \<leftarrow> env_u64 H ''hook_first_response_ms'' HOOK_FIRST_RESPONSE_MS;
     g \<leftarrow> env_u64 H ''hook_idle_grace_ms'' HOOK_IDLE_GRACE_MS;
     ret \<lparr>hook_timeout_ms = t, hook_first_response_ms = f, hook_idle_grace_ms = g,
       keep_recent = or_default DEFAULT_KEEP_RECENT (Option.bind (config_text k) parse_usize)\<rparr>
   }"

definition hook_recv_timeout :: "bool \<Rightarrow> nat \<Rightarrow> nat \<Rightarrow> nat \<Rightarrow> nat \<Rightarrow> nat option" where
  "hook_recv_timeout have_response elapsed remaining first_response idle_grace =
     (if remaining = 0 then None
      else if have_response then Some (min idle_grace remaining)
      else (let first_remaining = first_response - elapsed in
        if first_remaining = 0 then None else Some (min first_remaining remaining)))"

subsection \<open>The strategy\<close>

definition estimate_tokens :: "(json \<Rightarrow> string) \<Rightarrow> json \<Rightarrow> nat" where
  "estimate_tokens render m = (min (length (render m)) (2 ^ 64 - 1) + 3) div 4"

definition saturating_add :: "nat \<Rightarrow> nat \<Rightarrow> nat" where
  "saturating_add a b = min (a + b) (2 ^ 64 - 1)"

definition estimate_total_tokens :: "(json \<Rightarrow> string) \<Rightarrow> json list \<Rightarrow> nat" where
  "estimate_total_tokens render ms = foldl saturating_add 0 (map (estimate_tokens render) ms)"

definition message_id :: "json \<Rightarrow> string option" where
  "message_id m = Option.bind (case jget ''id'' m of None \<Rightarrow> jget ''message_id'' m | Some v \<Rightarrow> Some v) jstr"

definition is_protected :: "string set \<Rightarrow> json \<Rightarrow> bool" where
  "is_protected ids m = (case message_id m of None \<Rightarrow> False | Some i \<Rightarrow> i \<in> ids)"

definition removable_indices :: "nat \<Rightarrow> string set \<Rightarrow> json list \<Rightarrow> nat list" where
  "removable_indices recent_start ids ms =
     map fst (filter (\<lambda>(i, m). i < recent_start \<and> \<not> is_protected ids m) (enumerate 0 ms))"

text \<open>Oldest first, until the running estimate is within the target: the removed indices.\<close>

fun remove_until :: "(json \<Rightarrow> string) \<Rightarrow> json list \<Rightarrow> nat \<Rightarrow> nat \<Rightarrow> nat list \<Rightarrow> nat list" where
  "remove_until render ms target running [] = []"
| "remove_until render ms target running (i # idxs) =
     (if running \<le> target then []
      else i # remove_until render ms target (running - estimate_tokens render (ms ! i)) idxs)"

definition summarize_and_truncate ::
  "(json \<Rightarrow> string) \<Rightarrow> json list \<Rightarrow> nat \<Rightarrow> string set \<Rightarrow> nat \<Rightarrow> json list" where
  "summarize_and_truncate render ms target ids keep =
     (if ms = [] then []
      else if estimate_total_tokens render ms \<le> target then ms
      else (let removed = remove_until render ms target (estimate_total_tokens render ms)
              (removable_indices (length ms - keep) ids ms) in
        map snd (filter (\<lambda>(i, m). i \<notin> set removed) (enumerate 0 ms))))"

subsection \<open>The hook before a compaction\<close>

record merged_hooks =
  merged_skip :: bool
  merged_protected :: "string set"

definition merge_before_compaction_responses :: "hook_response list \<Rightarrow> merged_hooks" where
  "merge_before_compaction_responses rs = \<lparr>merged_skip = list_ex (\<lambda>r. hr_skip r = Some True) rs,
     merged_protected = set (concat (map hr_pinned_message_ids rs))\<rparr>"

definition useful_response :: "json \<Rightarrow> hook_response option" where
  "useful_response j = (case decode_hook_response j of
     None \<Rightarrow> None | Some r \<Rightarrow> if has_any_field r then Some r else None)"

definition parse_hook_response :: "chost \<Rightarrow> bus_msg \<Rightarrow> hook_response option" where
  "parse_hook_response H m = Option.bind (h_parse H (msg_payload m)) (\<lambda>payload.
     case useful_response payload of
       Some r \<Rightarrow> Some r
     | None \<Rightarrow> Option.bind (jget ''data'' payload) useful_response)"

definition parse_hook_responses :: "chost \<Rightarrow> bus_msg list \<Rightarrow> hook_response list" where
  "parse_hook_responses H ms = List.map_filter (parse_hook_response H) ms"

fun hook_window ::
  "chost \<Rightarrow> engine_config \<Rightarrow> string \<Rightarrow> nat \<Rightarrow> nat \<Rightarrow> hook_response list \<Rightarrow> hook_response list cio" where
  "hook_window H c topic start 0 acc = ret acc"
| "hook_window H c topic start (Suc fuel) acc = do {
     t1 \<leftarrow> monotonic H;
     (if t1 - start < hook_timeout_ms c * 1000000 \<and> length acc < MAX_HOOK_RESPONSES then do {
        t2 \<leftarrow> monotonic H;
        (let elapsed = t2 - start in
         case hook_recv_timeout (acc \<noteq> []) (millis elapsed) (millis (hook_timeout_ms c * 1000000 - elapsed))
             (hook_first_response_ms c) (hook_idle_grace_ms c) of
           None \<Rightarrow> ret acc
         | Some timeout \<Rightarrow> do {
             r \<leftarrow> recv H topic timeout;
             case r of
               Inl e \<Rightarrow> ret acc
             | Inr b \<Rightarrow>
                 if batch_msgs b = [] then ret acc
                 else hook_window H c topic start fuel (acc @ parse_hook_responses H (batch_msgs b))
           })
      }
      else ret acc)
   }"

definition HOOK_BEFORE_TOPIC :: string where "HOOK_BEFORE_TOPIC = ''context_engine.v1.hook.before_compaction''"
definition HOOK_AFTER_TOPIC :: string where "HOOK_AFTER_TOPIC = ''context_engine.v1.hook.after_compaction''"
definition COMPACT_REPLY_TOPIC :: string where "COMPACT_REPLY_TOPIC = ''context_engine.v1.response.compact''"
definition ESTIMATE_REPLY_TOPIC :: string where "ESTIMATE_REPLY_TOPIC = ''context_engine.v1.response.estimate_tokens''"

definition before_payload :: "compact_call \<Rightarrow> nat \<Rightarrow> nat \<Rightarrow> string \<Rightarrow> json" where
  "before_payload rq tokens_before message_count topic = JObj [(''session_id'', JStr (cq_session_id rq)),
     (''messages'', JArr (cq_messages rq)), (''message_count'', JInt (int message_count)),
     (''estimated_tokens'', JInt (int tokens_before)), (''max_tokens'', JInt (int (cq_max_tokens rq))),
     (''response_topic'', JStr topic)]"

definition no_hooks :: merged_hooks where
  "no_hooks = \<lparr>merged_skip = False, merged_protected = {}\<rparr>"

definition fire_before_compaction ::
  "chost \<Rightarrow> nat \<Rightarrow> nat \<Rightarrow> compact_call \<Rightarrow> nat \<Rightarrow> nat \<Rightarrow> engine_config \<Rightarrow> (merged_hooks \<times> nat) cio" where
  "fire_before_compaction H fuel n rq tokens_before message_count c = do {
     now \<leftarrow> monotonic H;
     (let topic = ''context_engine.v1.hook_response.'' @ ''compact-'' @ show_nat now @ ''-'' @ show_nat n;
          n' = (n + 1) mod 2 ^ 64 in do {
        s \<leftarrow> subscribe H topic;
        case s of
          Some e \<Rightarrow> ret (no_hooks, n')
        | None \<Rightarrow> do {
            p \<leftarrow> publish H HOOK_BEFORE_TOPIC (before_payload rq tokens_before message_count topic);
            case p of
              Some e \<Rightarrow> ret (no_hooks, n')
            | None \<Rightarrow> do {
                start \<leftarrow> monotonic H;
                rs \<leftarrow> hook_window H c topic start fuel [];
                ret (merge_before_compaction_responses rs, n')
              }
          }
      })
   }"

definition fire_after_compaction :: "chost \<Rightarrow> string \<Rightarrow> nat \<Rightarrow> nat \<Rightarrow> nat \<Rightarrow> nat \<Rightarrow> string \<Rightarrow> unit cio" where
  "fire_after_compaction H sid messages_before messages_after tokens_before tokens_after strategy = do {
     _ \<leftarrow> publish H HOOK_AFTER_TOPIC (JObj [(''session_id'', JStr sid),
       (''messages_before'', JInt (int messages_before)), (''messages_after'', JInt (int messages_after)),
       (''tokens_before'', JInt (int tokens_before)), (''tokens_after'', JInt (int tokens_after)),
       (''strategy_used'', JStr strategy)]);
     ret ()
   }"

subsection \<open>The handlers\<close>

definition u32_count :: "nat \<Rightarrow> nat" where
  "u32_count n = min n (2 ^ 32 - 1)"

definition handle_compact ::
  "serde_errors \<Rightarrow> chost \<Rightarrow> nat \<Rightarrow> nat \<Rightarrow> json \<Rightarrow> engine_config \<Rightarrow> nat cio" where
  "handle_compact X H fuel n payload c = (case decode_compact_call payload of
     None \<Rightarrow> do {
       _ \<leftarrow> publish H COMPACT_REPLY_TOPIC (JObj [(''error'', JStr (''invalid request: '' @ compact_error X payload))]);
       ret n
     }
   | Some rq \<Rightarrow>
       (let target = min (cq_target_tokens rq) (cq_max_tokens rq);
            message_count = u32_count (length (cq_messages rq));
            tokens_before = estimate_total_tokens (h_render H) (cq_messages rq) in do {
          (merged, n') \<leftarrow> fire_before_compaction H fuel n rq tokens_before message_count c;
          (if merged_skip merged then do {
             _ \<leftarrow> publish H COMPACT_REPLY_TOPIC (compact_response (cq_messages rq) False 0 ''skipped'');
             ret n'
           }
           else (let ms = summarize_and_truncate (h_render H) (cq_messages rq) target (merged_protected merged) (keep_recent c);
                     messages_after = u32_count (length ms);
                     removed = message_count - messages_after in do {
             fire_after_compaction H (cq_session_id rq) message_count messages_after tokens_before
               (estimate_total_tokens (h_render H) ms) ''summarize_and_truncate'';
             _ \<leftarrow> publish H COMPACT_REPLY_TOPIC (compact_response ms (0 < removed) removed ''summarize_and_truncate'');
             ret n'
           }))
        }))"

definition handle_estimate_tokens :: "serde_errors \<Rightarrow> chost \<Rightarrow> json \<Rightarrow> unit cio" where
  "handle_estimate_tokens X H payload = do {
     _ \<leftarrow> publish H ESTIMATE_REPLY_TOPIC (case decode_estimate_call payload of
         None \<Rightarrow> JObj [(''error'', JStr (''invalid request: '' @ estimate_error X payload))]
       | Some ms \<Rightarrow> JObj [(''estimated_tokens'', JInt (int (estimate_total_tokens (h_render H) ms)))]);
     ret ()
   }"

definition should_dispatch_topic :: "string \<Rightarrow> bool" where
  "should_dispatch_topic t \<longleftrightarrow> \<not> starts_with ''context_engine.v1.response.'' t \<and>
     \<not> starts_with ''context_engine.v1.hook_response.'' t \<and> t \<noteq> HOOK_BEFORE_TOPIC \<and> t \<noteq> HOOK_AFTER_TOPIC"

fun dispatch_poll_result ::
  "serde_errors \<Rightarrow> chost \<Rightarrow> nat \<Rightarrow> engine_config \<Rightarrow> nat \<Rightarrow> bus_msg list \<Rightarrow> nat cio" where
  "dispatch_poll_result X H fuel c n [] = ret n"
| "dispatch_poll_result X H fuel c n (m # ms) =
     (if \<not> should_dispatch_topic (msg_topic m) then dispatch_poll_result X H fuel c n ms
      else (case h_parse H (msg_payload m) of
          None \<Rightarrow> dispatch_poll_result X H fuel c n ms
        | Some payload \<Rightarrow>
            (let request = or_default payload (jget ''data'' payload) in
             if msg_topic m = ''context_engine.v1.compact'' then do {
               n' \<leftarrow> handle_compact X H fuel n request c;
               dispatch_poll_result X H fuel c n' ms
             }
             else if msg_topic m = ''context_engine.v1.estimate_tokens'' then do {
               handle_estimate_tokens X H request;
               dispatch_poll_result X H fuel c n ms
             }
             else dispatch_poll_result X H fuel c n ms)))"

text \<open>What \<open>run\<close> does before its loop, and one round of the loop, which never ends.\<close>

definition engine_start :: "chost \<Rightarrow> (host_error + engine_config) cio" where
  "engine_start H = do {
     c \<leftarrow> load_config H;
     s1 \<leftarrow> subscribe H ''context_engine.v1.compact'';
     case s1 of Some e \<Rightarrow> ret (Inl e) | None \<Rightarrow> do {
       s2 \<leftarrow> subscribe H ''context_engine.v1.estimate_tokens'';
       case s2 of Some e \<Rightarrow> ret (Inl e) | None \<Rightarrow> do {
         s3 \<leftarrow> subscribe H HOOK_BEFORE_TOPIC;
         case s3 of Some e \<Rightarrow> ret (Inl e) | None \<Rightarrow> do {
           s4 \<leftarrow> subscribe H HOOK_AFTER_TOPIC;
           ret (case s4 of Some e \<Rightarrow> Inl e | None \<Rightarrow> Inr c)
         }
       }
     }
   }"

definition engine_round :: "serde_errors \<Rightarrow> chost \<Rightarrow> nat \<Rightarrow> engine_config \<Rightarrow> nat \<Rightarrow> nat cio" where
  "engine_round X H fuel c n = do {
     r1 \<leftarrow> recv H ''context_engine.v1.compact'' HOOK_POLL_INTERVAL_MS;
     n1 \<leftarrow> (case r1 of Inl e \<Rightarrow> ret n | Inr b \<Rightarrow> dispatch_poll_result X H fuel c n (batch_msgs b));
     r2 \<leftarrow> recv H ''context_engine.v1.estimate_tokens'' HOOK_POLL_INTERVAL_MS;
     n2 \<leftarrow> (case r2 of Inl e \<Rightarrow> ret n1 | Inr b \<Rightarrow> dispatch_poll_result X H fuel c n1 (batch_msgs b));
     _ \<leftarrow> poll H HOOK_BEFORE_TOPIC;
     _ \<leftarrow> poll H HOOK_AFTER_TOPIC;
     ret n2
   }"

end
