(* ===== verification/Context_React.thy ===== *)
theory Context_React
  imports Context_Spec Registry_React
begin

text \<open>
  The context engine and the ReAct loop together: the request the loop sends is answered once, and what
  the loop continues with is its own conversation with old messages left out.  The serialiser of a
  message belongs to the SDK; \<open>message_codec\<close> states that it converts every message and reads it back.
\<close>

subsection \<open>Every compact request is answered once\<close>

definition not_reply :: "(unit, json) event \<Rightarrow> bool" where
  "not_reply e \<longleftrightarrow> (case pub_of e of None \<Rightarrow> True | Some (t, m) \<Rightarrow> t \<noteq> COMPACT_REPLY_TOPIC)"

lemma window_not_reply: "every not_reply (hook_window H c topic start fuel acc)"
  by (induction fuel arbitrary: acc) (auto intro!: everyI simp: not_reply_def)

lemma topics_not_reply [simp]: "HOOK_BEFORE_TOPIC \<noteq> COMPACT_REPLY_TOPIC" "HOOK_AFTER_TOPIC \<noteq> COMPACT_REPLY_TOPIC"
  by (simp_all add: HOOK_BEFORE_TOPIC_def HOOK_AFTER_TOPIC_def COMPACT_REPLY_TOPIC_def)

lemma hooks_not_reply: "every not_reply (fire_before_compaction H fuel n rq tb mc c)"
    "every not_reply (fire_after_compaction H sid b a tb ta s)"
  unfolding fire_before_compaction_def fire_after_compaction_def
  by (intro everyI window_not_reply; simp add: not_reply_def)+

lemma pubs_not_reply [simp]: "list_all not_reply evs \<Longrightarrow> pubs_on COMPACT_REPLY_TOPIC evs = []"
  by (induction evs) (auto simp: not_reply_def split: option.splits)

definition compact_answer :: "json \<Rightarrow> compact_call \<Rightarrow> engine_config \<Rightarrow> (json \<Rightarrow> string) \<Rightarrow> bool" where
  "compact_answer j rq c render \<longleftrightarrow> (\<exists>ms ids. get_arr ''messages'' j = Some ms \<and>
     (ms = cq_messages rq \<or>
      ms = summarize_and_truncate render (cq_messages rq) (min (cq_target_tokens rq) (cq_max_tokens rq)) ids (keep_recent c)))"

lemma compact_run:
  assumes "decode_compact_call payload = Some rq"
  shows "wp (handle_compact X H fuel n payload c)
     (\<lambda>_ tr'. \<exists>j. pubs_on COMPACT_REPLY_TOPIC (since tr tr') = [j] \<and> compact_answer j rq c (h_render H)) tr"
  unfolding handle_compact_def assms Let_def option.case
  by (intro wpI every_wp [OF hooks_not_reply(1)] every_wp [OF hooks_not_reply(2)])
    (auto simp: compact_answer_def compact_response_def get_arr_def)

subsection \<open>End to end\<close>

locale message_codec =
  fixes A :: sdk
  assumes to_from: "message_to_value A m = Some v \<Longrightarrow> message_from_value A v = Some m"
    and total: "message_to_value A m \<noteq> None"
begin

lemma encode_all: "\<exists>f. message_to_value A = (\<lambda>m. Some (f m)) \<and> (\<forall>m. message_from_value A (f m) = Some m)"
proof (intro exI conjI)
  show "message_to_value A = (\<lambda>m. Some (the (message_to_value A m)))" using total by auto
  show "\<forall>m. message_from_value A (the (message_to_value A m)) = Some m" using to_from total by auto
qed

end

lemma map_filter_id: "(\<And>x. g (f x) = Some x) \<Longrightarrow> List.map_filter g (map f xs) = xs"
  by (induction xs) (simp_all add: List.map_filter_simps)

text \<open>The loop's reading of the engine's answer: old messages are left out, the recent ones are there.\<close>

definition trimmed :: "nat \<Rightarrow> 'a list \<Rightarrow> 'a list \<Rightarrow> bool" where
  "trimmed keep xs ys \<longleftrightarrow> subseq ys xs \<and> suffix (drop (length xs - keep) xs) ys"

lemma trimmed_refl [simp]: "trimmed keep xs xs"
  by (simp add: trimmed_def suffix_drop)

lemma trimmed_decoded:
  assumes "trimmed keep (map f xs) vs" and "\<And>x. g (f x) = Some x"
  shows "trimmed keep xs (List.map_filter g vs)"
proof -
  obtain N where "vs = nths (map f xs) N" using assms(1) unfolding trimmed_def subseq_conv_nths by blast
  then have vs: "vs = map f (nths xs N)" by (simp add: nths_map)
  then have decoded: "List.map_filter g vs = nths xs N" using assms(2) by (simp add: map_filter_id)
  have "suffix (map f (drop (length xs - keep) xs)) (map f (nths xs N))"
    using assms(1) vs by (simp add: trimmed_def drop_map)
  then obtain pre where "map f (nths xs N) = pre @ map f (drop (length xs - keep) xs)" by (auto simp: suffix_def)
  then have "List.map_filter g (map f (nths xs N)) = List.map_filter g pre @ List.map_filter g (map f (drop (length xs - keep) xs))"
    by (simp add: List.map_filter_def)
  then have "nths xs N = List.map_filter g pre @ drop (length xs - keep) xs"
    using map_filter_id [where f = f and g = g, OF assms(2)] by simp
  moreover have "subseq (nths xs N) xs" by (auto simp: subseq_conv_nths)
  ultimately show ?thesis by (auto simp: trimmed_def decoded suffix_def)
qed

lemma compact_answer_trimmed:
  "compact_answer j rq c render \<Longrightarrow> \<exists>ms. get_arr ''messages'' j = Some ms \<and> trimmed (keep_recent c) (cq_messages rq) ms"
  unfolding compact_answer_def trimmed_def
  using compaction_trims by (auto simp: suffix_drop)

lemma request_decodes:
  assumes "mx < 2 ^ 64" "message_to_value A = (\<lambda>m. Some (f m))"
  shows "decode_compact_call (compact_request A sid msgs mx) = Some \<lparr>cq_session_id = sid,
    cq_messages = map f msgs, cq_max_tokens = mx, cq_target_tokens = compaction_target mx\<rparr>"
proof -
  have "compaction_target mx < 2 ^ 64"
    unfolding compaction_target_def by (rule le_less_trans [OF div_le_dividend]) simp
  moreover have "List.map_filter (\<lambda>m. Some (f m)) msgs = map f msgs"
    by (induction msgs) (simp_all add: List.map_filter_simps)
  ultimately show ?thesis using assms
    by (simp add: decode_compact_call_def compact_request_def struct_shape_def field_def req_string_def)
qed

text \<open>\<open>engine_answers\<close>: \<open>j\<close> is what the context engine replies to a request of the loop for these messages.\<close>

definition engine_answers :: "sdk \<Rightarrow> nat \<Rightarrow> message list \<Rightarrow> json \<Rightarrow> bool" where
  "engine_answers A keep msgs j \<longleftrightarrow> (\<exists>X H fuel n c sid mx tr. mx < 2 ^ 64 \<and> keep_recent c = keep \<and>
     j \<in> set (pubs_on COMPACT_REPLY_TOPIC (new_events (handle_compact X H fuel n (compact_request A sid msgs mx) c) tr)))"

lemma engine_answer_parses:
  assumes "message_codec A" "engine_answers A keep msgs j"
  shows "\<exists>ms. parse_compaction_response A j = Some ms \<and> trimmed keep msgs ms"
proof -
  obtain f where f: "message_to_value A = (\<lambda>m. Some (f m))" "\<And>m. message_from_value A (f m) = Some m"
    using message_codec.encode_all [OF assms(1)] by auto
  obtain X H fuel n c sid mx tr where call: "mx < 2 ^ 64" "keep_recent c = keep"
      "j \<in> set (pubs_on COMPACT_REPLY_TOPIC (new_events (handle_compact X H fuel n (compact_request A sid msgs mx) c) tr))"
    using assms(2) unfolding engine_answers_def by auto
  from wp_new_events [OF compact_run [OF request_decodes [OF call(1) f(1), of sid msgs], of X H fuel n c tr]] call(3)
  have "compact_answer j \<lparr>cq_session_id = sid, cq_messages = map f msgs, cq_max_tokens = mx,
      cq_target_tokens = compaction_target mx\<rparr> c (h_render H)" by auto
  then obtain vs where "get_arr ''messages'' j = Some vs" "trimmed keep (map f msgs) vs"
    using compact_answer_trimmed call(2) by fastforce
  moreover from trimmed_decoded [OF this(2), of "message_from_value A"] f(2)
  have "trimmed keep msgs (List.map_filter (message_from_value A) vs)" by simp
  ultimately show ?thesis by (simp add: parse_compaction_response_def)
qed

lemma wp_recv_answer: "Q (h_recv H tr t ms) (EvRecv t ms (h_recv H tr t ms) # tr) \<Longrightarrow> wp (recv H t ms) Q tr"
  by (simp add: wp_iff recv_def)

text \<open>
  C10: What the loop sends to the model after a compaction.  If every answer that arrives on the compact
  response topic is the engine's reply to a request for this conversation, then whatever the window,
  the plugins and the host do, \<open>compact_messages\<close> returns a subsequence of the conversation that ends
  with its last \<open>keep\<close> messages: none is altered, invented or reordered.\<close>

theorem compaction_end_to_end:
  assumes "message_codec A"
    and "\<And>tr ms j. registry_reply H (h_recv H tr COMPACT_RESPONSE_TOPIC ms) = Some j \<Longrightarrow> engine_answers A keep msgs j"
  shows "case fst (run_state (compact_messages A H sid msgs) tr) of r \<Rightarrow>
     subseq r msgs \<and> suffix (drop (length msgs - keep) msgs) r"
proof -
  have "trimmed keep msgs (or_default msgs (Option.bind (registry_reply H (h_recv H tr COMPACT_RESPONSE_TOPIC ms))
      (parse_compaction_response A)))" for tr ms
    using engine_answer_parses [OF assms] by (cases "registry_reply H (h_recv H tr COMPACT_RESPONSE_TOPIC ms)") fastforce+
  then have "wp (compact_messages A H sid msgs) (\<lambda>r _. trimmed keep msgs r) tr"
    supply wp_recv [wpI del]
    unfolding compact_messages_def cached_context_window_def cached_max_output_tokens_def
    by (intro wpI wp_recv_answer) simp_all
  then show ?thesis by (simp add: wp_iff trimmed_def)
qed

text \<open>A codec that keeps the whole message, on a host whose compact replies come from the engine.\<close>

definition text_sdk :: sdk where
  "text_sdk = demo_sdk\<lparr>
     message_to_value := (\<lambda>m. Some (JArr [case msg_role m of RoleUser \<Rightarrow> JBool True | RoleTool \<Rightarrow> JBool False | RoleOther r \<Rightarrow> JStr r,
       case msg_content m of ContentText t \<Rightarrow> JStr t | ContentToolResult (ToolCallResult j) \<Rightarrow> JArr [j] | ContentOther j \<Rightarrow> JObj [([], j)]])),
     message_from_value := (\<lambda>j. case j of JArr [r, c] \<Rightarrow> Some \<lparr>
         msg_role = (case r of JBool b \<Rightarrow> if b then RoleUser else RoleTool | JStr r \<Rightarrow> RoleOther r | _ \<Rightarrow> RoleTool),
         msg_content = (case c of JStr t \<Rightarrow> ContentText t | JArr [j] \<Rightarrow> ContentToolResult (ToolCallResult j)
           | JObj [(k, j)] \<Rightarrow> ContentOther j | _ \<Rightarrow> ContentText [])\<rparr> | _ \<Rightarrow> None)\<rparr>"

interpretation text_codec: message_codec text_sdk
proof
  fix m v assume "message_to_value text_sdk m = Some v"
  then show "message_from_value text_sdk v = Some m"
    by (cases m) (auto simp: text_sdk_def split: message_role.splits message_content.splits tool_call_result.splits)
qed (simp add: text_sdk_def)

definition demo_messages :: "message list" where
  "demo_messages = map (\<lambda>t. \<lparr>msg_role = RoleUser, msg_content = ContentText t\<rparr>) [''a'', ''b'', ''c'']"

definition demo_answer :: json where
  "demo_answer = hd (pubs_on COMPACT_REPLY_TOPIC (new_events
     (handle_compact \<lparr>compact_error = \<lambda>j. [], estimate_error = \<lambda>j. []\<rparr> (mem_host\<lparr>h_render := demo_render\<rparr>) 1001 0
        (compact_request text_sdk ''s1'' demo_messages 4) demo_config) []))"

definition demo_loop :: rhost where
  "demo_loop = mem_host\<lparr>h_recv := (\<lambda>tr t ms. Inr \<lparr>batch_msgs = [\<lparr>msg_topic = t, msg_payload = [], msg_source = []\<rparr>],
     batch_dropped = 0, batch_lagged = 0\<rparr>), h_parse := (\<lambda>s. Some demo_answer)\<rparr>"

lemma demo_answer_engine: "engine_answers text_sdk 1 demo_messages demo_answer"
proof -
  let ?X = "\<lparr>compact_error = \<lambda>j. [], estimate_error = \<lambda>j. []\<rparr>" and ?H = "mem_host\<lparr>h_render := demo_render\<rparr>"
  obtain f where f: "message_to_value text_sdk = (\<lambda>m. Some (f m))" using text_codec.encode_all by auto
  have bound: "(4::nat) < 2 ^ 64" by simp
  obtain j where j: "pubs_on COMPACT_REPLY_TOPIC (new_events (handle_compact ?X ?H 1001 0
      (compact_request text_sdk ''s1'' demo_messages 4) demo_config) []) = [j]"
    using wp_new_events [OF compact_run [OF request_decodes [OF bound f, of "''s1''" demo_messages], of ?X ?H 1001 0 demo_config "[]"]]
    by auto
  then have "demo_answer = j" by (simp add: demo_answer_def)
  then show ?thesis
    unfolding engine_answers_def using j bound
    by (intro exI [where x = ?X] exI [where x = ?H] exI [where x = 1001] exI [where x = 0] exI [where x = demo_config]
        exI [where x = "''s1''"] exI [where x = 4] exI [where x = "[]"]) (simp add: demo_config_def)
qed

lemma compaction_end_to_end_witness:
  "case fst (run_state (compact_messages text_sdk demo_loop ''s1'' demo_messages)
      [EvSet KV_CONTEXT_WINDOW (VBytes (le_bytes 8 9)) None]) of r \<Rightarrow>
     subseq r demo_messages \<and> suffix [\<lparr>msg_role = RoleUser, msg_content = ContentText ''c''\<rparr>] r"
proof -
  have delivered: "registry_reply demo_loop (h_recv demo_loop tr COMPACT_RESPONSE_TOPIC ms) = Some j \<Longrightarrow>
      engine_answers text_sdk 1 demo_messages j" for tr ms j
    using demo_answer_engine by (simp add: registry_reply_def demo_loop_def)
  have "drop (length demo_messages - 1) demo_messages = [\<lparr>msg_role = RoleUser, msg_content = ContentText ''c''\<rparr>]"
    by (simp add: demo_messages_def)
  then show ?thesis
    using compaction_end_to_end [OF text_codec.message_codec_axioms delivered, where sid = "''s1''"
        and tr = "[EvSet KV_CONTEXT_WINDOW (VBytes (le_bytes 8 9)) None]"] by simp
qed

end
