(* ===== verification/Session_React.thy ===== *)
theory Session_React
  imports Session_Search Context_React
begin

text \<open>
  The session store and the ReAct loop together.  The loop reads its history with one request that also
  appends; the SDK adds a correlation id and waits for the answer on that id's topic.  Both capsules
  convert messages with the SDK's serialiser: \<open>shared_codec\<close> states that they agree on the JSON.
\<close>

locale shared_codec = message_codec A for A :: sdk +
  fixes L :: session_lib
  assumes same: "message_to_value A m = Some v \<Longrightarrow> \<exists>c. chat_of_json L v = Some c \<and> chat_to_json L c = v"
begin

lemma appended_decodes:
  "messages_to_value A msgs = Some v \<Longrightarrow> \<exists>cs vs. v = JArr vs \<and> messages_of_json L v = Some cs \<and>
     map (chat_to_json L) cs = vs \<and> those (map (message_from_value A) vs) = Some msgs"
proof (induction msgs arbitrary: v)
  case Nil
  then show ?case by (auto simp: messages_to_value_def messages_of_json_def)
next
  case (Cons m msgs)
  obtain w vs where w: "message_to_value A m = Some w" "messages_to_value A msgs = Some (JArr vs)" "v = JArr (w # vs)"
    using Cons.prems by (auto simp: messages_to_value_def split: option.splits)
  obtain c where "chat_of_json L w = Some c" "chat_to_json L c = w" using same [OF w(1)] by auto
  moreover obtain cs where "messages_of_json L (JArr vs) = Some cs" "map (chat_to_json L) cs = vs"
      "those (map (message_from_value A) vs) = Some msgs"
    using Cons.IH [OF w(2)] by auto
  ultimately show ?case using w to_from [OF w(1)] by (auto simp: messages_of_json_def)
qed

end

text \<open>What the SDK sends: the request with the correlation id it chose.\<close>

fun with_correlation :: "string \<Rightarrow> react_msg \<Rightarrow> json" where
  "with_correlation corr (PJson (JObj fs)) = JObj (fs @ [(''correlation_id'', JStr corr)])"
| "with_correlation corr m = JNull"

text \<open>\<open>j\<close> is what the session store publishes, on some host, as its answer to the request \<open>p\<close>.\<close>

definition history_topic :: "string \<Rightarrow> string" where
  "history_topic corr = ''session.v1.response.get_messages.'' @ corr"

definition session_answers :: "session_lib \<Rightarrow> react_msg \<Rightarrow> json \<Rightarrow> bool" where
  "session_answers L p j \<longleftrightarrow> (\<exists>H corr tr.
     j \<in> set (pubs_on (history_topic corr) (new_events (handle_get_messages L H (with_correlation corr p)) tr)))"

lemma those_append: "those (xs @ ys) = Option.bind (those xs) (\<lambda>us. map_option (\<lambda>vs. us @ vs) (those ys))"
  by (induction xs) (auto split: option.splits simp: option.map_comp comp_def map_option_case)

lemma upkeep_pubs: "list_all (upkeep sid) evs \<Longrightarrow> pubs evs = []"
proof (induction evs)
  case (Cons e evs)
  then show ?case by (cases e) auto
qed simp

lemma answer_run:
  assumes "jget ''append_before_read'' payload = Some v" "messages_of_json L v = Some cs" "cs \<noteq> []"
  shows "wp (handle_get_messages L H payload) (\<lambda>_ tr'. \<forall>j \<in> set (map snd (pubs (since tr tr'))).
     \<exists>ds. jget ''messages'' j = Some (JArr (map (chat_to_json L) (ds @ cs)))) tr"
proof -
  have silent: "pubs evs = []" if "committed sid f r evs" for sid f r evs
    using that by (auto simp: committed_def upkeep_pubs split: sum.splits)
  have result: "\<exists>ds. sd_messages d = ds @ cs" if "committed sid (append_messages cs now) (Inr d) evs" for sid now d evs
    using that by (auto simp: committed_def append_messages_def)
  have loop: "wp (modify_loop H sid (append_messages cs now) k) Q (EvTime t # tr)"
    if "\<And>r evs. pubs evs = [] \<Longrightarrow> (\<And>d. r = Inr d \<Longrightarrow> \<exists>ds. sd_messages d = ds @ cs) \<Longrightarrow> Q r (evs @ EvTime t # tr)"
    for sid now k Q t
    using that silent result by (intro wp_mono [OF modify_loop_run]) metis
  show ?thesis
    unfolding handle_get_messages_def append_and_read_def assms(1,2) option.case modify_atomic_def now_unix_def sent_def
    using assms(3) by (intro wpI loop) (auto intro!: wpI, metis map_append)
qed

context shared_codec
begin

lemma answer_ends_with_request:
  assumes "session_answers L (PJson (JObj [(''session_id'', JStr sid), (''append_before_read'', v)])) j"
    and "messages_to_value A msgs = Some v" "msgs \<noteq> []" "messages_of_response A j = Inr ms"
  shows "suffix msgs ms"
proof -
  obtain cs vs where v: "v = JArr vs" "messages_of_json L v = Some cs" "map (chat_to_json L) cs = vs"
      "those (map (message_from_value A) vs) = Some msgs"
    using appended_decodes [OF assms(2)] by blast
  have some: "cs \<noteq> []" using v(3,4) assms(3) by auto
  obtain H corr tr where j: "j \<in> set (pubs_on (history_topic corr) (new_events (handle_get_messages L H
      (JObj [(''session_id'', JStr sid), (''append_before_read'', v), (''correlation_id'', JStr corr)])) tr))"
    using assms(1) unfolding session_answers_def by auto
  have field: "jget ''append_before_read'' (JObj [(''session_id'', JStr sid), (''append_before_read'', v),
      (''correlation_id'', JStr corr)]) = Some v" by simp
  from wp_new_events [OF answer_run [OF field v(2) some, of H tr]] j
  obtain ds where "jget ''messages'' j = Some (JArr (map (chat_to_json L) (ds @ cs)))"
    by (fastforce simp: pubs_on_def)
  then have "those (map (message_from_value A) (map (chat_to_json L) ds @ vs)) = Some ms"
    using assms(4) v(3) by (auto simp: messages_of_response_def split: option.splits)
  then show ?thesis using v(4) by (auto simp: those_append suffix_def bind_eq_Some_conv)
qed

end

text \<open>
  C12: The loop's history ends with what the loop just said.  If every answer to its history request is
  one the session store publishes for that request, then whatever the store, its other writers and
  their races do, a read that returns gives a conversation that ends with the appended messages.\<close>

theorem history_ends_with_append:
  assumes "shared_codec A L"
    and "\<And>tr u p n j. h_rpc H tr ''session.v1.request.get_messages'' u p n = Inr j \<Longrightarrow> session_answers L p j"
  shows "case fst (run_state (fetch_messages_with_append A H sid msgs) tr) of Inl e \<Rightarrow> True | Inr ms \<Rightarrow> suffix msgs ms"
proof (cases "msgs = []")
  case True
  then show ?thesis by (simp split: sum.split)
next
  case False
  have rpc: "wp (request_response H ''session.v1.request.get_messages'' u p n) Q t"
    if "\<And>r e. (\<And>j. r = Inr j \<Longrightarrow> session_answers L p j) \<Longrightarrow> Q r (e # t)" for u p n Q t
    using that assms(2) by (simp add: wp_iff request_response_def)
  have "wp (fetch_messages_with_append A H sid msgs) (\<lambda>r _. case r of Inl e \<Rightarrow> True | Inr ms \<Rightarrow> suffix msgs ms) tr"
  proof (cases "messages_to_value A msgs")
    case None
    with False show ?thesis
      by (simp add: fetch_messages_with_append_def fetch_messages_inner_def session_timeout_ms_def get_config_u64_def env_or_empty_def) (intro wpI; simp)
  next
    case (Some v)
    with False show ?thesis
      supply wp_rpc [wpI del]
      unfolding fetch_messages_with_append_def fetch_messages_inner_def session_timeout_ms_def get_config_u64_def env_or_empty_def
      by (simp add: Let_def)
        (intro wpI rpc; auto split: sum.split simp: wp_iff intro: shared_codec.answer_ends_with_request [OF assms(1) _ Some False])
  qed
  then show ?thesis by (simp add: wp_iff)
qed

text \<open>A codec pair that keeps the whole message, and a host on which the session store answers.\<close>

definition wire_lib :: session_lib where
  "wire_lib = plain_lib\<lparr>chat_to_json := (\<lambda>m. case chat_content m of ToolCalls j \<Rightarrow> j | _ \<Rightarrow> JNull),
     chat_of_json := (\<lambda>j. Some \<lparr>chat_role = User, chat_content = ToolCalls j\<rparr>)\<rparr>"

interpretation wire_codec: shared_codec text_sdk wire_lib
  by unfold_locales (simp add: wire_lib_def)

definition session_host :: rhost where
  "session_host = mem_host\<lparr>h_rpc := (\<lambda>tr t u p n.
     case pubs_on (history_topic ''k1'') (new_events (handle_get_messages wire_lib mem_host (with_correlation ''k1'' p)) []) of
       [] \<Rightarrow> Inl ''timeout'' | j # _ \<Rightarrow> Inr j)\<rparr>"

lemma history_ends_with_append_witness:
  "case fst (run_state (fetch_messages_with_append text_sdk session_host ''s1'' demo_messages) []) of
     Inl e \<Rightarrow> True | Inr ms \<Rightarrow> suffix demo_messages ms"
proof -
  have answered: "session_answers wire_lib p j" if "h_rpc session_host tr ''session.v1.request.get_messages'' u p n = Inr j"
    for tr u p n j
    using that unfolding session_answers_def session_host_def
    by (intro exI [where x = mem_host] exI [where x = "''k1''"] exI [where x = "[]"]) (auto split: list.splits)
  show ?thesis by (rule history_ends_with_append [OF wire_codec.shared_codec_axioms answered])
qed

end
