(* ===== verification/Users_Types.thy ===== *)
theory Users_Types
  imports Host "HOL-Library.Char_ord" "HOL-Library.List_Lexorder"
begin

text \<open>
  The identity store (\<open>capsules/capsule-users/src\<close>), data: users, links, context overlays, errors
  (\<open>types.rs\<close>), timestamps (\<open>time.rs\<close>), and the keys and the validation of \<open>store.rs\<close>.  Byte strings
  are ordered lexicographically, as Rust orders \<open>str\<close>.

  A stored value is the record it encodes or bytes that decode to none of them (\<open>URaw\<close>; the name
  index stores the text of an id).  The three records have different required fields, so a record
  never decodes as another.  The text of an id, its parser and the text of the parser's error are the \<open>uuid\<close> crate's: \<open>user_lib\<close>.
\<close>

subsection \<open>Records\<close>

record user_lib =
  uid_text :: "nat \<Rightarrow> string"
  uid_parse :: "string \<Rightarrow> nat option"
  uid_error :: "string \<Rightarrow> string"

record astrid_user =
  au_id :: nat
  au_public_key :: "string option"
  au_display_name :: "string option"
  au_created_at :: string

record frontend_link =
  fl_platform :: string
  fl_instance :: "string option"
  fl_user_id :: string
  fl_astrid_id :: nat
  fl_linked_at :: string
  fl_method :: string
  fl_display_name :: "string option"

record context_identity =
  ci_platform :: string
  ci_instance :: "string option"
  ci_user_id :: string
  ci_context_id :: string
  ci_display_name :: string
  ci_updated_at :: string

datatype user_val = UUser astrid_user | ULink frontend_link | UCtx context_identity | URaw string

record req_source =
  src_uplink :: string
  src_user_id :: "string option"
  src_correlation_id :: string

record resolved_name =
  rn_name :: string
  rn_source :: string

text \<open>\<open>StoreError\<close>; \<open>Aborted\<close> is not one of its variants but a panic, which ends the handler at once.\<close>

datatype store_error = InvalidInput string | UserNotFound nat | LinkNotFound | Storage string | Aborted

fun error_text :: "user_lib \<Rightarrow> store_error \<Rightarrow> string" where
  "error_text U (InvalidInput s) = ''invalid input: '' @ s"
| "error_text U (UserNotFound u) = ''user not found: '' @ uid_text U u"
| "error_text U LinkNotFound = ''link not found''"
| "error_text U (Storage s) = ''storage error: '' @ s"
| "error_text U Aborted = []"

definition normalize_platform :: "string \<Rightarrow> string" where
  "normalize_platform name = map ascii_lower (trim name)"

type_synonym uhost = "(user_val, json) host"
type_synonym 'a uio = "((user_val, json) event list, 'a) state"
type_synonym 'a uresult = "((user_val, json) event list, store_error + 'a) state"

subsection \<open>Timestamps\<close>

definition as_signed :: "nat \<Rightarrow> int \<Rightarrow> int" where
  "as_signed w i = (i + 2 ^ (w - 1)) mod 2 ^ w - 2 ^ (w - 1)"

definition days_to_ymd :: "int \<Rightarrow> int \<times> nat \<times> nat" where
  "days_to_ymd days =
     (let z = days + 719468;
          era = z div 146097;
          doe = z mod 146097;
          yoe = (doe - doe div 1460 + doe div 36524 - doe div 146096) div 365;
          y = yoe + era * 400;
          doy = doe - (365 * yoe + yoe div 4 - yoe div 100);
          mp = (5 * doy + 2) div 153;
          d = doy - (153 * mp + 2) div 5 + 1;
          m = (if mp < 10 then mp + 3 else mp - 9);
          year_adj = (if m \<le> 2 then y + 1 else y) in
      (as_signed 32 year_adj, nat m, nat d))"

definition pad_nat :: "nat \<Rightarrow> nat \<Rightarrow> string" where
  "pad_nat w n = replicate (w - length (show_nat n)) (CHR ''0'') @ show_nat n"

definition pad_int :: "nat \<Rightarrow> int \<Rightarrow> string" where
  "pad_int w i = (if i < 0 then ''-'' @ pad_nat (w - 1) (nat (- i)) else pad_nat w (nat i))"

definition format_rfc3339 :: "int \<Rightarrow> nat \<Rightarrow> string" where
  "format_rfc3339 unix_secs sub_ms =
     (let total_days = unix_secs div 86400;
          rem_secs = nat (unix_secs mod 86400) in
      case days_to_ymd total_days of (year, month, day) \<Rightarrow>
        pad_int 4 year @ ''-'' @ pad_nat 2 month @ ''-'' @ pad_nat 2 day @ ''T'' @ pad_nat 2 (rem_secs div 3600) @ '':'' @
        pad_nat 2 (rem_secs mod 3600 div 60) @ '':'' @ pad_nat 2 (rem_secs mod 60) @ ''.'' @ pad_nat 3 sub_ms @ ''Z'')"

definition now_rfc3339 :: "uhost \<Rightarrow> string uio" where
  "now_rfc3339 H = do {
     t \<leftarrow> time_now H;
     (let millis = or_default 0 t in
      ret (format_rfc3339 (as_signed 64 (int (millis div 1000))) (millis mod 1000)))
   }"

text \<open>Dates of the unit tests of \<open>time.rs\<close>.\<close>

lemma days_to_ymd_examples:
  "days_to_ymd 0 = (1970, 1, 1)" "days_to_ymd 20468 = (2026, 1, 15)" "days_to_ymd 24855 = (2038, 1, 19)"
  by code_simp+

subsection \<open>Keys\<close>

definition INSTANCE_NONE_SENTINEL :: string where "INSTANCE_NONE_SENTINEL = ''_''"
definition USERS_DEFAULT_LIMIT :: nat where "USERS_DEFAULT_LIMIT = 100"
definition USERS_MAX_LIMIT :: nat where "USERS_MAX_LIMIT = 1000"

definition user_key :: "user_lib \<Rightarrow> nat \<Rightarrow> string" where
  "user_key U u = ''user/'' @ uid_text U u"

definition instance_segment :: "string option \<Rightarrow> string" where
  "instance_segment i = or_default INSTANCE_NONE_SENTINEL i"

definition link_key :: "string \<Rightarrow> string option \<Rightarrow> string \<Rightarrow> string" where
  "link_key p i puid = ''link/'' @ p @ ''/'' @ instance_segment i @ ''/'' @ puid"

definition name_key :: "string \<Rightarrow> string" where
  "name_key name = ''name/'' @ name"

definition context_prefix_for_link_bucket :: "string \<Rightarrow> string option \<Rightarrow> string" where
  "context_prefix_for_link_bucket p i = ''context/'' @ p @ ''/'' @ instance_segment i @ ''/''"

definition context_prefix_in_context :: "string \<Rightarrow> string option \<Rightarrow> string \<Rightarrow> string" where
  "context_prefix_in_context p i c = ''context/'' @ p @ ''/'' @ instance_segment i @ ''/'' @ c @ ''/''"

definition context_key :: "string \<Rightarrow> string option \<Rightarrow> string \<Rightarrow> string \<Rightarrow> string" where
  "context_key p i c puid = ''context/'' @ p @ ''/'' @ instance_segment i @ ''/'' @ c @ ''/'' @ puid"

subsection \<open>Validation\<close>

definition validate_non_empty :: "string \<Rightarrow> string \<Rightarrow> store_error + unit" where
  "validate_non_empty v what = (if blank v then Inl (InvalidInput (what @ '' must not be empty'')) else Inr ())"

definition breaks_key :: "string \<Rightarrow> bool" where
  "breaks_key v \<longleftrightarrow> CHR ''/'' \<in> set v \<or> CHR 0x00 \<in> set v"

definition validate_key_component :: "string \<Rightarrow> string \<Rightarrow> store_error + unit" where
  "validate_key_component v what = (case validate_non_empty v what of
     Inl e \<Rightarrow> Inl e
   | Inr _ \<Rightarrow> if breaks_key v then Inl (InvalidInput (what @ '' must not contain '' @ [CHR 0x27] @ ''/'' @ [CHR 0x27] @ '' or null bytes''))
       else Inr ())"

definition validate_instance :: "string option \<Rightarrow> store_error + unit" where
  "validate_instance i = (case i of
     None \<Rightarrow> Inr ()
   | Some s \<Rightarrow> (case validate_key_component s ''platform_instance'' of
       Inl e \<Rightarrow> Inl e
     | Inr _ \<Rightarrow> if s = INSTANCE_NONE_SENTINEL
         then Inl (InvalidInput (''platform_instance must not be '' @ [CHR 0x22] @ INSTANCE_NONE_SENTINEL @ [CHR 0x22] @ '' (reserved sentinel)''))
         else Inr ()))"

text \<open>\<open>str::ends_with\<close>.\<close>

definition ends_with :: "string \<Rightarrow> string \<Rightarrow> bool" where
  "ends_with p s = (drop (length s - length p) s = p)"

end
