(* ===== verification/Users_Store.thy ===== *)
theory Users_Store
  imports Users_Types
begin

text \<open>
  The identity store, operations (\<open>capsules/capsule-users/src/store.rs\<close>).  The \<open>Backend\<close> trait is the
  seam of the source; here it is instantiated with \<open>SdkBackend\<close>, the calls of the host.  The text of a
  \<open>serde\<close> error is left out of a message.
\<close>

subsection \<open>Backend\<close>

definition b_get :: "uhost \<Rightarrow> string \<Rightarrow> (user_val option) uresult" where
  "b_get H k = do {
     r \<leftarrow> kv_get_raw H k;
     ret (case r of Inl e \<Rightarrow> Inl (Storage e) | Inr v \<Rightarrow> Inr (if v = URaw [] then None else Some v))
   }"

definition stored_ok :: "host_error option \<Rightarrow> store_error + unit" where
  "stored_ok r = (case r of None \<Rightarrow> Inr () | Some e \<Rightarrow> Inl (Storage e))"

definition b_set :: "uhost \<Rightarrow> string \<Rightarrow> user_val \<Rightarrow> unit uresult" where
  "b_set H k v = do { r \<leftarrow> kv_set H k v; ret (stored_ok r) }"

definition b_delete :: "uhost \<Rightarrow> string \<Rightarrow> unit uresult" where
  "b_delete H k = do { r \<leftarrow> kv_delete H k; ret (stored_ok r) }"

definition b_list_keys :: "uhost \<Rightarrow> string \<Rightarrow> (string list) uresult" where
  "b_list_keys H p = do { r \<leftarrow> list_keys H p; ret (map_sum Storage id r) }"

fun as_user :: "user_val \<Rightarrow> astrid_user option" where
  "as_user (UUser u) = Some u"
| "as_user _ = None"

fun as_link :: "user_val \<Rightarrow> frontend_link option" where
  "as_link (ULink l) = Some l"
| "as_link _ = None"

fun as_context :: "user_val \<Rightarrow> context_identity option" where
  "as_context (UCtx c) = Some c"
| "as_context _ = None"

definition get_json :: "(user_val \<Rightarrow> 'a option) \<Rightarrow> uhost \<Rightarrow> string \<Rightarrow> ('a option) uresult" where
  "get_json decode H k = try_bind (b_get H k) (\<lambda>v. ret (case v of
     None \<Rightarrow> Inr None
   | Some b \<Rightarrow> (case decode b of None \<Rightarrow> Inl (Storage (''decode '' @ k @ '': '')) | Some x \<Rightarrow> Inr (Some x))))"

text \<open>A validation that fails returns its error.\<close>

definition check :: "store_error + unit \<Rightarrow> 'a uresult \<Rightarrow> 'a uresult" where
  "check v m = (case v of Inl e \<Rightarrow> ret (Inl e) | Inr _ \<Rightarrow> m)"

subsection \<open>Users\<close>

definition display_name_error :: store_error where
  "display_name_error = InvalidInput (''display_name must not contain '' @ [CHR 0x27] @ ''/'' @ [CHR 0x27] @ '' or null bytes'')"

definition validate_display_name :: "string option \<Rightarrow> store_error + unit" where
  "validate_display_name dn = (case dn of
     None \<Rightarrow> Inr () | Some n \<Rightarrow> if breaks_key n then Inl display_name_error else Inr ())"

definition index_name :: "user_lib \<Rightarrow> uhost \<Rightarrow> nat \<Rightarrow> string option \<Rightarrow> unit uresult" where
  "index_name U H u dn = (case dn of
     None \<Rightarrow> ret (Inr ())
   | Some n \<Rightarrow> if trim n = [] then ret (Inr ()) else b_set H (name_key (trim n)) (URaw (uid_text U u)))"

definition unindex_name :: "user_lib \<Rightarrow> uhost \<Rightarrow> nat \<Rightarrow> string option \<Rightarrow> unit uresult" where
  "unindex_name U H u dn = (case dn of
     None \<Rightarrow> ret (Inr ())
   | Some n \<Rightarrow> try_bind (b_get H (name_key (trim n))) (\<lambda>v.
       if v = Some (URaw (uid_text U u)) then b_delete H (name_key (trim n)) else ret (Inr ())))"

definition new_user :: "uhost \<Rightarrow> string option \<Rightarrow> astrid_user uio" where
  "new_user H dn = do {
     u \<leftarrow> new_uuid H;
     created \<leftarrow> now_rfc3339 H;
     ret \<lparr>au_id = u, au_public_key = None, au_display_name = dn, au_created_at = created\<rparr>
   }"

definition create_user :: "user_lib \<Rightarrow> uhost \<Rightarrow> string option \<Rightarrow> astrid_user uresult" where
  "create_user U H dn = check (validate_display_name dn) (do {
     user \<leftarrow> new_user H dn;
     try_bind (b_set H (user_key U (au_id user)) (UUser user)) (\<lambda>_.
     try_bind (index_name U H (au_id user) dn) (\<lambda>_.
     ret (Inr user)))
   })"

definition get_user :: "user_lib \<Rightarrow> uhost \<Rightarrow> nat \<Rightarrow> (astrid_user option) uresult" where
  "get_user U H u = get_json as_user H (user_key U u)"

definition existing_user :: "user_lib \<Rightarrow> uhost \<Rightarrow> nat \<Rightarrow> astrid_user uresult" where
  "existing_user U H u = try_bind (get_user U H u) (\<lambda>r. ret (case r of None \<Rightarrow> Inl (UserNotFound u) | Some x \<Rightarrow> Inr x))"

definition set_display_name :: "user_lib \<Rightarrow> uhost \<Rightarrow> nat \<Rightarrow> string option \<Rightarrow> astrid_user uresult" where
  "set_display_name U H u dn = check (validate_display_name dn)
     (try_bind (existing_user U H u) (\<lambda>user.
      try_bind (unindex_name U H u (au_display_name user)) (\<lambda>_.
      let user' = user\<lparr>au_display_name := dn\<rparr> in
      try_bind (b_set H (user_key U u) (UUser user')) (\<lambda>_.
      try_bind (index_name U H u dn) (\<lambda>_.
      ret (Inr user'))))))"

definition set_public_key :: "user_lib \<Rightarrow> uhost \<Rightarrow> nat \<Rightarrow> string option \<Rightarrow> astrid_user uresult" where
  "set_public_key U H u key =
     try_bind (existing_user U H u) (\<lambda>user.
     let user' = user\<lparr>au_public_key := key\<rparr> in
     try_bind (b_set H (user_key U u) (UUser user')) (\<lambda>_. ret (Inr user')))"

subsection \<open>Links\<close>

definition check_triple :: "string \<Rightarrow> string option \<Rightarrow> string \<Rightarrow> 'a uresult \<Rightarrow> 'a uresult" where
  "check_triple p i puid m =
     check (validate_key_component p ''platform'') (
     check (validate_instance i) (
     check (validate_key_component puid ''platform_user_id'') m))"

definition first_name :: "(string option \<times> string) list \<Rightarrow> resolved_name option" where
  "first_name xs = (case find (\<lambda>(n, source). n \<noteq> None) xs of
     Some (Some n, source) \<Rightarrow> Some \<lparr>rn_name = n, rn_source = source\<rparr> | _ \<Rightarrow> None)"

definition resolve ::
  "user_lib \<Rightarrow> uhost \<Rightarrow> string \<Rightarrow> string option \<Rightarrow> string \<Rightarrow> string option \<Rightarrow>
   (astrid_user option \<times> resolved_name option) uresult" where
  "resolve U H p i puid ctx = check_triple p i puid (
     check (case ctx of None \<Rightarrow> Inr () | Some c \<Rightarrow> validate_key_component c ''context_id'') (
     let p' = normalize_platform p in
     try_bind (get_json as_link H (link_key p' i puid)) (\<lambda>l. case l of
       None \<Rightarrow> ret (Inr (None, None))
     | Some link \<Rightarrow>
         try_bind (get_user U H (fl_astrid_id link)) (\<lambda>user.
         try_bind (case ctx of
             None \<Rightarrow> ret (Inr None)
           | Some c \<Rightarrow> get_json as_context H (context_key p' i c puid)) (\<lambda>overlay.
         ret (Inr (user, first_name [(map_option ci_display_name overlay, ''context''),
           (fl_display_name link, ''link''), (Option.bind user au_display_name, ''canonical'')])))))))"

definition link ::
  "user_lib \<Rightarrow> uhost \<Rightarrow> string \<Rightarrow> string option \<Rightarrow> string \<Rightarrow> nat \<Rightarrow> string \<Rightarrow> string option \<Rightarrow> frontend_link uresult" where
  "link U H p i puid u meth dn = check_triple p i puid (
     check (validate_non_empty meth ''method'') (
     try_bind (existing_user U H u) (\<lambda>_. do {
       now \<leftarrow> now_rfc3339 H;
       (let p' = normalize_platform p;
            l = \<lparr>fl_platform = p', fl_instance = i, fl_user_id = puid, fl_astrid_id = u, fl_linked_at = now,
              fl_method = meth, fl_display_name = dn\<rparr> in
        try_bind (b_set H (link_key p' i puid) (ULink l)) (\<lambda>_. ret (Inr l)))
     })))"

fun delete_ending :: "uhost \<Rightarrow> string \<Rightarrow> string list \<Rightarrow> unit uresult" where
  "delete_ending H suffix [] = ret (Inr ())"
| "delete_ending H suffix (k # ks) =
     (if ends_with suffix k then try_bind (b_delete H k) (\<lambda>_. delete_ending H suffix ks)
      else delete_ending H suffix ks)"

definition drop_overlays :: "uhost \<Rightarrow> string \<Rightarrow> string option \<Rightarrow> string \<Rightarrow> unit uresult" where
  "drop_overlays H p i puid =
     try_bind (b_list_keys H (context_prefix_for_link_bucket p i)) (\<lambda>ks. delete_ending H (''/'' @ puid) ks)"

definition exists_key :: "uhost \<Rightarrow> string \<Rightarrow> bool uresult" where
  "exists_key H k = try_bind (b_get H k) (\<lambda>v. ret (Inr (v \<noteq> None)))"

definition unlink :: "uhost \<Rightarrow> string \<Rightarrow> string option \<Rightarrow> string \<Rightarrow> bool uresult" where
  "unlink H p i puid = check_triple p i puid (
     let p' = normalize_platform p; key = link_key p' i puid in
     try_bind (exists_key H key) (\<lambda>existed.
       if existed then
         try_bind (drop_overlays H p' i puid) (\<lambda>_.
         try_bind (b_delete H key) (\<lambda>_. ret (Inr True)))
       else ret (Inr False)))"

fun links_of :: "uhost \<Rightarrow> nat \<Rightarrow> string list \<Rightarrow> (frontend_link list) uresult" where
  "links_of H u [] = ret (Inr [])"
| "links_of H u (k # ks) = try_bind (get_json as_link H k) (\<lambda>l.
     try_bind (links_of H u ks) (\<lambda>ls.
     ret (Inr (case l of Some x \<Rightarrow> if fl_astrid_id x = u then x # ls else ls | None \<Rightarrow> ls))))"

definition list_links :: "uhost \<Rightarrow> nat \<Rightarrow> (frontend_link list) uresult" where
  "list_links H u = try_bind (b_list_keys H ''link/'') (links_of H u)"

subsection \<open>Deleting a user\<close>

fun drop_links :: "uhost \<Rightarrow> nat \<Rightarrow> string list \<Rightarrow> (frontend_link list) uresult" where
  "drop_links H u [] = ret (Inr [])"
| "drop_links H u (k # ks) = try_bind (get_json as_link H k) (\<lambda>l. case l of
     Some x \<Rightarrow>
       if fl_astrid_id x = u then try_bind (b_delete H k) (\<lambda>_. try_bind (drop_links H u ks) (\<lambda>ls. ret (Inr (x # ls))))
       else drop_links H u ks
   | None \<Rightarrow> drop_links H u ks)"

fun drop_all_overlays :: "uhost \<Rightarrow> frontend_link list \<Rightarrow> unit uresult" where
  "drop_all_overlays H [] = ret (Inr ())"
| "drop_all_overlays H (l # ls) =
     try_bind (drop_overlays H (fl_platform l) (fl_instance l) (fl_user_id l)) (\<lambda>_. drop_all_overlays H ls)"

definition delete_user :: "user_lib \<Rightarrow> uhost \<Rightarrow> nat \<Rightarrow> bool uresult" where
  "delete_user U H u = try_bind (get_user U H u) (\<lambda>r. case r of
     None \<Rightarrow> ret (Inr False)
   | Some user \<Rightarrow>
       try_bind (b_list_keys H ''link/'') (\<lambda>ks.
       try_bind (drop_links H u ks) (\<lambda>affected.
       try_bind (drop_all_overlays H affected) (\<lambda>_.
       try_bind (unindex_name U H u (au_display_name user)) (\<lambda>_.
       try_bind (b_delete H (user_key U u)) (\<lambda>_.
       ret (Inr True)))))))"

subsection \<open>Pages\<close>

definition start_index :: "string list \<Rightarrow> string option \<Rightarrow> nat" where
  "start_index ks cursor = (case cursor of None \<Rightarrow> 0 | Some c \<Rightarrow> length (takeWhile (\<lambda>k. k \<le> c) ks))"

definition end_index :: "string list \<Rightarrow> string option \<Rightarrow> nat option \<Rightarrow> nat" where
  "end_index ks cursor limit =
     min (start_index ks cursor + min (or_default USERS_DEFAULT_LIMIT limit) USERS_MAX_LIMIT) (length ks)"

definition page_slice :: "string list \<Rightarrow> string option \<Rightarrow> nat option \<Rightarrow> 'a list \<Rightarrow> 'a list" where
  "page_slice ks cursor limit xs = drop (start_index ks cursor) (take (end_index ks cursor limit) xs)"

text \<open>\<open>keys[end_idx - 1]\<close> underflows when \<open>end_idx\<close> is 0: a panic.\<close>

definition next_cursor :: "string list \<Rightarrow> string option \<Rightarrow> nat option \<Rightarrow> store_error + string option" where
  "next_cursor ks cursor limit = (let n = end_index ks cursor limit in
     if n < length ks then (if n = 0 then Inl Aborted else Inr (Some (ks ! (n - 1)))) else Inr None)"

fun read_all :: "(string \<Rightarrow> ('a option) uresult) \<Rightarrow> string list \<Rightarrow> ('a list) uresult" where
  "read_all f [] = ret (Inr [])"
| "read_all f (k # ks) = try_bind (f k) (\<lambda>x. try_bind (read_all f ks) (\<lambda>xs.
     ret (Inr (case x of None \<Rightarrow> xs | Some y \<Rightarrow> y # xs))))"

definition list_users_paginated ::
  "uhost \<Rightarrow> string option \<Rightarrow> nat option \<Rightarrow> (astrid_user list \<times> string option) uresult" where
  "list_users_paginated H cursor limit = try_bind (b_list_keys H ''user/'') (\<lambda>ks0. let ks = sort ks0 in
     try_bind (read_all (get_json as_user H) (page_slice ks cursor limit ks)) (\<lambda>items.
     ret (map_sum id (Pair items) (next_cursor ks cursor limit))))"

subsection \<open>Context overlays\<close>

definition require_link_exists :: "uhost \<Rightarrow> string \<Rightarrow> string option \<Rightarrow> string \<Rightarrow> unit uresult" where
  "require_link_exists H p i puid = try_bind (exists_key H (link_key p i puid))
     (\<lambda>there. ret (if there then Inr () else Inl LinkNotFound))"

definition check_context :: "string \<Rightarrow> string option \<Rightarrow> string \<Rightarrow> string \<Rightarrow> 'a uresult \<Rightarrow> 'a uresult" where
  "check_context p i puid c m = check_triple p i puid (check (validate_key_component c ''context_id'') m)"

definition set_context ::
  "uhost \<Rightarrow> string \<Rightarrow> string option \<Rightarrow> string \<Rightarrow> string \<Rightarrow> string \<Rightarrow> context_identity uresult" where
  "set_context H p i puid c dn = check_context p i puid c (
     check (validate_non_empty dn ''display_name'') (
     let p' = normalize_platform p in
     try_bind (require_link_exists H p' i puid) (\<lambda>_. do {
       now \<leftarrow> now_rfc3339 H;
       (let overlay = \<lparr>ci_platform = p', ci_instance = i, ci_user_id = puid, ci_context_id = c,
              ci_display_name = dn, ci_updated_at = now\<rparr> in
        try_bind (b_set H (context_key p' i c puid) (UCtx overlay)) (\<lambda>_. ret (Inr overlay)))
     })))"

definition clear_context :: "uhost \<Rightarrow> string \<Rightarrow> string option \<Rightarrow> string \<Rightarrow> string \<Rightarrow> bool uresult" where
  "clear_context H p i puid c = check_context p i puid c (
     let key = context_key (normalize_platform p) i c puid in
     try_bind (exists_key H key) (\<lambda>existed.
       if existed then try_bind (b_delete H key) (\<lambda>_. ret (Inr True)) else ret (Inr False)))"

definition get_context ::
  "uhost \<Rightarrow> string \<Rightarrow> string option \<Rightarrow> string \<Rightarrow> string \<Rightarrow> (context_identity option \<times> nat option) uresult" where
  "get_context H p i puid c = check_context p i puid c (
     let p' = normalize_platform p in
     try_bind (get_json as_context H (context_key p' i c puid)) (\<lambda>overlay.
     try_bind (get_json as_link H (link_key p' i puid)) (\<lambda>l.
     ret (Inr (overlay, map_option fl_astrid_id l)))))"

fun overlays_of :: "uhost \<Rightarrow> frontend_link list \<Rightarrow> ((string \<times> context_identity) list) uresult" where
  "overlays_of H [] = ret (Inr [])"
| "overlays_of H (l # ls) =
     try_bind (b_list_keys H (context_prefix_for_link_bucket (fl_platform l) (fl_instance l))) (\<lambda>ks.
     try_bind (read_all (\<lambda>k. try_bind (get_json as_context H k) (\<lambda>c. ret (Inr (map_option (Pair k) c))))
         (filter (ends_with (''/'' @ fl_user_id l)) ks)) (\<lambda>xs.
     try_bind (overlays_of H ls) (\<lambda>ys.
     ret (Inr (xs @ ys)))))"

definition list_context_for_user ::
  "uhost \<Rightarrow> nat \<Rightarrow> string option \<Rightarrow> nat option \<Rightarrow> (context_identity list \<times> string option) uresult" where
  "list_context_for_user H u cursor limit =
     try_bind (list_links H u) (\<lambda>ls.
     try_bind (overlays_of H ls) (\<lambda>xs0.
     let xs = sort_key fst xs0; ks = map fst xs in
     ret (map_sum id (\<lambda>next_key. (map snd (page_slice ks cursor limit xs), next_key)) (next_cursor ks cursor limit))))"

definition member_of :: "uhost \<Rightarrow> string \<Rightarrow> ((context_identity \<times> nat option) option) uresult" where
  "member_of H k = try_bind (get_json as_context H k) (\<lambda>r. case r of
     None \<Rightarrow> ret (Inr None)
   | Some c \<Rightarrow> try_bind (get_json as_link H (link_key (ci_platform c) (ci_instance c) (ci_user_id c))) (\<lambda>l.
       ret (Inr (Some (c, map_option fl_astrid_id l)))))"

definition list_context_in_context ::
  "uhost \<Rightarrow> string \<Rightarrow> string option \<Rightarrow> string \<Rightarrow> string option \<Rightarrow> nat option \<Rightarrow>
   ((context_identity \<times> nat option) list \<times> string option) uresult" where
  "list_context_in_context H p i c cursor limit =
     check (validate_key_component p ''platform'') (
     check (validate_instance i) (
     check (validate_key_component c ''context_id'') (
     try_bind (b_list_keys H (context_prefix_in_context (normalize_platform p) i c)) (\<lambda>ks0. let ks = sort ks0 in
     try_bind (read_all (member_of H) (page_slice ks cursor limit ks)) (\<lambda>items.
     ret (map_sum id (Pair items) (next_cursor ks cursor limit)))))))"

end
