(* ===== verification/Users_Handlers.thy ===== *)
theory Users_Handlers
  imports Users_Store
begin

text \<open>
  The identity store, surface: the requests with their two spellings of each field (\<open>requests.rs\<close>), the
  JSON of the answers (\<open>responses.rs\<close>) and the fifteen interceptors (\<open>lib.rs\<close>).
\<close>

subsection \<open>Requests\<close>

text \<open>
  A field with aliases: the value under the only spelling present; \<open>Some None\<close> when absent, \<open>None\<close> when
  two spellings are present, which \<open>serde\<close> rejects as a duplicate field.
\<close>

definition aliased :: "nat \<Rightarrow> string list \<Rightarrow> json \<Rightarrow> json option option" where
  "aliased i names j = (case j of
     JObj m \<Rightarrow> (case filter (\<lambda>(k, v). k \<in> set names) m of [] \<Rightarrow> Some None | [(k, v)] \<Rightarrow> Some (Some v) | _ \<Rightarrow> None)
   | _ \<Rightarrow> Some (field i (hd names) j))"

definition string_field :: "nat \<Rightarrow> string list \<Rightarrow> json \<Rightarrow> string option" where
  "string_field i names j = (case aliased i names j of Some (Some v) \<Rightarrow> jstr v | _ \<Rightarrow> None)"

definition option_field :: "(json \<Rightarrow> 'a option) \<Rightarrow> nat \<Rightarrow> string list \<Rightarrow> json \<Rightarrow> 'a option option" where
  "option_field decode i names j = (case aliased i names j of
     None \<Rightarrow> None
   | Some None \<Rightarrow> Some None
   | Some (Some v) \<Rightarrow> if v = JNull then Some None else map_option Some (decode v))"

definition ju32 :: "json \<Rightarrow> nat option" where
  "ju32 v = (case ju64 v of None \<Rightarrow> None | Some n \<Rightarrow> if n < 2 ^ 32 then Some n else None)"

definition jbyte :: "json \<Rightarrow> char option" where
  "jbyte v = (case ju64 v of None \<Rightarrow> None | Some n \<Rightarrow> if n < 256 then Some (char_of n) else None)"

definition byte_list :: "json \<Rightarrow> string option" where
  "byte_list v = (case jarr v of None \<Rightarrow> None | Some xs \<Rightarrow> those (map jbyte xs))"

definition decode_source :: "json \<Rightarrow> req_source option" where
  "decode_source j = (if \<not> struct_shape 3 j then None else do {
     uplink \<leftarrow> string_field 0 [''uplink'', ''channel''] j;
     user \<leftarrow> option_field jstr 1 [''user-id'', ''user_id''] j;
     corr \<leftarrow> string_field 2 [''correlation-id'', ''correlation_id''] j;
     Some \<lparr>src_uplink = uplink, src_user_id = user, src_correlation_id = corr\<rparr>
   })"

datatype users_request =
    ResolveRequest req_source string "string option" string "string option"
  | LinkRequest req_source string "string option" string string string "string option"
  | UnlinkRequest req_source string "string option" string
  | CreateRequest req_source "string option"
  | SetDisplayNameRequest req_source string "string option"
  | SetPublicKeyRequest req_source string "string option"
  | LinksRequest req_source string
  | GetRequest req_source string
  | DeleteRequest req_source string
  | ListRequest req_source "string option" "nat option"
  | ContextSetRequest req_source string "string option" string string string
  | ContextClearRequest req_source string "string option" string string
  | ContextGetRequest req_source string "string option" string string
  | ContextListForUserRequest req_source string "string option" "nat option"
  | ContextListInContextRequest req_source string "string option" string "string option" "nat option"

definition decode_resolve :: "json \<Rightarrow> users_request option" where
  "decode_resolve j = (if \<not> struct_shape 5 j then None else do {
     src \<leftarrow> Option.bind (field 0 ''source'' j) decode_source;
     x1 \<leftarrow> string_field 1 [''platform''] j;
     x2 \<leftarrow> option_field jstr 2 [''platform-instance'', ''platform_instance''] j;
     x3 \<leftarrow> string_field 3 [''platform-user-id'', ''platform_user_id''] j;
     x4 \<leftarrow> option_field jstr 4 [''context-id'', ''context_id''] j;
     Some (ResolveRequest src x1 x2 x3 x4)
   })"

definition decode_link :: "json \<Rightarrow> users_request option" where
  "decode_link j = (if \<not> struct_shape 7 j then None else do {
     src \<leftarrow> Option.bind (field 0 ''source'' j) decode_source;
     x1 \<leftarrow> string_field 1 [''platform''] j;
     x2 \<leftarrow> option_field jstr 2 [''platform-instance'', ''platform_instance''] j;
     x3 \<leftarrow> string_field 3 [''platform-user-id'', ''platform_user_id''] j;
     x4 \<leftarrow> string_field 4 [''astrid-user-id'', ''astrid_user_id''] j;
     x5 \<leftarrow> string_field 5 [''method''] j;
     x6 \<leftarrow> option_field jstr 6 [''display-name'', ''display_name''] j;
     Some (LinkRequest src x1 x2 x3 x4 x5 x6)
   })"

definition decode_unlink :: "json \<Rightarrow> users_request option" where
  "decode_unlink j = (if \<not> struct_shape 4 j then None else do {
     src \<leftarrow> Option.bind (field 0 ''source'' j) decode_source;
     x1 \<leftarrow> string_field 1 [''platform''] j;
     x2 \<leftarrow> option_field jstr 2 [''platform-instance'', ''platform_instance''] j;
     x3 \<leftarrow> string_field 3 [''platform-user-id'', ''platform_user_id''] j;
     Some (UnlinkRequest src x1 x2 x3)
   })"

definition decode_create :: "json \<Rightarrow> users_request option" where
  "decode_create j = (if \<not> struct_shape 2 j then None else do {
     src \<leftarrow> Option.bind (field 0 ''source'' j) decode_source;
     x1 \<leftarrow> option_field jstr 1 [''display-name'', ''display_name''] j;
     Some (CreateRequest src x1)
   })"

definition decode_set_display_name :: "json \<Rightarrow> users_request option" where
  "decode_set_display_name j = (if \<not> struct_shape 3 j then None else do {
     src \<leftarrow> Option.bind (field 0 ''source'' j) decode_source;
     x1 \<leftarrow> string_field 1 [''astrid-user-id'', ''astrid_user_id''] j;
     x2 \<leftarrow> option_field jstr 2 [''display-name'', ''display_name''] j;
     Some (SetDisplayNameRequest src x1 x2)
   })"

definition decode_set_public_key :: "json \<Rightarrow> users_request option" where
  "decode_set_public_key j = (if \<not> struct_shape 3 j then None else do {
     src \<leftarrow> Option.bind (field 0 ''source'' j) decode_source;
     x1 \<leftarrow> string_field 1 [''astrid-user-id'', ''astrid_user_id''] j;
     x2 \<leftarrow> option_field byte_list 2 [''public-key'', ''public_key''] j;
     Some (SetPublicKeyRequest src x1 x2)
   })"

definition decode_links :: "json \<Rightarrow> users_request option" where
  "decode_links j = (if \<not> struct_shape 2 j then None else do {
     src \<leftarrow> Option.bind (field 0 ''source'' j) decode_source;
     x1 \<leftarrow> string_field 1 [''astrid-user-id'', ''astrid_user_id''] j;
     Some (LinksRequest src x1)
   })"

definition decode_get :: "json \<Rightarrow> users_request option" where
  "decode_get j = (if \<not> struct_shape 2 j then None else do {
     src \<leftarrow> Option.bind (field 0 ''source'' j) decode_source;
     x1 \<leftarrow> string_field 1 [''astrid-user-id'', ''astrid_user_id''] j;
     Some (GetRequest src x1)
   })"

definition decode_delete :: "json \<Rightarrow> users_request option" where
  "decode_delete j = (if \<not> struct_shape 2 j then None else do {
     src \<leftarrow> Option.bind (field 0 ''source'' j) decode_source;
     x1 \<leftarrow> string_field 1 [''astrid-user-id'', ''astrid_user_id''] j;
     Some (DeleteRequest src x1)
   })"

definition decode_list :: "json \<Rightarrow> users_request option" where
  "decode_list j = (if \<not> struct_shape 3 j then None else do {
     src \<leftarrow> Option.bind (field 0 ''source'' j) decode_source;
     x1 \<leftarrow> option_field jstr 1 [''cursor''] j;
     x2 \<leftarrow> option_field ju32 2 [''limit''] j;
     Some (ListRequest src x1 x2)
   })"

definition decode_context_set :: "json \<Rightarrow> users_request option" where
  "decode_context_set j = (if \<not> struct_shape 6 j then None else do {
     src \<leftarrow> Option.bind (field 0 ''source'' j) decode_source;
     x1 \<leftarrow> string_field 1 [''platform''] j;
     x2 \<leftarrow> option_field jstr 2 [''platform-instance'', ''platform_instance''] j;
     x3 \<leftarrow> string_field 3 [''platform-user-id'', ''platform_user_id''] j;
     x4 \<leftarrow> string_field 4 [''context-id'', ''context_id''] j;
     x5 \<leftarrow> string_field 5 [''display-name'', ''display_name''] j;
     Some (ContextSetRequest src x1 x2 x3 x4 x5)
   })"

definition decode_context_clear :: "json \<Rightarrow> users_request option" where
  "decode_context_clear j = (if \<not> struct_shape 5 j then None else do {
     src \<leftarrow> Option.bind (field 0 ''source'' j) decode_source;
     x1 \<leftarrow> string_field 1 [''platform''] j;
     x2 \<leftarrow> option_field jstr 2 [''platform-instance'', ''platform_instance''] j;
     x3 \<leftarrow> string_field 3 [''platform-user-id'', ''platform_user_id''] j;
     x4 \<leftarrow> string_field 4 [''context-id'', ''context_id''] j;
     Some (ContextClearRequest src x1 x2 x3 x4)
   })"

definition decode_context_get :: "json \<Rightarrow> users_request option" where
  "decode_context_get j = (if \<not> struct_shape 5 j then None else do {
     src \<leftarrow> Option.bind (field 0 ''source'' j) decode_source;
     x1 \<leftarrow> string_field 1 [''platform''] j;
     x2 \<leftarrow> option_field jstr 2 [''platform-instance'', ''platform_instance''] j;
     x3 \<leftarrow> string_field 3 [''platform-user-id'', ''platform_user_id''] j;
     x4 \<leftarrow> string_field 4 [''context-id'', ''context_id''] j;
     Some (ContextGetRequest src x1 x2 x3 x4)
   })"

definition decode_context_list_for_user :: "json \<Rightarrow> users_request option" where
  "decode_context_list_for_user j = (if \<not> struct_shape 4 j then None else do {
     src \<leftarrow> Option.bind (field 0 ''source'' j) decode_source;
     x1 \<leftarrow> string_field 1 [''astrid-user-id'', ''astrid_user_id''] j;
     x2 \<leftarrow> option_field jstr 2 [''cursor''] j;
     x3 \<leftarrow> option_field ju32 3 [''limit''] j;
     Some (ContextListForUserRequest src x1 x2 x3)
   })"

definition decode_context_list_in_context :: "json \<Rightarrow> users_request option" where
  "decode_context_list_in_context j = (if \<not> struct_shape 6 j then None else do {
     src \<leftarrow> Option.bind (field 0 ''source'' j) decode_source;
     x1 \<leftarrow> string_field 1 [''platform''] j;
     x2 \<leftarrow> option_field jstr 2 [''platform-instance'', ''platform_instance''] j;
     x3 \<leftarrow> string_field 3 [''context-id'', ''context_id''] j;
     x4 \<leftarrow> option_field jstr 4 [''cursor''] j;
     x5 \<leftarrow> option_field ju32 5 [''limit''] j;
     Some (ContextListInContextRequest src x1 x2 x3 x4 x5)
   })"

subsection \<open>Answers\<close>

definition opt_member :: "string \<Rightarrow> ('a \<Rightarrow> json) \<Rightarrow> 'a option \<Rightarrow> (string \<times> json) list" where
  "opt_member k f v = (case v of None \<Rightarrow> [] | Some x \<Rightarrow> [(k, f x)])"

definition bytes_json :: "string \<Rightarrow> json" where
  "bytes_json bs = JArr (map (\<lambda>c. JInt (of_char c)) bs)"

definition user_value :: "user_lib \<Rightarrow> astrid_user \<Rightarrow> json" where
  "user_value U u = JObj ((''id'', JStr (uid_text U (au_id u))) # opt_member ''display-name'' JStr (au_display_name u) @
     opt_member ''public-key'' bytes_json (au_public_key u) @ [(''created-at'', JStr (au_created_at u))])"

definition user_to_json :: "user_lib \<Rightarrow> astrid_user option \<Rightarrow> json" where
  "user_to_json U u = or_default JNull (map_option (user_value U) u)"

definition link_to_json :: "user_lib \<Rightarrow> frontend_link \<Rightarrow> json" where
  "link_to_json U l = JObj ((''platform'', JStr (fl_platform l)) # opt_member ''platform-instance'' JStr (fl_instance l) @
     [(''platform-user-id'', JStr (fl_user_id l)), (''astrid-user-id'', JStr (uid_text U (fl_astrid_id l))),
      (''linked-at'', JStr (fl_linked_at l)), (''method'', JStr (fl_method l))] @
     opt_member ''display-name'' JStr (fl_display_name l))"

definition context_to_json :: "context_identity \<Rightarrow> json" where
  "context_to_json c = JObj ((''platform'', JStr (ci_platform c)) # opt_member ''platform-instance'' JStr (ci_instance c) @
     [(''platform-user-id'', JStr (ci_user_id c)), (''context-id'', JStr (ci_context_id c)),
      (''display-name'', JStr (ci_display_name c)), (''updated-at'', JStr (ci_updated_at c))])"

definition member_json :: "user_lib \<Rightarrow> context_identity \<times> nat option \<Rightarrow> json" where
  "member_json U m = JObj ((''context-identity'', context_to_json (fst m)) #
     opt_member ''astrid-user-id'' (\<lambda>u. JStr (uid_text U u)) (snd m))"

definition publish_error :: "user_lib \<Rightarrow> uhost \<Rightarrow> string \<Rightarrow> string \<Rightarrow> store_error \<Rightarrow> unit uio" where
  "publish_error U H topic cid e = do {
     _ \<leftarrow> publish H topic (JObj [(''correlation-id'', JStr cid), (''error'', JStr (error_text U e))]);
     ret ()
   }"

text \<open>What every interceptor does with the result of its operation; after a panic nothing runs.\<close>

definition answer :: "user_lib \<Rightarrow> uhost \<Rightarrow> string \<Rightarrow> string \<Rightarrow> ('a \<Rightarrow> (string \<times> json) list) \<Rightarrow> 'a uresult \<Rightarrow> unit uio" where
  "answer U H topic cid f m = do {
     r \<leftarrow> m;
     case r of
       Inl e \<Rightarrow> if e = Aborted then ret () else publish_error U H topic cid e
     | Inr x \<Rightarrow> do { _ \<leftarrow> publish H topic (JObj ((''correlation-id'', JStr cid) # f x)); ret () }
   }"

definition parse_uuid :: "user_lib \<Rightarrow> uhost \<Rightarrow> string \<Rightarrow> string \<Rightarrow> string \<Rightarrow> (nat option) uio" where
  "parse_uuid U H s topic cid = (case uid_parse U s of
     Some u \<Rightarrow> ret (Some u)
   | None \<Rightarrow> do {
       publish_error U H topic cid (InvalidInput (''astrid_user_id is not a valid UUID: '' @ uid_error U s));
       ret None
     })"

definition parse_pubkey :: "user_lib \<Rightarrow> uhost \<Rightarrow> string option \<Rightarrow> string \<Rightarrow> string \<Rightarrow> (string option option) uio" where
  "parse_pubkey U H bytes topic cid = (case bytes of
     None \<Rightarrow> ret (Some None)
   | Some b \<Rightarrow> if length b = 32 then ret (Some (Some b))
       else do {
         publish_error U H topic cid (InvalidInput (''public_key must be 32 bytes (got '' @ show_nat (length b) @ '')''));
         ret None
       })"

definition for_user :: "user_lib \<Rightarrow> uhost \<Rightarrow> string \<Rightarrow> string \<Rightarrow> string \<Rightarrow> (nat \<Rightarrow> unit uio) \<Rightarrow> unit uio" where
  "for_user U H s topic cid k = do {
     u \<leftarrow> parse_uuid U H s topic cid;
     case u of None \<Rightarrow> ret () | Some uid \<Rightarrow> k uid
   }"

definition page_members :: "string \<Rightarrow> ('a \<Rightarrow> json) \<Rightarrow> 'a list \<times> string option \<Rightarrow> (string \<times> json) list" where
  "page_members what f page = (what, JArr (map f (fst page))) # opt_member ''next-cursor'' JStr (snd page)"

definition resolved_members :: "user_lib \<Rightarrow> astrid_user option \<times> resolved_name option \<Rightarrow> (string \<times> json) list" where
  "resolved_members U r = (''user'', user_to_json U (fst r)) # (case snd r of
     None \<Rightarrow> []
   | Some n \<Rightarrow> [(''display-name'', JStr (rn_name n)), (''display-name-source'', JStr (rn_source n))])"

definition context_members :: "user_lib \<Rightarrow> context_identity option \<times> nat option \<Rightarrow> (string \<times> json) list" where
  "context_members U r = opt_member ''context-identity'' context_to_json (fst r) @
     opt_member ''astrid-user-id'' (\<lambda>u. JStr (uid_text U u)) (snd r)"

subsection \<open>Interceptors\<close>

definition users_resolve :: "user_lib \<Rightarrow> uhost \<Rightarrow> req_source \<Rightarrow> string \<Rightarrow> string option \<Rightarrow> string \<Rightarrow> string option \<Rightarrow> unit uio" where
  "users_resolve U H src p i puid c = (let topic = ''users.v1.resolve.response''; cid = src_correlation_id src in
     answer U H topic cid (resolved_members U) (resolve U H p i puid c))"

definition users_link :: "user_lib \<Rightarrow> uhost \<Rightarrow> req_source \<Rightarrow> string \<Rightarrow> string option \<Rightarrow> string \<Rightarrow> string \<Rightarrow> string \<Rightarrow> string option \<Rightarrow> unit uio" where
  "users_link U H src p i puid uid meth dn = (let topic = ''users.v1.link.response''; cid = src_correlation_id src in
     for_user U H uid topic cid (\<lambda>u.
     answer U H topic cid (\<lambda>l. [(''link'', link_to_json U l)]) (link U H p i puid u meth dn)))"

definition users_unlink :: "user_lib \<Rightarrow> uhost \<Rightarrow> req_source \<Rightarrow> string \<Rightarrow> string option \<Rightarrow> string \<Rightarrow> unit uio" where
  "users_unlink U H src p i puid = (let topic = ''users.v1.unlink.response''; cid = src_correlation_id src in
     answer U H topic cid (\<lambda>b. [(''removed'', JBool b)]) (unlink H p i puid))"

definition users_create :: "user_lib \<Rightarrow> uhost \<Rightarrow> req_source \<Rightarrow> string option \<Rightarrow> unit uio" where
  "users_create U H src dn = (let topic = ''users.v1.create.response''; cid = src_correlation_id src in
     answer U H topic cid (\<lambda>u. [(''user'', user_value U u)]) (create_user U H dn))"

definition users_set_display_name :: "user_lib \<Rightarrow> uhost \<Rightarrow> req_source \<Rightarrow> string \<Rightarrow> string option \<Rightarrow> unit uio" where
  "users_set_display_name U H src uid dn = (let topic = ''users.v1.set_display_name.response''; cid = src_correlation_id src in
     for_user U H uid topic cid (\<lambda>u.
     answer U H topic cid (\<lambda>x. [(''user'', user_value U x)]) (set_display_name U H u dn)))"

definition users_set_public_key :: "user_lib \<Rightarrow> uhost \<Rightarrow> req_source \<Rightarrow> string \<Rightarrow> string option \<Rightarrow> unit uio" where
  "users_set_public_key U H src uid pk = (let topic = ''users.v1.set_public_key.response''; cid = src_correlation_id src in
     for_user U H uid topic cid (\<lambda>u. do {
     key \<leftarrow> parse_pubkey U H pk topic cid;
     case key of
       None \<Rightarrow> ret ()
     | Some k \<Rightarrow> answer U H topic cid (\<lambda>x. [(''user'', user_value U x)]) (set_public_key U H u k)
   }))"

definition users_links :: "user_lib \<Rightarrow> uhost \<Rightarrow> req_source \<Rightarrow> string \<Rightarrow> unit uio" where
  "users_links U H src uid = (let topic = ''users.v1.links.response''; cid = src_correlation_id src in
     for_user U H uid topic cid (\<lambda>u.
     answer U H topic cid (\<lambda>ls. [(''links'', JArr (map (link_to_json U) ls))]) (list_links H u)))"

definition users_get :: "user_lib \<Rightarrow> uhost \<Rightarrow> req_source \<Rightarrow> string \<Rightarrow> unit uio" where
  "users_get U H src uid = (let topic = ''users.v1.get.response''; cid = src_correlation_id src in
     for_user U H uid topic cid (\<lambda>u.
     answer U H topic cid (\<lambda>x. [(''user'', user_to_json U x)]) (get_user U H u)))"

definition users_delete :: "user_lib \<Rightarrow> uhost \<Rightarrow> req_source \<Rightarrow> string \<Rightarrow> unit uio" where
  "users_delete U H src uid = (let topic = ''users.v1.delete.response''; cid = src_correlation_id src in
     for_user U H uid topic cid (\<lambda>u.
     answer U H topic cid (\<lambda>b. [(''deleted'', JBool b)]) (delete_user U H u)))"

definition users_list :: "user_lib \<Rightarrow> uhost \<Rightarrow> req_source \<Rightarrow> string option \<Rightarrow> nat option \<Rightarrow> unit uio" where
  "users_list U H src cursor limit = (let topic = ''users.v1.list.response''; cid = src_correlation_id src in
     answer U H topic cid (page_members ''users'' (user_value U)) (list_users_paginated H cursor limit))"

definition users_context_set :: "user_lib \<Rightarrow> uhost \<Rightarrow> req_source \<Rightarrow> string \<Rightarrow> string option \<Rightarrow> string \<Rightarrow> string \<Rightarrow> string \<Rightarrow> unit uio" where
  "users_context_set U H src p i puid c dn = (let topic = ''users.v1.context.set.response''; cid = src_correlation_id src in
     answer U H topic cid (\<lambda>x. [(''context-identity'', context_to_json x)]) (set_context H p i puid c dn))"

definition users_context_clear :: "user_lib \<Rightarrow> uhost \<Rightarrow> req_source \<Rightarrow> string \<Rightarrow> string option \<Rightarrow> string \<Rightarrow> string \<Rightarrow> unit uio" where
  "users_context_clear U H src p i puid c = (let topic = ''users.v1.context.clear.response''; cid = src_correlation_id src in
     answer U H topic cid (\<lambda>b. [(''removed'', JBool b)]) (clear_context H p i puid c))"

definition users_context_get :: "user_lib \<Rightarrow> uhost \<Rightarrow> req_source \<Rightarrow> string \<Rightarrow> string option \<Rightarrow> string \<Rightarrow> string \<Rightarrow> unit uio" where
  "users_context_get U H src p i puid c = (let topic = ''users.v1.context.get.response''; cid = src_correlation_id src in
     answer U H topic cid (context_members U) (get_context H p i puid c))"

definition users_context_list_for_user :: "user_lib \<Rightarrow> uhost \<Rightarrow> req_source \<Rightarrow> string \<Rightarrow> string option \<Rightarrow> nat option \<Rightarrow> unit uio" where
  "users_context_list_for_user U H src uid cursor limit = (let topic = ''users.v1.context.list_for_user.response''; cid = src_correlation_id src in
     for_user U H uid topic cid (\<lambda>u.
     answer U H topic cid (page_members ''contexts'' context_to_json) (list_context_for_user H u cursor limit)))"

definition users_context_list_in_context :: "user_lib \<Rightarrow> uhost \<Rightarrow> req_source \<Rightarrow> string \<Rightarrow> string option \<Rightarrow> string \<Rightarrow> string option \<Rightarrow> nat option \<Rightarrow> unit uio" where
  "users_context_list_in_context U H src p i c cursor limit = (let topic = ''users.v1.context.list_in_context.response''; cid = src_correlation_id src in
     answer U H topic cid (page_members ''members'' (member_json U)) (list_context_in_context H p i c cursor limit))"

text \<open>The dispatch of the capsule.\<close>

fun handle_users :: "user_lib \<Rightarrow> uhost \<Rightarrow> users_request \<Rightarrow> unit uio" where
  "handle_users U H (ResolveRequest src p i puid c) = users_resolve U H src p i puid c"
| "handle_users U H (LinkRequest src p i puid uid meth dn) = users_link U H src p i puid uid meth dn"
| "handle_users U H (UnlinkRequest src p i puid) = users_unlink U H src p i puid"
| "handle_users U H (CreateRequest src dn) = users_create U H src dn"
| "handle_users U H (SetDisplayNameRequest src uid dn) = users_set_display_name U H src uid dn"
| "handle_users U H (SetPublicKeyRequest src uid pk) = users_set_public_key U H src uid pk"
| "handle_users U H (LinksRequest src uid) = users_links U H src uid"
| "handle_users U H (GetRequest src uid) = users_get U H src uid"
| "handle_users U H (DeleteRequest src uid) = users_delete U H src uid"
| "handle_users U H (ListRequest src cursor limit) = users_list U H src cursor limit"
| "handle_users U H (ContextSetRequest src p i puid c dn) = users_context_set U H src p i puid c dn"
| "handle_users U H (ContextClearRequest src p i puid c) = users_context_clear U H src p i puid c"
| "handle_users U H (ContextGetRequest src p i puid c) = users_context_get U H src p i puid c"
| "handle_users U H (ContextListForUserRequest src uid cursor limit) = users_context_list_for_user U H src uid cursor limit"
| "handle_users U H (ContextListInContextRequest src p i c cursor limit) = users_context_list_in_context U H src p i c cursor limit"

end
