(* ===== verification/Users_Keys.thy ===== *)
theory Users_Keys
  imports Users_Handlers
begin

text \<open>
  The key scheme of the identity store as a code: the abstract keys, the text of each, and that
  validated keys have distinct texts, that a prefix selects one kind of key and a suffix one link.
  \<open>represents\<close> relates what the store holds to a directory, a map from abstract keys to records.
\<close>

subsection \<open>Abstract keys\<close>

datatype ukey =
    KUser nat
  | KLink string "string option" string
  | KContext string "string option" string string
  | KName string

fun key_text :: "user_lib \<Rightarrow> ukey \<Rightarrow> string" where
  "key_text U (KUser u) = user_key U u"
| "key_text U (KLink p i puid) = link_key p i puid"
| "key_text U (KContext p i c puid) = context_key p i c puid"
| "key_text U (KName n) = name_key n"

abbreviation slashed :: "string \<Rightarrow> bool" where
  "slashed s \<equiv> CHR ''/'' \<in> set s"

definition plain_instance :: "string option \<Rightarrow> bool" where
  "plain_instance i \<longleftrightarrow> (case i of None \<Rightarrow> True | Some s \<Rightarrow> \<not> slashed s \<and> s \<noteq> INSTANCE_NONE_SENTINEL)"

fun valid_key :: "ukey \<Rightarrow> bool" where
  "valid_key (KUser u) = True"
| "valid_key (KLink p i puid) \<longleftrightarrow> \<not> slashed p \<and> plain_instance i \<and> \<not> slashed puid"
| "valid_key (KContext p i c puid) \<longleftrightarrow> \<not> slashed p \<and> plain_instance i \<and> \<not> slashed c \<and> \<not> slashed puid"
| "valid_key (KName n) = True"

lemmas key_defs = user_key_def link_key_def context_key_def name_key_def
  context_prefix_for_link_bucket_def context_prefix_in_context_def

lemma slash_split:
  "\<not> slashed a \<Longrightarrow> \<not> slashed b \<Longrightarrow> a @ CHR ''/'' # x = b @ CHR ''/'' # y \<longleftrightarrow> a = b \<and> x = y"
proof (induction a arbitrary: b)
  case Nil
  then show ?case by (cases b) auto
next
  case (Cons c a)
  then show ?case by (cases b) auto
qed

lemma slash_split_last:
  "\<not> slashed a \<Longrightarrow> \<not> slashed b \<Longrightarrow> x @ CHR ''/'' # a = y @ CHR ''/'' # b \<longleftrightarrow> x = y \<and> a = b"
proof -
  assume "\<not> slashed a" "\<not> slashed b"
  then have "\<not> slashed (rev a)" "\<not> slashed (rev b)" by simp_all
  then have "rev a @ CHR ''/'' # rev x = rev b @ CHR ''/'' # rev y \<longleftrightarrow> rev a = rev b \<and> rev x = rev y"
    by (rule slash_split)
  then show ?thesis
    by (metis append.assoc append_Cons append_Nil rev.simps(2) rev_append rev_is_rev_conv)
qed

lemma segment_plain: "plain_instance i \<Longrightarrow> \<not> slashed (instance_segment i)"
  by (auto simp: plain_instance_def instance_segment_def INSTANCE_NONE_SENTINEL_def split: option.splits)

lemma segment_inj: "plain_instance i \<Longrightarrow> plain_instance j \<Longrightarrow> instance_segment i = instance_segment j \<longleftrightarrow> i = j"
  by (auto simp: plain_instance_def instance_segment_def split: option.splits)

lemmas segment_rules = slash_split segment_plain segment_inj

lemma key_text_inj:
  "(\<And>u v. uid_text U u = uid_text U v \<Longrightarrow> u = v) \<Longrightarrow> valid_key a \<Longrightarrow> valid_key b \<Longrightarrow>
   key_text U a = key_text U b \<longleftrightarrow> a = b"
  by (cases a; cases b) (auto simp: key_defs segment_rules)

subsection \<open>Prefixes and suffixes\<close>

lemma ends_with_iff: "ends_with p s \<longleftrightarrow> (\<exists>a. s = a @ p)"
proof
  assume "ends_with p s"
  then show "\<exists>a. s = a @ p" unfolding ends_with_def by (metis append_take_drop_id)
next
  assume "\<exists>a. s = a @ p"
  then show "ends_with p s" by (auto simp: ends_with_def)
qed

lemma user_prefix: "starts_with ''user/'' (key_text U k) \<longleftrightarrow> (\<exists>u. k = KUser u)"
  by (cases k) (auto simp: key_defs starts_with_def)

lemma link_prefix: "starts_with ''link/'' (key_text U k) \<longleftrightarrow> (\<exists>p i puid. k = KLink p i puid)"
  by (cases k) (auto simp: key_defs starts_with_def)

lemma bucket_prefix:
  assumes "valid_key k" "\<not> slashed p" "plain_instance i"
  shows "starts_with (context_prefix_for_link_bucket p i) (key_text U k) \<longleftrightarrow> (\<exists>c puid. k = KContext p i c puid)"
  using assms by (cases k) (auto simp: key_defs starts_with_iff segment_rules)

lemma context_prefix:
  assumes "valid_key k" "\<not> slashed p" "plain_instance i" "\<not> slashed c"
  shows "starts_with (context_prefix_in_context p i c) (key_text U k) \<longleftrightarrow> (\<exists>puid. k = KContext p i c puid)"
  using assms by (cases k) (auto simp: key_defs starts_with_iff segment_rules)

lemma context_suffix:
  assumes "valid_key (KContext p i c q)" "\<not> slashed puid"
  shows "ends_with (''/'' @ puid) (context_key p i c q) \<longleftrightarrow> q = puid"
proof -
  let ?pre = "''context/'' @ p @ ''/'' @ instance_segment i @ ''/'' @ c"
  have "context_key p i c q = ?pre @ CHR ''/'' # q" by (simp add: context_key_def)
  moreover have "?pre @ CHR ''/'' # q = a @ CHR ''/'' # puid \<longleftrightarrow> ?pre = a \<and> q = puid" for a
    using assms by (intro slash_split_last) simp_all
  ultimately show ?thesis unfolding ends_with_iff by auto
qed

subsection \<open>Validation gives valid keys\<close>

lemma dropWhile_subset: "set (dropWhile P xs) \<subseteq> set xs"
  by (induction xs) auto

lemma set_trim: "set (trim s) \<subseteq> set s"
proof -
  have "set (trim_groups gs) \<subseteq> set gs" for gs
    unfolding trim_groups_def using dropWhile_subset [of is_white gs]
      dropWhile_subset [of is_white "rev (dropWhile is_white gs)"] by auto
  then have "\<Union> (set ` set (trim_groups (utf8_chars s))) \<subseteq> \<Union> (set ` set (utf8_chars s))" by blast
  then show ?thesis unfolding trim_def by (metis concat_utf8_chars set_concat)
qed

lemma ascii_lower_slash: "ascii_lower c = CHR ''/'' \<longleftrightarrow> c = CHR ''/''"
proof
  assume lower: "ascii_lower c = CHR ''/''"
  show "c = CHR ''/''"
  proof (cases "65 \<le> (of_char c :: nat) \<and> (of_char c :: nat) \<le> 90")
    case True
    then have "(of_char (ascii_lower c) :: nat) = of_char c + 32" by (simp add: ascii_lower_def Let_def)
    with lower True show ?thesis by simp
  next
    case False
    with lower show ?thesis by (auto simp: ascii_lower_def Let_def split: if_splits)
  qed
qed (simp add: ascii_lower_def)

lemma normalize_plain: "\<not> slashed p \<Longrightarrow> \<not> slashed (normalize_platform p)"
  using set_trim [of p] by (auto simp: normalize_platform_def ascii_lower_slash dest!: sym [of "CHR ''/''"])

lemma component_valid: "validate_key_component v what = Inr x \<Longrightarrow> \<not> slashed v"
  by (auto simp: validate_key_component_def breaks_key_def split: sum.splits if_splits)

lemma platform_valid: "validate_key_component p what = Inr x \<Longrightarrow> \<not> slashed (normalize_platform p)"
  by (intro normalize_plain component_valid)

lemma instance_valid: "validate_instance i = Inr x \<Longrightarrow> plain_instance i"
  by (auto simp: validate_instance_def plain_instance_def dest: component_valid split: option.splits sum.splits if_splits)

end
