(* ===== verification/Users_Directory.thy ===== *)
theory Users_Directory
  imports Users_Keys
begin

text \<open>
  The store as a directory: a map from abstract keys to values, the relation between the two, the
  contract of a store that works (\<open>user_store\<close>), and one rule per backend call over directories.
\<close>

lemma map_preimage: "set ys \<subseteq> f ` A \<Longrightarrow> \<exists>xs. map f xs = ys \<and> set xs \<subseteq> A"
proof (induction ys)
  case (Cons y ys)
  then obtain x xs where "map f xs = ys" "set xs \<subseteq> A" "y = f x" "x \<in> A" by auto
  then show ?case by (intro exI [where x = "x # xs"]) simp
qed simp

type_synonym directory = "ukey \<Rightarrow> user_val option"

definition represents :: "user_lib \<Rightarrow> (string \<Rightarrow> user_val option) \<Rightarrow> directory \<Rightarrow> bool" where
  "represents U \<sigma> D \<longleftrightarrow> (\<forall>k \<in> dom D. valid_key k \<and> D k \<noteq> Some (URaw [])) \<and>
     (\<forall>s v. \<sigma> s = Some v \<longleftrightarrow> (\<exists>k. key_text U k = s \<and> D k = Some v))"

definition used_ids :: "user_lib \<Rightarrow> (user_val, json) event list \<Rightarrow> nat set" where
  "used_ids U tr = {u. kv_view tr (user_key U u) \<noteq> None}"

text \<open>
  What the capsule relies on: ids have distinct, non-empty texts and parse back; a fresh id is in use
  by no user; reads give what was written, empty bytes for a missing key; a listing gives the stored
  keys of the prefix, each once.
\<close>

locale user_store =
  fixes U :: user_lib and H :: uhost
  assumes parse_text: "uid_parse U (uid_text U u) = Some u"
    and text_some: "uid_text U u \<noteq> []"
    and fresh: "h_uuid H tr \<notin> used_ids U tr"
    and read_ok: "h_get_raw H tr k = Inr (or_default (URaw []) (kv_view tr k))"
    and write_ok: "h_set H tr k v = None"
    and delete_ok: "h_del H tr k = None"
    and keys_ok: "\<exists>ks. h_keys H tr p = Inr ks \<and> distinct ks \<and> set ks = {k. starts_with p k \<and> kv_view tr k \<noteq> None}"
begin

lemma text_inj: "uid_text U u = uid_text U v \<Longrightarrow> u = v"
  by (metis parse_text option.inject)

lemma text_inj_iff [simp]: "uid_text U u = uid_text U v \<longleftrightarrow> u = v"
  using text_inj by blast

lemmas keys_inj = key_text_inj [OF text_inj]

lemma read_key:
  assumes "represents U \<sigma> D" "valid_key k"
  shows "\<sigma> (key_text U k) = D k"
proof (rule option.expand)
  show "(\<sigma> (key_text U k) = None) = (D k = None)"
    using assms keys_inj unfolding represents_def by (metis domI not_None_eq)
  show "the (\<sigma> (key_text U k)) = the (D k)" if "\<sigma> (key_text U k) \<noteq> None"
    using that assms keys_inj unfolding represents_def by (metis domI not_None_eq option.sel)
qed

lemma represents_set:
  assumes "represents U \<sigma> D" "valid_key k" "v \<noteq> URaw []"
  shows "represents U (\<sigma>(key_text U k \<mapsto> v)) (D(k \<mapsto> v))"
  unfolding represents_def
proof (intro conjI allI ballI)
  fix j assume "j \<in> dom (D(k \<mapsto> v))"
  then show "valid_key j" "(D(k \<mapsto> v)) j \<noteq> Some (URaw [])"
    using assms by (auto simp: represents_def split: if_splits)
next
  fix s w
  have inj: "valid_key j \<Longrightarrow> key_text U j = key_text U k \<longleftrightarrow> j = k" for j using keys_inj assms(2) by blast
  have dom: "D j = Some x \<Longrightarrow> valid_key j" for j x using assms(1) by (auto simp: represents_def)
  have old: "\<sigma> s = Some w \<longleftrightarrow> (\<exists>k. key_text U k = s \<and> D k = Some w)" for s w using assms(1) by (simp add: represents_def)
  show "(\<sigma>(key_text U k \<mapsto> v)) s = Some w \<longleftrightarrow> (\<exists>j. key_text U j = s \<and> (D(k \<mapsto> v)) j = Some w)"
    using inj dom old by (cases "s = key_text U k") auto
qed

lemma represents_delete:
  assumes "represents U \<sigma> D" "valid_key k"
  shows "represents U (\<sigma>(key_text U k := None)) (D(k := None))"
  unfolding represents_def
proof (intro conjI allI ballI)
  fix j assume "j \<in> dom (D(k := None))"
  then show "valid_key j" "(D(k := None)) j \<noteq> Some (URaw [])"
    using assms by (auto simp: represents_def split: if_splits)
next
  fix s w
  have inj: "valid_key j \<Longrightarrow> key_text U j = key_text U k \<longleftrightarrow> j = k" for j using keys_inj assms(2) by blast
  have dom: "D j = Some x \<Longrightarrow> valid_key j" for j x using assms(1) by (auto simp: represents_def)
  have old: "\<sigma> s = Some w \<longleftrightarrow> (\<exists>k. key_text U k = s \<and> D k = Some w)" for s w using assms(1) by (simp add: represents_def)
  show "(\<sigma>(key_text U k := None)) s = Some w \<longleftrightarrow> (\<exists>j. key_text U j = s \<and> (D(k := None)) j = Some w)"
    using inj dom old by (cases "s = key_text U k") auto
qed

subsection \<open>Backend calls\<close>

definition stores :: "directory \<Rightarrow> (user_val, json) event list \<Rightarrow> bool" where
  "stores D tr \<longleftrightarrow> represents U (kv_view tr) D"

lemma stores_valid: "stores D tr \<Longrightarrow> D k = Some v \<Longrightarrow> valid_key k"
  by (auto simp: stores_def represents_def)

lemma stores_quiet [simp]:
  "stores D (EvGetRaw k r # tr) = stores D tr" "stores D (EvTime t # tr) = stores D tr"
  "stores D (EvUuid u # tr) = stores D tr" "stores D (EvKeys p r' # tr) = stores D tr"
  "stores D (EvPub q m e # tr) = stores D tr"
  by (simp_all add: stores_def represents_def)

lemma get_stores:
  assumes "stores D tr" "valid_key k" "\<And>t. stores D t \<Longrightarrow> Q (Inr (D k)) t"
  shows "wp (b_get H (key_text U k)) Q tr"
proof -
  have "kv_view tr (key_text U k) = D k" using assms(1,2) read_key by (simp add: stores_def)
  moreover have "D k \<noteq> Some (URaw [])" using assms(1) by (auto simp: stores_def represents_def)
  ultimately have "(if or_default (URaw []) (kv_view tr (key_text U k)) = URaw [] then None
      else Some (or_default (URaw []) (kv_view tr (key_text U k)))) = D k" by (cases "D k") auto
  then show ?thesis using assms(1,3) by (simp add: b_get_def wp_iff kv_get_raw_def read_ok)
qed

lemma set_stores:
  assumes "stores D tr" "valid_key k" "v \<noteq> URaw []" "\<And>t. stores (D(k \<mapsto> v)) t \<Longrightarrow> Q (Inr ()) t"
  shows "wp (b_set H (key_text U k) v) Q tr"
proof -
  have "kv_view (EvSet (key_text U k) v None # tr) = (kv_view tr)(key_text U k \<mapsto> v)" by (simp add: fun_eq_iff)
  then have "stores (D(k \<mapsto> v)) (EvSet (key_text U k) v None # tr)"
    using represents_set [OF _ assms(2,3)] assms(1) by (simp add: stores_def)
  then show ?thesis using assms(4) by (simp add: b_set_def wp_iff kv_set_def write_ok stored_ok_def)
qed

lemma delete_stores:
  assumes "stores D tr" "valid_key k" "\<And>t. stores (D(k := None)) t \<Longrightarrow> Q (Inr ()) t"
  shows "wp (b_delete H (key_text U k)) Q tr"
proof -
  have "kv_view (EvDel (key_text U k) None # tr) = (kv_view tr)(key_text U k := None)" by (simp add: fun_eq_iff)
  then have "stores (D(k := None)) (EvDel (key_text U k) None # tr)"
    using represents_delete [OF _ assms(2)] assms(1) by (simp add: stores_def)
  then show ?thesis using assms(3) by (simp add: b_delete_def wp_iff kv_delete_def delete_ok stored_ok_def)
qed

lemma list_stores:
  assumes "stores D tr"
    and "\<And>ks t. stores D t \<Longrightarrow> distinct ks \<Longrightarrow> set ks = {k \<in> dom D. starts_with p (key_text U k)} \<Longrightarrow> Q (Inr (map (key_text U) ks)) t"
  shows "wp (b_list_keys H p) Q tr"
proof -
  obtain ss where ss: "h_keys H tr p = Inr ss" "distinct ss" "set ss = {s. starts_with p s \<and> kv_view tr s \<noteq> None}"
    using keys_ok [of tr p] by blast
  have rep: "kv_view tr s \<noteq> None \<longleftrightarrow> (\<exists>k \<in> dom D. key_text U k = s)" for s
    using assms(1) by (auto simp: stores_def represents_def domIff)
  have inj: "inj_on (key_text U) (dom D)"
    using keys_inj stores_valid [OF assms(1)] by (intro inj_onI) blast
  have "set ss \<subseteq> key_text U ` dom D" using ss(3) rep by auto
  then obtain ks where ks: "map (key_text U) ks = ss" "set ks \<subseteq> dom D"
    using map_preimage by blast
  have "set ks = {k \<in> dom D. starts_with p (key_text U k)}"
  proof
    show "set ks \<subseteq> {k \<in> dom D. starts_with p (key_text U k)}"
    proof
      fix k assume k: "k \<in> set ks"
      then have "key_text U k \<in> set ss" unfolding ks(1) [symmetric] by simp
      then have "starts_with p (key_text U k)" unfolding ss(3) by simp
      then show "k \<in> {k \<in> dom D. starts_with p (key_text U k)}" using k ks(2) by blast
    qed
    show "{k \<in> dom D. starts_with p (key_text U k)} \<subseteq> set ks"
    proof
      fix k assume k: "k \<in> {k \<in> dom D. starts_with p (key_text U k)}"
      then have "key_text U k \<in> set ss" using ss(3) rep by auto
      then obtain j where "j \<in> set ks" "key_text U j = key_text U k" using ks(1) by auto
      moreover have "k \<in> dom D" using k by simp
      ultimately show "k \<in> set ks" using inj ks(2) by (metis inj_onD subsetD)
    qed
  qed
  moreover have "distinct ks" using ss(2) ks(1) by (auto simp: distinct_map)
  ultimately show ?thesis
    using assms by (simp add: b_list_keys_def wp_iff list_keys_def ss(1) ks(1) [symmetric])
qed

lemma json_stores:
  assumes "stores D tr" "valid_key k" "case D k of None \<Rightarrow> True | Some v \<Rightarrow> decode v \<noteq> None"
    and "\<And>t. stores D t \<Longrightarrow> Q (Inr (Option.bind (D k) decode)) t"
  shows "wp (get_json decode H (key_text U k)) Q tr"
  unfolding get_json_def using assms
  by (intro wpI get_stores) (auto simp: wp_iff split: option.splits)

lemma time_stores: "stores D tr \<Longrightarrow> (\<And>s t. stores D t \<Longrightarrow> Q s t) \<Longrightarrow> wp (now_rfc3339 H) Q tr"
  unfolding now_rfc3339_def by (intro wpI) simp

lemma uuid_stores:
  assumes "stores D tr" and "\<And>u t. D (KUser u) = None \<Longrightarrow> stores D t \<Longrightarrow> Q u t"
  shows "wp (new_uuid H) Q tr"
proof -
  have "kv_view tr (key_text U (KUser (h_uuid H tr))) = D (KUser (h_uuid H tr))"
    using assms(1) unfolding stores_def by (rule read_key) simp
  moreover have "kv_view tr (key_text U (KUser (h_uuid H tr))) = None" using fresh [of tr] by (simp add: used_ids_def)
  ultimately have "D (KUser (h_uuid H tr)) = None" by simp
  then show ?thesis using assms by (simp add: wp_iff new_uuid_def)
qed

end

end
