(* ===== verification/Users_Spec.thy ===== *)
theory Users_Spec
  imports Users_Directory
begin

text \<open>
  Correctness of the identity store: what each operation does to the directory, that no reachable store
  has a dangling link, overlay or name, and what a deletion, a resolution and a link mean.
\<close>

subsection \<open>Sound directories\<close>

definition user_at :: "directory \<Rightarrow> nat \<Rightarrow> astrid_user option" where
  "user_at D u = Option.bind (D (KUser u)) as_user"

definition link_at :: "directory \<Rightarrow> string \<Rightarrow> string option \<Rightarrow> string \<Rightarrow> frontend_link option" where
  "link_at D p i puid = Option.bind (D (KLink p i puid)) as_link"

definition overlay_at :: "directory \<Rightarrow> string \<Rightarrow> string option \<Rightarrow> string \<Rightarrow> string \<Rightarrow> context_identity option" where
  "overlay_at D p i c puid = Option.bind (D (KContext p i c puid)) as_context"

text \<open>A record fits its key and what it refers to is there.\<close>

fun fits :: "user_lib \<Rightarrow> directory \<Rightarrow> ukey \<Rightarrow> user_val \<Rightarrow> bool" where
  "fits U D (KUser u) v \<longleftrightarrow> (\<exists>x. v = UUser x \<and> au_id x = u)"
| "fits U D (KLink p i puid) v \<longleftrightarrow> (\<exists>l. v = ULink l \<and> fl_platform l = p \<and> fl_instance l = i \<and> fl_user_id l = puid \<and>
     D (KUser (fl_astrid_id l)) \<noteq> None)"
| "fits U D (KContext p i c puid) v \<longleftrightarrow> (\<exists>x. v = UCtx x \<and> ci_platform x = p \<and> ci_instance x = i \<and> ci_user_id x = puid \<and>
     ci_context_id x = c \<and> D (KLink p i puid) \<noteq> None)"
| "fits U D (KName n) v \<longleftrightarrow> (\<exists>u x dn. v = URaw (uid_text U u) \<and> D (KUser u) = Some (UUser x) \<and>
     au_display_name x = Some dn \<and> trim dn = n)"

definition sound :: "user_lib \<Rightarrow> directory \<Rightarrow> bool" where
  "sound U D \<longleftrightarrow> (\<forall>k v. D k = Some v \<longrightarrow> fits U D k v)"

lemma soundD: "sound U D \<Longrightarrow> D k = Some v \<Longrightarrow> fits U D k v"
  by (simp add: sound_def)

lemma sound_empty: "sound U Map.empty"
  by (simp add: sound_def)

lemma user_at_sound: "sound U D \<Longrightarrow> D (KUser u) = map_option UUser (user_at D u)"
  by (cases "D (KUser u)") (auto simp: user_at_def dest!: soundD)

lemma link_at_sound: "sound U D \<Longrightarrow> D (KLink p i puid) = map_option ULink (link_at D p i puid)"
  by (cases "D (KLink p i puid)") (auto simp: link_at_def dest!: soundD)

lemma overlay_at_sound: "sound U D \<Longrightarrow> D (KContext p i c puid) = map_option UCtx (overlay_at D p i c puid)"
  by (cases "D (KContext p i c puid)") (auto simp: overlay_at_def dest!: soundD)

lemma user_at_id: "sound U D \<Longrightarrow> user_at D u = Some x \<Longrightarrow> au_id x = u"
  using user_at_sound [of U D u] by (auto dest!: soundD)

lemma link_at_fields:
  "sound U D \<Longrightarrow> link_at D p i puid = Some l \<Longrightarrow> fl_platform l = p \<and> fl_instance l = i \<and> fl_user_id l = puid \<and>
   user_at D (fl_astrid_id l) \<noteq> None"
  using link_at_sound [of U D p i puid] user_at_sound [of U D "fl_astrid_id l"] by (auto dest!: soundD)

subsection \<open>Reading\<close>

context user_store
begin

lemma get_user_rule:
  "stores D tr \<Longrightarrow> sound U D \<Longrightarrow> (\<And>t. stores D t \<Longrightarrow> Q (Inr (user_at D u)) t) \<Longrightarrow> wp (get_user U H u) Q tr"
  unfolding get_user_def key_text.simps(1) [symmetric]
  by (rule json_stores) (auto simp: user_at_def dest!: soundD split: option.split)

lemma get_link_rule:
  "stores D tr \<Longrightarrow> sound U D \<Longrightarrow> valid_key (KLink p i puid) \<Longrightarrow> (\<And>t. stores D t \<Longrightarrow> Q (Inr (link_at D p i puid)) t) \<Longrightarrow>
   wp (get_json as_link H (link_key p i puid)) Q tr"
  unfolding key_text.simps(2) [of U, symmetric]
  by (rule json_stores) (auto simp: link_at_def dest!: soundD split: option.split)

lemma get_context_rule:
  "stores D tr \<Longrightarrow> sound U D \<Longrightarrow> valid_key (KContext p i c puid) \<Longrightarrow> (\<And>t. stores D t \<Longrightarrow> Q (Inr (overlay_at D p i c puid)) t) \<Longrightarrow>
   wp (get_json as_context H (context_key p i c puid)) Q tr"
  unfolding key_text.simps(3) [of U, symmetric]
  by (rule json_stores) (auto simp: overlay_at_def dest!: soundD split: option.split)

lemma existing_user_rule:
  "stores D tr \<Longrightarrow> sound U D \<Longrightarrow>
   (\<And>t. stores D t \<Longrightarrow> Q (case user_at D u of None \<Rightarrow> Inl (UserNotFound u) | Some x \<Rightarrow> Inr x) t) \<Longrightarrow>
   wp (existing_user U H u) Q tr"
  unfolding existing_user_def by (intro wpI get_user_rule) (auto simp: wp_iff)

lemma exists_key_rule:
  "stores D tr \<Longrightarrow> valid_key k \<Longrightarrow> (\<And>t. stores D t \<Longrightarrow> Q (Inr (D k \<noteq> None)) t) \<Longrightarrow> wp (exists_key H (key_text U k)) Q tr"
  unfolding exists_key_def by (intro wpI get_stores) (auto simp: wp_iff)

end

lemma wp_check [wpI]:
  "(\<And>e. v = Inl e \<Longrightarrow> Q (Inl e) tr) \<Longrightarrow> (v = Inr () \<Longrightarrow> wp m Q tr) \<Longrightarrow> wp (check v m) Q tr"
  by (cases v) (auto simp: check_def wp_return)

lemma wp_check_triple [wpI]:
  assumes "\<And>e. validate_key_component p ''platform'' = Inl e \<or> validate_instance i = Inl e \<or>
      validate_key_component puid ''platform_user_id'' = Inl e \<Longrightarrow> Q (Inl e) tr"
    and "valid_key (KLink (normalize_platform p) i puid) \<Longrightarrow> validate_instance i = Inr () \<Longrightarrow>
      validate_key_component puid ''platform_user_id'' = Inr () \<Longrightarrow> wp m Q tr"
  shows "wp (check_triple p i puid m) Q tr"
  unfolding check_triple_def
  by (intro wp_check assms) (auto dest: component_valid instance_valid platform_valid)

subsection \<open>The name index\<close>

definition indexed :: "user_lib \<Rightarrow> nat \<Rightarrow> string option \<Rightarrow> directory \<Rightarrow> directory" where
  "indexed U u dn D = (case dn of
     None \<Rightarrow> D | Some n \<Rightarrow> if trim n = [] then D else D(KName (trim n) \<mapsto> URaw (uid_text U u)))"

definition unindexed :: "user_lib \<Rightarrow> nat \<Rightarrow> string option \<Rightarrow> directory \<Rightarrow> directory" where
  "unindexed U u dn D = (case dn of
     None \<Rightarrow> D | Some n \<Rightarrow> if D (KName (trim n)) = Some (URaw (uid_text U u)) then D(KName (trim n) := None) else D)"

definition with_user :: "user_lib \<Rightarrow> astrid_user \<Rightarrow> directory \<Rightarrow> directory" where
  "with_user U x D = indexed U (au_id x) (au_display_name x) (D(KUser (au_id x) \<mapsto> UUser x))"

context user_store
begin

lemma index_rule:
  "stores D tr \<Longrightarrow> (\<And>t. stores (indexed U u dn D) t \<Longrightarrow> Q (Inr ()) t) \<Longrightarrow> wp (index_name U H u dn) Q tr"
  unfolding index_name_def key_text.simps(4) [of U, symmetric]
  by (intro wpI set_stores) (auto simp: indexed_def text_some)

lemma unindex_rule:
  "stores D tr \<Longrightarrow> (\<And>t. stores (unindexed U u dn D) t \<Longrightarrow> Q (Inr ()) t) \<Longrightarrow> wp (unindex_name U H u dn) Q tr"
  unfolding unindex_name_def key_text.simps(4) [of U, symmetric]
  by (intro wpI get_stores conjI allI impI delete_stores) (auto simp: unindexed_def wp_iff)

lemma create_rule:
  assumes "stores D tr"
    and "\<And>e t. stores D t \<Longrightarrow> Q (Inl e) t"
    and "\<And>x t. D (KUser (au_id x)) = None \<Longrightarrow> au_display_name x = dn \<Longrightarrow> stores (with_user U x D) t \<Longrightarrow> Q (Inr x) t"
  shows "wp (create_user U H dn) Q tr"
  unfolding create_user_def new_user_def key_text.simps(1) [symmetric]
  by (insert assms(1), (assumption | rule wpI uuid_stores time_stores set_stores index_rule conjI allI impI assms |
    fastforce simp: with_user_def)+)

lemma set_name_rule:
  assumes "stores D tr" "sound U D"
    and "\<And>e t. stores D t \<Longrightarrow> Q (Inl e) t"
    and "\<And>x t. user_at D u = Some x \<Longrightarrow>
      stores (with_user U (x\<lparr>au_display_name := dn\<rparr>) (unindexed U u (au_display_name x) D)) t \<Longrightarrow> Q (Inr (x\<lparr>au_display_name := dn\<rparr>)) t"
  shows "wp (set_display_name U H u dn) Q tr"
proof -
  have id: "au_id x = u" if "user_at D u = Some x" for x using user_at_id [OF assms(2) that] .
  show ?thesis
    unfolding set_display_name_def key_text.simps(1) [symmetric]
    by (insert assms(1,2), (assumption | rule wpI existing_user_rule unindex_rule set_stores index_rule conjI allI impI assms |
      fastforce simp: with_user_def id intro: assms split: option.splits)+)
qed

lemma set_key_rule:
  assumes "stores D tr" "sound U D"
    and "\<And>e t. stores D t \<Longrightarrow> Q (Inl e) t"
    and "\<And>x t. user_at D u = Some x \<Longrightarrow> stores (D(KUser u \<mapsto> UUser (x\<lparr>au_public_key := key\<rparr>))) t \<Longrightarrow> Q (Inr (x\<lparr>au_public_key := key\<rparr>)) t"
  shows "wp (set_public_key U H u key) Q tr"
  unfolding set_public_key_def key_text.simps(1) [symmetric]
  by (insert assms(1,2), (assumption | rule wpI existing_user_rule set_stores conjI allI impI assms |
    fastforce intro: assms split: option.splits)+)

lemma link_rule:
  assumes "stores D tr" "sound U D"
    and "\<And>e t. stores D t \<Longrightarrow> Q (Inl e) t"
    and "\<And>l t. valid_key (KLink (fl_platform l) i puid) \<Longrightarrow> fl_platform l = normalize_platform p \<Longrightarrow> fl_instance l = i \<Longrightarrow>
      fl_user_id l = puid \<Longrightarrow> fl_astrid_id l = u \<Longrightarrow> fl_display_name l = dn \<Longrightarrow> user_at D u \<noteq> None \<Longrightarrow>
      validate_instance i = Inr () \<Longrightarrow> validate_key_component puid ''platform_user_id'' = Inr () \<Longrightarrow>
      stores (D(KLink (fl_platform l) i puid \<mapsto> ULink l)) t \<Longrightarrow> Q (Inr l) t"
  shows "wp (link U H p i puid u meth dn) Q tr"
  unfolding link_def key_text.simps(2) [of U, symmetric]
  by (insert assms(1,2), (assumption | rule wpI existing_user_rule time_stores set_stores conjI allI impI assms |
    fastforce intro: assms split: option.splits)+)

lemma wp_check_context:
  assumes "\<And>e. Q (Inl e) tr" and "valid_key (KContext (normalize_platform p) i c puid) \<Longrightarrow> wp m Q tr"
  shows "wp (check_context p i puid c m) Q tr"
  unfolding check_context_def using assms by (intro wpI) (auto dest: component_valid)

lemma set_context_rule:
  assumes "stores D tr" "sound U D"
    and "\<And>e t. stores D t \<Longrightarrow> Q (Inl e) t"
    and "\<And>x t. valid_key (KContext (ci_platform x) i c puid) \<Longrightarrow> ci_platform x = normalize_platform p \<Longrightarrow> ci_instance x = i \<Longrightarrow>
      ci_user_id x = puid \<Longrightarrow> ci_context_id x = c \<Longrightarrow> ci_display_name x = dn \<Longrightarrow> D (KLink (ci_platform x) i puid) \<noteq> None \<Longrightarrow>
      stores (D(KContext (ci_platform x) i c puid \<mapsto> UCtx x)) t \<Longrightarrow> Q (Inr x) t"
  shows "wp (set_context H p i puid c dn) Q tr"
  unfolding set_context_def require_link_exists_def key_text.simps(2,3) [of U, symmetric]
  by (insert assms(1,2), (assumption | rule wpI wp_check_context exists_key_rule time_stores set_stores conjI allI impI assms |
    fastforce intro: assms split: if_splits)+)

lemma clear_context_rule:
  assumes "stores D tr"
    and "\<And>e t. stores D t \<Longrightarrow> Q (Inl e) t"
    and "\<And>t. stores (D(KContext (normalize_platform p) i c puid := None)) t \<Longrightarrow>
      Q (Inr (D (KContext (normalize_platform p) i c puid) \<noteq> None)) t"
  shows "wp (clear_context H p i puid c) Q tr"
proof -
  let ?k = "KContext (normalize_platform p) i c puid"
  have there: "Q (Inr True) t" if "stores (D(?k := None)) t" "D ?k \<noteq> None" for t
    using assms(3) that by fastforce
  have absent: "Q (Inr False) t" if "stores D t" "D ?k = None" for t
    using assms(3) [of t] that by (simp add: fun_upd_idem)
  show ?thesis
    unfolding clear_context_def key_text.simps(3) [of U, symmetric]
    by (insert assms(1), (assumption | rule wpI wp_check_context exists_key_rule delete_stores conjI allI impI assms there absent |
      fastforce)+)
qed

end

subsection \<open>Cascades\<close>

definition overlay_keys :: "string \<Rightarrow> string option \<Rightarrow> string \<Rightarrow> ukey set" where
  "overlay_keys p i puid = {k. \<exists>c. k = KContext p i c puid}"

definition owned_by :: "directory \<Rightarrow> nat \<Rightarrow> ukey \<Rightarrow> bool" where
  "owned_by D u k \<longleftrightarrow> (\<exists>l. D k = Some (ULink l) \<and> fl_astrid_id l = u)"

definition owned_link :: "directory \<Rightarrow> nat \<Rightarrow> ukey \<Rightarrow> frontend_link option" where
  "owned_link D u k = (case Option.bind (D k) as_link of None \<Rightarrow> None | Some l \<Rightarrow> if fl_astrid_id l = u then Some l else None)"

text \<open>The directory without a user: no record, no link to it, no overlay of such a link, no name.\<close>

definition without_user :: "user_lib \<Rightarrow> directory \<Rightarrow> nat \<Rightarrow> directory" where
  "without_user U D u = (\<lambda>k. if (case k of
       KUser v \<Rightarrow> v = u
     | KLink p i puid \<Rightarrow> owned_by D u k
     | KContext p i c puid \<Rightarrow> owned_by D u (KLink p i puid)
     | KName n \<Rightarrow> D k = Some (URaw (uid_text U u))) then None else D k)"

context user_store
begin

lemma delete_ending_rule:
  "stores D tr \<Longrightarrow> \<forall>k \<in> set ks. valid_key k \<Longrightarrow>
   (\<And>t. stores (D |` (- {k \<in> set ks. ends_with suffix (key_text U k)})) t \<Longrightarrow> Q (Inr ()) t) \<Longrightarrow>
   wp (delete_ending H suffix (map (key_text U) ks)) Q tr"
proof (induction ks arbitrary: D tr)
  case Nil
  then show ?case by (simp add: wp_iff)
next
  case (Cons k ks)
  have less: "D(k := None) |` (- A) = D |` (- insert k A)" for A by (auto simp: restrict_map_def)
  show ?case
  proof (cases "ends_with suffix (key_text U k)")
    case True
    have eq: "{j \<in> set (k # ks). ends_with suffix (key_text U j)} = insert k {j \<in> set ks. ends_with suffix (key_text U j)}"
      using True by auto
    have "wp (delete_ending H suffix (map (key_text U) ks)) Q t" if "stores (D(k := None)) t" for t
      using Cons.prems(2) by (intro Cons.IH [OF that] Cons.prems(3)) (auto simp only: less eq list.set_intros)
    then show ?thesis using True Cons.prems(1,2) by (auto intro!: wpI delete_stores)
  next
    case False
    then have "{j \<in> set (k # ks). ends_with suffix (key_text U j)} = {j \<in> set ks. ends_with suffix (key_text U j)}" by auto
    then show ?thesis using False Cons by simp
  qed
qed

lemma drop_overlays_rule:
  assumes "stores D tr" "\<not> slashed p" "plain_instance i" "\<not> slashed puid"
    and "\<And>t. stores (D |` (- overlay_keys p i puid)) t \<Longrightarrow> Q (Inr ()) t"
  shows "wp (drop_overlays H p i puid) Q tr"
proof -
  have gone: "D |` (- {k \<in> set ks. ends_with (''/'' @ puid) (key_text U k)}) = D |` (- overlay_keys p i puid)"
    if "set ks = {k \<in> dom D. starts_with (context_prefix_for_link_bucket p i) (key_text U k)}" for ks
  proof
    fix k
    have "k \<in> set ks \<and> ends_with (''/'' @ puid) (key_text U k) \<longleftrightarrow> k \<in> overlay_keys p i puid" if "D k \<noteq> None"
    proof -
      have "valid_key k" using that stores_valid [OF assms(1)] by auto
      moreover from this have "k \<in> set ks \<longleftrightarrow> (\<exists>c q. k = KContext p i c q)"
        using that bucket_prefix [of k p i U] assms(2,3) \<open>set ks = _\<close> by auto
      ultimately show ?thesis using assms(2-4) context_suffix [of p i _ _ puid] by (auto simp: overlay_keys_def)
    qed
    then show "(D |` (- {k \<in> set ks. ends_with (''/'' @ puid) (key_text U k)})) k = (D |` (- overlay_keys p i puid)) k"
      by (cases "D k") (auto simp: restrict_map_def)
  qed
  show ?thesis
    unfolding drop_overlays_def
  proof (intro wpI list_stores [OF assms(1)] conjI allI impI)
    fix ks t xs assume ks: "stores D t" "set ks = {k \<in> dom D. starts_with (context_prefix_for_link_bucket p i) (key_text U k)}"
      and xs: "Inr (map (key_text U) ks) = Inr xs"
    have "wp (delete_ending H (''/'' @ puid) (map (key_text U) ks)) Q t"
    proof (rule delete_ending_rule [OF ks(1)])
      show "\<forall>k \<in> set ks. valid_key k" using ks(2) stores_valid [OF ks(1)] by auto
      show "Q (Inr ()) s" if "stores (D |` (- {k \<in> set ks. ends_with (''/'' @ puid) (key_text U k)})) s" for s
        using assms(5) that unfolding gone [OF ks(2)] .
    qed
    then show "wp (delete_ending H (''/'' @ puid) xs) Q t" using xs by simp
  qed simp
qed

lemma unlink_rule:
  assumes "stores D tr"
    and "\<And>e t. stores D t \<Longrightarrow> Q (Inl e) t"
    and "\<And>t. valid_key (KLink (normalize_platform p) i puid) \<Longrightarrow> D (KLink (normalize_platform p) i puid) \<noteq> None \<Longrightarrow>
      stores (D |` (- insert (KLink (normalize_platform p) i puid) (overlay_keys (normalize_platform p) i puid))) t \<Longrightarrow> Q (Inr True) t"
    and "\<And>t. D (KLink (normalize_platform p) i puid) = None \<Longrightarrow> stores D t \<Longrightarrow> Q (Inr False) t"
  shows "wp (unlink H p i puid) Q tr"
proof -
  let ?k = "KLink (normalize_platform p) i puid" and ?A = "overlay_keys (normalize_platform p) i puid"
  have gone: "(D |` (- ?A))(?k := None) = D |` (- insert ?k ?A)" by (auto simp: restrict_map_def)
  have drop: "wp (drop_overlays H (normalize_platform p) i puid) R t"
    if "valid_key ?k" "stores D t" "\<And>t. stores (D |` (- ?A)) t \<Longrightarrow> R (Inr ()) t" for R t
    using that by (intro drop_overlays_rule) auto
  have finish: "wp (b_delete H (key_text U ?k)) R t"
    if "valid_key ?k" "stores (D |` (- ?A)) t" "\<And>t. stores (D |` (- insert ?k ?A)) t \<Longrightarrow> R (Inr ()) t" for R t
    using that by (intro delete_stores) (auto simp only: gone)
  show ?thesis
    unfolding unlink_def key_text.simps(2) [of U, symmetric]
    by (insert assms(1), (assumption | rule wpI exists_key_rule drop finish conjI allI impI | fastforce intro: assms)+)
qed

lemma drop_links_rule:
  "stores D tr \<Longrightarrow> \<forall>k \<in> set ks. \<exists>p i puid l. k = KLink p i puid \<and> D k = Some (ULink l) \<Longrightarrow> distinct ks \<Longrightarrow>
   (\<And>t. stores (D |` (- {k \<in> set ks. owned_by D u k})) t \<Longrightarrow> Q (Inr (List.map_filter (owned_link D u) ks)) t) \<Longrightarrow>
   wp (drop_links H u (map (key_text U) ks)) Q tr"
proof (induction ks arbitrary: D tr Q)
  case Nil
  then show ?case by (simp add: wp_iff)
next
  case (Cons k ks)
  obtain p i puid l where k: "k = KLink p i puid" "D k = Some (ULink l)" using Cons.prems(2) by auto
  have valid: "valid_key k" using stores_valid [OF Cons.prems(1) k(2)] .
  have read: "wp (get_json as_link H (key_text U k)) R tr" if "\<And>t. stores D t \<Longrightarrow> R (Inr (Some l)) t" for R
    using that k(2) by (intro json_stores [OF Cons.prems(1) valid]) auto
  let ?D = "D(k := None)"
  have rest: "\<forall>j \<in> set ks. ?D j = D j" using Cons.prems(3) by auto
  have links: "\<forall>j \<in> set ks. \<exists>p i puid l. j = KLink p i puid \<and> D j = Some (ULink l)"
    and dist: "distinct ks" using Cons.prems(2,3) by auto
  show ?case
  proof (cases "fl_astrid_id l = u")
    case True
    have eq: "?D |` (- {j \<in> set ks. owned_by ?D u j}) = D |` (- {j \<in> set (k # ks). owned_by D u j})"
    proof -
      have "{j \<in> set ks. owned_by ?D u j} = {j \<in> set ks. owned_by D u j}" using rest by (auto simp: owned_by_def)
      moreover have "{j \<in> set (k # ks). owned_by D u j} = insert k {j \<in> set ks. owned_by D u j}"
        using k(2) True by (auto simp: owned_by_def)
      ultimately show ?thesis by (auto simp: restrict_map_def)
    qed
    have "map (owned_link ?D u) ks = map (owned_link D u) ks" using rest by (simp add: owned_link_def)
    then have found: "l # List.map_filter (owned_link ?D u) ks = List.map_filter (owned_link D u) (k # ks)"
      using k(2) True by (simp add: List.map_filter_def owned_link_def filter_map comp_def cong: map_cong filter_cong)
    have found_rest: "wp (drop_links H u (map (key_text U) ks)) (\<lambda>r t. case r of Inl e \<Rightarrow> False | Inr ls \<Rightarrow> Q (Inr (l # ls)) t) t"
      if "stores ?D t" for t
    proof (rule Cons.IH [OF that])
      show "\<forall>j \<in> set ks. \<exists>p i puid l. j = KLink p i puid \<and> ?D j = Some (ULink l)" using links rest by auto
    next
      fix t assume "stores (?D |` (- {j \<in> set ks. owned_by ?D u j})) t"
      then show "case Inr (List.map_filter (owned_link ?D u) ks) of Inl e \<Rightarrow> False | Inr ls \<Rightarrow> Q (Inr (l # ls)) t"
        using Cons.prems(4) unfolding eq by (simp add: found)
    qed (rule dist)
    have "wp (drop_links H u (map (key_text U) ks)) (\<lambda>r s. (\<forall>e. r = Inl e \<longrightarrow> Q (Inl e) s) \<and>
        (\<forall>x. r = Inr x \<longrightarrow> wp (ret (Inr (l # x))) Q s)) t" if "stores ?D t" for t
      by (rule wp_mono [OF found_rest [OF that]]) (auto split: sum.splits simp: wp_iff)
    then show ?thesis
      using True valid by (auto intro!: wpI read delete_stores)
  next
    case False
    have "{j \<in> set (k # ks). owned_by D u j} = {j \<in> set ks. owned_by D u j}" using k(2) False by (auto simp: owned_by_def)
    moreover have "List.map_filter (owned_link D u) (k # ks) = List.map_filter (owned_link D u) ks"
      using k(2) False by (simp add: List.map_filter_def owned_link_def)
    ultimately have "wp (drop_links H u (map (key_text U) ks)) Q t" if "stores D t" for t
      using Cons.prems(4) by (intro Cons.IH [OF that links dist]) simp
    then show ?thesis using False by (auto intro!: wpI read)
  qed
qed

lemma drop_all_overlays_rule:
  "stores D tr \<Longrightarrow> \<forall>l \<in> set ls. valid_key (KLink (fl_platform l) (fl_instance l) (fl_user_id l)) \<Longrightarrow>
   (\<And>t. stores (D |` (- (\<Union>l \<in> set ls. overlay_keys (fl_platform l) (fl_instance l) (fl_user_id l)))) t \<Longrightarrow> Q (Inr ()) t) \<Longrightarrow>
   wp (drop_all_overlays H ls) Q tr"
proof (induction ls arbitrary: D tr)
  case Nil
  then show ?case by (simp add: wp_iff)
next
  case (Cons l ls)
  let ?A = "overlay_keys (fl_platform l) (fl_instance l) (fl_user_id l)"
  have gone: "(D |` (- ?A)) |` (- B) = D |` (- (?A \<union> B))" for B by (auto simp: restrict_map_def)
  have "wp (drop_all_overlays H ls) Q t" if "stores (D |` (- ?A)) t" for t
    using Cons.prems(2,3) by (intro Cons.IH [OF that]) (auto simp only: gone list.set UN_insert insert_iff)
  then show ?case
    using Cons.prems(1,2) by (auto intro!: wpI drop_overlays_rule)
qed

lemma affected_links:
  assumes "sound U D" "set ks = {k \<in> dom D. starts_with ''link/'' (key_text U k)}"
  shows "set (List.map_filter (owned_link D u) ks) = {l. \<exists>p i puid. D (KLink p i puid) = Some (ULink l) \<and> fl_astrid_id l = u}"
proof -
  have "l \<in> set (List.map_filter (owned_link D u) ks) \<longleftrightarrow> (\<exists>k \<in> set ks. owned_link D u k = Some l)" for l
    by (force simp: List.map_filter_def)
  moreover have "(\<exists>k \<in> set ks. owned_link D u k = Some l) \<longleftrightarrow>
      (\<exists>p i puid. D (KLink p i puid) = Some (ULink l) \<and> fl_astrid_id l = u)" for l
  proof
    assume "\<exists>k \<in> set ks. owned_link D u k = Some l"
    then obtain k where k: "k \<in> set ks" "owned_link D u k = Some l" by blast
    then obtain p i puid where "k = KLink p i puid" using assms(2) by (auto simp: link_prefix)
    then show "\<exists>p i puid. D (KLink p i puid) = Some (ULink l) \<and> fl_astrid_id l = u"
      using k(2) link_at_sound [OF assms(1), of p i puid]
      by (cases "link_at D p i puid") (auto simp: owned_link_def split: if_splits)
  next
    assume "\<exists>p i puid. D (KLink p i puid) = Some (ULink l) \<and> fl_astrid_id l = u"
    then obtain p i puid where k: "D (KLink p i puid) = Some (ULink l)" "fl_astrid_id l = u" by blast
    then have "KLink p i puid \<in> set ks" unfolding assms(2) by (auto simp: link_prefix)
    then show "\<exists>k \<in> set ks. owned_link D u k = Some l"
      using k by (intro bexI [where x = "KLink p i puid"]) (simp_all add: owned_link_def)
  qed
  ultimately show ?thesis by blast
qed

lemma affected_overlays:
  assumes "sound U D"
  shows "(\<Union>l \<in> {l. \<exists>p i puid. D (KLink p i puid) = Some (ULink l) \<and> fl_astrid_id l = u}.
      overlay_keys (fl_platform l) (fl_instance l) (fl_user_id l)) =
    {k. \<exists>p i c puid. k = KContext p i c puid \<and> owned_by D u (KLink p i puid)}"
proof -
  have "fl_platform l = p \<and> fl_instance l = i \<and> fl_user_id l = puid" if "D (KLink p i puid) = Some (ULink l)" for p i puid l
    using soundD [OF assms that] by simp
  then show ?thesis by (fastforce simp: overlay_keys_def owned_by_def)
qed

lemma name_of_user:
  assumes "sound U D" "user_at D u = Some x" "D (KName n) = Some (URaw (uid_text U u))"
  shows "\<exists>dn. au_display_name x = Some dn \<and> trim dn = n"
  using soundD [OF assms(1,3)] assms(2) by (auto simp: user_at_def)

lemma delete_steps:
  assumes "sound U D" "user_at D u = Some x" "set ks = {k \<in> dom D. starts_with ''link/'' (key_text U k)}"
    and "D1 = D |` (- {k \<in> set ks. owned_by D u k})"
    and "D2 = D1 |` (- (\<Union>l \<in> set (List.map_filter (owned_link D u) ks). overlay_keys (fl_platform l) (fl_instance l) (fl_user_id l)))"
  shows "(unindexed U u (au_display_name x) D2)(KUser u := None) = without_user U D u"
proof
  fix k
  have D2: "D2 k = (if (\<exists>p i puid. k = KLink p i puid \<and> owned_by D u k) \<or>
      (\<exists>p i c puid. k = KContext p i c puid \<and> owned_by D u (KLink p i puid)) then None else D k)" for k
    unfolding assms(4,5) affected_links [OF assms(1,3)] affected_overlays [OF assms(1)]
    by (auto simp: assms(3) link_prefix restrict_map_def owned_by_def)
  show "((unindexed U u (au_display_name x) D2)(KUser u := None)) k = without_user U D u k"
    using name_of_user [OF assms(1,2)]
    by (cases k) (auto simp: unindexed_def without_user_def D2 owned_by_def split: option.split)
qed

lemma delete_rule:
  assumes "stores D tr" "sound U D"
    and "\<And>t. user_at D u = None \<Longrightarrow> stores D t \<Longrightarrow> Q (Inr False) t"
    and "\<And>t. user_at D u \<noteq> None \<Longrightarrow> stores (without_user U D u) t \<Longrightarrow> Q (Inr True) t"
  shows "wp (delete_user U H u) Q tr"
proof (cases "user_at D u")
  case None
  then show ?thesis
    unfolding delete_user_def
    by (intro wp_try_bind get_user_rule [OF assms(1,2)]) (simp add: wp_return assms(3))
next
  case (Some x)
  have main: "wp (drop_links H u (map (key_text U) ks)) (\<lambda>r s. (\<forall>e. r = Inl e \<longrightarrow> Q (Inl e) s) \<and> (\<forall>ls. r = Inr ls \<longrightarrow>
      wp (try_bind (drop_all_overlays H ls) (\<lambda>_. try_bind (unindex_name U H u (au_display_name x)) (\<lambda>_.
        try_bind (b_delete H (key_text U (KUser u))) (\<lambda>_. ret (Inr True))))) Q s)) t"
    if ks: "stores D t" "distinct ks" "set ks = {k \<in> dom D. starts_with ''link/'' (key_text U k)}" for ks t
  proof (rule drop_links_rule [OF ks(1) _ ks(2)])
    show "\<forall>k \<in> set ks. \<exists>p i puid l. k = KLink p i puid \<and> D k = Some (ULink l)"
      using ks(3) assms(2) by (auto simp: link_prefix dest!: soundD)
  next
    let ?ls = "List.map_filter (owned_link D u) ks" and ?D1 = "D |` (- {k \<in> set ks. owned_by D u k})"
    let ?D2 = "?D1 |` (- (\<Union>l \<in> set ?ls. overlay_keys (fl_platform l) (fl_instance l) (fl_user_id l)))"
    fix s assume s: "stores ?D1 s"
    have valid: "\<forall>l \<in> set ?ls. valid_key (KLink (fl_platform l) (fl_instance l) (fl_user_id l))"
      unfolding affected_links [OF assms(2) ks(3)] using stores_valid [OF assms(1)] soundD [OF assms(2)] by fastforce
    have finish: "wp (try_bind (unindex_name U H u (au_display_name x)) (\<lambda>_.
        try_bind (b_delete H (key_text U (KUser u))) (\<lambda>_. ret (Inr True)))) Q s'" if "stores ?D2 s'" for s'
    proof (intro wpI unindex_rule [OF that] conjI allI impI)
      fix s' y assume "stores (unindexed U u (au_display_name x) ?D2) s'"
      then show "wp (b_delete H (key_text U (KUser u))) (\<lambda>r s. (\<forall>e. r = Inl e \<longrightarrow> Q (Inl e) s) \<and>
          (\<forall>z. r = Inr z \<longrightarrow> wp (ret (Inr True)) Q s)) s'"
        using assms(4) Some delete_steps [OF assms(2) Some ks(3) refl refl]
        by (intro delete_stores) (auto simp: wp_iff)
    qed simp
    show "(\<forall>e. Inr ?ls = Inl e \<longrightarrow> Q (Inl e) s) \<and> (\<forall>ls. Inr ?ls = (Inr ls :: store_error + frontend_link list) \<longrightarrow>
      wp (try_bind (drop_all_overlays H ls) (\<lambda>_. try_bind (unindex_name U H u (au_display_name x)) (\<lambda>_.
        try_bind (b_delete H (key_text U (KUser u))) (\<lambda>_. ret (Inr True))))) Q s)"
    proof (intro conjI allI impI)
      fix ls assume "Inr ?ls = (Inr ls :: store_error + frontend_link list)"
      then show "wp (try_bind (drop_all_overlays H ls) (\<lambda>_. try_bind (unindex_name U H u (au_display_name x)) (\<lambda>_.
        try_bind (b_delete H (key_text U (KUser u))) (\<lambda>_. ret (Inr True))))) Q s"
        by (intro wp_try_bind) (auto simp only: intro!: drop_all_overlays_rule [OF s valid] conjI allI impI finish)
    qed simp
  qed
  show ?thesis
    unfolding delete_user_def key_text.simps(1) [symmetric]
  proof (intro wp_try_bind get_user_rule [OF assms(1,2)], simp add: Some, intro wp_try_bind)
    fix t assume "stores D t"
    then show "wp (b_list_keys H ''link/'') (\<lambda>r s. (\<forall>e. r = Inl e \<longrightarrow> Q (Inl e) s) \<and> (\<forall>ks. r = Inr ks \<longrightarrow>
      wp (try_bind (drop_links H u ks) (\<lambda>ls. try_bind (drop_all_overlays H ls) (\<lambda>_.
        try_bind (unindex_name U H u (au_display_name x)) (\<lambda>_.
        try_bind (b_delete H (user_key U u)) (\<lambda>_. ret (Inr True)))))) Q s)) t"
      using main by (intro list_stores) (auto intro!: wp_try_bind)
  qed
qed

end

end
