(* ===== verification/Users_Invariant.thy ===== *)
theory Users_Invariant
  imports Users_Spec
begin

text \<open>
  The integrity of the identity store: every request keeps the directory sound, so no reachable store
  has a link to a missing user, an overlay of a missing link or a name of a missing user.
\<close>

subsection \<open>Operations keep soundness\<close>

lemma soundI: "(\<And>k v. D k = Some v \<Longrightarrow> fits U D k v) \<Longrightarrow> sound U D"
  by (simp add: sound_def)

lemma sound_indexed:
  assumes "sound U D" "D (KUser (au_id x)) = Some (UUser x)"
  shows "sound U (indexed U (au_id x) (au_display_name x) D)"
proof (rule soundI)
  fix k v assume v: "indexed U (au_id x) (au_display_name x) D k = Some v"
  have same: "indexed U (au_id x) (au_display_name x) D j = D j" if "\<forall>n. j \<noteq> KName n" for j
    using that by (auto simp: indexed_def split: option.split)
  show "fits U (indexed U (au_id x) (au_display_name x) D) k v"
  proof (cases "D k = Some v")
    case True
    then show ?thesis using soundD [OF assms(1)] same by (cases k) fastforce+
  next
    case False
    then obtain dn where "au_display_name x = Some dn" "k = KName (trim dn)" "v = URaw (uid_text U (au_id x))"
      using v by (auto simp: indexed_def split: option.splits if_splits)
    then show ?thesis using assms(2) same by auto
  qed
qed

lemma sound_put_user:
  assumes "sound U D" "\<And>n. D (KName n) \<noteq> Some (URaw (uid_text U (au_id x)))"
  shows "sound U (D(KUser (au_id x) \<mapsto> UUser x))"
proof (rule soundI)
  fix k v assume v: "(D(KUser (au_id x) \<mapsto> UUser x)) k = Some v"
  show "fits U (D(KUser (au_id x) \<mapsto> UUser x)) k v"
  proof (cases "\<exists>n. k = KName n")
    case True
    then obtain n where k: "k = KName n" "D (KName n) = Some v" using v by auto
    then obtain u y dn where u: "v = URaw (uid_text U u)" "D (KUser u) = Some (UUser y)" "au_display_name y = Some dn" "trim dn = n"
      using soundD [OF assms(1) k(2)] by auto
    then have "u \<noteq> au_id x" using assms(2) [of n] k(2) by auto
    then show ?thesis using k(1) u by auto
  next
    case False
    then show ?thesis using v soundD [OF assms(1), of k v] by (cases k) (auto split: if_splits)
  qed
qed

lemma sound_with_user:
  "sound U D \<Longrightarrow> (\<And>n. D (KName n) \<noteq> Some (URaw (uid_text U (au_id x)))) \<Longrightarrow> sound U (with_user U x D)"
  unfolding with_user_def by (intro sound_indexed sound_put_user) auto

lemma sound_no_name:
  assumes "sound U D"
  shows "sound U (D(KName n := None))"
proof (rule soundI)
  fix k v assume v: "(D(KName n := None)) k = Some v"
  then have "D k = Some v" by (simp split: if_splits)
  from soundD [OF assms this] v show "fits U (D(KName n := None)) k v" by (cases k) auto
qed

lemma sound_unindexed: "sound U D \<Longrightarrow> sound U (unindexed U u dn D)"
  by (auto simp: unindexed_def sound_no_name split: option.split)

lemma sound_fresh_names: "sound U D \<Longrightarrow> D (KUser u) = None \<Longrightarrow> inj (uid_text U) \<Longrightarrow> D (KName n) \<noteq> Some (URaw (uid_text U u))"
  by (auto dest!: soundD simp: inj_eq)

lemma sound_key:
  assumes "sound U D" "user_at D u = Some x"
  shows "sound U (D(KUser u \<mapsto> UUser (x\<lparr>au_public_key := key\<rparr>)))"
proof (rule soundI)
  fix k v assume v: "(D(KUser u \<mapsto> UUser (x\<lparr>au_public_key := key\<rparr>))) k = Some v"
  have x: "D (KUser u) = Some (UUser x)" "au_id x = u"
    using user_at_sound [OF assms(1), of u] user_at_id [OF assms] assms(2) by simp_all
  show "fits U (D(KUser u \<mapsto> UUser (x\<lparr>au_public_key := key\<rparr>))) k v"
    using v soundD [OF assms(1), of k v] x by (cases k) (force split: if_splits)+
qed

lemma sound_link:
  assumes "sound U D" "D (KUser (fl_astrid_id l)) \<noteq> None" "fl_instance l = i" "fl_user_id l = puid"
  shows "sound U (D(KLink (fl_platform l) i puid \<mapsto> ULink l))"
proof (rule soundI)
  fix k v assume "(D(KLink (fl_platform l) i puid \<mapsto> ULink l)) k = Some v"
  then show "fits U (D(KLink (fl_platform l) i puid \<mapsto> ULink l)) k v"
    using soundD [OF assms(1), of k v] assms(2-4) by (cases k) (auto split: if_splits)
qed

lemma sound_context:
  assumes "sound U D" "D (KLink (ci_platform x) i puid) \<noteq> None" "ci_instance x = i" "ci_user_id x = puid" "ci_context_id x = c"
  shows "sound U (D(KContext (ci_platform x) i c puid \<mapsto> UCtx x))"
proof (rule soundI)
  fix k v assume "(D(KContext (ci_platform x) i c puid \<mapsto> UCtx x)) k = Some v"
  then show "fits U (D(KContext (ci_platform x) i c puid \<mapsto> UCtx x)) k v"
    using soundD [OF assms(1), of k v] assms(2-5) by (cases k) (auto split: if_splits)
qed

lemma sound_no_context:
  assumes "sound U D"
  shows "sound U (D(KContext p i c puid := None))"
proof (rule soundI)
  fix k v assume v: "(D(KContext p i c puid := None)) k = Some v"
  then have "D k = Some v" by (simp split: if_splits)
  from soundD [OF assms this] v show "fits U (D(KContext p i c puid := None)) k v" by (cases k) auto
qed

lemma sound_unlinked:
  assumes "sound U D"
  shows "sound U (D |` (- insert (KLink p i puid) (overlay_keys p i puid)))"
proof (rule soundI)
  fix k v assume v: "(D |` (- insert (KLink p i puid) (overlay_keys p i puid))) k = Some v"
  then have "D k = Some v" by (simp add: restrict_map_def split: if_splits)
  from soundD [OF assms this] v show "fits U (D |` (- insert (KLink p i puid) (overlay_keys p i puid))) k v"
    by (cases k) (auto simp: restrict_map_def overlay_keys_def split: if_splits)
qed

lemma sound_without_user:
  assumes "sound U D"
  shows "sound U (without_user U D u)"
proof (rule soundI)
  fix k v assume v: "without_user U D u k = Some v"
  then have "D k = Some v" by (auto simp: without_user_def split: if_splits)
  from soundD [OF assms this] this v show "fits U (without_user U D u) k v"
    by (cases k) (auto simp: without_user_def owned_by_def split: if_splits)
qed

subsection \<open>Requests\<close>

text \<open>The calls of a query.\<close>

fun only_reads :: "(user_val, json) event \<Rightarrow> bool" where
  "only_reads (EvGetRaw k r) = True"
| "only_reads (EvTime t) = True"
| "only_reads (EvKeys p r) = True"
| "only_reads _ = False"

lemma reads_backend [everyI]: "every only_reads (b_get H k)" "every only_reads (b_list_keys H p)" "every only_reads (get_json d H k)"
    "every only_reads (now_rfc3339 H)"
  unfolding b_get_def b_list_keys_def get_json_def now_rfc3339_def host_defs by (intro everyI every_host_call; simp)+

lemma reads_check [everyI]: "every P m \<Longrightarrow> every P (check v m)"
  unfolding check_def by (intro everyI)

lemma reads_check_triple [everyI]: "every P m \<Longrightarrow> every P (check_triple p i puid m)"
    "every P m \<Longrightarrow> every P (check_context p i puid c m)"
  by (simp_all add: check_triple_def check_context_def reads_check)

lemma reads_all [everyI]: "(\<And>k. every P (f k)) \<Longrightarrow> every P (read_all f ks)"
  by (induction ks) (auto intro!: everyI)

lemma reads_links [everyI]: "every only_reads (links_of H u ks)"
  by (induction ks) (auto intro!: everyI)

lemma reads_user [everyI]: "every only_reads (get_user U H u)" "every only_reads (list_links H u)"
  unfolding get_user_def list_links_def by (intro everyI)+

lemma reads_overlays [everyI]: "every only_reads (overlays_of H ls)"
  by (induction ls) (auto intro!: everyI)

lemma reads_queries [everyI]:
  "every only_reads (resolve U H p i puid ctx)" "every only_reads (get_context H p i puid c)"
  "every only_reads (list_users_paginated H cursor limit)" "every only_reads (list_context_for_user H u cursor limit)"
  "every only_reads (list_context_in_context H p i c cursor limit)"
  unfolding resolve_def get_context_def list_users_paginated_def list_context_for_user_def list_context_in_context_def member_of_def
  by (intro everyI)+

context user_store
begin

definition integral :: "(user_val, json) event list \<Rightarrow> bool" where
  "integral tr \<longleftrightarrow> (\<exists>D. stores D tr \<and> sound U D)"

lemma integralI: "stores D tr \<Longrightarrow> sound U D \<Longrightarrow> integral tr"
  by (auto simp: integral_def)

lemma integral_left: "list_all only_reads evs \<Longrightarrow> integral (evs @ tr) = integral tr"
proof (induction evs)
  case (Cons e evs)
  then show ?case by (cases e) (auto simp: integral_def)
qed simp

lemma integral_pub [simp]: "integral (EvPub t m e # tr) = integral tr"
  by (simp add: integral_def)

lemma integral_reads: "every only_reads m \<Longrightarrow> integral tr \<Longrightarrow> wp m (\<lambda>_. integral) tr"
  unfolding every_def wp_def using integral_left by (metis (mono_tags, lifting) case_prod_unfold)

lemma integral_answer: "wp m (\<lambda>_. integral) tr \<Longrightarrow> wp (answer U H topic cid f m) (\<lambda>_. integral) tr"
  unfolding answer_def publish_error_def
  by (rule wp_bind, erule wp_mono) (auto intro!: wpI simp: integral_pub)

lemma integral_for_user:
  "(\<And>u t. integral t \<Longrightarrow> wp (f u) (\<lambda>_. integral) t) \<Longrightarrow> integral tr \<Longrightarrow> wp (for_user U H s topic cid f) (\<lambda>_. integral) tr"
  unfolding for_user_def parse_uuid_def publish_error_def
  by (intro wpI) (auto intro!: wpI simp: integral_pub)

lemma integral_ops:
  assumes "integral tr"
  shows "wp (create_user U H dn) (\<lambda>_. integral) tr" "wp (set_display_name U H u dn) (\<lambda>_. integral) tr"
    "wp (set_public_key U H u key) (\<lambda>_. integral) tr" "wp (link U H p i puid u meth dn) (\<lambda>_. integral) tr"
    "wp (unlink H p i puid) (\<lambda>_. integral) tr" "wp (delete_user U H u) (\<lambda>_. integral) tr"
    "wp (set_context H p i puid c name) (\<lambda>_. integral) tr" "wp (clear_context H p i puid c) (\<lambda>_. integral) tr"
proof -
  obtain D where D: "stores D tr" "sound U D" using assms by (auto simp: integral_def)
  note same = integralI [OF _ D(2)]
  have inj: "inj (uid_text U)" using text_inj by (rule injI)
  show "wp (create_user U H dn) (\<lambda>_. integral) tr"
    by (rule create_rule [OF D(1)]) (auto intro: same integralI [OF _ sound_with_user [OF D(2)]] dest: sound_fresh_names [OF D(2) _ inj])
  show "wp (set_display_name U H u dn) (\<lambda>_. integral) tr"
  proof (rule set_name_rule [OF D])
    fix x t assume x: "user_at D u = Some x" and t: "stores (with_user U (x\<lparr>au_display_name := dn\<rparr>) (unindexed U u (au_display_name x) D)) t"
    have "unindexed U u (au_display_name x) D (KName n) \<noteq> Some (URaw (uid_text U u))" for n
      using name_of_user [OF D(2) x, of n] by (auto simp: unindexed_def split: option.splits)
    then have "sound U (with_user U (x\<lparr>au_display_name := dn\<rparr>) (unindexed U u (au_display_name x) D))"
      using user_at_id [OF D(2) x] by (intro sound_with_user sound_unindexed [OF D(2)]) simp
    then show "integral t" using t by (rule integralI [rotated])
  qed (rule same)
  show "wp (set_public_key U H u key) (\<lambda>_. integral) tr"
    by (rule set_key_rule [OF D]) (auto intro: same integralI [OF _ sound_key [OF D(2)]])
  show "wp (link U H p i puid u meth dn) (\<lambda>_. integral) tr"
  proof (rule link_rule [OF D])
    fix l t assume l: "fl_instance l = i" "fl_user_id l = puid" "fl_astrid_id l = u" "user_at D u \<noteq> None"
      and t: "stores (D(KLink (fl_platform l) i puid \<mapsto> ULink l)) t"
    have "sound U (D(KLink (fl_platform l) i puid \<mapsto> ULink l))"
      using l user_at_sound [OF D(2), of u] by (intro sound_link [OF D(2)]) auto
    then show "integral t" using t by (rule integralI [rotated])
  qed (rule same)
  show "wp (unlink H p i puid) (\<lambda>_. integral) tr"
    by (rule unlink_rule [OF D(1)]) (auto intro: same integralI [OF _ sound_unlinked [OF D(2)]])
  show "wp (delete_user U H u) (\<lambda>_. integral) tr"
    by (rule delete_rule [OF D]) (auto intro: same integralI [OF _ sound_without_user [OF D(2)]])
  show "wp (set_context H p i puid c name) (\<lambda>_. integral) tr"
  proof (rule set_context_rule [OF D])
    fix x t assume x: "ci_instance x = i" "ci_user_id x = puid" "ci_context_id x = c" "D (KLink (ci_platform x) i puid) \<noteq> None"
      and t: "stores (D(KContext (ci_platform x) i c puid \<mapsto> UCtx x)) t"
    have "sound U (D(KContext (ci_platform x) i c puid \<mapsto> UCtx x))"
      using x by (intro sound_context [OF D(2)]) auto
    then show "integral t" using t by (rule integralI [rotated])
  qed (rule same)
  show "wp (clear_context H p i puid c) (\<lambda>_. integral) tr"
    by (rule clear_context_rule [OF D(1)]) (auto intro: same integralI [OF _ sound_no_context [OF D(2)]])
qed

lemma integral_set_key:
  "integral tr \<Longrightarrow> wp (do { key \<leftarrow> parse_pubkey U H pk topic cid; case key of None \<Rightarrow> ret () | Some k \<Rightarrow>
     answer U H topic cid f (set_public_key U H u k) }) (\<lambda>_. integral) tr"
  unfolding parse_pubkey_def publish_error_def
  by (intro wpI) (auto intro!: wpI integral_answer integral_ops simp: integral_pub)

lemma integral_handle: "integral tr \<Longrightarrow> wp (handle_users U H req) (\<lambda>_. integral) tr"
  by (cases req)
    (simp_all add: users_resolve_def users_link_def users_unlink_def users_create_def users_set_display_name_def users_set_public_key_def
      users_links_def users_get_def users_delete_def users_list_def users_context_set_def users_context_clear_def users_context_get_def
      users_context_list_for_user_def users_context_list_in_context_def Let_def,
     (intro integral_for_user integral_answer integral_set_key integral_ops integral_reads everyI | assumption)+)

end

subsection \<open>Reachable stores\<close>

text \<open>The stores a capsule can reach: from an empty one, by any sequence of requests.\<close>

inductive users_reach :: "user_lib \<Rightarrow> uhost \<Rightarrow> (user_val, json) event list \<Rightarrow> bool" for U H where
  users_start: "users_reach U H []"
| users_step: "users_reach U H tr \<Longrightarrow> users_reach U H (final_trace (handle_users U H req) tr)"

context user_store
begin

lemma integral_start: "integral []"
  by (rule integralI [OF _ sound_empty]) (simp add: stores_def represents_def)

lemma reach_integral: "users_reach U H tr \<Longrightarrow> integral tr"
  by (induction rule: users_reach.induct) (auto intro: integral_start wp_final [OF integral_handle])

lemma stored_sound:
  assumes "integral tr"
  shows "case kv_view tr s of
      None \<Rightarrow> True
    | Some (UUser x) \<Rightarrow> s = user_key U (au_id x)
    | Some (ULink l) \<Rightarrow> s = link_key (fl_platform l) (fl_instance l) (fl_user_id l) \<and>
        (\<exists>x. kv_view tr (user_key U (fl_astrid_id l)) = Some (UUser x))
    | Some (UCtx c) \<Rightarrow> s = context_key (ci_platform c) (ci_instance c) (ci_context_id c) (ci_user_id c) \<and>
        (\<exists>l. kv_view tr (link_key (ci_platform c) (ci_instance c) (ci_user_id c)) = Some (ULink l))
    | Some (URaw b) \<Rightarrow> (\<exists>u x dn. b = uid_text U u \<and> kv_view tr (user_key U u) = Some (UUser x) \<and>
        au_display_name x = Some dn \<and> s = name_key (trim dn))"
proof (cases "kv_view tr s")
  case (Some v)
  obtain D where D: "represents U (kv_view tr) D" "sound U D" using assms by (auto simp: integral_def stores_def)
  obtain k where k: "s = key_text U k" "D k = Some v" "valid_key k"
    using D(1) Some unfolding represents_def by (metis domI)
  have view: "kv_view tr (key_text U j) = Some w" if "D j = Some w" for j w
    using D(1) that unfolding represents_def by blast
  have user: "\<exists>x. D (KUser u) = Some (UUser x)" if "D (KUser u) \<noteq> None" for u
    using that user_at_sound [OF D(2), of u] by (cases "user_at D u") auto
  have linked: "\<exists>l. D (KLink p i puid) = Some (ULink l)" if "D (KLink p i puid) \<noteq> None" for p i puid
    using that link_at_sound [OF D(2), of p i puid] by (cases "link_at D p i puid") auto
  have fits: "fits U D k v" by (rule soundD [OF D(2) k(2)])
  show ?thesis
  proof (cases k)
    case (KUser u)
    then show ?thesis using fits k(1) Some by auto
  next
    case (KLink p i puid)
    then obtain l where l: "v = ULink l" "s = link_key (fl_platform l) (fl_instance l) (fl_user_id l)" "D (KUser (fl_astrid_id l)) \<noteq> None"
      using fits k(1) by auto
    then show ?thesis using Some user view [of "KUser (fl_astrid_id l)"] by fastforce
  next
    case (KContext p i c puid)
    then obtain x where x: "v = UCtx x" "s = context_key (ci_platform x) (ci_instance x) (ci_context_id x) (ci_user_id x)"
        "D (KLink (ci_platform x) (ci_instance x) (ci_user_id x)) \<noteq> None"
      using fits k(1) by auto
    then show ?thesis using Some linked view [of "KLink (ci_platform x) (ci_instance x) (ci_user_id x)"] by fastforce
  next
    case (KName n)
    then obtain u x dn where "v = URaw (uid_text U u)" "D (KUser u) = Some (UUser x)" "au_display_name x = Some dn" "s = name_key (trim dn)"
      using fits k(1) by auto
    then show ?thesis using Some view [of "KUser u"] by auto
  qed
qed simp

lemma resolve_rule:
  assumes "stores D tr" "sound U D"
    and "\<And>e. validate_key_component p ''platform'' = Inl e \<or> validate_instance i = Inl e \<or>
      validate_key_component puid ''platform_user_id'' = Inl e \<or>
      (\<exists>c. ctx = Some c \<and> validate_key_component c ''context_id'' = Inl e) \<Longrightarrow> Q (Inl e) tr"
    and "\<And>t. stores D t \<Longrightarrow> Q (Inr (case link_at D (normalize_platform p) i puid of
        None \<Rightarrow> (None, None)
      | Some l \<Rightarrow> (user_at D (fl_astrid_id l), first_name
          [(map_option ci_display_name (Option.bind ctx (\<lambda>c. overlay_at D (normalize_platform p) i c puid)), ''context''),
           (fl_display_name l, ''link''), (Option.bind (user_at D (fl_astrid_id l)) au_display_name, ''canonical'')]))) t"
  shows "wp (resolve U H p i puid ctx) Q tr"
proof -
  let ?p = "normalize_platform p"
  have overlay: "wp (case ctx of None \<Rightarrow> ret (Inr None) | Some c \<Rightarrow> get_json as_context H (context_key ?p i c puid)) R t"
    if "stores D t" "valid_key (KLink ?p i puid)" "\<And>c. ctx = Some c \<Longrightarrow> \<not> slashed c"
      "\<And>t. stores D t \<Longrightarrow> R (Inr (Option.bind ctx (\<lambda>c. overlay_at D ?p i c puid))) t" for R t
    using that assms(2) by (cases ctx) (auto intro!: wpI get_context_rule)
  show ?thesis
    unfolding resolve_def Let_def
  proof (intro wp_check_triple wp_check)
    fix e assume "validate_key_component p ''platform'' = Inl e \<or> validate_instance i = Inl e \<or>
      validate_key_component puid ''platform_user_id'' = Inl e"
    then show "Q (Inl e) tr" using assms(3) by blast
  next
    fix e assume "(case ctx of None \<Rightarrow> Inr () | Some c \<Rightarrow> validate_key_component c ''context_id'') = Inl e"
    then show "Q (Inl e) tr" using assms(3) by (auto split: option.splits)
  next
    assume valid: "valid_key (KLink ?p i puid)" and "(case ctx of None \<Rightarrow> Inr () | Some c \<Rightarrow> validate_key_component c ''context_id'') = Inr ()"
    then have plain: "\<not> slashed c" if "ctx = Some c" for c using that component_valid by auto
    show "wp (try_bind (get_json as_link H (link_key ?p i puid)) (\<lambda>l. case l of
        None \<Rightarrow> ret (Inr (None, None))
      | Some l \<Rightarrow> try_bind (get_user U H (fl_astrid_id l)) (\<lambda>user.
          try_bind (case ctx of None \<Rightarrow> ret (Inr None) | Some c \<Rightarrow> get_json as_context H (context_key ?p i c puid)) (\<lambda>overlay.
          ret (Inr (user, first_name [(map_option ci_display_name overlay, ''context''),
            (fl_display_name l, ''link''), (Option.bind user au_display_name, ''canonical'')])))))) Q tr"
    proof (intro wp_try_bind get_link_rule [OF assms(1,2) valid])
      fix t assume t: "stores D t"
      show "(\<forall>e. Inr (link_at D ?p i puid) = Inl e \<longrightarrow> Q (Inl e) t) \<and> (\<forall>x. Inr (link_at D ?p i puid) = (Inr x :: store_error + frontend_link option) \<longrightarrow>
        wp (case x of
          None \<Rightarrow> ret (Inr (None, None))
        | Some l \<Rightarrow> try_bind (get_user U H (fl_astrid_id l)) (\<lambda>user.
            try_bind (case ctx of None \<Rightarrow> ret (Inr None) | Some c \<Rightarrow> get_json as_context H (context_key ?p i c puid)) (\<lambda>overlay.
            ret (Inr (user, first_name [(map_option ci_display_name overlay, ''context''),
              (fl_display_name l, ''link''), (Option.bind user au_display_name, ''canonical'')]))))) Q t)"
        using assms(4) [unfolded case_prod_unfold] t
        by (cases "link_at D ?p i puid")
          (auto intro!: wp_return wp_try_bind get_user_rule [OF _ assms(2)] overlay [OF _ valid plain])
    qed
  qed
qed

lemma link_resolves:
  assumes "stores D tr" "sound U D" "validate_key_component q ''platform'' = Inr ()" "normalize_platform q = normalize_platform p"
    and "case ctx of None \<Rightarrow> True | Some c \<Rightarrow> validate_key_component c ''context_id'' = Inr ()"
  shows "wp (link U H p i puid u meth dn) (\<lambda>r t. case r of
      Inl e \<Rightarrow> stores D t
    | Inr l \<Rightarrow> fst (run_state (resolve U H q i puid ctx) t) = Inr (user_at D u, first_name
        [(map_option ci_display_name (Option.bind ctx (\<lambda>c. overlay_at D (normalize_platform p) i c puid)), ''context''),
         (dn, ''link''), (Option.bind (user_at D u) au_display_name, ''canonical'')])) tr"
proof (rule link_rule [OF assms(1,2)], simp)
  fix l t
  let ?D = "D(KLink (fl_platform l) i puid \<mapsto> ULink l)"
  assume l: "fl_platform l = normalize_platform p" "fl_instance l = i" "fl_user_id l = puid" "fl_astrid_id l = u"
      "fl_display_name l = dn" "user_at D u \<noteq> None"
    and valid: "validate_instance i = Inr ()" "validate_key_component puid ''platform_user_id'' = Inr ()" and t: "stores ?D t"
  have sound: "sound U ?D" using l user_at_sound [OF assms(2), of u] by (intro sound_link [OF assms(2)]) auto
  have same: "user_at ?D v = user_at D v" "overlay_at ?D a b c d = overlay_at D a b c d" "link_at ?D (normalize_platform p) i puid = Some l"
    for v a b c d using l(1) by (simp_all add: user_at_def overlay_at_def link_at_def)
  have "wp (resolve U H q i puid ctx) (\<lambda>r _. r = Inr (user_at D u, first_name
      [(map_option ci_display_name (Option.bind ctx (\<lambda>c. overlay_at D (normalize_platform p) i c puid)), ''context''),
       (dn, ''link''), (Option.bind (user_at D u) au_display_name, ''canonical'')])) t"
    by (rule resolve_rule [OF t sound]) (use assms(3-5) valid l same in auto)
  then show "case Inr l of Inl e \<Rightarrow> stores D t | Inr l \<Rightarrow> fst (run_state (resolve U H q i puid ctx) t) = Inr (user_at D u, first_name
      [(map_option ci_display_name (Option.bind ctx (\<lambda>c. overlay_at D (normalize_platform p) i c puid)), ''context''),
       (dn, ''link''), (Option.bind (user_at D u) au_display_name, ''canonical'')])"
    by (simp add: wp_iff)
qed

end

end
