(* ===== verification/Users_Laws.thy ===== *)
theory Users_Laws
  imports Users_Invariant
begin

text \<open>
  The laws of the identity store, stated on what the store holds, and a host that satisfies its contract.
\<close>

subsection \<open>A host\<close>

text \<open>Ids in unary, so that a fresh one is longer than every key of the trace.\<close>

definition unary_lib :: user_lib where
  "unary_lib = \<lparr>uid_text = (\<lambda>u. replicate (Suc u) (CHR ''x'')),
     uid_parse = (\<lambda>s. if s = [] \<or> list_ex (\<lambda>c. c \<noteq> CHR ''x'') s then None else Some (length s - 1)),
     uid_error = (\<lambda>s. ''invalid character'')\<rparr>"

fun trace_keys :: "('v, 'm) event list \<Rightarrow> string list" where
  "trace_keys [] = []"
| "trace_keys (EvSet k v e # tr) = k # trace_keys tr"
| "trace_keys (EvCas k old v r # tr) = k # trace_keys tr"
| "trace_keys (e # tr) = trace_keys tr"

lemma view_key: "kv_view tr k \<noteq> None \<Longrightarrow> k \<in> set (trace_keys tr)"
  by (induction tr k rule: kv_view.induct) (auto split: if_splits)

definition users_host :: uhost where
  "users_host = mem_host\<lparr>
     h_get_raw := (\<lambda>tr k. Inr (or_default (URaw []) (kv_view tr k))),
     h_keys := (\<lambda>tr p. Inr (filter (\<lambda>k. starts_with p k \<and> kv_view tr k \<noteq> None) (remdups (trace_keys tr)))),
     h_uuid := (\<lambda>tr. sum_list (map length (trace_keys tr)))\<rparr>"

interpretation demo_users: user_store unary_lib users_host
proof
  fix tr :: "(user_val, json) event list" and u k p v
  show "uid_parse unary_lib (uid_text unary_lib u) = Some u" "uid_text unary_lib u \<noteq> []"
    by (simp_all add: unary_lib_def list_ex_iff)
  show "h_uuid users_host tr \<notin> used_ids unary_lib tr"
  proof
    let ?u = "h_uuid users_host tr"
    assume "?u \<in> used_ids unary_lib tr"
    then have "user_key unary_lib ?u \<in> set (trace_keys tr)" by (intro view_key) (simp add: used_ids_def)
    then have "length (user_key unary_lib ?u) \<le> sum_list (map length (trace_keys tr))"
      by (intro member_le_sum_list) auto
    then show False by (simp add: users_host_def user_key_def unary_lib_def)
  qed
  show "h_get_raw users_host tr k = Inr (or_default (URaw []) (kv_view tr k))" by (simp add: users_host_def)
  show "h_set users_host tr k v = None" "h_del users_host tr k = None" by (simp_all add: users_host_def)
  show "\<exists>ks. h_keys users_host tr p = Inr ks \<and> distinct ks \<and> set ks = {k. starts_with p k \<and> kv_view tr k \<noteq> None}"
    using view_key [of tr] by (auto simp: users_host_def)
qed

subsection \<open>Integrity\<close>

text \<open>
  C31: No dangling identity.  On a store that works, after any sequence of requests, every stored value
  sits under the key of its own fields; every link points at a stored user; every context overlay has
  its link; and every name of the index is the trimmed display name of the stored user it gives.\<close>

theorem users_store_integral:
  assumes "user_store U H" and "users_reach U H tr"
  shows "case kv_view tr s of
      None \<Rightarrow> True
    | Some (UUser x) \<Rightarrow> s = user_key U (au_id x)
    | Some (ULink l) \<Rightarrow> s = link_key (fl_platform l) (fl_instance l) (fl_user_id l) \<and>
        (\<exists>x. kv_view tr (user_key U (fl_astrid_id l)) = Some (UUser x))
    | Some (UCtx c) \<Rightarrow> s = context_key (ci_platform c) (ci_instance c) (ci_context_id c) (ci_user_id c) \<and>
        (\<exists>l. kv_view tr (link_key (ci_platform c) (ci_instance c) (ci_user_id c)) = Some (ULink l))
    | Some (URaw b) \<Rightarrow> (\<exists>u x dn. b = uid_text U u \<and> kv_view tr (user_key U u) = Some (UUser x) \<and>
        au_display_name x = Some dn \<and> s = name_key (trim dn))"
  by (rule user_store.stored_sound [OF assms(1) user_store.reach_integral [OF assms]])

text \<open>A store with a linked user.\<close>

definition demo_source :: req_source where
  "demo_source = \<lparr>src_uplink = ''cli'', src_user_id = None, src_correlation_id = ''k1''\<rparr>"

definition linked_trace :: "(user_val, json) event list" where
  "linked_trace = final_trace (handle_users unary_lib users_host (LinkRequest demo_source ''Discord'' None ''7'' ''x'' ''invite'' None))
     (final_trace (handle_users unary_lib users_host (CreateRequest demo_source (Some ''Ada''))) [])"

lemma linked_reach: "users_reach unary_lib users_host linked_trace"
  unfolding linked_trace_def by (intro users_step users_start)

lemma users_store_integral_witness:
  "case kv_view linked_trace ''link/discord/_/7'' of
      None \<Rightarrow> True
    | Some (UUser x) \<Rightarrow> ''link/discord/_/7'' = user_key unary_lib (au_id x)
    | Some (ULink l) \<Rightarrow> ''link/discord/_/7'' = link_key (fl_platform l) (fl_instance l) (fl_user_id l) \<and>
        (\<exists>x. kv_view linked_trace (user_key unary_lib (fl_astrid_id l)) = Some (UUser x))
    | Some (UCtx c) \<Rightarrow> ''link/discord/_/7'' = context_key (ci_platform c) (ci_instance c) (ci_context_id c) (ci_user_id c) \<and>
        (\<exists>l. kv_view linked_trace (link_key (ci_platform c) (ci_instance c) (ci_user_id c)) = Some (ULink l))
    | Some (URaw b) \<Rightarrow> (\<exists>u x dn. b = uid_text unary_lib u \<and> kv_view linked_trace (user_key unary_lib u) = Some (UUser x) \<and>
        au_display_name x = Some dn \<and> ''link/discord/_/7'' = name_key (trim dn))"
  by (rule users_store_integral [OF demo_users.user_store_axioms linked_reach])

subsection \<open>Deleting a user\<close>

text \<open>
  A deletion is complete and touches nothing else.  On a store that works and holds the sound
  directory \<open>D\<close>, deleting a stored user answers true and leaves exactly \<open>D\<close> without its record, the
  links to it, the overlays of those links and the name that the index gives for it; deleting an
  unknown user answers false and changes nothing.\<close>

theorem delete_user_cascades:
  assumes "user_store U H" and "represents U (kv_view tr) D" and "sound U D"
  shows "case run_state (delete_user U H u) tr of (r, tr') \<Rightarrow>
    (case D (KUser u) of
       None \<Rightarrow> r = Inr False \<and> represents U (kv_view tr') D
     | Some x \<Rightarrow> r = Inr True \<and> represents U (kv_view tr') (without_user U D u))"
proof -
  have stores: "user_store.stores U D tr" using assms(2) by (simp add: user_store.stores_def [OF assms(1)])
  have "wp (delete_user U H u) (\<lambda>r t. case user_at D u of
      None \<Rightarrow> r = Inr False \<and> represents U (kv_view t) D
    | Some x \<Rightarrow> r = Inr True \<and> represents U (kv_view t) (without_user U D u)) tr"
    by (rule user_store.delete_rule [OF assms(1) stores assms(3)])
      (auto simp: user_store.stores_def [OF assms(1)] split: option.split)
  then show ?thesis
    using user_at_sound [OF assms(3), of u] by (cases "user_at D u") (auto simp: wp_def)
qed

definition one_user :: directory where
  "one_user = [KUser 0 \<mapsto> UUser \<lparr>au_id = 0, au_public_key = None, au_display_name = None, au_created_at = []\<rparr>]"

lemma one_user_sound: "sound unary_lib one_user"
  by (auto simp: sound_def one_user_def split: if_splits)

definition one_user_trace :: "(user_val, json) event list" where
  "one_user_trace = [EvSet ''user/x'' (UUser \<lparr>au_id = 0, au_public_key = None, au_display_name = None, au_created_at = []\<rparr>) None]"

lemma one_user_represents: "represents unary_lib (kv_view one_user_trace) one_user"
  by (auto simp: represents_def one_user_trace_def one_user_def user_key_def unary_lib_def split: if_splits)

lemma delete_user_cascades_witness:
  "case run_state (delete_user unary_lib users_host 0) one_user_trace of (r, tr') \<Rightarrow>
     r = Inr True \<and> represents unary_lib (kv_view tr') (without_user unary_lib one_user 0)"
  using delete_user_cascades [OF demo_users.user_store_axioms one_user_represents one_user_sound, of 0]
  by (simp add: one_user_def)

subsection \<open>Linking and resolving\<close>

text \<open>
  What was linked resolves.  On a sound store that works, after a successful link the triple,
  with the platform in any spelling of the same normal form, resolves to the linked user, and the
  display name is the context overlay's, else the link's, else the user's own.\<close>

theorem link_then_resolve:
  assumes "user_store U H" and "represents U (kv_view tr) D" and "sound U D"
    and "validate_key_component q ''platform'' = Inr ()" and "normalize_platform q = normalize_platform p"
    and "case ctx of None \<Rightarrow> True | Some c \<Rightarrow> validate_key_component c ''context_id'' = Inr ()"
  shows "case run_state (link U H p i puid u meth dn) tr of (r, tr') \<Rightarrow> (case r of
      Inl e \<Rightarrow> represents U (kv_view tr') D
    | Inr l \<Rightarrow> fst (run_state (resolve U H q i puid ctx) tr') = Inr (user_at D u, first_name
        [(map_option ci_display_name (Option.bind ctx (\<lambda>c. overlay_at D (normalize_platform p) i c puid)), ''context''),
         (dn, ''link''), (Option.bind (user_at D u) au_display_name, ''canonical'')]))"
  using user_store.link_resolves [OF assms(1) _ assms(3-6), of tr i puid u meth dn] assms(2)
  by (auto simp: wp_def user_store.stores_def [OF assms(1)] split: sum.splits prod.splits)

lemma link_then_resolve_witness:
  "case run_state (link unary_lib users_host ''Discord'' None ''7'' 0 ''invite'' (Some ''ada'')) one_user_trace of (r, tr') \<Rightarrow> (case r of
      Inl e \<Rightarrow> represents unary_lib (kv_view tr') one_user
    | Inr l \<Rightarrow> fst (run_state (resolve unary_lib users_host '' DISCORD'' None ''7'' None) tr') =
        Inr (user_at one_user 0, Some \<lparr>rn_name = ''ada'', rn_source = ''link''\<rparr>))"
proof -
  have spelled: "validate_key_component '' DISCORD'' ''platform'' = Inr ()" "normalize_platform '' DISCORD'' = normalize_platform ''Discord''"
    by code_simp+
  have layers: "first_name [(None, ''context''), (Some ''ada'', ''link''), (x, ''canonical'')] = Some \<lparr>rn_name = ''ada'', rn_source = ''link''\<rparr>" for x
    by (simp add: first_name_def)
  show ?thesis
    using link_then_resolve [OF demo_users.user_store_axioms one_user_represents one_user_sound spelled,
        where ctx = None and i = None and puid = "''7''" and u = 0 and meth = "''invite''" and dn = "Some ''ada''"]
    by (simp add: layers split: prod.splits sum.splits)
qed

end
