(* ===== verification/Users_Pages.thy ===== *)
theory Users_Pages
  imports Users_Laws
begin

text \<open>
  The pages and the answers of the identity store: a client that follows the cursors sees every user
  once, a limit of 0 stops the capsule, and every other request is answered exactly once.
\<close>

subsection \<open>One page\<close>

definition after_cursor :: "string option \<Rightarrow> string list \<Rightarrow> string list" where
  "after_cursor cursor ks = (case cursor of None \<Rightarrow> ks | Some c \<Rightarrow> dropWhile (\<lambda>k. k \<le> c) ks)"

definition page_size :: "nat option \<Rightarrow> nat" where
  "page_size limit = min (or_default USERS_DEFAULT_LIMIT limit) USERS_MAX_LIMIT"

lemma drop_start: "drop (start_index ks cursor) ks = after_cursor cursor ks"
  by (simp add: start_index_def after_cursor_def dropWhile_eq_drop split: option.split)

lemma start_le: "start_index ks cursor \<le> length ks"
  by (simp add: start_index_def length_takeWhile_le split: option.split)

lemma slice_after: "page_slice ks cursor limit ks = take (page_size limit) (after_cursor cursor ks)"
proof -
  have "drop s (take (min (s + m) (length xs)) xs) = take m (drop s xs)" for s m and xs :: "'a list"
    by (metis drop_take min.commute take_all_iff take_take diff_add_inverse linear min_def)
  then show ?thesis by (simp add: page_slice_def end_index_def page_size_def drop_start [symmetric])
qed

lemma length_after: "length (after_cursor cursor ks) = length ks - start_index ks cursor"
  by (simp add: drop_start [symmetric])

lemma next_cursor_cases:
  assumes "0 < page_size limit"
  shows "next_cursor ks cursor limit = (if page_size limit < length (after_cursor cursor ks)
    then Inr (Some (after_cursor cursor ks ! (page_size limit - 1))) else Inr None)"
proof -
  have less: "end_index ks cursor limit < length ks \<longleftrightarrow> page_size limit < length (after_cursor cursor ks)"
    using start_le [of ks cursor] by (auto simp: end_index_def page_size_def length_after)
  have nth: "ks ! (end_index ks cursor limit - 1) = after_cursor cursor ks ! (page_size limit - 1)"
    if "page_size limit < length (after_cursor cursor ks)"
  proof -
    have "end_index ks cursor limit = start_index ks cursor + page_size limit"
      using that by (simp add: end_index_def page_size_def length_after)
    then show ?thesis using assms start_le [of ks cursor] by (simp add: drop_start [symmetric])
  qed
  have "end_index ks cursor limit \<noteq> 0" if "page_size limit < length (after_cursor cursor ks)"
    using that assms start_le [of ks cursor] by (simp add: end_index_def page_size_def length_after)
  then show ?thesis using less nth by (auto simp: next_cursor_def Let_def)
qed

lemma after_next:
  assumes "sorted ks" "distinct ks" "0 < m" "m < length (after_cursor cursor ks)"
  shows "after_cursor (Some (after_cursor cursor ks ! (m - 1))) ks = drop m (after_cursor cursor ks)"
proof -
  let ?n = "start_index ks cursor"
  let ?c = "after_cursor cursor ks ! (m - 1)"
  have bound: "?n + m < length ks" using assms(4) by (simp add: length_after)
  have c: "?c = ks ! (?n + m - 1)" using assms(3) bound by (simp add: drop_start [symmetric])
  have small: "\<forall>k \<in> set (take (?n + m) ks). k \<le> ?c"
  proof
    fix k assume "k \<in> set (take (?n + m) ks)"
    then obtain i where "i < ?n + m" "k = ks ! i" by (auto simp: in_set_conv_nth)
    then show "k \<le> ?c" unfolding c using assms(1,3) bound by (simp add: sorted_nth_mono)
  qed
  have "sorted_wrt (<) ks" using assms(1,2) by (simp add: strict_sorted_iff)
  then have "?c < ks ! (?n + m)" unfolding c using assms(3) bound by (intro sorted_wrt_nth_less) auto
  then have big: "dropWhile (\<lambda>k. k \<le> ?c) (drop (?n + m) ks) = drop (?n + m) ks"
    using bound by (simp add: Cons_nth_drop_Suc [symmetric])
  have "after_cursor (Some ?c) ks = dropWhile (\<lambda>k. k \<le> ?c) (take (?n + m) ks @ drop (?n + m) ks)"
    by (simp add: after_cursor_def)
  also have "\<dots> = dropWhile (\<lambda>k. k \<le> ?c) (drop (?n + m) ks)"
    using small by (intro dropWhile_append2) blast
  also have "\<dots> = drop (?n + m) ks" by (rule big)
  finally show ?thesis by (simp add: drop_start [symmetric] add.commute)
qed

subsection \<open>Following the cursors\<close>

text \<open>A client that asks for the next page until there is none.\<close>

fun walk_users :: "uhost \<Rightarrow> nat option \<Rightarrow> nat \<Rightarrow> string option \<Rightarrow> (astrid_user list) uresult" where
  "walk_users H limit 0 cursor = ret (Inr [])"
| "walk_users H limit (Suc fuel) cursor = try_bind (list_users_paginated H cursor limit) (\<lambda>(items, next_key). case next_key of
     None \<Rightarrow> ret (Inr items)
   | Some c \<Rightarrow> try_bind (walk_users H limit fuel (Some c)) (\<lambda>rest. ret (Inr (items @ rest))))"

definition user_keys :: "directory \<Rightarrow> user_lib \<Rightarrow> string list" where
  "user_keys D U = sorted_list_of_set {s. \<exists>u. D (KUser u) \<noteq> None \<and> s = user_key U u}"

lemma user_keys_set:
  assumes "finite (dom D)"
  shows "set (user_keys D U) = {s. \<exists>u. D (KUser u) \<noteq> None \<and> s = user_key U u}"
proof -
  have "finite {s. \<exists>u. D (KUser u) \<noteq> None \<and> s = user_key U u}"
    by (rule finite_subset [OF _ finite_imageI [OF assms, of "key_text U"]]) force
  then show ?thesis by (simp add: user_keys_def)
qed

context user_store
begin

lemma read_users_rule:
  "stores D tr \<Longrightarrow> \<forall>s \<in> set ss. \<exists>u x. s = user_key U u \<and> D (KUser u) = Some (UUser x) \<and> usr s = x \<Longrightarrow>
   (\<And>t. stores D t \<Longrightarrow> Q (Inr (map usr ss)) t) \<Longrightarrow> wp (read_all (get_json as_user H) ss) Q tr"
proof (induction ss arbitrary: tr Q)
  case Nil
  then show ?case by (simp add: wp_return)
next
  case (Cons s ss)
  obtain u where s: "s = key_text U (KUser u)" "D (KUser u) = Some (UUser (usr s))" using Cons.prems(2) by auto
  have read: "wp (get_json as_user H s) R t" if "stores D t" "\<And>t. stores D t \<Longrightarrow> R (Inr (Some (usr s))) t" for R t
    using s(2) that unfolding s(1) by (intro json_stores) (auto simp: s(1) [symmetric])
  have rest: "wp (read_all (get_json as_user H) ss) R t" if "stores D t" "\<And>t. stores D t \<Longrightarrow> R (Inr (map usr ss)) t" for R t
    using Cons.prems(2) that by (intro Cons.IH) auto
  have all: "Q (Inr (usr s # map usr ss)) t" if "stores D t" for t using Cons.prems(3) that by simp
  show ?case
    unfolding read_all.simps
    by (intro wpI read rest Cons.prems(1) conjI allI impI) (auto intro!: wpI rest all)
qed

lemma page_rule:
  assumes "stores D tr" "sound U D" "finite (dom D)"
    and "\<And>s u x. s = user_key U u \<Longrightarrow> D (KUser u) = Some (UUser x) \<Longrightarrow> usr s = x"
    and "\<And>t. stores D t \<Longrightarrow> Q (map_sum id (Pair (map usr (page_slice (user_keys D U) cursor limit (user_keys D U))))
      (next_cursor (user_keys D U) cursor limit)) t"
  shows "wp (list_users_paginated H cursor limit) Q tr"
proof -
  have keys: "sort (map (key_text U) ks) = user_keys D U"
    if "distinct ks" "set ks = {k \<in> dom D. starts_with ''user/'' (key_text U k)}" for ks
  proof -
    have "set (map (key_text U) ks) = {s. \<exists>u. D (KUser u) \<noteq> None \<and> s = user_key U u}"
      unfolding set_map that(2) by (force simp: user_prefix)
    moreover have "distinct (map (key_text U) ks)"
      using that by (auto simp: distinct_map inj_on_def user_prefix user_key_def)
    ultimately show ?thesis unfolding user_keys_def by (metis sorted_list_of_set_sort_remdups distinct_remdups_id)
  qed
  have users: "\<forall>s \<in> set (user_keys D U). \<exists>u x. s = user_key U u \<and> D (KUser u) = Some (UUser x) \<and> usr s = x"
  proof
    fix s assume "s \<in> set (user_keys D U)"
    then obtain u where u: "D (KUser u) \<noteq> None" "s = user_key U u"
      unfolding user_keys_set [OF assms(3)] by auto
    then obtain x where "D (KUser u) = Some (UUser x)" using user_at_sound [OF assms(2), of u] by (cases "user_at D u") auto
    then show "\<exists>u x. s = user_key U u \<and> D (KUser u) = Some (UUser x) \<and> usr s = x" using u(2) assms(4) by blast
  qed
  have slice: "set (page_slice (user_keys D U) cursor limit (user_keys D U)) \<subseteq> set (user_keys D U)"
    by (auto simp: page_slice_def dest!: in_set_dropD in_set_takeD)
  show ?thesis
    unfolding list_users_paginated_def
  proof (intro wpI list_stores [OF assms(1)] conjI allI impI)
    fix ks t xs assume ks: "stores D t" "distinct ks" "set ks = {k \<in> dom D. starts_with ''user/'' (key_text U k)}"
      and xs: "Inr (map (key_text U) ks) = (Inr xs :: store_error + string list)"
    have sorted_keys: "sort xs = user_keys D U" using xs keys [OF ks(2,3)] by simp
    show "wp (read_all (get_json as_user H) (page_slice (sort xs) cursor limit (sort xs))) (\<lambda>r s. (\<forall>e. r = Inl e \<longrightarrow> Q (Inl e) s) \<and>
        (\<forall>items. r = Inr items \<longrightarrow> wp (ret (map_sum id (Pair items) (next_cursor (sort xs) cursor limit))) Q s)) t"
      unfolding sorted_keys using users slice
      by (intro read_users_rule [where usr = usr, OF ks(1)]) (auto intro!: wpI assms(5))
  qed simp
qed

lemma walk_rule:
  assumes "sound U D" "finite (dom D)" "0 < page_size limit"
    and "\<And>s u x. s = user_key U u \<Longrightarrow> D (KUser u) = Some (UUser x) \<Longrightarrow> usr s = x"
  shows "stores D tr \<Longrightarrow> length (after_cursor cursor (user_keys D U)) < fuel \<Longrightarrow>
    wp (walk_users H limit fuel cursor) (\<lambda>r t. stores D t \<and> r = Inr (map usr (after_cursor cursor (user_keys D U)))) tr"
proof (induction fuel arbitrary: cursor tr)
  case (Suc fuel)
  let ?ks = "user_keys D U"
  let ?R = "after_cursor cursor ?ks" and ?m = "page_size limit"
  have sorted: "sorted ?ks" "distinct ?ks" by (simp_all add: user_keys_def)
  show ?case
    unfolding walk_users.simps
  proof (intro wp_try_bind page_rule [where usr = usr, OF Suc.prems(1) assms(1,2,4)])
    fix t assume t: "stores D t"
    show "(\<forall>e. map_sum id (Pair (map usr (page_slice ?ks cursor limit ?ks))) (next_cursor ?ks cursor limit) = Inl e \<longrightarrow>
          stores D t \<and> (Inl e :: store_error + astrid_user list) = Inr (map usr ?R)) \<and>
      (\<forall>x. map_sum id (Pair (map usr (page_slice ?ks cursor limit ?ks))) (next_cursor ?ks cursor limit) = Inr x \<longrightarrow>
        wp (case x of (items, next_key) \<Rightarrow> case next_key of
            None \<Rightarrow> ret (Inr items)
          | Some c \<Rightarrow> try_bind (walk_users H limit fuel (Some c)) (\<lambda>rest. ret (Inr (items @ rest))))
          (\<lambda>r t. stores D t \<and> r = Inr (map usr ?R)) t)"
    proof (cases "?m < length ?R")
      case True
      have next_key: "after_cursor (Some (?R ! (?m - 1))) ?ks = drop ?m ?R"
        by (rule after_next [OF sorted assms(3) True])
      have "wp (walk_users H limit fuel (Some (?R ! (?m - 1)))) (\<lambda>r t. stores D t \<and> r = Inr (map usr (drop ?m ?R))) t"
        using Suc.IH [OF t, of "Some (?R ! (?m - 1))"] True assms(3) Suc.prems(2) unfolding next_key by simp
      then have "wp (try_bind (walk_users H limit fuel (Some (?R ! (?m - 1)))) (\<lambda>rest. ret (Inr (map usr (take ?m ?R) @ rest))))
          (\<lambda>r t. stores D t \<and> r = Inr (map usr ?R)) t"
        by (intro wp_try_bind) (erule wp_mono, auto intro!: wpI simp: map_append [symmetric] simp del: map_append)
      then show ?thesis using True by (simp add: next_cursor_cases [OF assms(3)] slice_after)
    next
      case False
      then show ?thesis using t by (simp add: next_cursor_cases [OF assms(3)] slice_after wp_return)
    qed
  qed auto
qed simp

end

context user_store
begin

lemma stores_finite: "stores D tr \<Longrightarrow> finite (dom D)"
proof (rule finite_imageD)
  assume D: "stores D tr"
  then have "key_text U ` dom D \<subseteq> set (trace_keys tr)"
    using view_key [of tr] by (fastforce simp: stores_def represents_def)
  then show "finite (key_text U ` dom D)" by (rule finite_subset) simp
  show "inj_on (key_text U) (dom D)"
    using keys_inj stores_valid [OF D] by (intro inj_onI) blast
qed

lemma walk_complete:
  assumes "stores D tr" "sound U D" "0 < page_size limit" "length (user_keys D U) < fuel"
  shows "\<exists>us. fst (run_state (walk_users H limit fuel None) tr) = Inr us \<and>
    map (\<lambda>x. user_key U (au_id x)) us = user_keys D U \<and> list_all (\<lambda>x. D (KUser (au_id x)) = Some (UUser x)) us"
proof -
  let ?usr = "\<lambda>s. the (Option.bind (kv_view tr s) as_user)"
  have usr: "?usr s = x" if "s = user_key U u" "D (KUser u) = Some (UUser x)" for s u x
    using read_key [of "kv_view tr" D "KUser u"] assms(1) that by (simp add: stores_def)
  have "wp (walk_users H limit fuel None) (\<lambda>r t. stores D t \<and> r = Inr (map ?usr (after_cursor None (user_keys D U)))) tr"
    using assms(4) by (intro walk_rule [OF assms(2) stores_finite [OF assms(1)] assms(3) usr assms(1)]) (simp_all add: after_cursor_def)
  then have run: "fst (run_state (walk_users H limit fuel None) tr) = Inr (map ?usr (user_keys D U))"
    by (simp add: wp_iff after_cursor_def)
  have stored: "user_key U (au_id (?usr s)) = s \<and> D (KUser (au_id (?usr s))) = Some (UUser (?usr s))" if s: "s \<in> set (user_keys D U)" for s
  proof -
    obtain u where u: "D (KUser u) \<noteq> None" "s = user_key U u"
      using s unfolding user_keys_set [OF stores_finite [OF assms(1)]] by auto
    then obtain x where x: "user_at D u = Some x" using user_at_sound [OF assms(2), of u] by (cases "user_at D u") auto
    then have "D (KUser u) = Some (UUser x)" using user_at_sound [OF assms(2), of u] by simp
    then show ?thesis using usr [OF u(2)] user_at_id [OF assms(2) x] u(2) by simp
  qed
  have "map (\<lambda>x. user_key U (au_id x)) (map ?usr (user_keys D U)) = user_keys D U"
    unfolding map_map comp_def using stored by (intro map_idI) blast
  moreover have "list_all (\<lambda>x. D (KUser (au_id x)) = Some (UUser x)) (map ?usr (user_keys D U))"
    unfolding list_all_iff set_map using stored by blast
  ultimately show ?thesis using run by blast
qed

lemma zero_limit_aborts:
  assumes "stores D tr" "sound U D" "D (KUser u) \<noteq> None"
  shows "wp (list_users_paginated H None (Some 0)) (\<lambda>r t. r = Inl Aborted) tr"
proof -
  let ?usr = "\<lambda>s. the (Option.bind (kv_view tr s) as_user)"
  have usr: "?usr s = x" if "s = user_key U u" "D (KUser u) = Some (UUser x)" for s u x
    using read_key [of "kv_view tr" D "KUser u"] assms(1) that by (simp add: stores_def)
  have "user_keys D U \<noteq> []"
    using user_keys_set [OF stores_finite [OF assms(1)], of U] assms(3) by fastforce
  then have "next_cursor (user_keys D U) None (Some 0) = Inl Aborted"
    by (simp add: next_cursor_def end_index_def start_index_def)
  then show ?thesis
    by (intro page_rule [OF assms(1,2) stores_finite [OF assms(1)] usr]) simp_all
qed

end

subsection \<open>Answers\<close>

text \<open>\<open>calm m\<close>: on no trace does \<open>m\<close> publish or panic.\<close>

definition calm :: "'a uresult \<Rightarrow> bool" where
  "calm m \<longleftrightarrow> (\<forall>tr. wp m (\<lambda>r tr'. r \<noteq> Inl Aborted \<and> (\<exists>evs. tr' = evs @ tr \<and> pubs evs = [])) tr)"

named_theorems calmI \<open>rules that take a calm operation apart\<close>

lemma calm_return [calmI]: "r \<noteq> Inl Aborted \<Longrightarrow> calm (ret r)"
  by (simp add: calm_def wp_return)

lemma calm_let [calmI]: "calm (f x) \<Longrightarrow> calm (Let x f)"
  by simp

lemma calm_if [calmI]: "(b \<Longrightarrow> calm m) \<Longrightarrow> (\<not> b \<Longrightarrow> calm n) \<Longrightarrow> calm (if b then m else n)"
  by simp

lemma calm_case_option [calmI]: "(r = None \<Longrightarrow> calm m) \<Longrightarrow> (\<And>x. r = Some x \<Longrightarrow> calm (f x)) \<Longrightarrow> calm (case r of None \<Rightarrow> m | Some x \<Rightarrow> f x)"
  by (cases r) simp_all

lemma calm_try [calmI]:
  assumes "calm m" "\<And>x. calm (f x)"
  shows "calm (try_bind m f)"
  unfolding calm_def
proof (intro allI wp_try_bind)
  fix tr
  have "wp m (\<lambda>r tr'. r \<noteq> Inl Aborted \<and> (\<exists>evs. tr' = evs @ tr \<and> pubs evs = [])) tr" using assms(1) by (simp add: calm_def)
  then show "wp m (\<lambda>r s'. (\<forall>e. r = Inl e \<longrightarrow> Inl e \<noteq> Inl Aborted \<and> (\<exists>evs. s' = evs @ tr \<and> pubs evs = [])) \<and>
     (\<forall>x. r = Inr x \<longrightarrow> wp (f x) (\<lambda>r tr'. r \<noteq> Inl Aborted \<and> (\<exists>evs. tr' = evs @ tr \<and> pubs evs = [])) s')) tr"
  proof (rule wp_mono, intro conjI allI impI)
    fix r t x assume t: "r \<noteq> Inl Aborted \<and> (\<exists>evs. t = evs @ tr \<and> pubs evs = [])"
    then obtain evs where evs: "t = evs @ tr" "pubs evs = []" by blast
    have "wp (f x) (\<lambda>r tr'. r \<noteq> Inl Aborted \<and> (\<exists>evs. tr' = evs @ t \<and> pubs evs = [])) t" using assms(2) by (simp add: calm_def)
    then show "wp (f x) (\<lambda>r tr'. r \<noteq> Inl Aborted \<and> (\<exists>evs. tr' = evs @ tr \<and> pubs evs = [])) t"
      by (rule wp_mono) (use evs in \<open>auto intro: exI [where x = "_ @ evs"]\<close>)
  qed auto
qed

definition unspoken :: "(user_val, json) event \<Rightarrow> bool" where
  "unspoken e \<longleftrightarrow> pub_of e = None"

lemma unspoken_pubs: "list_all unspoken evs \<Longrightarrow> pubs evs = []"
  by (induction evs) (auto simp: unspoken_def split: option.splits)

lemma calm_quiet [calmI]:
  assumes "every unspoken m" "\<And>x. calm (f x)"
  shows "calm (State_Monad.bind m f)"
  unfolding calm_def
proof (intro allI wp_bind)
  fix tr
  have "wp m (\<lambda>_ t. \<exists>evs. t = evs @ tr \<and> pubs evs = []) tr"
    using assms(1) unspoken_pubs by (fastforce simp: every_def wp_iff)
  then show "wp m (\<lambda>x. wp (f x) (\<lambda>r tr'. r \<noteq> Inl Aborted \<and> (\<exists>evs. tr' = evs @ tr \<and> pubs evs = []))) tr"
  proof (rule wp_mono, elim exE conjE)
    fix x t evs assume evs: "t = evs @ tr" "pubs evs = []"
    have "wp (f x) (\<lambda>r tr'. r \<noteq> Inl Aborted \<and> (\<exists>evs. tr' = evs @ t \<and> pubs evs = [])) t" using assms(2) by (simp add: calm_def)
    then show "wp (f x) (\<lambda>r tr'. r \<noteq> Inl Aborted \<and> (\<exists>evs. tr' = evs @ tr \<and> pubs evs = [])) t"
      by (rule wp_mono) (use evs in \<open>auto intro: exI [where x = "_ @ evs"]\<close>)
  qed
qed

lemma unspoken_calls [everyI]: "every unspoken (kv_get_raw H k)" "every unspoken (kv_set H k v)" "every unspoken (kv_delete H k)"
    "every unspoken (list_keys H p)" "every unspoken (now_rfc3339 H)" "every unspoken (new_uuid H)" "every unspoken (new_user H dn)"
  unfolding new_user_def now_rfc3339_def host_defs by (intro everyI every_host_call; simp add: unspoken_def)+

lemma validate_calm: "validate_non_empty v what \<noteq> Inl Aborted" "validate_key_component v what \<noteq> Inl Aborted"
    "validate_instance i \<noteq> Inl Aborted" "validate_display_name dn \<noteq> Inl Aborted"
  by (auto simp: validate_non_empty_def validate_key_component_def validate_instance_def validate_display_name_def display_name_error_def
      split: option.splits sum.splits if_splits)

lemma calm_check [calmI]: "v \<noteq> Inl Aborted \<Longrightarrow> calm m \<Longrightarrow> calm (check v m)"
  by (cases v) (auto simp: check_def intro: calmI)

lemma storage_calm: "map_sum Storage f r \<noteq> Inl Aborted" "stored_ok e \<noteq> Inl Aborted"
  by (cases r; simp add: stored_ok_def split: option.split)+

lemma calm_backend [calmI]: "calm (b_get H k)" "calm (b_set H k v)" "calm (b_delete H k)" "calm (b_list_keys H p)"
  unfolding b_get_def b_set_def b_delete_def b_list_keys_def
  by (intro calmI everyI storage_calm; simp split: sum.split)+

lemma calm_json [calmI]: "calm (get_json d H k)"
  unfolding get_json_def by (intro calmI) (auto split: option.split)

lemma calm_checks [calmI]: "calm m \<Longrightarrow> calm (check_triple p i puid m)" "calm m \<Longrightarrow> calm (check_context p i puid c m)"
  by (simp_all add: check_triple_def check_context_def calm_check validate_calm)

lemma calm_users [calmI]: "calm (get_user U H u)" "calm (existing_user U H u)" "calm (index_name U H u dn)" "calm (unindex_name U H u dn)"
    "calm (exists_key H k)" "calm (require_link_exists H p i puid)"
  unfolding get_user_def existing_user_def index_name_def unindex_name_def exists_key_def require_link_exists_def
  by (intro calmI; simp split: option.split)+

lemma calm_loops [calmI]: "calm (links_of H u ks)" "calm (delete_ending H suffix ks)" "calm (drop_links H u ks)"
  by (induction ks; auto intro!: calmI)+

lemma calm_read_all [calmI]: "(\<And>k. calm (f k)) \<Longrightarrow> calm (read_all f ks)"
  by (induction ks) (auto intro!: calmI)

lemma calm_lists [calmI]: "calm (list_links H u)" "calm (drop_overlays H p i puid)" "calm (member_of H k)"
  unfolding list_links_def drop_overlays_def member_of_def by (intro calmI; simp)+

lemma calm_link_loops [calmI]: "calm (drop_all_overlays H ls)" "calm (overlays_of H ls)"
  by (induction ls; auto intro!: calmI)+

lemma calm_ops [calmI]:
  "calm (create_user U H dn)" "calm (set_display_name U H u dn)" "calm (set_public_key U H u key)"
  "calm (resolve U H p i puid ctx)" "calm (link U H p i puid u meth dn)" "calm (unlink H p i puid)" "calm (delete_user U H u)"
  "calm (set_context H p i puid c name)" "calm (clear_context H p i puid c)" "calm (get_context H p i puid c)"
  unfolding create_user_def set_display_name_def set_public_key_def resolve_def link_def unlink_def delete_user_def
    set_context_def clear_context_def get_context_def
  by (intro calmI everyI validate_calm; simp add: validate_calm split: option.split)+

lemma next_cursor_calm: "limit \<noteq> Some 0 \<Longrightarrow> map_sum id f (next_cursor ks cursor limit) \<noteq> Inl Aborted"
proof -
  assume "limit \<noteq> Some 0"
  then have "0 < page_size limit" by (cases limit) (auto simp: page_size_def USERS_DEFAULT_LIMIT_def USERS_MAX_LIMIT_def)
  then show ?thesis by (simp add: next_cursor_cases)
qed

lemma calm_pages [calmI]:
  "limit \<noteq> Some 0 \<Longrightarrow> calm (list_users_paginated H cursor limit)" "limit \<noteq> Some 0 \<Longrightarrow> calm (list_context_for_user H u cursor limit)"
  "limit \<noteq> Some 0 \<Longrightarrow> calm (list_context_in_context H p i c cursor limit)"
  unfolding list_users_paginated_def list_context_for_user_def list_context_in_context_def
  by (intro calmI validate_calm next_cursor_calm; simp)+

text \<open>What the surface says of a request.\<close>

fun response_topic :: "users_request \<Rightarrow> string" where
  "response_topic (ResolveRequest src p i puid c) = ''users.v1.resolve.response''"
| "response_topic (LinkRequest src p i puid uid meth dn) = ''users.v1.link.response''"
| "response_topic (UnlinkRequest src p i puid) = ''users.v1.unlink.response''"
| "response_topic (CreateRequest src dn) = ''users.v1.create.response''"
| "response_topic (SetDisplayNameRequest src uid dn) = ''users.v1.set_display_name.response''"
| "response_topic (SetPublicKeyRequest src uid pk) = ''users.v1.set_public_key.response''"
| "response_topic (LinksRequest src uid) = ''users.v1.links.response''"
| "response_topic (GetRequest src uid) = ''users.v1.get.response''"
| "response_topic (DeleteRequest src uid) = ''users.v1.delete.response''"
| "response_topic (ListRequest src cursor limit) = ''users.v1.list.response''"
| "response_topic (ContextSetRequest src p i puid c dn) = ''users.v1.context.set.response''"
| "response_topic (ContextClearRequest src p i puid c) = ''users.v1.context.clear.response''"
| "response_topic (ContextGetRequest src p i puid c) = ''users.v1.context.get.response''"
| "response_topic (ContextListForUserRequest src uid cursor limit) = ''users.v1.context.list_for_user.response''"
| "response_topic (ContextListInContextRequest src p i c cursor limit) = ''users.v1.context.list_in_context.response''"

fun correlation_of :: "users_request \<Rightarrow> string" where
  "correlation_of (ResolveRequest src p i puid c) = src_correlation_id src"
| "correlation_of (LinkRequest src p i puid uid meth dn) = src_correlation_id src"
| "correlation_of (UnlinkRequest src p i puid) = src_correlation_id src"
| "correlation_of (CreateRequest src dn) = src_correlation_id src"
| "correlation_of (SetDisplayNameRequest src uid dn) = src_correlation_id src"
| "correlation_of (SetPublicKeyRequest src uid pk) = src_correlation_id src"
| "correlation_of (LinksRequest src uid) = src_correlation_id src"
| "correlation_of (GetRequest src uid) = src_correlation_id src"
| "correlation_of (DeleteRequest src uid) = src_correlation_id src"
| "correlation_of (ListRequest src cursor limit) = src_correlation_id src"
| "correlation_of (ContextSetRequest src p i puid c dn) = src_correlation_id src"
| "correlation_of (ContextClearRequest src p i puid c) = src_correlation_id src"
| "correlation_of (ContextGetRequest src p i puid c) = src_correlation_id src"
| "correlation_of (ContextListForUserRequest src uid cursor limit) = src_correlation_id src"
| "correlation_of (ContextListInContextRequest src p i c cursor limit) = src_correlation_id src"

fun wants_nothing :: "users_request \<Rightarrow> bool" where
  "wants_nothing (ListRequest src cursor limit) = (limit = Some 0)"
| "wants_nothing (ContextListForUserRequest src uid cursor limit) = (limit = Some 0)"
| "wants_nothing (ContextListInContextRequest src p i c cursor limit) = (limit = Some 0)"
| "wants_nothing _ = False"

definition answered :: "string \<Rightarrow> string \<Rightarrow> bool \<Rightarrow> (user_val, json) event list \<Rightarrow> bool" where
  "answered topic cid stopped evs \<longleftrightarrow> (case pubs evs of
     [] \<Rightarrow> stopped
   | [(t, j)] \<Rightarrow> t = topic \<and> jget ''correlation-id'' j = Some (JStr cid)
   | _ \<Rightarrow> False)"

definition answers :: "string \<Rightarrow> string \<Rightarrow> bool \<Rightarrow> unit uio \<Rightarrow> bool" where
  "answers topic cid stopped m \<longleftrightarrow> (\<forall>tr. wp m (\<lambda>_ tr'. \<exists>evs. tr' = evs @ tr \<and> answered topic cid stopped evs) tr)"

lemma answers_calm: "calm m \<Longrightarrow> answers topic cid stopped (answer U H topic cid f m)"
  unfolding answers_def answer_def publish_error_def
proof (intro allI, rule wp_bind)
  fix tr assume "calm m"
  then have "wp m (\<lambda>r tr'. r \<noteq> Inl Aborted \<and> (\<exists>evs. tr' = evs @ tr \<and> pubs evs = [])) tr" by (simp add: calm_def)
  then show "wp m (\<lambda>r. wp (case r of
        Inl e \<Rightarrow> if e = Aborted then ret () else do {
          _ \<leftarrow> publish H topic (JObj [(''correlation-id'', JStr cid), (''error'', JStr (error_text U e))]); ret () }
      | Inr x \<Rightarrow> do { _ \<leftarrow> publish H topic (JObj ((''correlation-id'', JStr cid) # f x)); ret () })
      (\<lambda>_ tr'. \<exists>evs. tr' = evs @ tr \<and> answered topic cid stopped evs)) tr"
    by (rule wp_mono, elim conjE exE, intro wpI) (auto simp: answered_def)
qed

lemma answers_reads:
  assumes "every only_reads m"
  shows "answers topic cid True (answer U H topic cid f m)"
  unfolding answers_def answer_def publish_error_def
proof (intro allI, rule wp_bind, rule every_wp [OF assms])
  fix tr evs assume "list_all only_reads evs"
  then have "pubs evs = []" by (intro unspoken_pubs) (auto simp: list_all_iff unspoken_def elim!: only_reads.elims)
  then show "wp (case fst (run_state m tr) of
        Inl e \<Rightarrow> if e = Aborted then ret () else do {
          _ \<leftarrow> publish H topic (JObj [(''correlation-id'', JStr cid), (''error'', JStr (error_text U e))]); ret () }
      | Inr x \<Rightarrow> do { _ \<leftarrow> publish H topic (JObj ((''correlation-id'', JStr cid) # f x)); ret () })
      (\<lambda>_ tr'. \<exists>evs. tr' = evs @ tr \<and> answered topic cid True evs) (evs @ tr)"
    by (intro wpI) (auto simp: answered_def)
qed

lemma answers_for_user: "(\<And>u. answers topic cid stopped (f u)) \<Longrightarrow> answers topic cid stopped (for_user U H s topic cid f)"
  unfolding answers_def for_user_def parse_uuid_def publish_error_def
  by (intro allI wpI) (auto simp: answered_def intro!: wpI)

lemma answers_set_key:
  "answers topic cid stopped (do { key \<leftarrow> parse_pubkey U H pk topic cid; case key of None \<Rightarrow> ret () | Some k \<Rightarrow>
     answer U H topic cid f (set_public_key U H u k) })"
  unfolding parse_pubkey_def publish_error_def using answers_calm [OF calm_ops(3)]
  by (auto simp: answers_def answered_def intro!: wpI)

lemma answers_page:
  assumes "every only_reads m" "limit \<noteq> Some 0 \<Longrightarrow> calm m"
  shows "answers topic cid (limit = Some 0) (answer U H topic cid f m)"
  using answers_reads [OF assms(1)] answers_calm [OF assms(2)] by (cases "limit = Some 0") simp_all

lemma handle_answers: "answers (response_topic req) (correlation_of req) (wants_nothing req) (handle_users U H req)"
  by (cases req)
    (simp_all add: users_resolve_def users_link_def users_unlink_def users_create_def users_set_display_name_def users_set_public_key_def
      users_links_def users_get_def users_delete_def users_list_def users_context_set_def users_context_clear_def users_context_get_def
      users_context_list_for_user_def users_context_list_in_context_def Let_def,
     (intro answers_for_user answers_set_key answers_page answers_calm calm_ops calm_users calm_lists calm_pages everyI | assumption)+)

text \<open>
  Every request of the identity store is answered once.  On every host, whatever the store answers,
  a request leads to exactly one publication, on its own response topic and with its correlation id;
  only a paged request with limit 0 may end without one.\<close>

theorem users_answered_once:
  "case pubs (new_events (handle_users U H req) tr) of
     [] \<Rightarrow> wants_nothing req
   | [(t, j)] \<Rightarrow> t = response_topic req \<and> jget ''correlation-id'' j = Some (JStr (correlation_of req))
   | _ \<Rightarrow> False"
proof -
  have "wp (handle_users U H req) (\<lambda>_ t. answered (response_topic req) (correlation_of req) (wants_nothing req) (since tr t)) tr"
    using handle_answers [of req U H] unfolding answers_def by (auto intro: wp_mono)
  from wp_new_events [OF this] show ?thesis by (simp only: answered_def)
qed

text \<open>
  C39: A limit of 0 stops the capsule.  On a sound store that works and holds a user, the request for
  the first page of the users with limit 0 ends in the panic of an underflowing index: nothing is
  published, the requester waits for an answer that never comes.\<close>

theorem zero_limit_unanswered:
  assumes "user_store U H" and "represents U (kv_view tr) D" and "sound U D" and "D (KUser u) \<noteq> None"
  shows "fst (run_state (list_users_paginated H None (Some 0)) tr) = Inl Aborted \<and>
    pubs (new_events (handle_users U H (ListRequest src None (Some 0))) tr) = []"
proof -
  have stores: "user_store.stores U D tr" using assms(2) by (simp add: user_store.stores_def [OF assms(1)])
  have abort: "fst (run_state (list_users_paginated H None (Some 0)) tr) = Inl Aborted"
    using user_store.zero_limit_aborts [OF assms(1) stores assms(3,4)] by (simp add: wp_iff)
  have "wp (handle_users U H (ListRequest src None (Some 0))) (\<lambda>_ t. pubs (since tr t) = []) tr"
    unfolding handle_users.simps users_list_def answer_def Let_def
  proof (rule wp_bind, rule every_wp [OF reads_queries(3)])
    fix evs assume "list_all only_reads evs"
    then have "pubs evs = []" by (intro unspoken_pubs) (auto simp: list_all_iff unspoken_def elim!: only_reads.elims)
    then show "wp (case fst (run_state (list_users_paginated H None (Some 0)) tr) of
          Inl e \<Rightarrow> if e = Aborted then ret () else publish_error U H ''users.v1.list.response'' (src_correlation_id src) e
        | Inr x \<Rightarrow> do { _ \<leftarrow> publish H ''users.v1.list.response'' (JObj ((''correlation-id'', JStr (src_correlation_id src)) #
            page_members ''users'' (user_value U) x)); ret () })
        (\<lambda>_ t. pubs (since tr t) = []) (evs @ tr)"
      by (simp add: abort wp_return)
  qed
  then show ?thesis using abort by (auto intro: wp_new_events)
qed

lemma zero_limit_unanswered_witness:
  "fst (run_state (list_users_paginated users_host None (Some 0)) one_user_trace) = Inl Aborted \<and>
   pubs (new_events (handle_users unary_lib users_host (ListRequest demo_source None (Some 0))) one_user_trace) = []"
  by (rule zero_limit_unanswered [OF demo_users.user_store_axioms one_user_represents one_user_sound, of 0])
    (simp add: one_user_def)

text \<open>
  C32: The pages are complete.  On a sound store that works, a client that follows the cursors with any
  limit but 0 and enough fuel gets every stored user exactly once, in the order of the keys.\<close>

theorem users_pages_complete:
  assumes "user_store U H" and "represents U (kv_view tr) D" and "sound U D"
    and "limit \<noteq> Some 0" and "length (user_keys D U) < fuel"
  shows "\<exists>us. fst (run_state (walk_users H limit fuel None) tr) = Inr us \<and>
    map (\<lambda>x. user_key U (au_id x)) us = user_keys D U \<and> list_all (\<lambda>x. D (KUser (au_id x)) = Some (UUser x)) us"
proof -
  have stores: "user_store.stores U D tr" using assms(2) by (simp add: user_store.stores_def [OF assms(1)])
  have "0 < page_size limit"
    using assms(4) by (cases limit) (auto simp: page_size_def USERS_DEFAULT_LIMIT_def USERS_MAX_LIMIT_def)
  then show ?thesis by (rule user_store.walk_complete [OF assms(1) stores assms(3) _ assms(5)])
qed

lemma users_pages_complete_witness:
  "\<exists>us. fst (run_state (walk_users users_host (Some 1) 5 None) one_user_trace) = Inr us \<and>
    map (\<lambda>x. user_key unary_lib (au_id x)) us = user_keys one_user unary_lib \<and>
    list_all (\<lambda>x. one_user (KUser (au_id x)) = Some (UUser x)) us"
proof -
  have "{s. \<exists>u. one_user (KUser u) \<noteq> None \<and> s = user_key unary_lib u} = {user_key unary_lib 0}"
    by (auto simp: one_user_def)
  then have "length (user_keys one_user unary_lib) < 5" by (simp add: user_keys_def)
  then show ?thesis
    by (intro users_pages_complete [OF demo_users.user_store_axioms one_user_represents one_user_sound]) simp_all
qed

end
