(* ===== verification/Prompt_Builder.thy ===== *)
theory Prompt_Builder
  imports Host
begin

text \<open>
  The prompt builder (\<open>capsules/capsule-prompt-builder/src/lib.rs\<close>): an assemble request is fanned out
  to the plugins, their contributions are filtered by capability and merged into the system prompt, the
  tool schemas and the session's messages are collected, and the assembled prompt is published.

  The store holds the cached tool schemas.  Both collection windows run on fuel, each round receiving
  once.  The text of a \<open>serde\<close> error is the parameter \<open>X\<close>.  Log calls are not modelled.
\<close>

type_synonym phost = "(json list, json) host"
type_synonym 'a pio = "((json list, json) event list, 'a) state"

definition PB_HOOK_TIMEOUT_MS :: nat where "PB_HOOK_TIMEOUT_MS = 2000"
definition PB_MAX_HOOK_RESPONSES :: nat where "PB_MAX_HOOK_RESPONSES = 50"
definition PB_FIRST_RESPONSE_MS :: nat where "PB_FIRST_RESPONSE_MS = 250"
definition PB_IDLE_GRACE_MS :: nat where "PB_IDLE_GRACE_MS = 100"
definition TOOL_SCHEMA_CACHE_KEY :: string where "TOOL_SCHEMA_CACHE_KEY = ''__tool_schema_cache''"
definition SESSION_FETCH_TIMEOUT_MS :: nat where "SESSION_FETCH_TIMEOUT_MS = 5000"
definition TOOL_DESCRIBE_FANOUT_TIMEOUT_MS :: nat where "TOOL_DESCRIBE_FANOUT_TIMEOUT_MS = 2000"
definition MAX_TOOL_DESCRIBE_RESPONSES :: nat where "MAX_TOOL_DESCRIBE_RESPONSES = 256"

subsection \<open>Data\<close>

record builder_config =
  bc_hook_timeout_ms :: nat
  bc_first_response_ms :: nat
  bc_idle_grace_ms :: nat

definition pb_env_u64 :: "phost \<Rightarrow> string \<Rightarrow> nat \<Rightarrow> nat pio" where
  "pb_env_u64 H key dflt = do { v \<leftarrow> env_var H key; ret (or_default dflt (Option.bind (config_text v) parse_u64)) }"

definition load_builder_config :: "phost \<Rightarrow> builder_config pio" where
  "load_builder_config H = do {
     t \<leftarrow> pb_env_u64 H ''hook_timeout_ms'' PB_HOOK_TIMEOUT_MS;
     f \<leftarrow> pb_env_u64 H ''hook_first_response_ms'' PB_FIRST_RESPONSE_MS;
     g \<leftarrow> pb_env_u64 H ''hook_idle_grace_ms'' PB_IDLE_GRACE_MS;
     ret \<lparr>bc_hook_timeout_ms = t, bc_first_response_ms = f, bc_idle_grace_ms = g\<rparr>
   }"

record assemble_request =
  ar_messages :: json
  ar_system_prompt :: string
  ar_request_id :: string
  ar_model :: string
  ar_provider :: string
  ar_session_id :: "string option"

definition decode_assemble_request :: "json \<Rightarrow> assemble_request option" where
  "decode_assemble_request j = (if \<not> struct_shape 6 j then None else do {
     sys \<leftarrow> opt_string 1 ''system_prompt'' j;
     rid \<leftarrow> req_string 2 ''request_id'' j;
     model \<leftarrow> opt_string 3 ''model'' j;
     provider \<leftarrow> opt_string 4 ''provider'' j;
     sid \<leftarrow> maybe_string 5 ''session_id'' j;
     Some \<lparr>ar_messages = or_default JNull (field 0 ''messages'' j), ar_system_prompt = sys, ar_request_id = rid,
       ar_model = model, ar_provider = provider, ar_session_id = sid\<rparr>
   })"

record prompt_hook_response =
  ph_prepend_system_context :: "string option"
  ph_append_system_context :: "string option"
  ph_system_prompt :: "string option"
  ph_prepend_context :: "string option"

definition decode_prompt_hook_response :: "json \<Rightarrow> prompt_hook_response option" where
  "decode_prompt_hook_response j = (if \<not> struct_shape 4 j then None else do {
     before \<leftarrow> maybe_string 0 ''prependSystemContext'' j;
     after \<leftarrow> maybe_string 1 ''appendSystemContext'' j;
     sys \<leftarrow> maybe_string 2 ''systemPrompt'' j;
     ctx \<leftarrow> maybe_string 3 ''prependContext'' j;
     Some \<lparr>ph_prepend_system_context = before, ph_append_system_context = after, ph_system_prompt = sys, ph_prepend_context = ctx\<rparr>
   })"

definition ph_has_any_field :: "prompt_hook_response \<Rightarrow> bool" where
  "ph_has_any_field r \<longleftrightarrow> ph_prepend_system_context r \<noteq> None \<or> ph_append_system_context r \<noteq> None \<or>
     ph_system_prompt r \<noteq> None \<or> ph_prepend_context r \<noteq> None"

record sourced_response =
  sr_source_id :: "string option"
  sr_response :: prompt_hook_response

record merged_prompt =
  mp_system_prompt :: string
  mp_user_context_prefix :: string

subsection \<open>Permission and merge\<close>

definition strip_prompt_fields :: "prompt_hook_response \<Rightarrow> prompt_hook_response" where
  "strip_prompt_fields r = \<lparr>ph_prepend_system_context = None, ph_append_system_context = None, ph_system_prompt = None,
     ph_prepend_context = ph_prepend_context r\<rparr>"

text \<open>The closure of the call site: the capability of a source is asked once per fan-out.\<close>

definition has_permission :: "phost \<Rightarrow> (string \<Rightarrow> bool option) \<Rightarrow> string option \<Rightarrow> (bool \<times> (string \<Rightarrow> bool option)) pio" where
  "has_permission H cache source = (case source of
     None \<Rightarrow> ret (False, cache)
   | Some u \<Rightarrow> (case cache u of
       Some b \<Rightarrow> ret (b, cache)
     | None \<Rightarrow> do {
         r \<leftarrow> check_capability H u ''allow_prompt_injection'';
         (let b = (r = Inr True) in ret (b, cache(u \<mapsto> b)))
       }))"

fun filter_by_permission :: "phost \<Rightarrow> (string \<Rightarrow> bool option) \<Rightarrow> sourced_response list \<Rightarrow> (prompt_hook_response list) pio" where
  "filter_by_permission H cache [] = ret []"
| "filter_by_permission H cache (s # ss) = do {
     (ok, cache') \<leftarrow> has_permission H cache (sr_source_id s);
     rest \<leftarrow> filter_by_permission H cache' ss;
     ret ((if ok then sr_response s else strip_prompt_fields (sr_response s)) # rest)
   }"

definition given :: "string option \<Rightarrow> string list \<Rightarrow> string list" where
  "given v acc = (case v of None \<Rightarrow> acc | Some s \<Rightarrow> if s = [] then acc else acc @ [s])"

record merge_state =
  ms_prepend_contexts :: "string list"
  ms_prepend_system :: "string list"
  ms_append_system :: "string list"
  ms_override :: "string option"

fun merge_loop :: "merge_state \<Rightarrow> prompt_hook_response list \<Rightarrow> merge_state" where
  "merge_loop st [] = st"
| "merge_loop st (r # rs) = merge_loop
     \<lparr>ms_prepend_contexts = given (ph_prepend_context r) (ms_prepend_contexts st),
      ms_prepend_system = given (ph_prepend_system_context r) (ms_prepend_system st),
      ms_append_system = given (ph_append_system_context r) (ms_append_system st),
      ms_override = (case ph_system_prompt r of None \<Rightarrow> ms_override st | Some p \<Rightarrow> if p = [] then ms_override st else Some p)\<rparr> rs"

definition merge_hook_responses :: "string \<Rightarrow> prompt_hook_response list \<Rightarrow> merged_prompt" where
  "merge_hook_responses original rs =
     (let st = merge_loop \<lparr>ms_prepend_contexts = [], ms_prepend_system = [], ms_append_system = [], ms_override = None\<rparr> rs;
          base = or_default original (ms_override st);
          parts = ms_prepend_system st @ (if base = [] then [] else [base]) @ ms_append_system st in
      \<lparr>mp_system_prompt = join_with [CHR 0x0A] parts, mp_user_context_prefix = join_with [CHR 0x0A] (ms_prepend_contexts st)\<rparr>)"

subsection \<open>The fan-out to the plugins\<close>

definition useful_prompt_response :: "json \<Rightarrow> prompt_hook_response option" where
  "useful_prompt_response j = (case decode_prompt_hook_response j of
     None \<Rightarrow> None | Some r \<Rightarrow> if ph_has_any_field r then Some r else None)"

definition parse_hook_message :: "phost \<Rightarrow> bus_msg \<Rightarrow> sourced_response option" where
  "parse_hook_message H m = Option.bind (h_parse H (msg_payload m)) (\<lambda>payload.
     map_option (\<lambda>r. \<lparr>sr_source_id = (if msg_source m = [] then None else Some (msg_source m)), sr_response = r\<rparr>)
       (case useful_prompt_response payload of
          Some r \<Rightarrow> Some r
        | None \<Rightarrow> Option.bind (jget ''data'' payload) useful_prompt_response))"

definition pb_recv_timeout :: "builder_config \<Rightarrow> bool \<Rightarrow> nat \<Rightarrow> nat option" where
  "pb_recv_timeout c have_response elapsed =
     (let remaining = millis (bc_hook_timeout_ms c * 1000000 - elapsed) in
      if remaining = 0 then None
      else if have_response then Some (min (bc_idle_grace_ms c) remaining)
      else (let first_remaining = bc_first_response_ms c - millis elapsed in
        if first_remaining = 0 then None else Some (min first_remaining remaining)))"

fun plugin_window :: "phost \<Rightarrow> builder_config \<Rightarrow> string \<Rightarrow> nat \<Rightarrow> nat \<Rightarrow> sourced_response list \<Rightarrow> (sourced_response list) pio" where
  "plugin_window H c topic start 0 acc = ret acc"
| "plugin_window H c topic start (Suc fuel) acc = do {
     t1 \<leftarrow> monotonic H;
     (if t1 - start < bc_hook_timeout_ms c * 1000000 \<and> length acc < PB_MAX_HOOK_RESPONSES then do {
        t2 \<leftarrow> monotonic H;
        case pb_recv_timeout c (acc \<noteq> []) (t2 - start) of
          None \<Rightarrow> ret acc
        | Some timeout \<Rightarrow> do {
            r \<leftarrow> recv H topic timeout;
            case r of
              Inl e \<Rightarrow> ret acc
            | Inr b \<Rightarrow>
                if batch_msgs b = [] then ret acc
                else plugin_window H c topic start fuel (acc @ List.map_filter (parse_hook_message H) (batch_msgs b))
          }
      }
      else ret acc)
   }"

definition PB_BEFORE_TOPIC :: string where "PB_BEFORE_TOPIC = ''prompt_builder.v1.hook.before_build''"
definition PB_AFTER_TOPIC :: string where "PB_AFTER_TOPIC = ''prompt_builder.v1.hook.after_build''"
definition PB_RESPONSE_TOPIC :: string where "PB_RESPONSE_TOPIC = ''prompt_builder.v1.response.assemble''"

definition pb_hook_topic :: "assemble_request \<Rightarrow> string" where
  "pb_hook_topic rq = ''prompt_builder.v1.hook_response.'' @ ar_request_id rq"

definition before_build_payload :: "assemble_request \<Rightarrow> json" where
  "before_build_payload rq = JObj [(''messages'', ar_messages rq), (''system_prompt'', JStr (ar_system_prompt rq)),
     (''request_id'', JStr (ar_request_id rq)), (''model'', JStr (ar_model rq)), (''provider'', JStr (ar_provider rq)),
     (''response_topic'', JStr (pb_hook_topic rq))]"

definition fire_before_prompt_build :: "phost \<Rightarrow> nat \<Rightarrow> assemble_request \<Rightarrow> builder_config \<Rightarrow> (prompt_hook_response list) pio" where
  "fire_before_prompt_build H fuel rq c = do {
     s \<leftarrow> subscribe H (pb_hook_topic rq);
     case s of
       Some e \<Rightarrow> ret []
     | None \<Rightarrow> do {
         p \<leftarrow> publish H PB_BEFORE_TOPIC (before_build_payload rq);
         case p of
           Some e \<Rightarrow> ret []
         | None \<Rightarrow> do {
             start \<leftarrow> monotonic H;
             sourced \<leftarrow> plugin_window H c (pb_hook_topic rq) start fuel [];
             filter_by_permission H (\<lambda>u. None) sourced
           }
       }
   }"

definition fire_after_prompt_build :: "phost \<Rightarrow> merged_prompt \<Rightarrow> string \<Rightarrow> unit pio" where
  "fire_after_prompt_build H mp rid = do {
     _ \<leftarrow> publish H PB_AFTER_TOPIC (JObj [(''system_prompt'', JStr (mp_system_prompt mp)),
       (''user_context_prefix'', JStr (mp_user_context_prefix mp)), (''request_id'', JStr rid)]);
     ret ()
   }"

subsection \<open>Tools and messages\<close>

definition invalidate_tool_cache :: "phost \<Rightarrow> unit pio" where
  "invalidate_tool_cache H = do { _ \<leftarrow> kv_delete H TOOL_SCHEMA_CACHE_KEY; ret () }"

definition extract_tools_from_response :: "phost \<Rightarrow> string \<Rightarrow> json list option" where
  "extract_tools_from_response H payload = Option.bind (h_parse H payload) (\<lambda>v.
     Option.bind (case jget ''tools'' v of Some t \<Rightarrow> Some t
       | None \<Rightarrow> Option.bind (jget ''data'' v) (jget ''tools'')) jarr)"

definition tools_of_batch :: "phost \<Rightarrow> bus_msg list \<Rightarrow> json list" where
  "tools_of_batch H ms = concat (List.map_filter (\<lambda>m. extract_tools_from_response H (msg_payload m)) ms)"

fun tool_window :: "phost \<Rightarrow> nat \<Rightarrow> nat \<Rightarrow> json list \<Rightarrow> (json list) pio" where
  "tool_window H start 0 acc = ret acc"
| "tool_window H start (Suc fuel) acc = do {
     t1 \<leftarrow> monotonic H;
     (if t1 - start < TOOL_DESCRIBE_FANOUT_TIMEOUT_MS * 1000000 \<and> length acc < MAX_TOOL_DESCRIBE_RESPONSES then do {
        t2 \<leftarrow> monotonic H;
        (let remaining = millis (TOOL_DESCRIBE_FANOUT_TIMEOUT_MS * 1000000 - (t2 - start)) in
         if remaining = 0 then ret acc
         else do {
           r \<leftarrow> recv H ''tool.v1.response.describe.*'' remaining;
           case r of
             Inl e \<Rightarrow> ret acc
           | Inr b \<Rightarrow>
               if batch_msgs b = [] then ret acc
               else tool_window H start fuel (acc @ tools_of_batch H (batch_msgs b))
         })
      }
      else ret acc)
   }"

fun retain_first_names :: "string set \<Rightarrow> json list \<Rightarrow> json list" where
  "retain_first_names seen [] = []"
| "retain_first_names seen (t # ts) = (case get_str ''name'' t of
     None \<Rightarrow> t # retain_first_names seen ts
   | Some n \<Rightarrow> if n \<in> seen then retain_first_names seen ts else t # retain_first_names (insert n seen) ts)"

definition collect_tool_schemas :: "phost \<Rightarrow> nat \<Rightarrow> (json list) pio" where
  "collect_tool_schemas H fuel = do {
     cached \<leftarrow> kv_get H TOOL_SCHEMA_CACHE_KEY;
     (let hit = (case cached of Inr (Some ts) \<Rightarrow> ts | _ \<Rightarrow> []) in
     if hit \<noteq> [] then ret hit
     else do {
       s \<leftarrow> subscribe H ''tool.v1.response.describe.*'';
       case s of
         Some e \<Rightarrow> ret []
       | None \<Rightarrow> do {
           p \<leftarrow> publish H ''tool.v1.request.describe'' (JObj []);
           case p of
             Some e \<Rightarrow> ret []
           | None \<Rightarrow> do {
               start \<leftarrow> monotonic H;
               collected \<leftarrow> tool_window H start fuel [];
               (let tools = retain_first_names {} collected in do {
                  _ \<leftarrow> kv_set H TOOL_SCHEMA_CACHE_KEY tools;
                  ret tools
                })
             }
         }
     })
   }"

definition fetch_session_messages :: "phost \<Rightarrow> string \<Rightarrow> (json list) pio" where
  "fetch_session_messages H sid = do {
     r \<leftarrow> request_response H ''session.v1.request.get_messages'' ''session.v1.response.get_messages''
       (JObj [(''session_id'', JStr sid)]) SESSION_FETCH_TIMEOUT_MS;
     ret (case r of
         Inl e \<Rightarrow> []
       | Inr raw \<Rightarrow> or_default [] (Option.bind (case jget ''messages'' raw of Some m \<Rightarrow> Some m
           | None \<Rightarrow> Option.bind (jget ''data'' raw) (jget ''messages'')) jarr))
   }"

subsection \<open>The interceptors\<close>

definition non_empty_member :: "string \<Rightarrow> json list \<Rightarrow> (string \<times> json) list" where
  "non_empty_member k xs = (if xs = [] then [] else [(k, JArr xs)])"

definition assemble_response :: "assemble_request \<Rightarrow> merged_prompt \<Rightarrow> json list \<Rightarrow> json list \<Rightarrow> json" where
  "assemble_response rq mp tools messages = JObj ([(''system_prompt'', JStr (mp_system_prompt mp)),
     (''user_context_prefix'', JStr (mp_user_context_prefix mp)), (''request_id'', JStr (ar_request_id rq))] @
     (case ar_session_id rq of None \<Rightarrow> [] | Some sid \<Rightarrow> [(''session_id'', JStr sid)]) @
     non_empty_member ''tools'' tools @ non_empty_member ''messages'' messages)"

definition assemble :: "(json \<Rightarrow> string) \<Rightarrow> phost \<Rightarrow> nat \<Rightarrow> json \<Rightarrow> builder_config \<Rightarrow> unit pio" where
  "assemble X H fuel payload c = (let request_value = or_default payload (jget ''data'' payload) in
     case decode_assemble_request request_value of
       None \<Rightarrow> do {
         _ \<leftarrow> publish H PB_RESPONSE_TOPIC (JObj [(''error'', JStr (''invalid request: '' @ X request_value))]);
         ret ()
       }
     | Some rq \<Rightarrow>
         if ar_request_id rq = [] then do {
           _ \<leftarrow> publish H PB_RESPONSE_TOPIC (JObj [(''error'', JStr ''missing request_id'')]);
           ret ()
         }
         else do {
           hooks \<leftarrow> fire_before_prompt_build H fuel rq c;
           (let mp = merge_hook_responses (ar_system_prompt rq) hooks in do {
              tools \<leftarrow> collect_tool_schemas H fuel;
              messages \<leftarrow> (case ar_session_id rq of None \<Rightarrow> ret [] | Some sid \<Rightarrow> fetch_session_messages H sid);
              _ \<leftarrow> publish H PB_RESPONSE_TOPIC (assemble_response rq mp tools messages);
              fire_after_prompt_build H mp (ar_request_id rq)
            })
         })"

definition handle_assemble :: "(json \<Rightarrow> string) \<Rightarrow> phost \<Rightarrow> nat \<Rightarrow> json \<Rightarrow> unit pio" where
  "handle_assemble X H fuel payload = do { c \<leftarrow> load_builder_config H; assemble X H fuel payload c }"

definition on_capsules_loaded_prompt :: "phost \<Rightarrow> unit pio" where
  "on_capsules_loaded_prompt H = invalidate_tool_cache H"

end
