(* ===== verification/Prompt_Spec.thy ===== *)
theory Prompt_Spec
  imports Prompt_Builder
begin

text \<open>
  The prompt builder, properties: text reaches the system prompt only from capsules that the kernel
  granted the capability in that very run; every request is answered once; and the collections end.
\<close>

subsection \<open>The merge in closed form\<close>

definition texts :: "(prompt_hook_response \<Rightarrow> string option) \<Rightarrow> prompt_hook_response list \<Rightarrow> string list" where
  "texts f rs = filter (\<lambda>s. s \<noteq> []) (List.map_filter f rs)"

definition last_or :: "string option \<Rightarrow> string list \<Rightarrow> string option" where
  "last_or d xs = (if xs = [] then d else Some (last xs))"

lemma texts_simps [simp]:
  "texts f [] = []" "texts f (r # rs) = given (f r) [] @ texts f rs"
  by (simp_all add: texts_def given_def List.map_filter_def split: option.split)

lemma given_append: "given v acc = acc @ given v []"
  by (simp add: given_def split: option.split)

lemma merge_loop_eq: "merge_loop st rs = \<lparr>ms_prepend_contexts = ms_prepend_contexts st @ texts ph_prepend_context rs,
    ms_prepend_system = ms_prepend_system st @ texts ph_prepend_system_context rs,
    ms_append_system = ms_append_system st @ texts ph_append_system_context rs,
    ms_override = last_or (ms_override st) (texts ph_system_prompt rs)\<rparr>"
proof (induction rs arbitrary: st)
  case (Cons r rs)
  then show ?case
    using given_append [of "ph_prepend_context r" "ms_prepend_contexts st"]
      given_append [of "ph_prepend_system_context r" "ms_prepend_system st"]
      given_append [of "ph_append_system_context r" "ms_append_system st"]
    by (cases "ph_system_prompt r") (simp_all add: last_or_def given_def [of "Some _"] given_def [of None])
qed (simp add: last_or_def)

text \<open>The system prompt and the user prefix that a list of contributions gives.\<close>

definition system_of :: "string \<Rightarrow> prompt_hook_response list \<Rightarrow> string" where
  "system_of original rs = (let base = or_default original (last_or None (texts ph_system_prompt rs)) in
     join_with [CHR 0x0A] (texts ph_prepend_system_context rs @ (if base = [] then [] else [base]) @
       texts ph_append_system_context rs))"

definition prefix_of :: "prompt_hook_response list \<Rightarrow> string" where
  "prefix_of rs = join_with [CHR 0x0A] (texts ph_prepend_context rs)"

lemma merge_eq: "merge_hook_responses original rs = \<lparr>mp_system_prompt = system_of original rs, mp_user_context_prefix = prefix_of rs\<rparr>"
  by (simp add: merge_hook_responses_def merge_loop_eq system_of_def prefix_of_def Let_def)

text \<open>Stripped contributions leave the system prompt as it is without them, and the user prefix with them.\<close>

definition gated :: "(sourced_response \<Rightarrow> bool) \<Rightarrow> sourced_response list \<Rightarrow> prompt_hook_response list" where
  "gated ok ss = map (\<lambda>s. if ok s then sr_response s else strip_prompt_fields (sr_response s)) ss"

lemma texts_gated:
  "(\<And>r. f (strip_prompt_fields r) = None) \<Longrightarrow>
   texts f (gated ok ss) = texts f (map sr_response (filter ok ss))"
  by (induction ss) (auto simp: gated_def given_def)

lemma system_gated: "system_of original (gated ok ss) = system_of original (map sr_response (filter ok ss))"
  by (simp add: system_of_def texts_gated strip_prompt_fields_def)

lemma prefix_gated: "prefix_of (gated ok ss) = prefix_of (map sr_response ss)"
proof -
  have "texts ph_prepend_context (gated ok ss) = texts ph_prepend_context (map sr_response ss)"
    by (induction ss) (auto simp: gated_def strip_prompt_fields_def)
  then show ?thesis by (simp add: prefix_of_def)
qed

subsection \<open>The capability checks\<close>

definition granted :: "(json list, json) event list \<Rightarrow> string set" where
  "granted evs = {u. EvCheck u ''allow_prompt_injection'' (Inr True) \<in> set evs}"

definition may_inject :: "(json list, json) event list \<Rightarrow> sourced_response \<Rightarrow> bool" where
  "may_inject evs s \<longleftrightarrow> (case sr_source_id s of None \<Rightarrow> False | Some u \<Rightarrow> u \<in> granted evs)"

lemma granted_simps [simp]:
  "granted [] = {}" "granted (evs @ evs') = granted evs \<union> granted evs'"
  by (auto simp: granted_def)

lemma may_inject_eqI: "granted evs = granted evs' \<Longrightarrow> may_inject evs = may_inject evs'"
  by (rule ext) (simp add: may_inject_def split: option.split)

definition asked :: "(json list, json) event list \<Rightarrow> string set" where
  "asked evs = {u. \<exists>c r. EvCheck u c r \<in> set evs}"

lemma asked_simps [simp]: "asked [] = {}" "asked (evs @ evs') = asked evs \<union> asked evs'"
  by (auto simp: asked_def)

lemma granted_asked: "u \<in> granted evs \<Longrightarrow> u \<in> asked evs"
  by (auto simp: granted_def asked_def)

definition cache_exact :: "(string \<Rightarrow> bool option) \<Rightarrow> (json list, json) event list \<Rightarrow> bool" where
  "cache_exact cache pre \<longleftrightarrow> (\<forall>u. cache u = (if u \<in> asked pre then Some (u \<in> granted pre) else None))"

fun is_check :: "(json list, json) event \<Rightarrow> bool" where
  "is_check (EvCheck u c r) = True"
| "is_check _ = False"

lemma asked_check [simp]: "asked (EvCheck u c r # evs) = insert u (asked evs)"
  and granted_check [simp]: "granted (EvCheck u ''allow_prompt_injection'' r # evs) = (if r = Inr True then insert u (granted evs) else granted evs)"
  by (auto simp: asked_def granted_def)

text \<open>What the closure answers stays the answer, as no later call asks the same source.\<close>

definition answers_for :: "string option \<Rightarrow> bool \<Rightarrow> (json list, json) event list \<Rightarrow> bool" where
  "answers_for src ok evs \<longleftrightarrow> (\<forall>evs'. asked evs' \<inter> asked evs = {} \<longrightarrow>
     ok = (case src of None \<Rightarrow> False | Some u \<Rightarrow> u \<in> granted (evs' @ evs)))"

lemma permission_run:
  assumes "cache_exact cache pre"
  shows "wp (has_permission H cache src) (\<lambda>(ok, cache') tr'. \<exists>evs. tr' = evs @ tr \<and> list_all is_check evs \<and>
    asked evs \<inter> asked pre = {} \<and> cache_exact cache' (evs @ pre) \<and> answers_for src ok (evs @ pre)) tr"
proof (cases src)
  case None
  then show ?thesis using assms by (auto simp: has_permission_def answers_for_def intro!: wpI)
next
  case (Some u)
  have later: "answers_for (Some u) (u \<in> granted evs) evs" if "u \<in> asked evs" for evs
    using that granted_asked by (auto simp: answers_for_def)
  show ?thesis
  proof (cases "u \<in> asked pre")
    case True
    then have "cache u = Some (u \<in> granted pre)" using assms by (simp add: cache_exact_def)
    then show ?thesis using assms later [OF True] by (auto simp: has_permission_def Some intro!: wpI)
  next
    case False
    have exact: "cache_exact (cache(u \<mapsto> r = Inr True)) ([EvCheck u ''allow_prompt_injection'' r] @ pre)" for r
      using assms False granted_asked by (auto simp: cache_exact_def)
    have ok: "answers_for (Some u) (r = Inr True) ([EvCheck u ''allow_prompt_injection'' r] @ pre)" for r
    proof -
      have "u \<notin> granted pre" using False granted_asked by blast
      then show ?thesis
        using later [of "[EvCheck u ''allow_prompt_injection'' r] @ pre"] by (cases "r = Inr True") simp_all
    qed
    have "cache u = None" using assms False by (simp add: cache_exact_def)
    then show ?thesis
      unfolding has_permission_def Some option.case Let_def
      using False exact ok
      by (auto intro!: wpI exI [where x = "[EvCheck u ''allow_prompt_injection'' _]"])
  qed
qed

lemma filter_run:
  "cache_exact cache pre \<Longrightarrow> wp (filter_by_permission H cache ss) (\<lambda>rs tr'. \<exists>evs. tr' = evs @ tr \<and> list_all is_check evs \<and>
    asked evs \<inter> asked pre = {} \<and> rs = gated (may_inject (evs @ pre)) ss) tr"
proof (induction ss arbitrary: cache pre tr)
  case Nil
  then show ?case by (auto simp: gated_def intro: wpI)
next
  case (Cons s ss)
  let ?post = "\<lambda>rs tr'. \<exists>evs. tr' = evs @ tr \<and> list_all is_check evs \<and> asked evs \<inter> asked pre = {} \<and>
    rs = gated (may_inject (evs @ pre)) (s # ss)"
  have rest: "wp (filter_by_permission H cache' ss) (\<lambda>rest. wp (ret ((if ok then sr_response s else strip_prompt_fields (sr_response s)) # rest)) ?post) (evs @ tr)"
    if evs: "list_all is_check evs" "asked evs \<inter> asked pre = {}" "cache_exact cache' (evs @ pre)"
      and ok: "answers_for (sr_source_id s) ok (evs @ pre)" for ok cache' evs
  proof (rule wp_mono [OF Cons.IH [OF evs(3)]], elim exE conjE)
    fix rest t evs2
    assume evs2: "t = evs2 @ evs @ tr" "list_all is_check evs2" "asked evs2 \<inter> asked (evs @ pre) = {}"
      and rest: "rest = gated (may_inject (evs2 @ evs @ pre)) ss"
    have "ok = may_inject (evs2 @ evs @ pre) s"
      using ok evs2(3) by (simp add: answers_for_def may_inject_def)
    then show "wp (ret ((if ok then sr_response s else strip_prompt_fields (sr_response s)) # rest)) ?post t"
      using evs evs2 rest by (intro wp_return exI [where x = "evs2 @ evs"]) (auto simp: gated_def)
  qed
  show ?case
    unfolding filter_by_permission.simps
    by (rule wp_bind, rule wp_mono [OF permission_run [OF Cons.prems]]) (auto intro!: wp_bind rest)
qed

subsection \<open>The plugin window\<close>

text \<open>The contributions received on a topic, in order; \<open>quiet\<close> calls neither check, nor receive on it, nor answer.\<close>

fun sourced_batch :: "phost \<Rightarrow> string \<Rightarrow> (json list, json) event \<Rightarrow> sourced_response list" where
  "sourced_batch H t (EvRecv u ms (Inr b)) = (if u = t then List.map_filter (parse_hook_message H) (batch_msgs b) else [])"
| "sourced_batch H t _ = []"

definition sourced_in :: "phost \<Rightarrow> string \<Rightarrow> (json list, json) event list \<Rightarrow> sourced_response list" where
  "sourced_in H t evs = concat (map (sourced_batch H t) (rev evs))"

lemma sourced_in_simps [simp]:
  "sourced_in H t [] = []" "sourced_in H t (e # evs) = sourced_in H t evs @ sourced_batch H t e"
  "sourced_in H t (evs @ evs') = sourced_in H t evs' @ sourced_in H t evs"
  by (simp_all add: sourced_in_def)

fun silent :: "string \<Rightarrow> (json list, json) event \<Rightarrow> bool" where
  "silent t (EvCheck u c r) = False"
| "silent t (EvRecv u ms r) = (u \<noteq> t)"
| "silent t (EvPub u m r) = (u \<noteq> PB_RESPONSE_TOPIC)"
| "silent t _ = True"

lemma silent_none:
  assumes "list_all (silent t) evs"
  shows "sourced_in H t evs = []" "asked evs = {}" "granted evs = {}" "pubs_on PB_RESPONSE_TOPIC evs = []"
proof -
  show "sourced_in H t evs = []"
    using assms
  proof (induction evs)
    case (Cons e es)
    then show ?case by (cases "(H, t, e)" rule: sourced_batch.cases) auto
  qed simp
  have "e \<notin> set evs" if "\<not> silent t e" for e
    using assms that by (auto simp: list_all_iff)
  then show "asked evs = {}" by (auto simp: asked_def)
  then show "granted evs = {}" using granted_asked by blast
  show "pubs_on PB_RESPONSE_TOPIC evs = []"
    using assms
  proof (induction evs)
    case (Cons e es)
    then show ?case by (cases "(t, e)" rule: silent.cases) auto
  qed simp
qed

fun waiting_event :: "string \<Rightarrow> (json list, json) event \<Rightarrow> bool" where
  "waiting_event t (EvMono n) = True"
| "waiting_event t (EvRecv u ms r) = (u = t)"
| "waiting_event t _ = False"

lemma waiting_none:
  assumes "list_all (waiting_event t) evs"
  shows "asked evs = {}" "granted evs = {}" "pubs_on u evs = []"
proof -
  have "e \<notin> set evs" if "\<not> waiting_event t e" for e
    using assms that by (auto simp: list_all_iff)
  then show "asked evs = {}" by (auto simp: asked_def)
  then show "granted evs = {}" using granted_asked by blast
  show "pubs_on u evs = []"
    using assms
  proof (induction evs)
    case (Cons e es)
    then show ?case by (cases "(t, e)" rule: waiting_event.cases) auto
  qed simp
qed

lemma check_none:
  assumes "list_all is_check evs"
  shows "sourced_in H t evs = []" "pubs_on u evs = []"
  using assms by (induction evs) (auto elim!: is_check.elims split: option.splits)

lemma plugin_window_run:
  "wp (plugin_window H c t start fuel acc) (\<lambda>r tr'. \<exists>evs. tr' = evs @ tr \<and> list_all (waiting_event t) evs \<and>
     r = acc @ sourced_in H t evs) tr"
proof (induction fuel arbitrary: acc tr)
  case 0
  show ?case by (auto intro: wpI)
next
  case (Suc fuel)
  have step: "wp (plugin_window H c t start fuel (acc @ List.map_filter (parse_hook_message H) (batch_msgs b)))
      (\<lambda>r tr'. \<exists>evs. tr' = evs @ tr \<and> list_all (waiting_event t) evs \<and> r = acc @ sourced_in H t evs)
      (EvRecv t ms (Inr b) # EvMono t2 # EvMono t1 # tr)" for b ms t1 t2
    by (rule wp_mono [OF Suc.IH]) (auto intro: exI [where x = "_ @ [EvRecv t ms (Inr b), EvMono t2, EvMono t1]"])
  have empty: "List.map_filter (parse_hook_message H) [] = []" by (simp add: List.map_filter_def)
  show ?case
    unfolding plugin_window.simps
    by (intro wpI) (auto intro: step exI [where x = "[_]"] exI [where x = "[_, _]"] exI [where x = "[_, _, _]"] simp: empty)
qed

text \<open>What the fan-out gives: the contributions received, gated by the checks of this very run.\<close>

definition fanned_out :: "phost \<Rightarrow> string \<Rightarrow> prompt_hook_response list \<Rightarrow> (json list, json) event list \<Rightarrow> bool" where
  "fanned_out H t rs evs \<longleftrightarrow> rs = gated (may_inject evs) (sourced_in H t evs) \<and> pubs_on PB_RESPONSE_TOPIC evs = []"

lemma fanned_later: "list_all (silent t) evs' \<Longrightarrow> fanned_out H t rs evs \<Longrightarrow> fanned_out H t rs (evs' @ evs)"
  using may_inject_eqI [of "evs' @ evs" evs] by (simp add: fanned_out_def silent_none)

lemma fanned_nothing: "list_all (silent t) evs \<Longrightarrow> fanned_out H t [] evs"
  by (simp add: fanned_out_def silent_none gated_def)

lemma fire_run:
  "wp (fire_before_prompt_build H fuel rq c) (\<lambda>rs tr'. \<exists>evs. tr' = evs @ tr \<and> fanned_out H (pb_hook_topic rq) rs evs) tr"
proof -
  let ?t = "pb_hook_topic rq"
  have filtered: "wp (filter_by_permission H (\<lambda>u. None) (sourced_in H ?t evs))
      (\<lambda>rs tr'. \<exists>evs. tr' = evs @ tr \<and> fanned_out H ?t rs evs) (evs @ before @ tr)"
    if "list_all (waiting_event ?t) evs" "list_all (silent ?t) before" for evs before
  proof (rule wp_mono [OF filter_run [where pre = "[]"]], goal_cases)
    case 1
    then show ?case by (simp add: cache_exact_def)
  next
    case (2 rs tr')
    then obtain checks where "tr' = checks @ evs @ before @ tr" "list_all is_check checks"
        "rs = gated (may_inject checks) (sourced_in H ?t evs)" by auto
    with that may_inject_eqI [of "checks @ evs @ before" checks] show ?case
      by (intro exI [where x = "checks @ evs @ before"])
        (simp add: fanned_out_def waiting_none silent_none check_none)
  qed
  have other: "PB_BEFORE_TOPIC \<noteq> PB_RESPONSE_TOPIC" by (simp add: PB_BEFORE_TOPIC_def PB_RESPONSE_TOPIC_def)
  show ?thesis
    unfolding fire_before_prompt_build_def
  proof (intro wpI, goal_cases)
    case (1 s p n)
    show ?case
      unfolding 1
    proof (rule wp_mono [OF plugin_window_run], elim exE conjE)
      fix ss t evs assume "t = evs @ EvMono n # EvPub PB_BEFORE_TOPIC (before_build_payload rq) None # EvSub ?t None # tr"
        "list_all (waiting_event ?t) evs" "ss = [] @ sourced_in H ?t evs"
      then show "wp (filter_by_permission H (\<lambda>u. None) ss) (\<lambda>rs tr'. \<exists>evs. tr' = evs @ tr \<and> fanned_out H ?t rs evs) t"
        using filtered [of evs "[EvMono n, EvPub PB_BEFORE_TOPIC (before_build_payload rq) None, EvSub ?t None]"] other by simp
    qed
  next
    case (2 s p e)
    then show ?case
      using other by (intro exI [where x = "[EvPub PB_BEFORE_TOPIC (before_build_payload rq) p, EvSub ?t None]"]) (simp add: fanned_nothing)
  next
    case (3 s e)
    then show ?case by (intro exI [where x = "[EvSub ?t s]"]) (simp add: fanned_nothing)
  qed
qed

subsection \<open>The answer\<close>

lemma every_silent [everyI]:
  "every (silent t) (kv_get H k)" "every (silent t) (kv_set H k v)" "every (silent t) (subscribe H u)"
  "every (silent t) (monotonic H)" "every (silent t) (request_response H u w m ms)" "every (silent t) (env_var H k)"
  "u \<noteq> PB_RESPONSE_TOPIC \<Longrightarrow> every (silent t) (publish H u m)"
  "u \<noteq> t \<Longrightarrow> every (silent t) (recv H u ms)"
  by (auto simp: host_defs intro: every_host_call)

lemma tools_silent:
  assumes "t \<noteq> ''tool.v1.response.describe.*''"
  shows "every (silent t) (collect_tool_schemas H fuel)"
proof -
  have window: "every (silent t) (tool_window H start fuel acc)" for start acc
    using assms by (induction fuel arbitrary: acc) (auto intro!: everyI simp: Let_def)
  have other: "''tool.v1.request.describe'' \<noteq> PB_RESPONSE_TOPIC" by (simp add: PB_RESPONSE_TOPIC_def)
  show ?thesis
    unfolding collect_tool_schemas_def by (intro everyI window other)
qed

lemma fetch_silent: "every (silent t) (fetch_session_messages H sid)"
  unfolding fetch_session_messages_def by (intro everyI)

lemma after_silent: "every (silent t) (fire_after_prompt_build H mp rid)"
  unfolding fire_after_prompt_build_def by (intro everyI) (simp add: PB_AFTER_TOPIC_def PB_RESPONSE_TOPIC_def)

lemma hook_topic_other: "pb_hook_topic rq \<noteq> ''tool.v1.response.describe.*''"
  by (simp add: pb_hook_topic_def)

definition gated_prompt :: "phost \<Rightarrow> assemble_request \<Rightarrow> (json list, json) event list \<Rightarrow> merged_prompt" where
  "gated_prompt H rq evs = (let ss = sourced_in H (pb_hook_topic rq) evs in
     \<lparr>mp_system_prompt = system_of (ar_system_prompt rq) (map sr_response (filter (may_inject evs) ss)),
      mp_user_context_prefix = prefix_of (map sr_response ss)\<rparr>)"

lemma fanned_prompt: "fanned_out H (pb_hook_topic rq) rs evs \<Longrightarrow>
    merge_hook_responses (ar_system_prompt rq) rs = gated_prompt H rq evs"
  by (simp add: fanned_out_def merge_eq gated_prompt_def system_gated prefix_gated Let_def)

lemma deliver_run:
  assumes "t \<noteq> ''tool.v1.response.describe.*''"
  shows "wp (do {
      tools \<leftarrow> collect_tool_schemas H fuel;
      messages \<leftarrow> (case ar_session_id rq of None \<Rightarrow> ret [] | Some sid \<Rightarrow> fetch_session_messages H sid);
      _ \<leftarrow> publish H PB_RESPONSE_TOPIC (assemble_response rq mp tools messages);
      fire_after_prompt_build H mp (ar_request_id rq)
    }) (\<lambda>_ tr'. \<exists>a b tools messages e. tr' = a @ EvPub PB_RESPONSE_TOPIC (assemble_response rq mp tools messages) e # b @ tr \<and>
      list_all (silent t) a \<and> list_all (silent t) b) tr"
proof (rule wp_bind, rule every_wp [OF tools_silent [OF assms]], rule wp_bind, goal_cases)
  case (1 tools)
  have messages: "every (silent t) (case ar_session_id rq of None \<Rightarrow> ret [] | Some sid \<Rightarrow> fetch_session_messages H sid)"
    by (intro everyI fetch_silent)
  show ?case
  proof (rule every_wp [OF messages], rule wp_bind, rule wp_publish, rule every_wp [OF after_silent [of t]], goal_cases)
    case (1 sent e later)
    with \<open>list_all (silent t) tools\<close> show ?case
      by (intro exI [where x = later] exI [where x = "sent @ tools"] exI conjI) auto
  qed
qed

lemma assemble_run:
  assumes "decode_assemble_request (or_default payload (jget ''data'' payload)) = Some rq" and "ar_request_id rq \<noteq> []"
  shows "wp (assemble X H fuel payload c) (\<lambda>_ tr'. \<exists>evs tools messages. tr' = evs @ tr \<and>
    pubs_on PB_RESPONSE_TOPIC evs = [assemble_response rq (gated_prompt H rq evs) tools messages]) tr"
proof -
  let ?t = "pb_hook_topic rq"
  have gated: "gated_prompt H rq evs = gated_prompt H rq before" and sent: "pubs_on PB_RESPONSE_TOPIC evs = pubs_on PB_RESPONSE_TOPIC before @ [m]"
    if "evs = a @ EvPub PB_RESPONSE_TOPIC m e # b @ before" "list_all (silent ?t) a" "list_all (silent ?t) b" for evs a b before m e
  proof -
    have "granted (EvPub PB_RESPONSE_TOPIC m e # es) = granted es" for es by (auto simp: granted_def)
    then show "gated_prompt H rq evs = gated_prompt H rq before"
      using that may_inject_eqI [of evs before] by (simp add: gated_prompt_def silent_none)
    show "pubs_on PB_RESPONSE_TOPIC evs = pubs_on PB_RESPONSE_TOPIC before @ [m]"
      using that by (simp add: silent_none)
  qed
  show ?thesis
    unfolding assemble_def Let_def assms(1) option.case if_not_P [OF assms(2)]
  proof (rule wp_bind, rule wp_mono [OF fire_run], elim exE conjE)
    fix rs t before assume t: "t = before @ tr" and fanned: "fanned_out H ?t rs before"
    show "wp (do {
        tools \<leftarrow> collect_tool_schemas H fuel;
        messages \<leftarrow> (case ar_session_id rq of None \<Rightarrow> ret [] | Some sid \<Rightarrow> fetch_session_messages H sid);
        _ \<leftarrow> publish H PB_RESPONSE_TOPIC (assemble_response rq (merge_hook_responses (ar_system_prompt rq) rs) tools messages);
        fire_after_prompt_build H (merge_hook_responses (ar_system_prompt rq) rs) (ar_request_id rq)
      }) (\<lambda>_ tr'. \<exists>evs tools messages. tr' = evs @ tr \<and>
        pubs_on PB_RESPONSE_TOPIC evs = [assemble_response rq (gated_prompt H rq evs) tools messages]) t"
    proof (rule wp_mono [OF deliver_run [OF hook_topic_other, where rq = rq]], elim exE conjE)
      fix tr' a b tools messages e
      let ?m = "assemble_response rq (merge_hook_responses (ar_system_prompt rq) rs) tools messages"
      assume run: "tr' = a @ EvPub PB_RESPONSE_TOPIC ?m e # b @ t" "list_all (silent ?t) a" "list_all (silent ?t) b"
      let ?new = "a @ EvPub PB_RESPONSE_TOPIC ?m e # b @ before"
      have "pubs_on PB_RESPONSE_TOPIC ?new = [?m]"
        using fanned sent [OF refl run(2,3)] by (simp only: fanned_out_def append_Nil)
      then have "pubs_on PB_RESPONSE_TOPIC ?new = [assemble_response rq (gated_prompt H rq ?new) tools messages]"
        by (simp only: gated [OF refl run(2,3)] fanned_prompt [OF fanned])
      moreover have "tr' = ?new @ tr" by (simp add: run(1) t)
      ultimately show "\<exists>evs tools messages. tr' = evs @ tr \<and>
          pubs_on PB_RESPONSE_TOPIC evs = [assemble_response rq (gated_prompt H rq evs) tools messages]"
        by blast
    qed
  qed
qed

lemma assembled:
  assumes "decode_assemble_request (or_default payload (jget ''data'' payload)) = Some rq" and "ar_request_id rq \<noteq> []"
  shows "\<exists>tools messages. pubs_on PB_RESPONSE_TOPIC (new_events (assemble X H fuel payload c) tr) =
    [assemble_response rq (gated_prompt H rq (new_events (assemble X H fuel payload c) tr)) tools messages]"
  by (rule wp_new_events [OF wp_mono [OF assemble_run [OF assms]]]) (elim exE conjE, simp, rule exI, rule exI, rule refl)

text \<open>
  Text reaches the system prompt only from a capsule that the kernel granted the capability.  On
  every host, whatever the plugins send: a request that decodes with an id is answered by one response,
  in which the system prompt is built from the request's own prompt and those contributions received on
  the request's reply topic whose source the kernel, asked in this very run, granted
  \<open>allow_prompt_injection\<close>; the other ones give no more than their user context prefix.\<close>

theorem prompt_injection_gated:
  assumes "decode_assemble_request (or_default payload (jget ''data'' payload)) = Some rq" and "ar_request_id rq \<noteq> []"
  shows "\<exists>tools messages. pubs_on PB_RESPONSE_TOPIC (new_events (assemble X H fuel payload c) tr) =
    [assemble_response rq (gated_prompt H rq (new_events (assemble X H fuel payload c) tr)) tools messages]"
  by (rule assembled [OF assms])

text \<open>
  C28: Every request is answered once.  On every host, and for every payload, an assemble request has
  exactly one response: the error of a request that does not decode, the error of a request without an
  id, both before anything else happened, or an assembled prompt that carries the request's id.\<close>

theorem assemble_answered_once:
  "\<exists>answer. pubs_on PB_RESPONSE_TOPIC (new_events (assemble X H fuel payload c) tr) = [answer] \<and>
     (case decode_assemble_request (or_default payload (jget ''data'' payload)) of
        None \<Rightarrow> jget ''error'' answer \<noteq> None \<and> length (new_events (assemble X H fuel payload c) tr) = 1
      | Some rq \<Rightarrow> if ar_request_id rq = [] then jget ''error'' answer = Some (JStr ''missing request_id'') \<and>
            length (new_events (assemble X H fuel payload c) tr) = 1
          else jget ''error'' answer = None \<and> get_str ''request_id'' answer = Some (ar_request_id rq))"
proof (cases "decode_assemble_request (or_default payload (jget ''data'' payload))")
  case None
  then show ?thesis by (simp add: assemble_def new_events_def final_trace_def host_defs Let_def)
next
  case (Some rq)
  show ?thesis
  proof (cases "ar_request_id rq = []")
    case True
    then show ?thesis using Some by (simp add: assemble_def new_events_def final_trace_def host_defs Let_def)
  next
    case False
    with assembled [OF Some False, of X H fuel c tr] Some show ?thesis
      by (auto simp: assemble_response_def get_str_def non_empty_member_def split: option.splits)
  qed
qed

subsection \<open>The windows end\<close>

locale prompt_clock = ticking_clock H d for H :: phost and d :: nat
begin

lemma advance: "h_mono H tr + d \<le> h_mono H (EvRecv topic ms r # EvMono (h_mono H (EvMono (h_mono H tr) # tr)) # EvMono (h_mono H tr) # tr)"
  using tick [of "EvMono (h_mono H tr) # tr" topic ms r] steady [of tr] by simp

lemma plugin_loop: "window_loop H d (plugin_window H c topic start) start (bc_hook_timeout_ms c * 1000000)"
proof unfold_locales
  fix tr and acc :: "sourced_response list" assume later: "start \<le> h_mono H tr"
  let ?now = "h_mono H tr" and ?tr = "EvMono (h_mono H tr) # tr" and ?window = "bc_hook_timeout_ms c * 1000000"
  let ?wait = "pb_recv_timeout c (acc \<noteq> []) (h_mono H ?tr - start)"
  show "(\<forall>k k'. run_state (plugin_window H c topic start (Suc k) acc) tr = run_state (plugin_window H c topic start (Suc k') acc) tr) \<or>
      ?now - start < ?window \<and> (\<exists>acc' tr'. ?now + d \<le> h_mono H tr' \<and>
        (\<forall>k. run_state (plugin_window H c topic start (Suc k) acc) tr = run_state (plugin_window H c topic start k acc') tr'))"
    using advance [of tr topic "the ?wait"]
    by (cases "?now - start < ?window \<and> length acc < PB_MAX_HOOK_RESPONSES"; cases ?wait;
        cases "h_recv H (EvMono (h_mono H ?tr) # ?tr) topic (the ?wait)")
      (auto simp: monotonic_def recv_def Let_def)
qed

lemma tool_loop: "window_loop H d (tool_window H start) start (TOOL_DESCRIBE_FANOUT_TIMEOUT_MS * 1000000)"
proof unfold_locales
  fix tr and acc :: "json list" assume later: "start \<le> h_mono H tr"
  let ?now = "h_mono H tr" and ?tr = "EvMono (h_mono H tr) # tr" and ?window = "TOOL_DESCRIBE_FANOUT_TIMEOUT_MS * 1000000"
    and ?topic = "''tool.v1.response.describe.*''"
  let ?wait = "millis (?window - (h_mono H ?tr - start))"
  show "(\<forall>k k'. run_state (tool_window H start (Suc k) acc) tr = run_state (tool_window H start (Suc k') acc) tr) \<or>
      ?now - start < ?window \<and> (\<exists>acc' tr'. ?now + d \<le> h_mono H tr' \<and>
        (\<forall>k. run_state (tool_window H start (Suc k) acc) tr = run_state (tool_window H start k acc') tr'))"
    using advance [of tr ?topic ?wait]
    by (cases "?now - start < ?window \<and> length acc < MAX_TOOL_DESCRIBE_RESPONSES"; cases "?wait = 0";
        cases "h_recv H (EvMono (h_mono H ?tr) # ?tr) ?topic ?wait")
      (auto simp: monotonic_def recv_def Let_def)
qed

lemma fire_enough:
  assumes "rounds_for d (bc_hook_timeout_ms c * 1000000) \<le> fuel" "rounds_for d (bc_hook_timeout_ms c * 1000000) \<le> fuel'"
  shows "run_state (fire_before_prompt_build H fuel rq c) tr = run_state (fire_before_prompt_build H fuel' rq c) tr"
proof -
  note stable = window_loop.enough_rounds [OF plugin_loop steady]
  have "run_state (plugin_window H c topic (h_mono H t) fuel []) (EvMono (h_mono H t) # t) =
      run_state (plugin_window H c topic (h_mono H t) fuel' []) (EvMono (h_mono H t) # t)" for topic t
    using stable [OF assms(1)] stable [OF assms(2)] by simp
  then show ?thesis by (simp add: fire_before_prompt_build_def host_defs Let_def split: option.split)
qed

lemma tools_enough:
  assumes "rounds_for d (TOOL_DESCRIBE_FANOUT_TIMEOUT_MS * 1000000) \<le> fuel" "rounds_for d (TOOL_DESCRIBE_FANOUT_TIMEOUT_MS * 1000000) \<le> fuel'"
  shows "run_state (collect_tool_schemas H fuel) tr = run_state (collect_tool_schemas H fuel') tr"
proof -
  note stable = window_loop.enough_rounds [OF tool_loop steady]
  have "run_state (tool_window H (h_mono H t) fuel []) (EvMono (h_mono H t) # t) =
      run_state (tool_window H (h_mono H t) fuel' []) (EvMono (h_mono H t) # t)" for t
    using stable [OF assms(1)] stable [OF assms(2)] by simp
  then show ?thesis by (simp add: collect_tool_schemas_def host_defs Let_def split: option.split)
qed

abbreviation enough :: "builder_config \<Rightarrow> nat" where
  "enough c \<equiv> rounds_for d (max (bc_hook_timeout_ms c) TOOL_DESCRIBE_FANOUT_TIMEOUT_MS * 1000000)"

lemma rounds_mono: "x \<le> y \<Longrightarrow> rounds_for d x \<le> rounds_for d y"
  by (simp add: rounds_for_def ticks_le)

lemma assemble_enough:
  assumes "enough c \<le> fuel"
  shows "run_state (assemble X H fuel payload c) tr = run_state (assemble X H (enough c) payload c) tr"
proof -
  have "rounds_for d (bc_hook_timeout_ms c * 1000000) \<le> enough c"
      "rounds_for d (TOOL_DESCRIBE_FANOUT_TIMEOUT_MS * 1000000) \<le> enough c"
    by (intro rounds_mono; simp)+
  then have "run_state (fire_before_prompt_build H fuel rq c) tr = run_state (fire_before_prompt_build H (enough c) rq c) tr"
      "run_state (collect_tool_schemas H fuel) tr = run_state (collect_tool_schemas H (enough c)) tr" for rq tr
    using assms by (auto intro: fire_enough tools_enough order_trans)
  then show ?thesis by (simp add: assemble_def Let_def split: option.split)
qed

end

text \<open>
  Assembling returns.  On a clock that never goes back and advances by at least \<open>d\<close> nanoseconds
  across a receive, as many rounds as the longer one of the two collection windows has steps of \<open>d\<close> are
  enough: with more fuel the assembly makes the same calls, whatever plugins and tools send.\<close>

theorem assemble_ends:
  assumes "0 < d" and "\<And>tr. h_mono H tr \<le> h_mono H (EvMono (h_mono H tr) # tr)"
    and "\<And>t ms r tr. h_mono H tr + d \<le> h_mono H (EvRecv t ms r # EvMono (h_mono H tr) # tr)"
    and "rounds_for d (max (bc_hook_timeout_ms c) TOOL_DESCRIBE_FANOUT_TIMEOUT_MS * 1000000) \<le> fuel"
  shows "run_state (assemble X H fuel payload c) tr =
    run_state (assemble X H (rounds_for d (max (bc_hook_timeout_ms c) TOOL_DESCRIBE_FANOUT_TIMEOUT_MS * 1000000)) payload c) tr"
  using assms by (intro prompt_clock.assemble_enough) unfold_locales

interpretation mem_prompt_clock: prompt_clock mem_host 2000000
  by unfold_locales

interpretation mem_plugin_window: window_loop mem_host 2000000 "plugin_window mem_host c topic start" start
    "bc_hook_timeout_ms c * 1000000" for c topic start
  by (rule mem_prompt_clock.plugin_loop)

interpretation mem_tool_window: window_loop mem_host 2000000 "tool_window mem_host start" start
    "TOOL_DESCRIBE_FANOUT_TIMEOUT_MS * 1000000" for start
  by (rule mem_prompt_clock.tool_loop)

definition default_builder :: builder_config where
  "default_builder = \<lparr>bc_hook_timeout_ms = PB_HOOK_TIMEOUT_MS, bc_first_response_ms = PB_FIRST_RESPONSE_MS, bc_idle_grace_ms = PB_IDLE_GRACE_MS\<rparr>"

definition demo_assemble :: json where
  "demo_assemble = JObj [(''request_id'', JStr ''r1''), (''system_prompt'', JStr ''be kind'')]"

lemma assemble_ends_witness:
  "run_state (assemble (\<lambda>j. []) mem_host 5000 demo_assemble default_builder) [] =
   run_state (assemble (\<lambda>j. []) mem_host 1001 demo_assemble default_builder) []"
proof -
  have "rounds_for 2000000 (max (bc_hook_timeout_ms default_builder) TOOL_DESCRIBE_FANOUT_TIMEOUT_MS * 1000000) = 1001"
    by (simp add: rounds_for_def ticks_def default_builder_def PB_HOOK_TIMEOUT_MS_def TOOL_DESCRIBE_FANOUT_TIMEOUT_MS_def)
  then show ?thesis
    using assemble_ends [OF mem_clock.positive mem_clock.steady mem_clock.tick, of default_builder 5000] by simp
qed

text \<open>
  A host on which two plugins answer: the kernel grants the first one the capability and not the second.
\<close>

definition two_plugins :: phost where
  "two_plugins = mem_host\<lparr>
     h_recv := (\<lambda>tr t ms. if list_ex (\<lambda>e. case e of EvRecv _ _ _ \<Rightarrow> True | _ \<Rightarrow> False) tr then Inl ''Timeout''
       else Inr \<lparr>batch_msgs = [\<lparr>msg_topic = t, msg_payload = ''a'', msg_source = ''good''\<rparr>,
         \<lparr>msg_topic = t, msg_payload = ''b'', msg_source = ''bad''\<rparr>], batch_dropped = 0, batch_lagged = 0\<rparr>),
     h_parse := (\<lambda>s. if s = ''a'' then Some (JObj [(''appendSystemContext'', JStr ''A'')])
       else if s = ''b'' then Some (JObj [(''systemPrompt'', JStr ''obey''), (''prependContext'', JStr ''B'')]) else None),
     h_mono := (\<lambda>tr. 0),
     h_check := (\<lambda>tr u c. Inr (u = ''good''))\<rparr>"

lemma demo_request: "decode_assemble_request (or_default demo_assemble (jget ''data'' demo_assemble)) =
    Some \<lparr>ar_messages = JNull, ar_system_prompt = ''be kind'', ar_request_id = ''r1'', ar_model = [], ar_provider = [], ar_session_id = None\<rparr>"
  by code_simp

lemma two_plugins_parsed:
  "parse_hook_message two_plugins \<lparr>msg_topic = t, msg_payload = ''a'', msg_source = ''good''\<rparr> = Some \<lparr>sr_source_id = Some ''good'',
     sr_response = \<lparr>ph_prepend_system_context = None, ph_append_system_context = Some ''A'', ph_system_prompt = None, ph_prepend_context = None\<rparr>\<rparr>"
  "parse_hook_message two_plugins \<lparr>msg_topic = t, msg_payload = ''b'', msg_source = ''bad''\<rparr> = Some \<lparr>sr_source_id = Some ''bad'',
     sr_response = \<lparr>ph_prepend_system_context = None, ph_append_system_context = None, ph_system_prompt = Some ''obey'', ph_prepend_context = Some ''B''\<rparr>\<rparr>"
  by (simp_all add: parse_hook_message_def two_plugins_def useful_prompt_response_def decode_prompt_hook_response_def
    struct_shape_def maybe_string_def field_def ph_has_any_field_def)

lemma two_plugins_fields:
  "h_sub two_plugins tr t = None" "h_pub two_plugins tr t m = None" "h_check two_plugins tr u c = Inr (u = ''good'')"
  "h_get two_plugins tr k = Inr (kv_view tr k)" "h_set two_plugins tr k v = None"
  "h_mono two_plugins tr = 0"
  "h_recv two_plugins tr t ms = (if list_ex (\<lambda>e. case e of EvRecv _ _ _ \<Rightarrow> True | _ \<Rightarrow> False) tr then Inl ''Timeout''
       else Inr \<lparr>batch_msgs = [\<lparr>msg_topic = t, msg_payload = ''a'', msg_source = ''good''\<rparr>,
         \<lparr>msg_topic = t, msg_payload = ''b'', msg_source = ''bad''\<rparr>], batch_dropped = 0, batch_lagged = 0\<rparr>)"
  by (simp_all add: two_plugins_def mem_host_def)

lemma two_plugins_wait:
  "pb_recv_timeout default_builder False 0 = Some 250" "pb_recv_timeout default_builder True 0 = Some 100"
  by (simp_all add: pb_recv_timeout_def default_builder_def PB_HOOK_TIMEOUT_MS_def PB_FIRST_RESPONSE_MS_def PB_IDLE_GRACE_MS_def millis_def Let_def)

lemma two_plugins_run:
  "pubs_on PB_RESPONSE_TOPIC (new_events (assemble (\<lambda>j. []) two_plugins 2 demo_assemble default_builder) []) =
     [assemble_response \<lparr>ar_messages = JNull, ar_system_prompt = ''be kind'', ar_request_id = ''r1'', ar_model = [], ar_provider = [], ar_session_id = None\<rparr>
       \<lparr>mp_system_prompt = ''be kind'' @ [CHR 0x0A] @ ''A'', mp_user_context_prefix = ''B''\<rparr> [] []]"
proof -
  have "millis 2000000000 = 2000" by (simp add: millis_def)
  moreover have "PB_AFTER_TOPIC \<noteq> PB_RESPONSE_TOPIC" "PB_BEFORE_TOPIC \<noteq> PB_RESPONSE_TOPIC" "PB_RESPONSE_TOPIC \<noteq> ''tool.v1.request.describe''"
    by (simp_all add: PB_AFTER_TOPIC_def PB_BEFORE_TOPIC_def PB_RESPONSE_TOPIC_def)
  ultimately show ?thesis
    by (simp add: assemble_def demo_request fire_before_prompt_build_def new_events_def final_trace_def
      host_defs two_plugins_fields two_plugins_parsed List.map_filter_def two_plugins_wait PB_MAX_HOOK_RESPONSES_def
      default_builder_def [THEN arg_cong, of bc_hook_timeout_ms] PB_HOOK_TIMEOUT_MS_def numeral_2_eq_2 has_permission_def
      collect_tool_schemas_def fire_after_prompt_build_def merge_hook_responses_def given_def strip_prompt_fields_def Let_def
      MAX_TOOL_DESCRIBE_RESPONSES_def TOOL_DESCRIBE_FANOUT_TIMEOUT_MS_def)
qed

lemma two_plugins_gated:
  "mp_system_prompt (gated_prompt two_plugins \<lparr>ar_messages = JNull, ar_system_prompt = ''be kind'', ar_request_id = ''r1'',
      ar_model = [], ar_provider = [], ar_session_id = None\<rparr>
    (new_events (assemble (\<lambda>j. []) two_plugins 2 demo_assemble default_builder) [])) = ''be kind'' @ [CHR 0x0A] @ ''A''"
  using assembled [OF demo_request, of "\<lambda>j. []" two_plugins 2 default_builder "[]"]
  unfolding two_plugins_run by (simp add: assemble_response_def)

lemma prompt_injection_gated_witness:
  "mp_system_prompt (gated_prompt two_plugins \<lparr>ar_messages = JNull, ar_system_prompt = ''be kind'', ar_request_id = ''r1'',
      ar_model = [], ar_provider = [], ar_session_id = None\<rparr>
    (new_events (assemble (\<lambda>j. []) two_plugins 2 demo_assemble default_builder) [])) = ''be kind'' @ [CHR 0x0A] @ ''A''"
  using prompt_injection_gated [OF demo_request, of "\<lambda>j. []" two_plugins 2 default_builder "[]"]
  unfolding two_plugins_run by (simp add: assemble_response_def)

end
