(* ===== verification/React_Spec.thy ===== *)
theory React_Spec
  imports React_Turn
begin

text \<open>
  The ReAct loop as one machine: its interceptors as the steps of a transition relation, and the
  invariant that every reachable store keeps.  \<open>steady s\<close> computations keep an active session \<open>s\<close>
  active, \<open>leaves s\<close> computations may end its turn; both keep the store consistent.
\<close>

subsection \<open>Keeping the store consistent\<close>

definition live :: "string \<Rightarrow> rtrace \<Rightarrow> bool" where
  "live s tr \<longleftrightarrow> consistent {} tr \<and> s \<in> set (active_of tr)"

definition steady :: "string \<Rightarrow> ('a \<Rightarrow> bool) \<Rightarrow> 'a rio \<Rightarrow> bool" where
  "steady s R m \<longleftrightarrow> (\<forall>tr. live s tr \<longrightarrow> wp m (\<lambda>x t. R x \<and> live s t) tr)"

definition leaves :: "string \<Rightarrow> 'a rio \<Rightarrow> bool" where
  "leaves s m \<longleftrightarrow> (\<forall>tr. live s tr \<longrightarrow> wp m (\<lambda>_. consistent {}) tr)"

named_theorems leavesI \<open>rules for computations that keep the store consistent\<close>

lemma view_consistent: "consistent X tr \<Longrightarrow> turn_of tr' = turn_of tr \<Longrightarrow> active_of tr' = active_of tr \<Longrightarrow> consistent X tr'"
  by (simp add: consistent_def)

lemma view_live: "live s tr \<Longrightarrow> turn_of tr' = turn_of tr \<Longrightarrow> active_of tr' = active_of tr \<Longrightarrow> live s tr'"
  by (simp add: live_def consistent_def)

lemma quiet_steady: "quiet m \<Longrightarrow> steady s (\<lambda>_. True) m"
  unfolding steady_def by (intro allI impI, erule wp_quiet, simp only: simp_thms) (rule view_live)

lemma quiet_consistent: "quiet m \<Longrightarrow> consistent {} tr \<Longrightarrow> wp m (\<lambda>_. consistent {}) tr"
  by (erule wp_quiet) (rule view_consistent)

lemma quiet_leaves: "quiet m \<Longrightarrow> leaves s m"
  unfolding leaves_def live_def by (blast intro: quiet_consistent)

lemma leaves_bind: "steady s R m \<Longrightarrow> (\<And>x. R x \<Longrightarrow> leaves s (f x)) \<Longrightarrow> leaves s (State_Monad.bind m f)"
  unfolding steady_def leaves_def by (blast intro: wp_bind wp_mono)

lemma leaves_quiet: "quiet m \<Longrightarrow> (\<And>x. leaves s (f x)) \<Longrightarrow> leaves s (State_Monad.bind m f)"
  by (blast intro: leaves_bind quiet_steady)

lemma leaves_return [leavesI]: "leaves s (ret x)"
  by (simp add: everyI quiet_leaves)

lemma leaves_if [leavesI]: "(b \<Longrightarrow> leaves s m) \<Longrightarrow> (\<not> b \<Longrightarrow> leaves s n) \<Longrightarrow> leaves s (if b then m else n)"
  by simp

lemma leaves_try: "steady s R m \<Longrightarrow> (\<And>x. R (Inr x) \<Longrightarrow> leaves s (f x)) \<Longrightarrow> leaves s (try_bind m f)"
  unfolding try_bind_def by (erule leaves_bind) (auto split: sum.split intro: leaves_return)

lemma leaves_try_quiet: "quiet m \<Longrightarrow> (\<And>x. leaves s (f x)) \<Longrightarrow> leaves s (try_bind m f)"
  by (rule leaves_try [OF quiet_steady])

lemma leaves_case_option [leavesI]:
  "leaves s m \<Longrightarrow> (\<And>x. leaves s (f x)) \<Longrightarrow> leaves s (case r of None \<Rightarrow> m | Some x \<Rightarrow> f x)"
  by (cases r) simp_all

lemma steady_phase: "p \<noteq> Idle \<Longrightarrow> steady s (\<lambda>x. session_id x = session_id st) (set_phase H p st)"
  unfolding steady_def set_phase_def
  apply (intro allI impI, rule wp_bind, rule wp_quiet [OF quiet_now])
  apply (auto intro!: wpI intro: view_live)
  done

lemma steady_reset: "steady s (\<lambda>x. session_id x = session_id st) (reset_turn H st)"
  unfolding steady_def reset_turn_def
  apply (intro allI impI, rule wp_bind, rule wp_quiet, rule everyI)
  apply (auto intro!: wpI intro: view_live)
  done

definition lag_hit :: "turn_state \<Rightarrow> bool" where
  "lag_hit st \<longleftrightarrow> phase_of st = Streaming \<or> phase_of st = AwaitingTools"

context react_store
begin

lemma steady_save: "session_id st = s \<Longrightarrow> steady s (\<lambda>_. True) (save_turn H st)"
  unfolding steady_def
  by (intro allI impI wp_save) (auto simp: live_def consistent_def)

lemma torn_down:
  assumes "consistent {} tr" "phase_of (turn_of tr' s) = Idle" "\<And>r. r \<noteq> s \<Longrightarrow> turn_of tr' r = turn_of tr r"
    and "active_of tr' = swap_remove s (active_of tr)"
  shows "consistent {} tr'"
proof -
  have "r \<in> set (active_of tr')" if "phase_of (turn_of tr' r) \<noteq> Idle" for r
  proof -
    have "r \<noteq> s" using that assms(2) by auto
    then show ?thesis using that assms by (simp add: consistent_def set_swap_remove)
  qed
  then show ?thesis using assms(1,4) by (simp add: consistent_def set_swap_remove)
qed

lemma abort_consistent: "consistent {} tr \<Longrightarrow> wp (abort_turn A H st) (\<lambda>_. consistent {}) tr"
  by (rule wp_abort) (rule torn_down)

lemma leaves_abort [leavesI]: "leaves s (abort_turn A H st)"
  by (simp add: leaves_def live_def abort_consistent)

lemma finish_consistent: "consistent {} tr \<Longrightarrow> session_id st = s \<Longrightarrow> phase_of st = Idle \<Longrightarrow>
    turn_of tr' = (turn_of tr)(s := stored st) \<Longrightarrow> active_of tr' = swap_remove s (active_of tr) \<Longrightarrow> consistent {} tr'"
  by (auto simp: consistent_def set_swap_remove split: if_splits)

lemma leaves_finish:
  assumes "\<And>x st'. session_id st' = session_id st \<Longrightarrow> quiet (f x st')"
  shows "leaves s (do { st1 \<leftarrow> set_phase H Idle st; r \<leftarrow> save_turn H st1; f r st1 })"
  unfolding leaves_def
  apply (intro allI impI wp_finish, rule refl)
  apply (rule quiet_consistent, rule assms, simp)
  apply (rule finish_consistent)
  apply (auto simp: live_def)
  done

lemma leaves_finish' [leavesI]: "leaves s (do { st1 \<leftarrow> set_phase H Idle st; save_turn H st1 })"
  using leaves_finish [of st "\<lambda>x st'. ret x" s] by (simp add: everyI)

lemma leaves_try_finish [leavesI]:
  "(\<And>x st'. session_id st' = session_id st \<Longrightarrow> quiet (f x st')) \<Longrightarrow>
   leaves s (do { st1 \<leftarrow> set_phase H Idle st; try_bind (save_turn H st1) (\<lambda>x. f x st1) })"
  unfolding try_bind_def by (rule leaves_finish) (auto intro!: everyI)

subsection \<open>The handlers\<close>

lemma leaves_no_model [leavesI]: "leaves s (fail_no_model_selected A H st)"
  unfolding fail_no_model_selected_def by (rule leaves_quiet) (intro everyI leavesI)+

lemma leaves_request [leavesI]: "leaves s (publish_llm_request A H st ms)"
  unfolding publish_llm_request_def
  apply (rule leaves_quiet, rule everyI)
  apply (rule leaves_case_option, rule leavesI)
  apply (rule quiet_leaves)
  apply (intro everyI)
  done

lemma leaves_publish_tools [leavesI]: "leaves s (publish_tools H st cs ts)"
proof (induction ts)
  case (Cons t ts)
  show ?case
    apply (simp only: publish_tools.simps)
    apply (rule leaves_quiet, rule everyI, rule leaves_case_option, rule Cons.IH)
    apply (rule leaves_quiet, rule everyI, rule leaves_quiet, rule everyI, rule leavesI, rule everyI)
    done
qed (simp add: leavesI)

lemma leaves_dispatch:
  assumes "session_id st = s"
  shows "leaves s (dispatch_tools H st)"
  unfolding dispatch_tools_def Let_def
  apply (rule leaves_try_quiet, rule everyI)
  apply (rule leaves_bind, rule steady_phase, simp)
  apply (rule leaves_bind, rule steady_save, simp add: assms)
  apply (auto split: sum.split intro!: leavesI quiet_leaves everyI)
  done

lemma leaves_stream_done: "session_id st = s \<Longrightarrow> leaves s (handle_stream_done A H st)"
  unfolding handle_stream_done_def
  apply (rule leaves_quiet, rule everyI)
  apply (intro leaves_if leaves_dispatch leaves_try_quiet leavesI; (intro everyI)?)
  apply assumption
  done

lemma leaves_save: "session_id st = s \<Longrightarrow> leaves s (save_turn H st)"
  using leaves_bind [OF steady_save [of st s], of "\<lambda>x. ret x"] by (simp add: leavesI)

lemma leaves_stream_event:
  assumes "session_id st = s"
  shows "leaves s (apply_stream_event A H e st)"
proof (cases e)
  case (TextDelta x)
  then show ?thesis unfolding apply_stream_event_def stream_event.case
    by (simp, intro conjI impI leaves_quiet everyI leaves_save; simp add: assms)
next
  case (StreamError x)
  then show ?thesis unfolding apply_stream_event_def stream_event.case
    by (simp, intro leaves_quiet everyI leavesI)
qed (simp_all add: apply_stream_event_def leaves_save leaves_stream_done assms)

lemma leaves_finish_round:
  assumes "session_id st = s"
  shows "leaves s (finish_round A H st)"
  unfolding finish_round_def Let_def
  apply (rule leaves_quiet, rule everyI, rule leaves_if)
   apply (rule leaves_quiet, rule everyI, rule leaves_quiet, rule everyI)
   apply (rule leaves_try_finish, intro everyI)
  apply (rule leaves_try_quiet, rule everyI, rule leaves_bind, rule steady_reset)
  apply (rule leaves_bind, rule steady_phase, simp, rule leaves_try, rule steady_save)
   apply (simp add: assms)
  apply (rule leaves_quiet, rule everyI, rule leavesI)
  done

lemma timeout_consistent:
  assumes "consistent {} tr" and "\<And>tr'. turn_of tr' = turn_of tr \<Longrightarrow> consistent {} tr' \<Longrightarrow>
      active_of tr' = active_of tr \<Longrightarrow> wp (f (False, st)) (\<lambda>_. consistent {}) tr'"
    and "\<And>st'. f (True, st') = ret (Inr ())"
  shows "wp (try_bind (check_timeout_with_cleanup A H st) f) (\<lambda>_. consistent {}) tr"
  apply (rule wp_try_bind, rule wp_timeout)
   apply (simp add: assms(2) view_consistent [OF assms(1)])
  using assms(3) by (auto intro!: wp_return torn_down [OF assms(1)])

text \<open>
  The shape of the four handlers of a running turn: load, time out, and go on from a turn in the
  expected phase, whose session is therefore active.
\<close>

lemma running_consistent:
  assumes "consistent {} tr"
    and "\<And>st. session_id st = s \<Longrightarrow> phase_of st \<noteq> Idle \<Longrightarrow> leaves s (f (False, st))"
    and "\<And>st t. session_id st = s \<Longrightarrow> phase_of st = Idle \<Longrightarrow> consistent {} t \<Longrightarrow>
      wp (f (False, st)) (\<lambda>_. consistent {}) t"
    and "\<And>st'. f (True, st') = ret (Inr ())"
  shows "wp (do { st \<leftarrow> load_turn H s; try_bind (check_timeout_with_cleanup A H st) f }) (\<lambda>_. consistent {}) tr"
  apply (rule wp_bind, rule wp_load, rule timeout_consistent)
    apply (rule view_consistent [OF assms(1)]; assumption)
   apply (case_tac "phase_of (turn_of tr s) = Idle")
    apply (rule assms(3), simp, simp, assumption)
  subgoal for tr1 tr2
    using assms(1) assms(2) [of "turn_of tr s"] by (auto simp: leaves_def live_def consistent_def)
  apply (rule assms(4))
  done

lemma redrive_consistent:
  assumes "actual \<noteq> expected" "consistent {} tr"
  shows "wp (do { r \<leftarrow> redrive_if_unready H expected actual t p; if r then ret x else m }) (\<lambda>_. consistent {}) tr"
proof -
  have "wp (redrive_if_unready H expected actual t p) (\<lambda>r tr. r) tr"
    using assms(1) unfolding redrive_if_unready_def Let_def if_not_P [OF assms(1)]
    by (cases p) (auto intro!: wpI)
  moreover have "wp (redrive_if_unready H expected actual t p) (\<lambda>_. consistent {}) tr"
    by (rule quiet_consistent [OF quiet_redrive assms(2)])
  ultimately show ?thesis
    by (cases "run_state (redrive_if_unready H expected actual t p) tr") (auto simp: wp_def)
qed

lemma identity_consistent:
  assumes "consistent {} tr"
  shows "wp (handle_identity_response A H j) (\<lambda>_. consistent {}) tr"
  unfolding handle_identity_response_def
  apply (rule running_consistent [OF assms]; simp only: prod.case if_False if_True)
   apply (rule leaves_quiet, rule everyI, rule leaves_if, rule leavesI)
   apply (simp only: Let_def)
   apply (rule leaves_bind, rule steady_phase, simp)
   apply (rule leaves_try_quiet, rule everyI, rule leaves_try, rule steady_save, simp)
   apply (rule leaves_quiet, rule everyI, rule leaves_case_option, rule leavesI)
   apply (rule quiet_leaves, intro everyI)
  apply (rule redrive_consistent; simp)
  done

lemma prompt_response_consistent:
  assumes "consistent {} tr"
  shows "wp (handle_prompt_response A H j) (\<lambda>_. consistent {}) tr"
  unfolding handle_prompt_response_def
  apply (rule running_consistent [OF assms]; simp only: prod.case if_False if_True)
   apply (rule leaves_quiet, rule everyI, rule leaves_if, rule leavesI)
   apply (simp only: Let_def)
   apply (rule leaves_bind, rule steady_phase, simp)
   apply (rule leaves_try, rule steady_save, simp split: option.splits, rule leavesI)
  apply (rule redrive_consistent; simp)
  done

lemma stream_consistent:
  assumes "consistent {} tr"
  shows "wp (handle_llm_stream A H p) (\<lambda>_. consistent {}) tr"
proof (cases p)
  case (LlmStreamEvent rid e)
  show ?thesis
    unfolding handle_llm_stream_def LlmStreamEvent ipc_payload.case
    apply (rule wp_bind, rule wp_quiet, rule everyI)
    apply (rule wp_case_option, rule wp_return, rule view_consistent [OF assms]; assumption?)
    apply (rule running_consistent, rule view_consistent [OF assms]; (simp only: prod.case if_False if_True)?)
     apply (intro leaves_if leavesI leaves_quiet everyI leaves_stream_event, simp)
    apply (simp add: wp_return)
    done
qed (simp_all add: handle_llm_stream_def wp_return assms)

lemma tool_result_consistent:
  assumes "consistent {} tr"
  shows "wp (handle_tool_result A H p) (\<lambda>_. consistent {}) tr"
proof (cases p)
  case (ToolExecuteResult c r)
  have step: "leaves s (case record_result rid c r ts of Stale \<Rightarrow> ret (Inr ()) | Recorded ts \<Rightarrow>
      (let st' = st\<lparr>dispatched_tools := ts\<rparr> in if all_done ts then finish_round A H st' else save_turn H st'))"
    if "session_id st = s" for s rid ts st
    using that by (cases "record_result rid c r ts") (simp_all add: leavesI leaves_finish_round leaves_save Let_def)
  show ?thesis
    unfolding handle_tool_result_def ToolExecuteResult ipc_payload.case
    apply (rule wp_bind, rule wp_quiet, rule everyI)
    apply (rule wp_case_option, rule wp_return, rule view_consistent [OF assms]; assumption?)
    apply (rule running_consistent, rule view_consistent [OF assms]; (simp only: prod.case if_False if_True)?)
     apply (intro leaves_if leavesI step, simp)
    apply (simp add: wp_return)
    done
qed (simp_all add: handle_tool_result_def wp_return assms)

lemma cancel_consistent:
  assumes "consistent {} tr"
  shows "wp (handle_cancel A H s) (\<lambda>_. consistent {}) tr"
  unfolding handle_cancel_def
  apply (rule wp_bind, rule wp_load, rule wp_if, rule wp_return, rule view_consistent [OF assms]; assumption?)
  apply (rule wp_bind, rule wp_quiet, intro everyI, rule abort_consistent, rule view_consistent [OF assms])
   apply simp_all
  done

lemma start_consistent:
  assumes "consistent {} tr"
  shows "wp (start_turn A H text s c) (\<lambda>_. consistent {}) tr"
proof -
  have view: "wp (do { st2 \<leftarrow> set_phase H AwaitingIdentity st; register_active_session H (session_id st2);
      try_bind (save_turn H st2) (f st2) }) (\<lambda>_. consistent {}) t"
    if "consistent {} t" "\<And>st. quiet (f st ())" for st t and f :: "turn_state \<Rightarrow> unit \<Rightarrow> unit fallible"
    apply (rule wp_bind, rule wp_phase, simp, rule wp_bind, rule wp_register, rule wp_try_bind, rule wp_save)
    apply (simp only: sum.inject sum.distinct simp_thms all_simps)
    apply (rule quiet_consistent, rule that(2))
    using that(1) by (auto simp: consistent_def split: if_splits)
  show ?thesis
    unfolding start_turn_def
    apply (rule wp_bind, rule wp_load, rule wp_try_bind, rule wp_quiet, rule everyI)
    apply (intro conjI allI impI, rule view_consistent [OF assms], simp, simp)
    apply (rule wp_bind, rule wp_quiet, intro everyI, rule wp_bind, rule wp_reset, rule view)
     apply (rule view_consistent [OF assms], simp, simp)
    apply (intro everyI)
    done
qed

lemma user_prompt_consistent:
  assumes "consistent {} tr"
  shows "wp (handle_user_prompt A H p) (\<lambda>_. consistent {}) tr"
proof (cases p)
  case (UserInput t s c)
  then show ?thesis
    by (auto simp: handle_user_prompt_def cancel_consistent start_consistent assms wp_return)
qed (simp_all add: handle_user_prompt_def wp_return assms)

lemma unwind_consistent:
  assumes "consistent {} tr"
  shows "wp (unwind_lagged A H s) (\<lambda>_. consistent {}) tr"
  unfolding unwind_lagged_def
  apply (rule wp_bind, rule wp_load, rule wp_if)
   apply (rule wp_bind, rule wp_quiet, rule everyI, rule wp_bind)
   apply (rule wp_mono, rule abort_consistent, rule view_consistent [OF assms], simp, simp, rule wp_return, assumption)
  apply (rule wp_return, rule view_consistent [OF assms]; assumption)
  done

lemma each_consistent:
  assumes "consistent {} tr" and "\<And>x t. consistent {} t \<Longrightarrow> wp (f x) (\<lambda>_. consistent {}) t"
  shows "wp (do { xs \<leftarrow> load_active_sessions H; for_each xs f; ret r }) (\<lambda>_. consistent {}) tr"
  apply (rule wp_bind, rule wp_active, rule wp_bind, rule wp_mono, rule for_each_inv [where I = "consistent {}"])
     apply (rule view_consistent [OF assms(1)]; assumption)
    apply (rule assms(2), assumption)
   apply (rule wp_return, assumption)
  done

lemma watchdog_consistent:
  assumes "consistent {} tr"
  shows "wp (handle_watchdog_tick A H) (\<lambda>_. consistent {}) tr"
proof -
  have "wp (do { st \<leftarrow> load_turn H s; r \<leftarrow> check_timeout_with_cleanup A H st; ret () }) (\<lambda>_. consistent {}) t"
    if "consistent {} t" for s t
    apply (rule wp_bind, rule wp_load, rule wp_bind, rule wp_timeout)
     apply (rule wp_return, rule view_consistent [OF that], simp, simp)
    apply (rule wp_return, rule torn_down [OF that]; simp)
    done
  then show ?thesis unfolding handle_watchdog_tick_def by (intro each_consistent assms)
qed

lemma lag_consistent: "consistent {} tr \<Longrightarrow> wp (handle_bus_lag A H) (\<lambda>_. consistent {}) tr"
  unfolding handle_bus_lag_def by (intro each_consistent unwind_consistent)

lemma model_consistent:
  assumes "consistent {} tr"
  shows "wp (handle_model_changed H j) (\<lambda>_. consistent {}) tr"
proof -
  have "quiet (handle_model_changed H j)"
    unfolding handle_model_changed_def
    by (cases "decide_broadcast j") (auto simp: cleared_cache_keys_def intro!: everyI)
  then show ?thesis by (rule quiet_consistent [OF _ assms])
qed

lemma wp_drop_turn: "(\<And>tr'. phase_of (turn_of tr' s) = Idle \<Longrightarrow> (\<And>r. r \<noteq> s \<Longrightarrow> turn_of tr' r = turn_of tr r) \<Longrightarrow>
    active_of tr' = active_of tr \<Longrightarrow> Q None tr') \<Longrightarrow> wp (kv_delete H (turn_key s)) Q tr"
  by (simp add: wp_iff turn_of_def active_of_def turn_of_read_def default_turn_def)

lemma clear_consistent:
  assumes "consistent {} tr"
  shows "wp (handle_session_clear H j) (\<lambda>_. consistent {}) tr"
proof -
  let ?old = "or_default DEFAULT_SESSION_ID (get_str ''session_id'' j)"
  have tail: "wp (do { kv_delete H (turn_key ?old); unregister_active_session H ?old;
      try_bind (save_turn H (default_turn\<lparr>session_id := new\<rparr>)) (\<lambda>_. m) }) (\<lambda>_. consistent {}) t"
    if "consistent {} t" "quiet m" for t new and m :: "unit fallible"
    apply (rule wp_bind, rule wp_drop_turn, rule wp_bind, rule wp_unregister, rule wp_try_bind, rule wp_save)
    apply (simp only: sum.inject sum.distinct simp_thms all_simps)
    apply (rule quiet_consistent, rule that(2))
    subgoal premises prems for t1 t2 t3
    proof -
      have "consistent {} t2" using that(1) prems by (intro torn_down [of t t2 ?old]) auto
      then show ?thesis using prems by (auto simp: consistent_def default_turn_def split: if_splits)
    qed
    done
  show ?thesis
    unfolding handle_session_clear_def Let_def
    apply (rule wp_bind, rule wp_quiet, rule everyI, rule wp_try_bind, rule wp_quiet, rule everyI)
    apply (intro conjI allI impI, rule view_consistent [OF assms], simp, simp)
    apply (rule wp_case_option, rule wp_return, rule view_consistent [OF assms], simp, simp)
    apply (rule tail, rule view_consistent [OF assms], simp, simp)
    apply (intro everyI)
    done
qed

lemma run_clear: "run_state (kv_clear_prefix H p) tr = (h_clear H tr p, EvClear p (h_clear H tr p) # tr)"
  by (simp add: kv_clear_prefix_def)

lemma view_clear [simp]: "kv_view (EvClear p (h_clear H t p) # tr) k = (if starts_with p k then None else kv_view tr k)"
  using clear_ok [of t p] by auto

lemma restart_empties:
  "wp (handle_lifecycle_restart H) (\<lambda>_ tr'. (\<forall>s. kv_view tr' (turn_key s) = None) \<and> kv_view tr' ACTIVE_SESSIONS_KEY = None) tr"
  by (simp add: handle_lifecycle_restart_def clear_ephemeral_keys_def wp_iff run_clear)
    (simp add: starts_with_def turn_key_def TURN_KEY_PREFIX_def ACTIVE_SESSIONS_KEY_def)

lemma restart_consistent: "wp (handle_lifecycle_restart H) (\<lambda>_. consistent {}) tr"
  by (rule wp_mono, rule restart_empties)
    (simp add: consistent_def turn_of_def active_of_def turn_of_read_def sessions_of_read_def default_turn_def)

lemma step_consistent: "consistent {} tr \<Longrightarrow> wp (react_step A H i) (\<lambda>_. consistent {}) tr"
  by (cases i) (simp_all add: restart_consistent clear_consistent watchdog_consistent lag_consistent
      user_prompt_consistent identity_consistent prompt_response_consistent stream_consistent
      tool_result_consistent model_consistent)

lemma reach_consistent: "react_reach A H tr \<Longrightarrow> consistent {} tr"
proof (induction rule: react_reach.induct)
  case reach_start
  then show ?case by (simp add: consistent_def turn_of_def active_of_def turn_of_read_def sessions_of_read_def default_turn_def)
next
  case (reach_step tr i)
  then show ?case by (auto intro: wp_final step_consistent)
qed

text \<open>The lag handler ends every running turn of the sessions it visits and changes no other turn.\<close>

lemma wp_unwind:
  assumes "\<And>tr'. (\<And>r. r \<noteq> s \<Longrightarrow> turn_of tr' r = turn_of tr r) \<Longrightarrow>
      (if lag_hit (turn_of tr s) then phase_of (turn_of tr' s) = Idle else turn_of tr' s = turn_of tr s) \<Longrightarrow> Q () tr'"
  shows "wp (unwind_lagged A H s) Q tr"
  unfolding unwind_lagged_def
  apply (rule wp_bind, rule wp_load, rule wp_if)
   apply (rule wp_bind, rule wp_quiet, rule everyI, rule wp_bind, rule wp_abort, rule wp_return, rule assms)
    apply (auto simp: lag_hit_def intro!: wp_return assms)
  done

lemma wp_unwind_each:
  "wp (for_each ss (unwind_lagged A H)) (\<lambda>_ tr'. \<forall>s. if s \<in> set ss \<and> lag_hit (turn_of tr s)
     then phase_of (turn_of tr' s) = Idle else turn_of tr' s = turn_of tr s) tr"
proof (induction ss arbitrary: tr)
  case Nil
  then show ?case by (simp add: wp_return)
next
  case (Cons x ss)
  show ?case
    apply (simp only: for_each.simps)
    apply (rule wp_bind, rule wp_unwind, rule wp_mono, rule Cons.IH)
    subgoal premises prems for t1 u t2
      using prems by (auto split: if_splits simp: lag_hit_def) metis+
    done
qed

lemma lag_effect:
  assumes "consistent {} tr"
  shows "wp (handle_bus_lag A H) (\<lambda>r tr'. r = Inr () \<and> (\<forall>s. if lag_hit (turn_of tr s)
     then phase_of (turn_of tr' s) = Idle else turn_of tr' s = turn_of tr s)) tr"
  unfolding handle_bus_lag_def
  apply (rule wp_bind, rule wp_active, rule wp_bind, rule wp_mono, rule wp_unwind_each, rule wp_return)
  using assms by (auto simp: consistent_def lag_hit_def split: if_splits)

end

subsection \<open>Properties\<close>

definition demo_prompt :: react_input where
  "demo_prompt = UserPrompt (UserInput ''hi'' ''s1'' (Some (JObj [(''model'', JStr ''m'')])))"

definition demo_turn :: "string \<Rightarrow> json" where
  "demo_turn p = JObj [(''session_id'', JStr ''s1''), (''prompt'', JStr p)]"

text \<open>One prompt driven to the stream.\<close>

definition demo_trace :: rtrace where
  "demo_trace = final_trace (react_step demo_sdk demo_react (PromptResponse (demo_turn [])))
     (final_trace (react_step demo_sdk demo_react (IdentityResponse (demo_turn ''be kind'')))
       (final_trace (react_step demo_sdk demo_react demo_prompt) []))"

lemma demo_reach: "react_reach demo_sdk demo_react demo_trace"
  unfolding demo_trace_def by (intro reach_step reach_start)

lemma demo_streaming: "overridden ''s1'' Streaming demo_trace \<and> active_of demo_trace = [''s1'']"
proof -
  let ?c = "Some (JObj [(''model'', JStr ''m'')])"
  have sid: "get_str ''session_id'' (demo_turn p) = Some ''s1''" for p
    by (simp add: demo_turn_def get_str_def)
  have model: "nonblank (prompt_override ?c) \<noteq> None" "\<not> blank ''hi''" "Option.bind ?c (get_str ''action'') \<noteq> Some ''cancel_turn''"
    by code_simp+
  have start: "overridden ''s1'' AwaitingIdentity (final_trace (react_step demo_sdk demo_react demo_prompt) []) \<and>
      active_of (final_trace (react_step demo_sdk demo_react demo_prompt) []) = [''s1'']"
    using wp_final [OF demo_calm.start_overrides [OF model(1), of "''s1''" "[]" "''hi''"]] model(2,3)
    by (simp add: demo_prompt_def handle_user_prompt_def active_of_def sessions_of_read_def)
  show ?thesis
    unfolding demo_trace_def
    using start wp_final [OF demo_calm.identity_advances [OF conjunct1 [OF start] sid [of "''be kind''"]]]
      wp_final [OF demo_calm.prompt_advances [OF conjunct1 [OF wp_final [OF demo_calm.identity_advances [OF conjunct1 [OF start] sid [of "''be kind''"]]]] sid [of "[]"]]]
    by simp
qed

lemma demo_active: "active_of demo_trace = [''s1'']" and demo_busy: "phase_of (turn_of demo_trace ''s1'') = Streaming"
  using demo_streaming by (simp_all add: overridden_def)

text \<open>
  C1: In every store the loop can reach by any sequence of deliveries on a store that works, a
  session whose turn is in progress is registered as active, once.  So the watchdog and the lag
  handler, which iterate the registered sessions only, see every turn that could hang.\<close>

theorem busy_sessions_watched:
  assumes "react_store H" and "react_reach A H tr" and "phase_of (turn_of tr s) \<noteq> Idle"
  shows "s \<in> set (active_of tr) \<and> distinct (active_of tr)"
  using react_store.reach_consistent [OF assms(1,2)] assms(3) by (simp add: consistent_def)

lemma busy_sessions_watched_witness: "''s1'' \<in> set (active_of demo_trace) \<and> distinct (active_of demo_trace)"
  by (rule busy_sessions_watched [OF demo_store demo_reach]) (simp add: demo_busy)

text \<open>
  A bus lag ends every turn that was streaming or waiting for tools, in one delivery and
  whatever the number of sessions: afterwards its stored phase is idle, and the turns in the other
  phases are as they were.\<close>

theorem lag_unwinds_all:
  assumes "react_store H" and "react_reach A H tr"
  shows "\<forall>s. if phase_of (turn_of tr s) = Streaming \<or> phase_of (turn_of tr s) = AwaitingTools
     then phase_of (turn_of (final_trace (handle_bus_lag A H) tr) s) = Idle
     else turn_of (final_trace (handle_bus_lag A H) tr) s = turn_of tr s"
  using react_store.lag_effect [OF assms(1) react_store.reach_consistent [OF assms], of A]
  by (simp add: wp_iff final_trace_def lag_hit_def)

lemma lag_unwinds_all_witness:
  "phase_of (turn_of (final_trace (handle_bus_lag demo_sdk demo_react) demo_trace) ''s1'') = Idle"
  using lag_unwinds_all [OF demo_store demo_reach] demo_busy by (metis (full_types))

text \<open>
  A store that refuses one key: the turn of session \<open>s\<close> cannot be written any more.
\<close>

definition full_disk :: "string \<Rightarrow> rhost" where
  "full_disk s = mem_host\<lparr>h_set := (\<lambda>tr k v. if k = turn_key s then Some ''disk full'' else None)\<rparr>"

lemma full_disk_load: "wp (load_turn (full_disk s) s) (\<lambda>x tr'. x = turn_of tr s \<and> turn_of tr' = turn_of tr \<and> active_of tr' = active_of tr) tr"
  by (simp add: wp_iff load_turn_def kv_get_def full_disk_def turn_of_def active_of_def fun_eq_iff)

lemma full_disk_active: "wp (load_active_sessions (full_disk s)) (\<lambda>x tr'. x = active_of tr \<and> turn_of tr' = turn_of tr \<and> active_of tr' = active_of tr) tr"
  by (simp add: wp_iff load_active_sessions_def kv_get_def full_disk_def turn_of_def active_of_def fun_eq_iff)

lemma full_disk_unregister: "wp (unregister_active_session (full_disk s) s)
    (\<lambda>x tr'. turn_of tr' = turn_of tr \<and> active_of tr' = swap_remove s (active_of tr)) tr"
  unfolding unregister_active_session_def
  apply (rule wp_bind, rule wp_mono, rule full_disk_active, rule wp_if, rule wp_bind)
   apply (auto simp: wp_iff kv_set_def full_disk_def turn_of_def active_of_def sessions_of_read_def fun_eq_iff)
  done

lemma full_disk_save: "session_id st = s \<Longrightarrow> wp (save_turn (full_disk s) st)
    (\<lambda>x tr'. turn_of tr' = turn_of tr \<and> active_of tr' = active_of tr) tr"
  by (simp add: wp_iff save_turn_def checked_def kv_set_def full_disk_def turn_of_def active_of_def fun_eq_iff)

lemma full_disk_unwind:
  assumes "lag_hit (turn_of tr s)"
  shows "wp (unwind_lagged A (full_disk s) s)
    (\<lambda>_ tr'. turn_of tr' = turn_of tr \<and> active_of tr' = swap_remove s (active_of tr)) tr"
  unfolding unwind_lagged_def abort_turn_def set_phase_def reset_conversation_turn_def reset_turn_def
  apply (rule wp_bind, rule wp_mono, rule full_disk_load, rule wp_if)
   apply (rule wp_bind, rule wp_quiet, rule everyI, rule wp_bind, rule wp_bind, rule wp_quiet, intro everyI)
   apply (rule wp_bind, rule wp_bind, rule wp_bind, rule wp_quiet, intro everyI, rule wp_return, rule wp_return)
   apply (rule wp_bind, rule wp_bind, rule wp_quiet, intro everyI, rule wp_bind)
   apply (simp, rule wp_mono, rule full_disk_unregister, rule wp_return, rule wp_mono, rule full_disk_save, simp)
   apply (simp add: wp_return)
  using assms by (auto simp: lag_hit_def)

text \<open>
  C40: The watchdog is no backstop for a turn whose idle reset could not be saved.  When the store
  refuses the turn of the one active session, a bus lag leaves the turn as it was, streaming or
  waiting, and still takes the session out of the active set, because the phase change unregisters
  before the save.  No later tick of the watchdog looks at the session again: the turn stays.\<close>

theorem lag_failed_save_strands:
  assumes "active_of tr = [s]" and "phase_of (turn_of tr s) = Streaming \<or> phase_of (turn_of tr s) = AwaitingTools"
  shows "case final_trace (handle_bus_lag A (full_disk s)) tr of tr' \<Rightarrow>
      turn_of tr' s = turn_of tr s \<and> active_of tr' = [] \<and>
      turn_of (final_trace (handle_watchdog_tick A (full_disk s)) tr') s = turn_of tr s \<and>
      active_of (final_trace (handle_watchdog_tick A (full_disk s)) tr') = []"
proof -
  let ?tr' = "final_trace (handle_bus_lag A (full_disk s)) tr"
  have lag: "wp (handle_bus_lag A (full_disk s)) (\<lambda>_ t. turn_of t = turn_of tr \<and> active_of t = []) tr"
    unfolding handle_bus_lag_def
    apply (rule wp_bind, rule wp_mono, rule full_disk_active)
    apply (simp add: assms(1))
    apply (rule wp_bind, rule wp_mono, rule full_disk_unwind)
    using assms by (auto simp: lag_hit_def intro!: wp_return)
  have tick: "wp (handle_watchdog_tick A (full_disk s)) (\<lambda>_ t'. turn_of t' = turn_of t \<and> active_of t' = []) t"
    if "active_of t = []" for t
    unfolding handle_watchdog_tick_def
    apply (rule wp_bind, rule wp_mono, rule full_disk_active)
    using that by (auto intro!: wpI)
  show ?thesis
    using wp_final [OF lag] wp_final [OF tick [of ?tr']] by simp
qed

lemma lag_failed_save_strands_witness:
  "phase_of (turn_of (final_trace (handle_watchdog_tick demo_sdk (full_disk ''s1''))
     (final_trace (handle_bus_lag demo_sdk (full_disk ''s1'')) demo_trace)) ''s1'') = Streaming"
  using lag_failed_save_strands [OF demo_active, of demo_sdk] demo_busy by simp

end
