(* ===== verification/Prompt_React.thy ===== *)
theory Prompt_React
  imports Prompt_Spec React_Spec React_Bus
begin

text \<open>
  The prompt builder and the ReAct loop together: the system prompt of a generation request is the one
  the builder assembled, so it holds text of granted capsules only; and the loop takes the builder's error
  answers for a prompt of the default session.
\<close>

subsection \<open>The prompt of a request\<close>

definition prompts :: "string \<Rightarrow> (kv_value, react_msg) event \<Rightarrow> bool" where
  "prompts p e \<longleftrightarrow> (\<forall>t rid model ms tools sys r. e = EvPub t (PIpc (LlmRequest rid model ms tools sys)) r \<longrightarrow> sys = p)"

lemma prompts_host [everyI]:
  "every (prompts p) (kv_get H k)" "every (prompts p) (kv_get_raw H k)" "every (prompts p) (kv_set H k v)"
  "every (prompts p) (kv_delete H k)" "every (prompts p) (subscribe H t)" "every (prompts p) (recv H t ms)"
  "every (prompts p) (request_response H t u w ms)" "every (prompts p) (time_now H)" "every (prompts p) (env_var H k)"
  "every (prompts p) (new_uuid H)"
  "every (prompts p) (publish H t (PJson j))" "every (prompts p) (publish H t (PIpc (AgentResponse text f s)))"
  "every (prompts p) (publish H t (PIpc (LlmRequest rid model msgs tools p)))"
  by (auto simp: host_defs prompts_def intro: every_host_call)

lemma prompts_state [everyI]:
  "every (prompts p) (now_ms H)" "every (prompts p) (env_or_empty H k)" "every (prompts p) (get_config_u64 H k n)"
  "every (prompts p) (store_request_session A H rid s)" "every (prompts p) (delete_request_session A H rid)"
  "every (prompts p) (agent_response H text s)" "every (prompts p) (delete_call_sessions H cs)"
  unfolding now_ms_def get_config_u64_def env_or_empty_def store_request_session_def delete_request_session_def
    agent_response_def delete_call_sessions_def checked_def
  by (intro everyI)+

lemma prompts_turn [everyI]:
  "every (prompts p) (load_active_sessions H)" "every (prompts p) (load_turn H s)" "every (prompts p) (reset_turn H st)"
  "every (prompts p) (reset_conversation_turn H st)" "every (prompts p) (cleanup_inflight_mappings A H st)"
  "every (prompts p) (unregister_active_session H s)" "every (prompts p) (save_turn H st)"
  unfolding load_active_sessions_def load_turn_def reset_conversation_turn_def reset_turn_def
    cleanup_inflight_mappings_def unregister_active_session_def save_turn_def checked_def
  by (intro everyI; simp)+

lemma prompts_phase [everyI]: "every (prompts p) (set_phase H ph st)" "every (prompts p) (abort_turn A H st)"
  "every (prompts p) (check_phase_timeout H st)" "every (prompts p) (check_timeout_with_cleanup A H st)"
  unfolding check_timeout_with_cleanup_def check_phase_timeout_def abort_turn_def set_phase_def
  by (intro everyI)+

lemma prompts_model [everyI]: "every (prompts p) (resolve_active_llm H)" "every (prompts p) (compact_messages A H s ms)"
proof -
  have "every (prompts p) (reconcile_model H j)" for j
    unfolding reconcile_model_def by (cases "cached_model_action j") (auto intro!: everyI)
  moreover have "every (prompts p) (cache_limit_if_given H j k)" for j k
    unfolding cache_limit_if_given_def by (cases k) (auto intro!: everyI)
  ultimately show "every (prompts p) (resolve_active_llm H)"
    unfolding resolve_active_llm_def fetch_active_llm_topic_from_registry_def by (intro everyI)
  show "every (prompts p) (compact_messages A H s ms)"
    unfolding compact_messages_def cached_context_window_def cached_max_output_tokens_def by (intro everyI)
qed

lemma prompts_request [everyI]: "system_prompt st = p \<Longrightarrow> every (prompts p) (publish_llm_request A H st ms)"
  unfolding publish_llm_request_def fail_no_model_selected_def by (intro everyI) (auto intro: everyI)

lemma response_prompts:
  assumes "get_str ''system_prompt'' j = Some p"
  shows "every (prompts p) (handle_prompt_response A H j)"
proof -
  have redrive: "every (prompts p) (redrive_if_unready H e a t j)" for e a t
    unfolding redrive_if_unready_def Let_def by (cases j) (auto intro!: everyI)
  have request: "every (prompts p) (do { st2 \<leftarrow> set_phase H Streaming (st\<lparr>system_prompt := p, current_tools := ts\<rparr>);
      try_bind (save_turn H st2) (\<lambda>_. publish_llm_request A H st2 ms) })" for st ts ms
    unfolding set_phase_def by (simp, intro everyI) simp
  show ?thesis
    unfolding handle_prompt_response_def assms option.case Let_def
    by (intro everyI redrive request)
qed

text \<open>
  C13: No text of a capsule without the capability reaches the model.  Across both capsules and on every
  pair of hosts: when the loop handles the answer of the builder to a request with an id, each
  generation request it publishes has as its system prompt the one built from the request's own prompt
  and those contributions whose source the kernel granted \<open>allow_prompt_injection\<close> in the run of the
  builder.\<close>

theorem model_prompt_gated:
  assumes "decode_assemble_request (or_default payload (jget ''data'' payload)) = Some rq" and "ar_request_id rq \<noteq> []"
    and "answer \<in> set (pubs_on PB_RESPONSE_TOPIC (new_events (assemble X B fuel payload c) tr))"
    and "EvPub topic (PIpc (LlmRequest rid model ms tools prompt)) r \<in> set (new_events (handle_prompt_response A H answer) tr')"
  shows "prompt = (let evs = new_events (assemble X B fuel payload c) tr in
    system_of (ar_system_prompt rq) (map sr_response (filter (may_inject evs) (sourced_in B (pb_hook_topic rq) evs))))"
proof -
  let ?evs = "new_events (assemble X B fuel payload c) tr"
  have "get_str ''system_prompt'' answer = Some (mp_system_prompt (gated_prompt B rq ?evs))"
    using assembled [OF assms(1,2), of X B fuel c tr] assms(3) by (auto simp: assemble_response_def get_str_def)
  from every_new_events [OF response_prompts [OF this]] assms(4)
  have "prompts (mp_system_prompt (gated_prompt B rq ?evs)) (EvPub topic (PIpc (LlmRequest rid model ms tools prompt)) r)"
    unfolding list_all_iff by blast
  then show ?thesis by (simp add: prompts_def gated_prompt_def Let_def)
qed

text \<open>On a calm host a waiting turn with a model override does send its request.\<close>

context calm_react
begin

lemma request_sent:
  assumes "nonblank (request_model_override st) = Some m"
  shows "wp (publish_llm_request A H st ms) (\<lambda>_ t. \<exists>topic msgs rest.
     t = EvPub topic (PIpc (LlmRequest (request_id st) m msgs (current_tools st) (system_prompt st))) None # rest) tr"
proof -
  have m: "resolve_request_model (request_model_override st) active = Some m" for active
    using assms by (simp add: resolve_request_model_def)
  have any: "wp n (\<lambda>_ _. True) t" for n :: "'x rio" and t by (simp add: wp_iff)
  show ?thesis
    unfolding publish_llm_request_def m
    by (rule wp_bind, rule wp_mono [OF any], simp only: option.case, rule wp_bind, rule wp_mono [OF any])
      (simp add: wp_iff store_request_session_def checked_def try_bind_def)
qed

lemma prompt_sent:
  assumes "phase_of (turn_of tr s) = AwaitingPromptBuild" "nonblank (request_model_override (turn_of tr s)) = Some m"
    and "or_default DEFAULT_SESSION_ID (get_str ''session_id'' j) = s"
  shows "wp (handle_prompt_response A H j) (\<lambda>_ t. \<exists>topic msgs rest.
     t = EvPub topic (PIpc (LlmRequest (request_id (turn_of tr s)) m msgs
       (parse_json_array_field j ''tools'' (tool_from_value A))
       (or_default (system_prompt (turn_of tr s)) (get_str ''system_prompt'' j)))) None # rest) tr"
  unfolding handle_prompt_response_def assms(3) Let_def
  apply (rule wp_bind, rule wp_load, rule wp_try_bind, rule wp_calm_timeout, simp add: assms)
  apply (simp only: sum.inject sum.distinct simp_thms all_simps prod.case if_False assms(1) redrive_ready State_Monad.bind_left_identity)
  apply (rule wp_bind, rule wp_phase, simp, rule wp_try_bind, rule wp_save)
  apply (simp only: sum.inject sum.distinct simp_thms all_simps)
  apply (rule wp_mono, rule request_sent [where m = m])
   apply (simp add: assms split: option.split)
  apply (elim exE)
  apply (simp split: option.split)
  done

end

definition waiting_default :: rtrace where
  "waiting_default = [EvSet (turn_key DEFAULT_SESSION_ID) (VTurn (default_turn\<lparr>session_id := DEFAULT_SESSION_ID,
     phase_of := AwaitingPromptBuild, request_model_override := Some ''m''\<rparr>)) None]"

lemma waiting_turn: "phase_of (turn_of waiting_default DEFAULT_SESSION_ID) = AwaitingPromptBuild"
    "nonblank (request_model_override (turn_of waiting_default DEFAULT_SESSION_ID)) = Some ''m''"
  by code_simp+

lemma waiting_sent:
  assumes "get_str ''session_id'' j = None"
  obtains topic rid ms tools p where
    "EvPub topic (PIpc (LlmRequest rid ''m'' ms tools p)) None \<in> set (new_events (handle_prompt_response demo_sdk demo_react j) waiting_default)"
proof -
  obtain evs where evs: "final_trace (handle_prompt_response demo_sdk demo_react j) waiting_default = evs @ waiting_default"
    using step_proper [of demo_sdk demo_react "PromptResponse j"] by (auto simp: every_def final_trace_def)
  have "or_default DEFAULT_SESSION_ID (get_str ''session_id'' j) = DEFAULT_SESSION_ID" using assms by simp
  from wp_final [OF demo_calm.prompt_sent [OF waiting_turn this]] obtain topic rid ms tools p rest where
    last: "evs @ waiting_default = EvPub topic (PIpc (LlmRequest rid ''m'' ms tools p)) None # rest"
    unfolding evs by metis
  have "EvPub topic (PIpc (LlmRequest rid ''m'' ms tools p)) None \<in> set evs"
    using last by (cases evs) (auto simp: waiting_default_def)
  then show ?thesis using that by (simp add: new_events_def evs)
qed

lemma model_prompt_gated_witness:
  "\<exists>topic rid ms tools answer. EvPub topic (PIpc (LlmRequest rid ''m'' ms tools (''be kind'' @ [CHR 0x0A] @ ''A''))) None \<in>
     set (new_events (handle_prompt_response demo_sdk demo_react answer) waiting_default)"
proof -
  obtain answer where answer: "answer \<in> set (pubs_on PB_RESPONSE_TOPIC (new_events (assemble (\<lambda>j. []) two_plugins 2 demo_assemble default_builder) []))"
      "get_str ''session_id'' answer = None"
    unfolding two_plugins_run by (simp add: assemble_response_def get_str_def non_empty_member_def)
  obtain topic rid ms tools p where sent:
    "EvPub topic (PIpc (LlmRequest rid ''m'' ms tools p)) None \<in> set (new_events (handle_prompt_response demo_sdk demo_react answer) waiting_default)"
    using waiting_sent [OF answer(2)] by metis
  have "p = ''be kind'' @ [CHR 0x0A] @ ''A''"
    using model_prompt_gated [OF demo_request _ answer(1) sent] two_plugins_gated by (simp add: gated_prompt_def Let_def)
  with sent show ?thesis by metis
qed

subsection \<open>The error answers\<close>

lemma error_answer:
  assumes "\<And>rq. decode_assemble_request (or_default payload (jget ''data'' payload)) = Some rq \<Longrightarrow> ar_request_id rq = []"
  shows "\<exists>text. pubs_on PB_RESPONSE_TOPIC (new_events (assemble X B fuel payload c) tr) = [JObj [(''error'', JStr text)]]"
  using assms
  by (cases "decode_assemble_request (or_default payload (jget ''data'' payload))")
    (simp_all add: assemble_def new_events_def final_trace_def host_defs Let_def)

text \<open>
  C29: The loop takes an error of the builder for a prompt.  The error answer to an assemble request of
  any sender names no session and no prompt; on a calm host, when the turn of the default session waits
  for its own prompt and has a model override, handling that answer sends the generation request of the
  turn at once: with no tools, and with the prompt it had before the plugins were asked.\<close>

theorem prompt_error_starts_generation:
  assumes "calm_react R A"
    and "case decode_assemble_request (or_default payload (jget ''data'' payload)) of None \<Rightarrow> True | Some rq \<Rightarrow> ar_request_id rq = []"
    and "answer \<in> set (pubs_on PB_RESPONSE_TOPIC (new_events (assemble X B fuel payload c) tr))"
    and "phase_of (turn_of tr' DEFAULT_SESSION_ID) = AwaitingPromptBuild"
    and "nonblank (request_model_override (turn_of tr' DEFAULT_SESSION_ID)) = Some m"
  shows "\<exists>topic msgs rest. final_trace (handle_prompt_response A R answer) tr' = EvPub topic (PIpc (LlmRequest
     (request_id (turn_of tr' DEFAULT_SESSION_ID)) m msgs [] (system_prompt (turn_of tr' DEFAULT_SESSION_ID)))) None # rest"
proof -
  obtain why where "answer = JObj [(''error'', JStr why)]"
    using error_answer [of payload X B fuel c tr] assms(2,3) by (auto split: option.splits)
  then have fields: "get_str ''session_id'' answer = None" "get_str ''system_prompt'' answer = None"
      "parse_json_array_field answer ''tools'' (tool_from_value A) = []"
    by (simp_all add: get_str_def parse_json_array_field_def get_arr_def)
  then show ?thesis
    using wp_final [OF calm_react.prompt_sent [OF assms(1,4,5)], of answer] by simp
qed

lemma prompt_error_starts_generation_witness:
  "\<exists>topic msgs rest. final_trace (handle_prompt_response demo_sdk demo_react (JObj [(''error'', JStr ''invalid request: '')])) waiting_default =
     EvPub topic (PIpc (LlmRequest (request_id (turn_of waiting_default DEFAULT_SESSION_ID)) ''m'' msgs []
       (system_prompt (turn_of waiting_default DEFAULT_SESSION_ID)))) None # rest"
proof -
  have bad: "decode_assemble_request (or_default JNull (jget ''data'' JNull)) = None" by code_simp
  have answer: "JObj [(''error'', JStr ''invalid request: '')] \<in>
      set (pubs_on PB_RESPONSE_TOPIC (new_events (assemble (\<lambda>j. []) mem_host 0 JNull default_builder) []))"
    by (simp add: assemble_def bad new_events_def host_defs final_trace_def Let_def del: jget.simps)
  show ?thesis
    by (rule prompt_error_starts_generation [OF demo_calm.calm_react_axioms _ answer waiting_turn]) (simp add: bad del: jget.simps)
qed

end
