(* ===== verification/Hook_Ingress.thy ===== *)
theory Hook_Ingress
  imports Identity Wire "HOL-Library.Word"
begin

text \<open>
  The host-hook ingress of the MCP capsule (\<open>capsules/capsule-mcp/src/host_hooks.rs\<close>): a hook of an
  outside host is released onto the bus, without its token, when it names the calling principal and
  carries the token of its session; the answer of the bridge is relayed to the call that waits for it.

  The first hook of a session registers its token; the store holds it under the key of host and
  session.  \<open>B\<close> is BLAKE3: the lower-case hex digest of the bytes it is fed.  Log calls are not modelled.
\<close>

unbundle bit_operations_syntax

definition MAX_PAYLOAD_BYTES :: nat where "MAX_PAYLOAD_BYTES = 1024 * 1024"
definition MAX_CONTEXT_BYTES :: nat where "MAX_CONTEXT_BYTES = 64 * 1024"
definition TOKEN_MIN_BYTES :: nat where "TOKEN_MIN_BYTES = 32"
definition TOKEN_MAX_BYTES :: nat where "TOKEN_MAX_BYTES = 128"

subsection \<open>Data\<close>

record host_hook_request =
  hq_schema_version :: nat
  hq_principal_id :: string
  hq_host :: string
  hq_session_id :: string
  hq_event :: string
  hq_correlation_id :: string
  hq_route_id :: string
  hq_delivery_id :: string
  hq_turn_id :: "string option"
  hq_workspace_id :: "string option"
  hq_payload :: json
  hq_token :: string

definition ju8 :: "json \<Rightarrow> nat option" where
  "ju8 j = Option.bind (ju64 j) (\<lambda>n. if n < 256 then Some n else None)"

definition decode_hook_request :: "json \<Rightarrow> host_hook_request option" where
  "decode_hook_request j = (if \<not> struct_shape 12 j then None else do {
     version \<leftarrow> Option.bind (field 0 ''schema_version'' j) ju8;
     principal \<leftarrow> req_string 1 ''principal_id'' j;
     host \<leftarrow> req_string 2 ''host'' j;
     session \<leftarrow> req_string 3 ''session_id'' j;
     event \<leftarrow> req_string 4 ''event'' j;
     corr \<leftarrow> req_string 5 ''correlation_id'' j;
     route \<leftarrow> req_string 6 ''route_id'' j;
     delivery \<leftarrow> req_string 7 ''delivery_id'' j;
     turn \<leftarrow> maybe_string 8 ''turn_id'' j;
     workspace \<leftarrow> maybe_string 9 ''workspace_id'' j;
     payload \<leftarrow> field 10 ''payload'' j;
     token \<leftarrow> req_string 11 ''token'' j;
     Some \<lparr>hq_schema_version = version, hq_principal_id = principal, hq_host = host, hq_session_id = session,
       hq_event = event, hq_correlation_id = corr, hq_route_id = route, hq_delivery_id = delivery,
       hq_turn_id = turn, hq_workspace_id = workspace, hq_payload = payload, hq_token = token\<rparr>
   })"

definition str_member :: "string \<Rightarrow> string option \<Rightarrow> (string \<times> json) list" where
  "str_member k v = (case v of None \<Rightarrow> [] | Some s \<Rightarrow> [(k, JStr s)])"

definition validated_hook :: "host_hook_request \<Rightarrow> json" where
  "validated_hook rq = JObj ([(''schema_version'', JInt 1), (''principal_id'', JStr (hq_principal_id rq)),
     (''host'', JStr (hq_host rq)), (''session_id'', JStr (hq_session_id rq)), (''event'', JStr (hq_event rq)),
     (''correlation_id'', JStr (hq_correlation_id rq)), (''route_id'', JStr (hq_route_id rq)),
     (''delivery_id'', JStr (hq_delivery_id rq))] @
     str_member ''turn_id'' (hq_turn_id rq) @ str_member ''workspace_id'' (hq_workspace_id rq) @
     [(''payload'', hq_payload rq)])"

record host_hook_response =
  hp_schema_version :: nat
  hp_principal_id :: string
  hp_host :: string
  hp_session_id :: string
  hp_event :: "string option"
  hp_correlation_id :: string
  hp_route_id :: string
  hp_delivery_id :: string
  hp_context :: "string option"

definition decode_hook_response :: "json \<Rightarrow> host_hook_response option" where
  "decode_hook_response j = (if \<not> struct_shape 9 j then None else do {
     version \<leftarrow> Option.bind (field 0 ''schema_version'' j) ju8;
     principal \<leftarrow> req_string 1 ''principal_id'' j;
     host \<leftarrow> req_string 2 ''host'' j;
     session \<leftarrow> req_string 3 ''session_id'' j;
     event \<leftarrow> maybe_string 4 ''event'' j;
     corr \<leftarrow> req_string 5 ''correlation_id'' j;
     route \<leftarrow> req_string 6 ''route_id'' j;
     delivery \<leftarrow> req_string 7 ''delivery_id'' j;
     context \<leftarrow> maybe_string 8 ''context'' j;
     Some \<lparr>hp_schema_version = version, hp_principal_id = principal, hp_host = host, hp_session_id = session,
       hp_event = event, hp_correlation_id = corr, hp_route_id = route, hp_delivery_id = delivery, hp_context = context\<rparr>
   })"

definition hook_response_json :: "host_hook_response \<Rightarrow> json" where
  "hook_response_json p = JObj ([(''schema_version'', JInt (int (hp_schema_version p))), (''principal_id'', JStr (hp_principal_id p)),
     (''host'', JStr (hp_host p)), (''session_id'', JStr (hp_session_id p))] @ str_member ''event'' (hp_event p) @
     [(''correlation_id'', JStr (hp_correlation_id p)), (''route_id'', JStr (hp_route_id p)),
     (''delivery_id'', JStr (hp_delivery_id p))] @ str_member ''context'' (hp_context p))"

subsection \<open>Validation\<close>

definition is_segment :: "string \<Rightarrow> nat \<Rightarrow> bool" where
  "is_segment v mx \<longleftrightarrow> v \<noteq> [] \<and> length v \<le> mx \<and> list_all segment_char v"

definition is_hex_text :: "string \<Rightarrow> nat \<Rightarrow> bool" where
  "is_hex_text v n \<longleftrightarrow> length v = n \<and>
     list_all (\<lambda>c. let b = (of_char c :: nat) in 48 \<le> b \<and> b \<le> 57 \<or> 97 \<le> b \<and> b \<le> 102) v"

definition is_host :: "string \<Rightarrow> bool" where
  "is_host h \<longleftrightarrow> h \<in> set [''codex'', ''claude'', ''grok'']"

definition derive_route_id :: "(string \<Rightarrow> string) \<Rightarrow> string \<Rightarrow> string \<Rightarrow> string \<Rightarrow> string" where
  "derive_route_id B host session token = B (''unicity-aos-hook-route-v1'' @ [CHR 0x00] @ host @ [CHR 0x00] @
     session @ [CHR 0x00] @ token)"

definition validate_delivery_fields :: "string \<Rightarrow> string \<Rightarrow> string \<Rightarrow> string \<Rightarrow> string + unit" where
  "validate_delivery_fields session corr route delivery =
     (if \<not> is_segment session 128 \<or> \<not> is_segment delivery 128 then Inl ''invalid_segment''
      else if \<not> is_hex_text corr 32 \<or> \<not> is_hex_text route 64 then Inl ''invalid_route''
      else if delivery \<noteq> route @ ''-'' @ corr then Inl ''delivery_mismatch''
      else Inr ())"

definition validate_route_fields :: "string \<Rightarrow> string \<Rightarrow> string \<Rightarrow> string \<Rightarrow> string \<Rightarrow> string + unit" where
  "validate_route_fields session event corr route delivery =
     (if \<not> is_segment event 128 then Inl ''invalid_segment''
      else validate_delivery_fields session corr route delivery)"

definition validate_hook_request ::
  "(string \<Rightarrow> string) \<Rightarrow> (json \<Rightarrow> string) \<Rightarrow> string \<Rightarrow> host_hook_request \<Rightarrow> string + unit" where
  "validate_hook_request B render expected_host rq =
     (if hq_schema_version rq \<noteq> 1 then Inl ''unsupported_schema''
      else if hq_host rq \<noteq> expected_host \<or> \<not> is_host (hq_host rq) then Inl ''host_mismatch''
      else case validate_route_fields (hq_session_id rq) (hq_event rq) (hq_correlation_id rq) (hq_route_id rq) (hq_delivery_id rq) of
        Inl reason \<Rightarrow> Inl reason
      | Inr _ \<Rightarrow>
         if length (hq_token rq) < TOKEN_MIN_BYTES \<or> TOKEN_MAX_BYTES < length (hq_token rq) \<or>
           \<not> list_all ascii_alnum (hq_token rq) then Inl ''invalid_token_shape''
         else if derive_route_id B (hq_host rq) (hq_session_id rq) (hq_token rq) \<noteq> hq_route_id rq then Inl ''route_mismatch''
         else if (case hq_workspace_id rq of None \<Rightarrow> False | Some w \<Rightarrow> \<not> is_segment w 128) \<or>
           (case hq_turn_id rq of None \<Rightarrow> False | Some t \<Rightarrow> t = [] \<or> 256 < length t) then Inl ''invalid_metadata''
         else if MAX_PAYLOAD_BYTES < length (render (hq_payload rq)) then Inl ''payload_too_large''
         else Inr ())"

definition validate_response_shape :: "host_hook_response \<Rightarrow> string + unit" where
  "validate_response_shape p =
     (if hp_schema_version p \<noteq> 1 then Inl ''unsupported_schema''
      else if \<not> is_host (hp_host p) then Inl ''unsupported_host''
      else if (case hp_event p of None \<Rightarrow> False | Some e \<Rightarrow> \<not> is_segment e 128) then Inl ''invalid_event''
      else case validate_delivery_fields (hp_session_id p) (hp_correlation_id p) (hp_route_id p) (hp_delivery_id p) of
        Inl reason \<Rightarrow> Inl reason
      | Inr _ \<Rightarrow>
         if (case hp_context p of None \<Rightarrow> False | Some c \<Rightarrow> MAX_CONTEXT_BYTES < length c) then Inl ''context_too_large''
         else Inr ())"

subsection \<open>Tokens\<close>

definition hook_token_key :: "string \<Rightarrow> string \<Rightarrow> string" where
  "hook_token_key host session = ''oracle.hook_token.'' @ host @ ''.'' @ session"

definition can_register :: "string \<Rightarrow> bool" where
  "can_register event \<longleftrightarrow> event \<in> set [''session_start'', ''user_prompt_submit'']"

text \<open>The comparison looks at every byte, whatever it finds.\<close>

definition byte_of :: "char \<Rightarrow> 8 word" where
  "byte_of c = word_of_nat (of_char c)"

definition tokens_match :: "string \<Rightarrow> string \<Rightarrow> bool" where
  "tokens_match claimed expected = (if length claimed \<noteq> length expected then False
     else foldl (\<lambda>difference (left, right). difference OR (byte_of left XOR byte_of right)) 0 (zip claimed expected) = 0)"

definition authenticate_token :: "bhost \<Rightarrow> string \<Rightarrow> host_hook_request \<Rightarrow> (host_error + bool) bio" where
  "authenticate_token H key rq = try_bind (kv_get H key) (\<lambda>stored. case stored of
       Some expected \<Rightarrow> ret (Inr (tokens_match (hq_token rq) expected))
     | None \<Rightarrow>
         if can_register (hq_event rq) then
           try_bind (kv_cas H key None (hq_token rq)) (\<lambda>won.
             if won then ret (Inr True)
             else try_bind (kv_get H key) (\<lambda>again.
               ret (Inr (case again of None \<Rightarrow> False | Some expected \<Rightarrow> tokens_match (hq_token rq) expected))))
         else ret (Inr False))"

subsection \<open>The interceptors\<close>

text \<open>The longest prefix of at most 128 bytes that ends at a character boundary.\<close>

fun char_floor :: "string \<Rightarrow> nat \<Rightarrow> nat" where
  "char_floor s 0 = 0"
| "char_floor s (Suc n) = (if length s \<le> Suc n \<or> \<not> is_cont (s ! Suc n) then Suc n else char_floor s n)"

definition bounded_audit :: "string \<Rightarrow> string" where
  "bounded_audit v = take (char_floor v (min (length v) 128)) v"

definition reject_hook :: "bhost \<Rightarrow> string \<Rightarrow> string \<Rightarrow> string \<Rightarrow> (host_error + unit) bio" where
  "reject_hook H host event reason = do {
     _ \<leftarrow> publish H ''astrid.v1.audit.hook_ingress_rejected'' (JObj [(''host'', JStr (bounded_audit host)),
       (''event'', JStr (bounded_audit event)), (''reason'', JStr reason)]);
     ret (Inr ())
   }"

definition publish_hook :: "bhost \<Rightarrow> string \<Rightarrow> json \<Rightarrow> (host_error + unit) bio" where
  "publish_hook H t m = do { r \<leftarrow> publish H t m; ret (case r of None \<Rightarrow> Inr () | Some e \<Rightarrow> Inl e) }"

definition handle_host_hook :: "(string \<Rightarrow> string) \<Rightarrow> bhost \<Rightarrow> string \<Rightarrow> json \<Rightarrow> (host_error + unit) bio" where
  "handle_host_hook B H expected_host payload = (case decode_hook_request payload of
     None \<Rightarrow> reject_hook H expected_host ''unknown'' ''malformed_payload''
   | Some rq \<Rightarrow> (case validate_hook_request B (h_render H) expected_host rq of
       Inl reason \<Rightarrow> reject_hook H expected_host (hq_event rq) reason
     | Inr _ \<Rightarrow> do {
         who \<leftarrow> runtime_caller H;
         case who of
           Inl e \<Rightarrow> reject_hook H expected_host (hq_event rq) ''caller_unavailable''
         | Inr ctx \<Rightarrow>
             if caller_principal ctx \<noteq> Some (hq_principal_id rq)
             then reject_hook H expected_host (hq_event rq) ''principal_mismatch''
             else try_bind (authenticate_token H (hook_token_key expected_host (hq_session_id rq)) rq) (\<lambda>ok.
               if \<not> ok then reject_hook H expected_host (hq_event rq) ''token_mismatch''
               else publish_hook H (''oracle.v1.hook.validated.'' @ expected_host) (validated_hook rq))
       }))"

definition relay_hook_response :: "(string \<Rightarrow> string) \<Rightarrow> bhost \<Rightarrow> json \<Rightarrow> (host_error + unit) bio" where
  "relay_hook_response B H payload = (case decode_hook_response payload of
     None \<Rightarrow> reject_hook H ''unknown'' ''unknown'' ''malformed_response''
   | Some p \<Rightarrow>
      (let event = or_default ''unknown'' (hp_event p);
           key = hook_token_key (hp_host p) (hp_session_id p) in
       case validate_response_shape p of
         Inl reason \<Rightarrow> reject_hook H (hp_host p) event reason
       | Inr _ \<Rightarrow> do {
           who \<leftarrow> runtime_caller H;
           case who of
             Inl e \<Rightarrow> reject_hook H (hp_host p) event ''caller_unavailable''
           | Inr ctx \<Rightarrow>
               if caller_principal ctx \<noteq> Some (hp_principal_id p)
               then reject_hook H (hp_host p) event ''principal_mismatch''
               else try_bind (kv_get H key) (\<lambda>stored. case stored of
                   None \<Rightarrow> reject_hook H (hp_host p) event ''unknown_session_route''
                 | Some bytes \<Rightarrow> (case from_utf8 bytes of
                     None \<Rightarrow> reject_hook H (hp_host p) event ''invalid_stored_route''
                   | Some token \<Rightarrow>
                       if derive_route_id B (hp_host p) (hp_session_id p) token \<noteq> hp_route_id p
                       then reject_hook H (hp_host p) event ''route_mismatch''
                       else try_bind (publish_hook H (''astrid.v1.response.'' @ hp_delivery_id p) (hook_response_json p)) (\<lambda>_.
                         if hp_event p = Some ''stop'' \<or> hp_event p = Some ''session_end''
                         then do { _ \<leftarrow> kv_delete H key; ret (Inr ()) }
                         else ret (Inr ()))))
         }))"

end
