(* ===== verification/Hook_Ingress_Spec.thy ===== *)
theory Hook_Ingress_Spec
  imports Hook_Ingress Hook_Bridge_Spec
begin

text \<open>
  The host-hook ingress, properties: a hook is released only for the calling principal with the token of
  its session; a registered token is never replaced and is retired only by a relayed end of the session;
  and the round trip through the hook bridge: what the ingress releases the bridge accepts, and what the
  bridge answers is relayed to the call that waits for it.
\<close>

subsection \<open>Tokens\<close>

lemma byte_of_inj [simp]: "byte_of a = byte_of b \<longleftrightarrow> a = b"
proof
  assume "byte_of a = byte_of b"
  then have "unat (byte_of a) = unat (byte_of b)" by simp
  then have "(of_char a :: nat) = of_char b" by (simp add: byte_of_def unat_of_nat take_bit_eq_mod)
  then show "a = b" by simp
qed simp

lemma xor_zero_iff: "(a XOR b = 0) = (a = (b :: 8 word))"
proof
  assume zero: "a XOR b = 0"
  have "(a XOR b) XOR b = a" by (simp only: xor.assoc xor_self_eq xor.right_neutral)
  then show "a = b" by (simp add: zero)
qed simp

lemma fold_difference:
  "foldl (\<lambda>d (l, r). d OR (byte_of l XOR byte_of r)) d zs = 0 \<longleftrightarrow> d = 0 \<and> list_all (\<lambda>(l, r). l = r) zs"
proof (induction zs arbitrary: d)
  case (Cons z zs)
  then show ?case by (cases z) (simp add: or_eq_0_iff xor_zero_iff)
qed simp

lemma tokens_match_eq [simp]: "tokens_match a b \<longleftrightarrow> a = b"
proof -
  have "list_all (\<lambda>(l, r). l = r) (zip a b) \<longleftrightarrow> a = b" if "length a = length b"
    using that by (induction a b rule: list_induct2) auto
  then show ?thesis by (auto simp: tokens_match_def fold_difference)
qed

lemma segment_eq: "is_segment = is_clean_segment" "is_hex_text = is_lower_hex"
  by (simp_all add: fun_eq_iff is_segment_def is_clean_segment_def is_hex_text_def is_lower_hex_def lower_hex_char_def [abs_def] Let_def)

subsection \<open>Who may release a hook\<close>

definition hook_key :: "host_hook_request \<Rightarrow> string" where
  "hook_key rq = hook_token_key (hq_host rq) (hq_session_id rq)"

definition AUDIT_REJECTED :: string where "AUDIT_REJECTED = ''astrid.v1.audit.hook_ingress_rejected''"

text \<open>The calls of one run, newest first, and the store after them: only a registration writes.\<close>

definition token_shown :: "host_hook_request \<Rightarrow> btrace \<Rightarrow> bool" where
  "token_shown rq evs \<longleftrightarrow> EvGet (hook_key rq) (Inr (Some (hq_token rq))) \<in> set evs \<or>
     (can_register (hq_event rq) \<and> EvCas (hook_key rq) None (hq_token rq) (Inr True) \<in> set evs)"

fun ingress_call :: "(string, json) event \<Rightarrow> bool" where
  "ingress_call (EvGet k r) = True"
| "ingress_call (EvCas k old v r) = (old = None)"
| "ingress_call (EvCaller r) = True"
| "ingress_call _ = False"

lemma ingress_quiet: "list_all ingress_call evs \<Longrightarrow> pubs evs = []"
  by (induction evs) (auto elim!: ingress_call.elims)

lemma authenticate_run:
  "wp (authenticate_token H (hook_key rq) rq) (\<lambda>r tr'. \<exists>evs. tr' = evs @ tr \<and> list_all ingress_call evs \<and>
     (r = Inr True \<longrightarrow> token_shown rq evs)) tr"
  unfolding authenticate_token_def
  by (intro wpI) (auto simp: token_shown_def intro: exI [where x = "[_]"] exI [where x = "[_, _]"] exI [where x = "[_, _, _]"]
      split: option.splits intro!: wpI)

lemma reject_run:
  "wp (reject_hook H host event reason) (\<lambda>_ tr'. \<exists>m e. tr' = EvPub AUDIT_REJECTED m e # tr) tr"
  by (auto simp: reject_hook_def AUDIT_REJECTED_def intro!: wpI)

text \<open>The outcomes of a run: a rejection, a failed store call, or the release of one authenticated hook.\<close>

definition VALIDATED :: "string \<Rightarrow> string" where "VALIDATED host = ''oracle.v1.hook.validated.'' @ host"

definition released :: "(string \<Rightarrow> string) \<Rightarrow> bhost \<Rightarrow> string \<Rightarrow> json \<Rightarrow> btrace \<Rightarrow> json list \<Rightarrow> bool" where
  "released B H host payload evs ms \<longleftrightarrow> (\<exists>rq w. decode_hook_request payload = Some rq \<and>
     validate_hook_request B (h_render H) host rq = Inr () \<and> EvCaller (Inr w) \<in> set evs \<and>
     caller_principal w = Some (hq_principal_id rq) \<and> token_shown rq evs \<and> ms = [validated_hook rq])"

definition ingress_outcome :: "(string \<Rightarrow> string) \<Rightarrow> bhost \<Rightarrow> string \<Rightarrow> json \<Rightarrow> btrace \<Rightarrow> bool" where
  "ingress_outcome B H host payload evs \<longleftrightarrow>
     list_all (\<lambda>e. ingress_call e \<or> (\<exists>t m r. e = EvPub t m r \<and> t \<in> {VALIDATED host, AUDIT_REJECTED})) evs \<and>
     (pubs_on (VALIDATED host) evs = [] \<or> released B H host payload evs (pubs_on (VALIDATED host) evs))"

lemma other_topics [simp]: "VALIDATED host \<noteq> AUDIT_REJECTED" "AUDIT_REJECTED \<noteq> VALIDATED host"
  by (simp_all add: VALIDATED_def AUDIT_REJECTED_def)

lemma calls_outcome: "list_all ingress_call evs \<Longrightarrow> ingress_outcome B H host payload evs"
    "list_all ingress_call evs \<Longrightarrow> ingress_outcome B H host payload (EvPub AUDIT_REJECTED m e # evs)"
  by (auto simp: ingress_outcome_def ingress_quiet pubs_on_def elim: list.pred_mono_strong)

lemma reject_outcome:
  assumes "list_all ingress_call evs"
  shows "wp (reject_hook H h event reason) (\<lambda>_ tr'. \<exists>evs. tr' = evs @ tr \<and> ingress_outcome B H host payload evs) (evs @ tr)"
proof (rule wp_mono [OF reject_run], elim exE)
  fix t m e assume "t = EvPub AUDIT_REJECTED m e # evs @ tr"
  then show "\<exists>evs. t = evs @ tr \<and> ingress_outcome B H host payload evs"
    using calls_outcome(2) [OF assms] by (metis append_Cons)
qed

lemma validated_host: "validate_hook_request B render host rq = Inr () \<Longrightarrow> hq_host rq = host \<and> is_host host"
  by (auto simp: validate_hook_request_def split: if_splits)

lemma handle_hook_run:
  "wp (handle_host_hook B H host payload) (\<lambda>_ tr'. \<exists>evs. tr' = evs @ tr \<and> ingress_outcome B H host payload evs) tr"
proof (cases "decode_hook_request payload")
  case None
  then show ?thesis using reject_outcome [of "[]"] by (simp add: handle_host_hook_def)
next
  case (Some rq)
  show ?thesis
  proof (cases "validate_hook_request B (h_render H) host rq")
    case (Inl reason)
    then show ?thesis using Some reject_outcome [of "[]"] by (simp add: handle_host_hook_def)
  next
    case (Inr u)
    have valid: "validate_hook_request B (h_render H) host rq = Inr ()" using Inr by simp
    have key: "hook_token_key host (hq_session_id rq) = hook_key rq"
      using validated_host [OF valid] by (simp add: hook_key_def)
    let ?post = "\<lambda>_ tr'. \<exists>evs. tr' = evs @ tr \<and> ingress_outcome B H host payload evs"
    have rejected: "wp (reject_hook H host event reason) ?post (EvCaller r # tr)" for event reason r
      using reject_outcome [of "[EvCaller r]"] by simp
    have decided: "wp (if \<not> ok then reject_hook H host (hq_event rq) ''token_mismatch''
        else publish_hook H (''oracle.v1.hook.validated.'' @ host) (validated_hook rq)) ?post (evs @ EvCaller (Inr w) # tr)"
      if "list_all ingress_call evs" "ok \<longrightarrow> token_shown rq evs" "caller_principal w = Some (hq_principal_id rq)" for ok evs w
    proof (cases ok)
      case True
      have "ingress_outcome B H host payload (EvPub (VALIDATED host) (validated_hook rq) e # evs @ [EvCaller (Inr w)])" for e
        using that True Some valid
        by (auto simp: ingress_outcome_def released_def ingress_quiet pubs_on_def token_shown_def elim!: list.pred_mono_strong)
      then show ?thesis
        using True by (auto simp: publish_hook_def VALIDATED_def intro!: wpI exI [where x = "EvPub _ _ _ # evs @ [EvCaller (Inr w)]"])
    next
      case False
      then show ?thesis using reject_outcome [of "evs @ [EvCaller (Inr w)]"] that by simp
    qed
    have checked: "wp (try_bind (authenticate_token H (hook_key rq) rq) (\<lambda>ok.
        if \<not> ok then reject_hook H host (hq_event rq) ''token_mismatch''
        else publish_hook H (''oracle.v1.hook.validated.'' @ host) (validated_hook rq))) ?post (EvCaller (Inr w) # tr)"
      if "caller_principal w = Some (hq_principal_id rq)" for w
    proof (rule wp_try_bind, rule wp_mono [OF authenticate_run], elim exE conjE, intro conjI allI impI)
      fix r t evs e assume "t = evs @ EvCaller (Inr w) # tr" "list_all ingress_call evs" "r = Inl (e :: host_error)"
      then show "?post (Inl e :: host_error + unit) t"
        by (intro exI [where x = "evs @ [EvCaller (Inr w)]"]) (simp add: calls_outcome)
    next
      fix r t evs ok assume "t = evs @ EvCaller (Inr w) # tr" "list_all ingress_call evs" "r = Inr True \<longrightarrow> token_shown rq evs" "r = Inr ok"
      then show "wp (if \<not> ok then reject_hook H host (hq_event rq) ''token_mismatch''
          else publish_hook H (''oracle.v1.hook.validated.'' @ host) (validated_hook rq)) ?post t"
        using decided [of evs ok w] that by auto
    qed
    show ?thesis
      unfolding handle_host_hook_def Some Inr option.case sum.case key
      by (intro wp_bind wp_caller wp_case_sum wp_if rejected) (drule notnotD, simp only:, erule checked)
  qed
qed

text \<open>
  C17: A hook of an outside host is released only with proof.  On every host, whatever is sent to the
  ingress of \<open>host\<close>: one run publishes rejections and at most one validated hook; that one is of a
  request that decodes and passes the validation, that names the principal which the kernel attributes
  to the caller, and whose token the store returned for its session or was stored by this run where the
  store had none, which only the two events that open a session may do; and the run writes nothing else.\<close>

theorem hook_ingress_authenticated:
  "ingress_outcome B H host payload (new_events (handle_host_hook B H host payload) tr)"
  by (rule wp_new_events [where P = "ingress_outcome B H host payload"], rule wp_mono [OF handle_hook_run]) auto

subsection \<open>The life of a token\<close>

definition retires :: "(string \<Rightarrow> string) \<Rightarrow> json \<Rightarrow> string \<Rightarrow> string \<Rightarrow> btrace \<Rightarrow> bool" where
  "retires B payload k tok tr \<longleftrightarrow> (\<exists>p. decode_hook_response payload = Some p \<and> k = hook_token_key (hp_host p) (hp_session_id p) \<and>
     hp_event p \<in> {Some ''stop'', Some ''session_end''} \<and> derive_route_id B (hp_host p) (hp_session_id p) tok = hp_route_id p \<and>
     EvPub (''astrid.v1.response.'' @ hp_delivery_id p) (hook_response_json p) None \<in> set tr)"

lemma from_utf8_same: "from_utf8 b = Some t \<Longrightarrow> t = b"
  by (simp add: from_utf8_def split: if_splits)

locale token_store = kv_store H for H :: bhost
begin

lemma reject_keeps: "wp (reject_hook H host event reason) (\<lambda>_ t. kv_view t k = kv_view tr k) tr"
  by (auto simp: reject_hook_def intro!: wpI)

lemma publish_keeps: "wp (publish_hook H t m) (\<lambda>_ t. kv_view t k = kv_view tr k) tr"
  by (auto simp: publish_hook_def intro!: wpI)

lemma authenticate_keeps:
  assumes "kv_view tr k = Some tok"
  shows "wp (authenticate_token H key rq) (\<lambda>_ t. kv_view t k = Some tok) tr"
  supply wp_kv_cas [wpI del]
  unfolding authenticate_token_def
  by (intro wpI) (auto simp: assms split: option.splits sum.splits intro!: wpI wp_cas_view)

lemma handle_keeps:
  assumes "kv_view tr k = Some tok"
  shows "wp (handle_host_hook B H host payload) (\<lambda>_ t. kv_view t k = Some tok) tr"
proof -
  have rejected: "wp (reject_hook H h event reason) (\<lambda>_ t. kv_view t k = Some tok) t"
      and published: "wp (publish_hook H topic m) (\<lambda>_ t. kv_view t k = Some tok) t"
      if "kv_view t k = Some tok" for h event reason topic m t
    using reject_keeps [of h event reason k t] publish_keeps [of topic m k t] that by simp_all
  show ?thesis
    unfolding handle_host_hook_def
    by (intro wpI rejected wp_mono [OF authenticate_keeps]) (auto simp: assms intro: rejected published)
qed

lemma relay_keeps:
  assumes "kv_view tr k = Some tok"
  shows "wp (relay_hook_response B H payload) (\<lambda>_ t. kv_view t k = Some tok \<or> retires B payload k tok t) tr"
proof (cases "decode_hook_response payload")
  case None
  then show ?thesis
    using wp_mono [OF reject_keeps [of "''unknown''" "''unknown''" "''malformed_response''" k tr], of "\<lambda>_ t. kv_view t k = Some tok \<or> retires B payload k tok t"] assms
    by (simp add: relay_hook_response_def)
next
  case (Some p)
  let ?post = "\<lambda>_ t. kv_view t k = Some tok \<or> retires B payload k tok t"
  let ?key = "hook_token_key (hp_host p) (hp_session_id p)"
  have rejected: "wp (reject_hook H h event reason) ?post t" if "kv_view t k = Some tok" for h event reason t
    by (rule wp_mono [OF reject_keeps [of _ _ _ k]]) (simp add: that)
  have deleted: "?post () t"
    if "t = EvDel ?key e # EvPub (''astrid.v1.response.'' @ hp_delivery_id p) (hook_response_json p) None # EvGet ?key (Inr (Some bytes)) # EvCaller r # tr"
      "kv_view tr ?key = Some bytes" "from_utf8 bytes = Some token"
      "derive_route_id B (hp_host p) (hp_session_id p) token = hp_route_id p" "hp_event p \<in> {Some ''stop'', Some ''session_end''}" for e t bytes token r
  proof (cases "k = ?key")
    case True
    then show ?thesis using that assms Some from_utf8_same [OF that(3)] by (auto simp: retires_def)
  next
    case False
    then show ?thesis using that assms by (cases e) auto
  qed
  show ?thesis
    unfolding relay_hook_response_def Some option.case Let_def publish_hook_def
    supply wp_kv_get [wpI del]
    apply (intro wpI wp_get_view rejected, (simp add: assms; fail)+)
    apply (intro conjI allI impI wpI rejected)
    prefer 6
    subgoal for x r ctx ra xa bytes token rb u e
      by (rule deleted [of _ e bytes r token]) (simp_all split: option.split_asm)
    apply (simp_all add: assms)
    done
qed

end

interpretation mem_tokens: token_store mem_host
  by unfold_locales

text \<open>
  C18: A session's token stays until the session's end is relayed.  On a store that keeps its contract,
  whatever either interceptor is sent: the ingress never replaces or removes a token that a session has,
  not even for a hook that may register one; and the relay removes it only after it published, to the
  waiting call, the answer to a \<open>stop\<close> or \<open>session_end\<close> whose route id is derived from that very token.\<close>

theorem session_token_kept:
  assumes "kv_store H" and "kv_view tr k = Some tok"
  shows "kv_view (final_trace (handle_host_hook B H host payload) tr) k = Some tok \<and>
    (kv_view (final_trace (relay_hook_response B H answer) tr) k = Some tok \<or>
     retires B answer k tok (final_trace (relay_hook_response B H answer) tr))"
  using wp_final [OF token_store.handle_keeps [OF token_store.intro [OF assms(1)] assms(2)]]
    wp_final [OF token_store.relay_keeps [OF token_store.intro [OF assms(1)] assms(2)]] by auto

subsection \<open>The round trip through the bridge\<close>

text \<open>The event the bridge sees, and the answer it gives.\<close>

definition event_of :: "host_hook_request \<Rightarrow> oracle_event" where
  "event_of rq = \<lparr>oe_schema_version = 1, oe_principal_id = hq_principal_id rq, oe_host = hq_host rq, oe_session_id = hq_session_id rq,
     oe_event = hq_event rq, oe_correlation_id = hq_correlation_id rq, oe_route_id = hq_route_id rq,
     oe_delivery_id = hq_delivery_id rq, oe_turn_id = hq_turn_id rq, oe_workspace_id = hq_workspace_id rq, oe_payload = hq_payload rq\<rparr>"

lemma bridge_reads: "decode_oracle_event (validated_hook rq) = Some (event_of rq)"
  by (simp add: decode_oracle_event_def validated_hook_def event_of_def struct_shape_def field_def req_string_def
      maybe_string_def str_member_def split: option.split)

lemma bridge_accepts:
  assumes "validate_hook_request B render host rq = Inr ()"
  shows "validate_oracle_hook render (event_of rq) = Inr () \<longleftrightarrow> canonical_hook_for_host_event (hq_event rq) \<noteq> None"
  using assms
  by (auto simp: validate_hook_request_def validate_route_fields_def validate_delivery_fields_def validate_oracle_hook_def
      event_of_def segment_eq is_host_def MAX_PAYLOAD_BYTES_def MAX_HOST_PAYLOAD_BYTES_def split: if_splits option.splits)

definition answer_to :: "host_hook_request \<Rightarrow> string option \<Rightarrow> host_hook_response" where
  "answer_to rq ctx = \<lparr>hp_schema_version = 1, hp_principal_id = hq_principal_id rq, hp_host = hq_host rq, hp_session_id = hq_session_id rq,
     hp_event = Some (hq_event rq), hp_correlation_id = hq_correlation_id rq, hp_route_id = hq_route_id rq,
     hp_delivery_id = hq_delivery_id rq, hp_context = ctx\<rparr>"

lemma answer_fields: "hp_principal_id (answer_to rq ctx) = hq_principal_id rq" "hp_host (answer_to rq ctx) = hq_host rq"
    "hp_session_id (answer_to rq ctx) = hq_session_id rq" "hp_event (answer_to rq ctx) = Some (hq_event rq)"
    "hp_route_id (answer_to rq ctx) = hq_route_id rq" "hp_delivery_id (answer_to rq ctx) = hq_delivery_id rq"
  by (simp_all add: answer_to_def)

lemma relay_reads: "decode_hook_response (oracle_response (event_of rq) ctx) = Some (answer_to rq ctx)"
  by (simp add: decode_hook_response_def oracle_response_def event_of_def answer_to_def struct_shape_def field_def req_string_def
      maybe_string_def opt_str_member_def ju8_def split: option.split)

lemma relay_writes: "hook_response_json (answer_to rq ctx) = oracle_response (event_of rq) ctx"
  by (simp add: hook_response_json_def oracle_response_def event_of_def answer_to_def str_member_def opt_str_member_def)

lemma relay_accepts:
  assumes "validate_hook_request B render host rq = Inr ()" and "case ctx of None \<Rightarrow> True | Some c \<Rightarrow> length c \<le> MAX_HOST_CONTEXT_BYTES"
  shows "validate_response_shape (answer_to rq ctx) = Inr ()"
  using assms
  by (auto simp: validate_hook_request_def validate_route_fields_def validate_response_shape_def answer_to_def
      MAX_CONTEXT_BYTES_def MAX_HOST_CONTEXT_BYTES_def split: if_splits option.splits sum.splits)

lemma bridge_answers:
  assumes "m \<in> set (pubs_on (oracle_response_topic (event_of rq)) (new_events (handle_oracle_hook E HB fuel (validated_hook rq)) tr))"
  obtains ctx where "m = oracle_response (event_of rq) ctx" "case ctx of None \<Rightarrow> True | Some c \<Rightarrow> length c \<le> MAX_HOST_CONTEXT_BYTES"
proof -
  let ?ev = "event_of rq" and ?run = "handle_oracle_hook E HB fuel (validated_hook rq)"
  have valid: "validate_oracle_hook (h_render HB) ?ev = Inr ()"
  proof (rule ccontr)
    assume "validate_oracle_hook (h_render HB) ?ev \<noteq> Inr ()"
    then have "new_events ?run tr = []"
      by (auto simp: handle_oracle_hook_def bridge_reads new_events_def final_trace_def split: sum.splits)
    then show False using assms by simp
  qed
  obtain r tr' evs where run: "run_state ?run tr = (r, tr')" "tr' = evs @ tr" "oracle_outcome E HB ?ev r evs"
    using wpD [OF handle_oracle_run [OF bridge_reads valid]] by (metis surj_pair)
  then have new: "new_events ?run tr = evs" by (simp add: new_events_def final_trace_def)
  obtain evs' who where who: "evs = evs' @ [EvCaller who]"
      "case who of Inl e \<Rightarrow> evs' = [] | Inr w \<Rightarrow> if caller_principal w = Some (oe_principal_id ?ev)
        then oracle_published E HB ?ev (r = Inr ()) (pubs evs') else evs' = []"
    using run(3) unfolding oracle_outcome_def by blast
  have "\<exists>reqs resps. pubs evs = reqs @ resps \<and> (\<forall>p \<in> set reqs. oracle_request E HB ?ev = Some p) \<and>
      (resps = [] \<or> (\<exists>ctx. context_allowed ?ev ctx \<and> resps = [(oracle_response_topic ?ev, oracle_response ?ev ctx)]))"
  proof (cases "oracle_published E HB ?ev (r = Inr ()) (pubs evs')")
    case True
    then show ?thesis unfolding oracle_published_def who(1) by (simp, metis)
  next
    case False
    then show ?thesis using who by (auto split: sum.splits if_splits)
  qed
  then obtain reqs resps where "pubs evs = reqs @ resps" "\<forall>p \<in> set reqs. oracle_request E HB ?ev = Some p"
      "resps = [] \<or> (\<exists>ctx. context_allowed ?ev ctx \<and> resps = [(oracle_response_topic ?ev, oracle_response ?ev ctx)])"
    by blast
  with assms show ?thesis
    by (auto simp: new pubs_on_def oracle_request_def context_allowed_def intro!: that split: option.splits)
qed

locale hook_host = live_store H for H :: bhost +
  fixes who :: string
  assumes swaps: "h_cas H tr k old new = Inr (kv_view tr k = old)"
    and publishes: "h_pub H tr t m = None"
    and calls: "\<exists>w. h_caller H tr = Inr w \<and> caller_principal w = Some who"
begin

lemma released_hook:
  assumes "decode_hook_request payload = Some rq" "validate_hook_request B (h_render H) host rq = Inr ()"
    and "hq_principal_id rq = who"
    and "kv_view tr (hook_key rq) = Some (hq_token rq) \<or> kv_view tr (hook_key rq) = None \<and> can_register (hq_event rq)"
  shows "wp (handle_host_hook B H host payload) (\<lambda>r tr'. r = Inr () \<and> kv_view tr' (hook_key rq) = Some (hq_token rq) \<and>
    (\<exists>evs. tr' = evs @ tr \<and> pubs evs = [(VALIDATED host, validated_hook rq)])) tr"
proof -
  obtain w where w: "h_caller H tr = Inr w" "caller_principal w = Some who" using calls by blast
  have key: "hook_token_key host (hq_session_id rq) = hook_key rq"
    using validated_host [OF assms(2)] by (simp add: hook_key_def)
  show ?thesis
    using assms(3,4) w
    by (auto simp: handle_host_hook_def assms(1,2) key authenticate_token_def try_bind_def wp_iff runtime_caller_def kv_cas_def
        swaps publish_hook_def publish_def publishes VALIDATED_def)
qed

lemma relayed_answer:
  assumes "validate_hook_request B render host rq = Inr ()" "hq_principal_id rq = who"
    and "kv_view tr (hook_key rq) = Some (hq_token rq)" "case ctx of None \<Rightarrow> True | Some c \<Rightarrow> length c \<le> MAX_HOST_CONTEXT_BYTES"
  shows "wp (relay_hook_response B H (oracle_response (event_of rq) ctx)) (\<lambda>r tr'. r = Inr () \<and>
    kv_view tr' (hook_key rq) = (if hq_event rq \<in> {''stop'', ''session_end''} then None else Some (hq_token rq)) \<and>
    (\<exists>evs. tr' = evs @ tr \<and> pubs evs = [(''astrid.v1.response.'' @ hq_delivery_id rq, oracle_response (event_of rq) ctx)])) tr"
proof -
  obtain w where w: "h_caller H tr = Inr w" "caller_principal w = Some who" using calls by blast
  have fields: "derive_route_id B (hq_host rq) (hq_session_id rq) (hq_token rq) = hq_route_id rq" "list_all ascii_alnum (hq_token rq)"
    using assms(1) by (auto simp: validate_hook_request_def split: if_splits sum.splits)
  have "from_utf8 (hq_token rq) = Some (hq_token rq)"
    using fields(2) by (intro from_utf8_ascii) (auto simp: list_all_iff ascii_alnum_def Let_def)
  with fields(1) assms(2,3) w relay_accepts [OF assms(1,4)] show ?thesis
    by (auto simp: relay_hook_response_def relay_reads try_bind_def wp_iff runtime_caller_def relay_writes
        publish_hook_def publish_def publishes hook_key_def answer_fields Let_def)
qed

lemma refused_hook:
  assumes "decode_hook_request payload = Some rq" "validate_hook_request B (h_render H) host rq = Inr ()"
    and "hq_principal_id rq = who" and "kv_view tr (hook_key rq) = None" "\<not> can_register (hq_event rq)"
  shows "wp (handle_host_hook B H host payload) (\<lambda>_ tr'. \<exists>evs m. tr' = evs @ tr \<and> pubs evs = [(AUDIT_REJECTED, m)]) tr"
proof -
  obtain w where w: "h_caller H tr = Inr w" "caller_principal w = Some who" using calls by blast
  have key: "hook_token_key host (hq_session_id rq) = hook_key rq"
    using validated_host [OF assms(2)] by (simp add: hook_key_def)
  show ?thesis
    using assms(3-5) w
    by (auto simp: handle_host_hook_def assms(1,2) key authenticate_token_def try_bind_def wp_iff runtime_caller_def
        reject_hook_def publish_def publishes AUDIT_REJECTED_def)
qed

end

text \<open>
  C19: The round trip of a host hook.  On a store that works and with the caller the hook names: a valid
  hook that carries the token of its session, or opens it, is released once, and the bridge decodes it
  to the same event and accepts it if its kind is known; whatever the bridge then answers is relayed,
  unchanged and once, to the topic of the waiting call; and the token stays unless the hook ended the
  session.\<close>

theorem hook_round_trip:
  assumes "hook_host H who" and "decode_hook_request payload = Some rq" and "validate_hook_request B (h_render H) host rq = Inr ()"
    and "hq_principal_id rq = who"
    and "kv_view tr (hook_key rq) = Some (hq_token rq) \<or> kv_view tr (hook_key rq) = None \<and> can_register (hq_event rq)"
  shows "let tr1 = final_trace (handle_host_hook B H host payload) tr;
      answers = set (pubs_on (oracle_response_topic (event_of rq)) (new_events (handle_oracle_hook E HB fuel (validated_hook rq)) trb)) in
    pubs_on (VALIDATED host) (new_events (handle_host_hook B H host payload) tr) = [validated_hook rq] \<and>
    decode_oracle_event (validated_hook rq) = Some (event_of rq) \<and>
    (validate_oracle_hook (h_render H) (event_of rq) = Inr ()) = (canonical_hook_for_host_event (hq_event rq) \<noteq> None) \<and>
    (\<forall>m \<in> answers. pubs_on (''astrid.v1.response.'' @ hq_delivery_id rq) (new_events (relay_hook_response B H m) tr1) = [m] \<and>
      kv_view (final_trace (relay_hook_response B H m) tr1) (hook_key rq) =
        (if hq_event rq \<in> {''stop'', ''session_end''} then None else Some (hq_token rq)))"
proof -
  let ?tr1 = "final_trace (handle_host_hook B H host payload) tr"
  note released = hook_host.released_hook [OF assms]
  have kept: "kv_view ?tr1 (hook_key rq) = Some (hq_token rq)"
    by (rule wp_final [where P = "\<lambda>t. kv_view t _ = _"], rule wp_mono [OF released]) blast
  have new: "pubs (new_events (handle_host_hook B H host payload) tr) = [(VALIDATED host, validated_hook rq)]"
    by (rule wp_new_events [where P = "\<lambda>evs. pubs evs = _"], rule wp_mono [OF released]) auto
  have relayed: "pubs_on (''astrid.v1.response.'' @ hq_delivery_id rq) (new_events (relay_hook_response B H m) ?tr1) = [m] \<and>
      kv_view (final_trace (relay_hook_response B H m) ?tr1) (hook_key rq) =
        (if hq_event rq \<in> {''stop'', ''session_end''} then None else Some (hq_token rq))"
    if answer: "m \<in> set (pubs_on (oracle_response_topic (event_of rq)) (new_events (handle_oracle_hook E HB fuel (validated_hook rq)) trb))" for m
  proof -
    obtain ctx where ctx: "m = oracle_response (event_of rq) ctx" "case ctx of None \<Rightarrow> True | Some c \<Rightarrow> length c \<le> MAX_HOST_CONTEXT_BYTES"
      using bridge_answers [OF answer] .
    note answered = hook_host.relayed_answer [OF assms(1,3,4) kept ctx(2)]
    have "pubs (new_events (relay_hook_response B H m) ?tr1) = [(''astrid.v1.response.'' @ hq_delivery_id rq, m)]"
      unfolding ctx(1) by (rule wp_new_events [where P = "\<lambda>evs. pubs evs = _"], rule wp_mono [OF answered]) auto
    moreover have "kv_view (final_trace (relay_hook_response B H m) ?tr1) (hook_key rq) =
        (if hq_event rq \<in> {''stop'', ''session_end''} then None else Some (hq_token rq))"
      unfolding ctx(1) by (rule wp_final [where P = "\<lambda>t. kv_view t _ = _"], rule wp_mono [OF answered]) blast
    ultimately show ?thesis by (simp add: pubs_on_def)
  qed
  show ?thesis
    unfolding Let_def using new relayed bridge_reads bridge_accepts [OF assms(3)] by (simp add: pubs_on_def)
qed

text \<open>
  After a \<open>stop\<close> a session cannot report its end.  On a store that works: once the answer to a \<open>stop\<close>
  was relayed, a valid \<open>session_end\<close> of the same session, with the same token, is not released; it is
  audited as a mismatch and no call is ever answered for it, as the relay has retired the token and
  only \<open>session_start\<close> and \<open>user_prompt_submit\<close> may register one.\<close>

theorem session_end_after_stop_refused:
  assumes "hook_host H who" and "validate_hook_request B (h_render H) host stop = Inr ()" and "hq_principal_id stop = who"
    and "hq_event stop = ''stop''" and "kv_view tr (hook_key stop) = Some (hq_token stop)"
    and "decode_hook_request payload = Some rq" and "validate_hook_request B (h_render H) host rq = Inr ()"
    and "hq_principal_id rq = who" and "hq_event rq = ''session_end''" and "hq_session_id rq = hq_session_id stop"
  shows "let tr1 = final_trace (relay_hook_response B H (oracle_response (event_of stop) None)) tr in
    \<exists>m. pubs (new_events (handle_host_hook B H host payload) tr1) = [(AUDIT_REJECTED, m)]"
proof -
  let ?tr1 = "final_trace (relay_hook_response B H (oracle_response (event_of stop) None)) tr"
  have "hook_key rq = hook_key stop"
    using assms(10) validated_host [OF assms(2)] validated_host [OF assms(7)] by (simp add: hook_key_def)
  moreover have "kv_view ?tr1 (hook_key stop) = None"
    by (rule wp_final [where P = "\<lambda>t. kv_view t _ = _"], rule wp_mono [OF hook_host.relayed_answer [OF assms(1,2,3,5)]]) (auto simp: assms(4))
  ultimately have gone: "kv_view ?tr1 (hook_key rq) = None" by simp
  show ?thesis
    unfolding Let_def
    by (rule wp_new_events [where P = "\<lambda>evs. \<exists>m. pubs evs = _ m"],
        rule wp_mono [OF hook_host.refused_hook [OF assms(1,6,7,8) gone]]) (auto simp: assms(9) can_register_def)
qed

subsection \<open>A session\<close>

definition plugin_host :: bhost where
  "plugin_host = mem_host\<lparr>h_caller := (\<lambda>tr. Inr \<lparr>caller_source = ''proxy'', caller_principal = Some ''alice''\<rparr>)\<rparr>"

interpretation plugin: hook_host plugin_host "''alice''"
  by unfold_locales (auto simp: plugin_host_def mem_host_def)

definition demo_digest :: "string \<Rightarrow> string" where "demo_digest bytes = replicate 64 (CHR ''a'')"

definition demo_hook :: "string \<Rightarrow> host_hook_request" where
  "demo_hook event = \<lparr>hq_schema_version = 1, hq_principal_id = ''alice'', hq_host = ''claude'', hq_session_id = ''s1'', hq_event = event,
     hq_correlation_id = replicate 32 (CHR ''b''), hq_route_id = replicate 64 (CHR ''a''),
     hq_delivery_id = replicate 64 (CHR ''a'') @ ''-'' @ replicate 32 (CHR ''b''), hq_turn_id = None, hq_workspace_id = None,
     hq_payload = JNull, hq_token = replicate 32 (CHR ''t'')\<rparr>"

definition demo_payload :: "string \<Rightarrow> json" where
  "demo_payload event = JObj [(''schema_version'', JInt 1), (''principal_id'', JStr ''alice''), (''host'', JStr ''claude''),
     (''session_id'', JStr ''s1''), (''event'', JStr event), (''correlation_id'', JStr (replicate 32 (CHR ''b''))),
     (''route_id'', JStr (replicate 64 (CHR ''a''))), (''delivery_id'', JStr (replicate 64 (CHR ''a'') @ ''-'' @ replicate 32 (CHR ''b''))),
     (''payload'', JNull), (''token'', JStr (replicate 32 (CHR ''t'')))]"

lemma demo_decodes: "decode_hook_request (demo_payload event) = Some (demo_hook event)"
  by (simp add: decode_hook_request_def demo_payload_def demo_hook_def struct_shape_def field_def req_string_def maybe_string_def ju8_def)

lemma demo_valid: "is_segment event 128 \<Longrightarrow> validate_hook_request demo_digest (h_render plugin_host) ''claude'' (demo_hook event) = Inr ()"
  by (simp add: validate_hook_request_def demo_hook_def validate_route_fields_def validate_delivery_fields_def is_host_def
      is_segment_def is_hex_text_def segment_char_def ascii_alnum_def derive_route_id_def demo_digest_def TOKEN_MIN_BYTES_def
      TOKEN_MAX_BYTES_def MAX_PAYLOAD_BYTES_def plugin_host_def mem_host_def list_all_iff)

lemma demo_events: "is_segment ''session_start'' 128" "is_segment ''stop'' 128" "is_segment ''session_end'' 128"
  by (simp_all add: is_segment_def segment_char_def ascii_alnum_def)

lemma session_token_kept_witness:
  "kv_view (final_trace (handle_host_hook demo_digest mem_host ''claude'' JNull) [EvSet ''k'' ''t'' None]) ''k'' = Some ''t''"
  using session_token_kept [OF mem.kv_store_axioms, where tr = "[EvSet ''k'' ''t'' None]" and k = "''k''" and tok = "''t''"
      and B = demo_digest and host = "''claude''" and payload = JNull] by simp

lemma hook_round_trip_witness:
  "pubs_on (VALIDATED ''claude'') (new_events (handle_host_hook demo_digest plugin_host ''claude'' (demo_payload ''session_start'')) []) =
     [validated_hook (demo_hook ''session_start'')]"
proof -
  have "kv_view ([] :: btrace) (hook_key (demo_hook ''session_start'')) = None \<and> can_register (hq_event (demo_hook ''session_start''))"
    "hq_principal_id (demo_hook ''session_start'') = ''alice''"
    by (simp_all add: can_register_def demo_hook_def)
  then show ?thesis
    using hook_round_trip [OF plugin.hook_host_axioms demo_decodes demo_valid [OF demo_events(1)], where tr = "[]"]
    by (simp add: Let_def)
qed

lemma session_end_after_stop_refused_witness:
  "\<exists>tr m. pubs (new_events (handle_host_hook demo_digest plugin_host ''claude'' (demo_payload ''session_end'')) tr) = [(AUDIT_REJECTED, m)]"
proof -
  let ?stop = "demo_hook ''stop''" and ?rq = "demo_hook ''session_end''"
  have "hq_principal_id ?stop = ''alice''" "hq_event ?stop = ''stop''" "hq_principal_id ?rq = ''alice''" "hq_event ?rq = ''session_end''"
      "hq_session_id ?rq = hq_session_id ?stop" and "kv_view [EvSet (hook_key ?stop) (hq_token ?stop) None] (hook_key ?stop) = Some (hq_token ?stop)"
    by (simp_all add: demo_hook_def)
  note facts = this
  show ?thesis
    using session_end_after_stop_refused [OF plugin.hook_host_axioms demo_valid [OF demo_events(2)] facts(1,2,6) demo_decodes
        demo_valid [OF demo_events(3)] facts(3,4,5)]
    unfolding Let_def by blast
qed

end
