(* ===== verification/Router.thy ===== *)
theory Router
  imports React_State
begin

text \<open>
  The tool router (\<open>capsules/capsule-router/src/lib.rs\<close>): a tool request of the ReAct loop is forwarded to
  the topic of its tool or answered with an error, a tool's result is passed on to the loop.

  \<open>char::is_alphanumeric\<close> is the ASCII letters and digits and, for a character of several bytes, the
  Unicode tables of the Rust library: the parameter \<open>U\<close>.  The text the SDK's \<open>ToolCallResult\<close> becomes
  is the parameter \<open>R\<close>.  Log calls are not modelled.
\<close>

type_synonym tool_host = "(unit, ipc_payload) host"
type_synonym tool_result_io = "((unit, ipc_payload) event list, host_error + unit) state"

definition alphanumeric :: "(string \<Rightarrow> bool) \<Rightarrow> string \<Rightarrow> bool" where
  "alphanumeric U c = (case c of [b] \<Rightarrow> ascii_alnum b | _ \<Rightarrow> U c)"

definition routable_name :: "(string \<Rightarrow> bool) \<Rightarrow> string \<Rightarrow> bool" where
  "routable_name U n \<longleftrightarrow> n \<noteq> [] \<and>
     list_all (\<lambda>c. alphanumeric U c \<or> c = ''-'' \<or> c = ''_'' \<or> c = '':'') (utf8_chars n)"

definition EXECUTE_RESULT_TOPIC :: string where "EXECUTE_RESULT_TOPIC = ''tool.v1.execute.result''"

definition forward_topic :: "string \<Rightarrow> string" where
  "forward_topic n = ''tool.v1.execute.'' @ n"

definition publish_route :: "tool_host \<Rightarrow> string \<Rightarrow> ipc_payload \<Rightarrow> tool_result_io" where
  "publish_route H t m = do { r \<leftarrow> publish H t m; ret (case r of None \<Rightarrow> Inr () | Some e \<Rightarrow> Inl e) }"

definition publish_error_result ::
  "(string \<Rightarrow> string \<Rightarrow> bool \<Rightarrow> tool_call_result) \<Rightarrow> tool_host \<Rightarrow> string \<Rightarrow> string \<Rightarrow> tool_result_io" where
  "publish_error_result R H call_id message = publish_route H EXECUTE_RESULT_TOPIC (ToolExecuteResult call_id (R call_id message True))"

definition handle_execute_request ::
  "(string \<Rightarrow> bool) \<Rightarrow> (string \<Rightarrow> string \<Rightarrow> bool \<Rightarrow> tool_call_result) \<Rightarrow> tool_host \<Rightarrow> ipc_payload \<Rightarrow> tool_result_io" where
  "handle_execute_request U R H req = (case req of
     ToolExecuteRequest call_id tool_name arguments \<Rightarrow>
       if \<not> routable_name U tool_name
       then publish_error_result R H call_id (''Invalid tool name: '' @ tool_name)
       else do {
         p \<leftarrow> publish H (forward_topic tool_name) (ToolExecuteRequest call_id tool_name arguments);
         case p of
           None \<Rightarrow> ret (Inr ())
         | Some e \<Rightarrow> publish_error_result R H call_id (''Failed to route tool request: '' @ e)
       }
   | _ \<Rightarrow> ret (Inr ()))"

definition handle_execute_result :: "tool_host \<Rightarrow> ipc_payload \<Rightarrow> tool_result_io" where
  "handle_execute_result H res = (case res of
     ToolExecuteResult call_id result \<Rightarrow> publish_route H EXECUTE_RESULT_TOPIC (ToolExecuteResult call_id result)
   | _ \<Rightarrow> ret (Inr ()))"

end
