(* ===== verification/Router_Spec.thy ===== *)
theory Router_Spec
  imports Router Wire
begin

text \<open>
  The tool router, properties: every request of the loop leaves on the topic of its own tool or comes
  back as an error.
\<close>

subsection \<open>Topics\<close>

text \<open>The Unicode tables hold no dot, whose character is a single byte.\<close>

lemma alphanumeric_no_dot: "\<forall>c. U c \<longrightarrow> CHR ''.'' \<notin> set c \<Longrightarrow> alphanumeric U c \<Longrightarrow> CHR ''.'' \<notin> set c"
  by (auto simp: alphanumeric_def ascii_alnum_def Let_def split: list.splits)

lemma routable_dots:
  assumes "\<forall>c. U c \<longrightarrow> CHR ''.'' \<notin> set c" and "routable_name U n"
  shows "dots (forward_topic n) = 3"
proof -
  have "CHR ''.'' \<notin> set c" if "c \<in> set (utf8_chars n)" for c
    using assms that alphanumeric_no_dot [OF assms(1), of c] by (auto simp: routable_name_def list_all_iff)
  then have "CHR ''.'' \<notin> set n" by (metis UN_iff concat_utf8_chars set_concat)
  then have "dots n = 0" by (auto simp: dots_def filter_empty_conv)
  then show ?thesis by (simp add: forward_topic_def) (simp add: dots_def)
qed

subsection \<open>Requests\<close>

definition error_result :: "(string \<Rightarrow> string \<Rightarrow> bool \<Rightarrow> tool_call_result) \<Rightarrow> string \<Rightarrow> ipc_payload \<Rightarrow> bool" where
  "error_result R c m \<longleftrightarrow> (\<exists>message. m = ToolExecuteResult c (R c message True))"

text \<open>
  C26: The router settles every request.  On every host, for every tool call of the loop: a name that is
  not routable comes back to the loop as an error result of that call; any other request leaves once,
  unchanged, on the topic of its tool, one segment below \<open>tool.v1.execute\<close>, and if that publication is
  refused an error result of the call follows it.\<close>

theorem tool_request_settled:
  assumes "\<forall>g. U g \<longrightarrow> CHR ''.'' \<notin> set g"
  shows "let ps = pubs (new_events (handle_execute_request U R H (ToolExecuteRequest c n args)) tr) in
    if \<not> routable_name U n then \<exists>m. error_result R c m \<and> ps = [(EXECUTE_RESULT_TOPIC, m)]
    else dots (forward_topic n) = 3 \<and>
      (if h_pub H tr (forward_topic n) (ToolExecuteRequest c n args) = None then ps = [(forward_topic n, ToolExecuteRequest c n args)]
       else \<exists>m. error_result R c m \<and> ps = [(forward_topic n, ToolExecuteRequest c n args), (EXECUTE_RESULT_TOPIC, m)])"
  using routable_dots [OF assms, of n]
  by (auto simp: handle_execute_request_def new_events_def final_trace_def publish_error_result_def publish_route_def
      publish_def error_result_def since_def split: option.split)

lemma tool_request_settled_witness:
  "pubs (new_events (handle_execute_request (\<lambda>g. False) (\<lambda>c m e. ToolCallResult JNull) mem_host (ToolExecuteRequest ''c1'' ''a.b'' JNull)) []) =
     [(EXECUTE_RESULT_TOPIC, ToolExecuteResult ''c1'' (ToolCallResult JNull))]"
proof -
  have "\<not> routable_name (\<lambda>g. False) ''a.b''" by code_simp
  then show ?thesis
    using tool_request_settled [of "\<lambda>g. False" "\<lambda>c m e. ToolCallResult JNull" mem_host "''c1''" "''a.b''" JNull "[]"]
    by (auto simp: error_result_def Let_def)
qed

end
