(* ===== verification/Sse.thy ===== *)
theory Sse
  imports React_State
begin

text \<open>
  What the language model providers share (\<open>capsules/capsule-openai-compat/src/lib.rs\<close>,
  \<open>capsules/capsule-openai/src/lib.rs\<close>): the SDK types they read with the fields they use, their
  publications, and the loop that reads a streamed response and hands out its lines.

  Both sources contain the same reading loop; here it is one definition with the treatment of a line as
  the argument \<open>step\<close>, which returns the new state of the parser or \<open>None\<close> when the stream is done.  The
  loop runs on fuel, one unit for a chunk.  \<open>llm_lib\<close> is what the code takes from its libraries: the
  text of an error, \<open>serde_json\<close>'s message for a text, the number an \<open>f64\<close> text stands for.  \<open>usize\<close> has
  32 bits, as the capsules run on \<open>wasm32\<close>.
\<close>

subsection \<open>\<open>String::from_utf8_lossy\<close>\<close>

definition byte_in :: "nat list \<Rightarrow> nat \<Rightarrow> nat \<Rightarrow> nat \<Rightarrow> bool" where
  "byte_in bs i lo hi \<longleftrightarrow> i < length bs \<and> lo \<le> bs ! i \<and> bs ! i \<le> hi"

text \<open>The bytes of the next character and whether it is valid; an invalid one is the longest prefix of a valid one.\<close>

definition utf8_step :: "nat \<Rightarrow> nat list \<Rightarrow> nat \<times> bool" where
  "utf8_step a bs =
     (if a < 128 then (1, True)
      else if 194 \<le> a \<and> a \<le> 223 then (if byte_in bs 0 128 191 then (2, True) else (1, False))
      else if 224 \<le> a \<and> a \<le> 239 then
        (if \<not> byte_in bs 0 (if a = 224 then 160 else 128) (if a = 237 then 159 else 191) then (1, False)
         else if byte_in bs 1 128 191 then (3, True) else (2, False))
      else if 240 \<le> a \<and> a \<le> 244 then
        (if \<not> byte_in bs 0 (if a = 240 then 144 else 128) (if a = 244 then 143 else 191) then (1, False)
         else if \<not> byte_in bs 1 128 191 then (2, False)
         else if byte_in bs 2 128 191 then (4, True) else (3, False))
      else (1, False))"

definition REPLACEMENT :: string where "REPLACEMENT = map char_of [239, 191, 189 :: nat]"

function from_utf8_lossy :: "string \<Rightarrow> string" where
  "from_utf8_lossy [] = []"
| "from_utf8_lossy (c # cs) = (case utf8_step (of_char c) (map of_char cs) of (n, valid) \<Rightarrow>
     (if valid then c # take (n - 1) cs else REPLACEMENT) @ from_utf8_lossy (drop (n - 1) cs))"
  by pat_completeness auto
termination by (relation "measure length") auto

subsection \<open>Data\<close>

datatype llm_role = LSystem | LUser | LAssistant | LTool

datatype llm_part = LPartText string | LPartImage string string

record llm_call =
  lc_id :: string
  lc_name :: string
  lc_arguments :: json

datatype llm_content =
    LText string
  | LToolCalls "llm_call list"
  | LToolResult string string
  | LMultiPart "llm_part list"

record llm_message =
  lm_role :: llm_role
  lm_content :: llm_content

record llm_tool =
  lt_name :: string
  lt_description :: json
  lt_input_schema :: json

datatype provider_request =
    Generate nat string "llm_message list" "llm_tool list" string
  | OtherPayload

text \<open>A stream event of a request, its token usage, the answer to a describe request.\<close>

datatype provider_msg = PStream nat stream_event | PUsage nat nat nat | PDescribe json

type_synonym lhost = "(unit, provider_msg) host"
type_synonym 'a lio = "((unit, provider_msg) event list, 'a) state"

datatype sys_error = ApiError string | HostFailure host_error | DecodeFailure

record llm_lib =
  lib_error_text :: "sys_error \<Rightarrow> string"
  lib_serde_text :: "string \<Rightarrow> string"
  lib_float :: "string \<Rightarrow> json option"

text \<open>A run of a provider returns, panics, or is still reading when the fuel is used up.\<close>

datatype run_end = Returned | Panicked | Reading

definition jusize :: "json \<Rightarrow> nat option" where
  "jusize j = Option.bind (ju64 j) (\<lambda>n. if n < 2 ^ 32 then Some n else None)"

text \<open>An \<open>Option\<close> field without a default: absent from an object and \<open>null\<close> are \<open>None\<close>; an array must hold it.\<close>

definition maybe_field :: "(json \<Rightarrow> 'a option) \<Rightarrow> nat \<Rightarrow> string \<Rightarrow> json \<Rightarrow> 'a option option" where
  "maybe_field d i k j = (case field i k j of
     None \<Rightarrow> (case j of JArr xs \<Rightarrow> None | _ \<Rightarrow> Some None)
   | Some JNull \<Rightarrow> Some None
   | Some v \<Rightarrow> map_option Some (d v))"

definition json_list :: "(json \<Rightarrow> 'a option) \<Rightarrow> json \<Rightarrow> 'a list option" where
  "json_list d j = Option.bind (jarr j) (\<lambda>xs. those (map d xs))"

text \<open>\<open>value[k] = v\<close> on an object.\<close>

definition set_member :: "string \<Rightarrow> json \<Rightarrow> json \<Rightarrow> json" where
  "set_member k v j = (case j of JObj m \<Rightarrow> JObj (AList.update k v m) | _ \<Rightarrow> j)"

subsection \<open>Calls\<close>

definition host_try :: "('s, host_error + 'a) state \<Rightarrow> ('s, sys_error + 'a) state" where
  "host_try m = do { r \<leftarrow> m; ret (case r of Inl e \<Rightarrow> Inl (HostFailure e) | Inr x \<Rightarrow> Inr x) }"

definition publish_to :: "lhost \<Rightarrow> string \<Rightarrow> provider_msg \<Rightarrow> (sys_error + unit) lio" where
  "publish_to H t m = do { r \<leftarrow> publish H t m; ret (case r of None \<Rightarrow> Inr () | Some e \<Rightarrow> Inl (HostFailure e)) }"

text \<open>\<open>env::var(key).ok()\<close>: the SDK gives the empty text for a key that is not set.\<close>

definition env_ok :: "lhost \<Rightarrow> string \<Rightarrow> string option lio" where
  "env_ok H k = do { r \<leftarrow> env_var H k; ret (case r of Inl e \<Rightarrow> None | Inr v \<Rightarrow> Some (or_default [] v)) }"

definition trim_end_of :: "char \<Rightarrow> string \<Rightarrow> string" where
  "trim_end_of c s = rev (dropWhile (\<lambda>x. x = c) (rev s))"

definition trim_start :: "string \<Rightarrow> string" where
  "trim_start s = concat (dropWhile is_white (utf8_chars s))"

definition strip_prefix :: "string \<Rightarrow> string \<Rightarrow> string option" where
  "strip_prefix p s = (if starts_with p s then Some (drop (length p) s) else None)"

definition bearer_header :: "string \<Rightarrow> string option" where
  "bearer_header raw_key = (let trimmed = trim raw_key in if trimmed = [] then None else Some (''Bearer '' @ trimmed))"

definition http_get :: "string \<Rightarrow> string option \<Rightarrow> http_request" where
  "http_get url auth = \<lparr>hr_method = ''GET'', hr_url = url,
     hr_headers = (case auth of None \<Rightarrow> [] | Some v \<Rightarrow> [(''authorization'', v)]), hr_body = None\<rparr>"

definition http_post :: "string \<Rightarrow> string \<Rightarrow> json \<Rightarrow> http_request" where
  "http_post url auth body = \<lparr>hr_method = ''POST'', hr_url = url,
     hr_headers = [(''authorization'', auth)], hr_body = Some body\<rparr>"

subsection \<open>The catalogue of a server\<close>

definition decode_model_entry :: "json \<Rightarrow> string option" where
  "decode_model_entry j = (if \<not> struct_shape 1 j then None else req_string 0 ''id'' j)"

definition decode_model_list :: "json \<Rightarrow> string list option" where
  "decode_model_list j = (if \<not> struct_shape 1 j then None
     else case field 0 ''data'' j of None \<Rightarrow> Some [] | Some d \<Rightarrow> json_list decode_model_entry d)"

fun keep_first :: "string list \<Rightarrow> string list \<Rightarrow> string list" where
  "keep_first seen [] = []"
| "keep_first seen (x # xs) = (if x \<in> set seen then keep_first seen xs else x # keep_first (x # seen) xs)"

definition extract_model_ids :: "string list \<Rightarrow> sys_error + string list" where
  "extract_model_ids data = (let ids = keep_first [] (filter (\<lambda>i. \<not> blank i) data) in
     if ids = [] then Inl (ApiError ''/v1/models returned no models'') else Inr ids)"

definition is_success :: "nat \<Rightarrow> bool" where
  "is_success s \<longleftrightarrow> 200 \<le> s \<and> s < 300"

definition fetch_models :: "lhost \<Rightarrow> string \<Rightarrow> (sys_error + string list) lio" where
  "fetch_models H url = do {
     key \<leftarrow> env_ok H ''api_key'';
     try_bind (host_try (http_send H (http_get url (bearer_header (or_default [] key))))) (\<lambda>resp.
       if \<not> is_success (hs_status resp)
       then ret (Inl (ApiError (''/v1/models returned status '' @ show_nat (hs_status resp))))
       else case Option.bind (h_parse H (hs_body resp)) decode_model_list of
         None \<Rightarrow> ret (Inl DecodeFailure)
       | Some data \<Rightarrow> ret (extract_model_ids data))
   }"

subsection \<open>The lines of a stream\<close>

definition MAX_LINE_BUFFER_SIZE :: nat where "MAX_LINE_BUFFER_SIZE = 1024 * 1024"

definition NL :: char where "NL = CHR 0x0A"

text \<open>The first complete line of the buffer, without its line end, and the rest of the buffer.\<close>

definition next_line :: "string \<Rightarrow> (string \<times> string) option" where
  "next_line buf = (if NL \<in> set buf
     then Some (trim_end_of (CHR 0x0D) (takeWhile (\<lambda>c. c \<noteq> NL) buf), tl (dropWhile (\<lambda>c. c \<noteq> NL) buf))
     else None)"

lemma next_line_shorter: "next_line buf = Some (line, rest) \<Longrightarrow> length rest < length buf"
  using length_dropWhile_le [of "\<lambda>c. c \<noteq> NL" buf]
  by (cases buf) (auto simp: next_line_def split: if_splits)

function drain_lines ::
  "('s \<Rightarrow> string \<Rightarrow> (sys_error + 's option) lio) \<Rightarrow> 's \<Rightarrow> string \<Rightarrow> (sys_error + ('s \<times> string) option) lio" where
  "drain_lines step st buf = (case next_line buf of
     None \<Rightarrow> ret (Inr (Some (st, buf)))
   | Some (line, rest) \<Rightarrow> try_bind (step st line) (\<lambda>r. case r of
         None \<Rightarrow> ret (Inr None)
       | Some st' \<Rightarrow> drain_lines step st' rest))"
  by pat_completeness auto
termination
  by (relation "measure (\<lambda>(step, st, buf). length buf)") (auto dest: next_line_shorter)

declare drain_lines.simps [simp del]

datatype 's sse_end = SseDone | SseEof 's string | SseOpen

fun read_loop ::
  "('s \<Rightarrow> string \<Rightarrow> (sys_error + 's option) lio) \<Rightarrow> lhost \<Rightarrow> nat \<Rightarrow> 's \<Rightarrow> string \<Rightarrow> (sys_error + 's sse_end) lio" where
  "read_loop step H 0 st buf = ret (Inr SseOpen)"
| "read_loop step H (Suc fuel) st buf =
     try_bind (host_try (read_chunk H)) (\<lambda>c. case c of
       None \<Rightarrow> ret (Inr (SseEof st buf))
     | Some chunk \<Rightarrow>
        (let buf' = buf @ from_utf8_lossy chunk in
         if MAX_LINE_BUFFER_SIZE < length buf'
         then ret (Inl (ApiError ''SSE line buffer exceeded maximum size''))
         else try_bind (drain_lines step st buf') (\<lambda>r. case r of
             None \<Rightarrow> ret (Inr SseDone)
           | Some (st', rest) \<Rightarrow> read_loop step H fuel st' rest)))"

text \<open>
  The body of a response that is no success, up to its first 4096 bytes; \<open>truncate\<close> panics inside a
  character.
\<close>

datatype body_end = ErrorBody string | BodyPanic | BodyOpen

fun error_body :: "lhost \<Rightarrow> nat \<Rightarrow> string \<Rightarrow> (sys_error + body_end) lio" where
  "error_body H 0 acc = ret (Inr BodyOpen)"
| "error_body H (Suc fuel) acc =
     try_bind (host_try (read_chunk H)) (\<lambda>c. case c of
       None \<Rightarrow> ret (Inr (ErrorBody acc))
     | Some chunk \<Rightarrow>
        (let acc' = acc @ from_utf8_lossy chunk in
         if 4096 < length acc'
         then ret (Inr (if is_cont (acc' ! 4096) then BodyPanic else ErrorBody (take 4096 acc')))
         else error_body H fuel acc'))"

end
