(* ===== verification/Openai_Compat.thy ===== *)
theory Openai_Compat
  imports Sse
begin

text \<open>
  The provider for servers with OpenAI's chat completions (\<open>capsules/capsule-openai-compat/src\<close>): the
  advertised models, the generation request, and the stream of a response turned into stream events.
  Log calls are not modelled.
\<close>

definition COMPAT_STREAM_TOPIC :: string where "COMPAT_STREAM_TOPIC = ''llm.v1.stream.openai-compat''"
definition COMPAT_REQUEST_TOPIC :: string where "COMPAT_REQUEST_TOPIC = ''llm.v1.request.generate.openai-compat''"
definition PROVIDER_ALIAS :: string where "PROVIDER_ALIAS = ''openai-compat''"
definition DESCRIBE_TOPIC :: string where "DESCRIBE_TOPIC = ''llm.v1.response.describe''"

subsection \<open>Chunks (\<open>schemas.rs\<close>)\<close>

record chunk_tool_call =
  tool_index :: nat
  tool_id :: "string option"
  tool_function :: "(string option \<times> string option) option"

record chunk_choice =
  delta_content :: "string option"
  delta_tool_calls :: "chunk_tool_call list option"
  finish_reason :: "string option"

record chat_chunk =
  choices :: "chunk_choice list"
  usage :: "(nat \<times> nat) option"

definition decode_chunk_function :: "json \<Rightarrow> (string option \<times> string option) option" where
  "decode_chunk_function j = (if \<not> struct_shape 2 j then None else do {
     name \<leftarrow> maybe_field jstr 0 ''name'' j;
     args \<leftarrow> maybe_field jstr 1 ''arguments'' j;
     Some (name, args)
   })"

definition decode_chunk_tool_call :: "json \<Rightarrow> chunk_tool_call option" where
  "decode_chunk_tool_call j = (if \<not> struct_shape 3 j then None else do {
     index \<leftarrow> Option.bind (field 0 ''index'' j) jusize;
     i \<leftarrow> maybe_field jstr 1 ''id'' j;
     f \<leftarrow> maybe_field decode_chunk_function 2 ''function'' j;
     Some \<lparr>tool_index = index, tool_id = i, tool_function = f\<rparr>
   })"

definition decode_chunk_delta :: "json \<Rightarrow> (string option \<times> chunk_tool_call list option) option" where
  "decode_chunk_delta j = (if \<not> struct_shape 2 j then None else do {
     content \<leftarrow> maybe_field jstr 0 ''content'' j;
     calls \<leftarrow> maybe_field (json_list decode_chunk_tool_call) 1 ''tool_calls'' j;
     Some (content, calls)
   })"

definition decode_chunk_choice :: "json \<Rightarrow> chunk_choice option" where
  "decode_chunk_choice j = (if \<not> struct_shape 2 j then None else do {
     delta \<leftarrow> Option.bind (field 0 ''delta'' j) decode_chunk_delta;
     reason \<leftarrow> maybe_field jstr 1 ''finish_reason'' j;
     Some \<lparr>delta_content = fst delta, delta_tool_calls = snd delta, finish_reason = reason\<rparr>
   })"

definition decode_chunk_usage :: "json \<Rightarrow> (nat \<times> nat) option" where
  "decode_chunk_usage j = (if \<not> struct_shape 2 j then None else do {
     p \<leftarrow> Option.bind (field 0 ''prompt_tokens'' j) jusize;
     c \<leftarrow> Option.bind (field 1 ''completion_tokens'' j) jusize;
     Some (p, c)
   })"

definition decode_chat_chunk :: "json \<Rightarrow> chat_chunk option" where
  "decode_chat_chunk j = (if \<not> struct_shape 2 j then None else do {
     cs \<leftarrow> (case field 0 ''choices'' j of None \<Rightarrow> Some [] | Some v \<Rightarrow> json_list decode_chunk_choice v);
     u \<leftarrow> maybe_field decode_chunk_usage 1 ''usage'' j;
     Some \<lparr>choices = cs, usage = u\<rparr>
   })"

subsection \<open>The stream\<close>

datatype sse_data = SseDoneMark | SseChunk chat_chunk

type_synonym active_tools = "(string \<times> string) list"

definition compat_publish :: "lhost \<Rightarrow> provider_msg \<Rightarrow> (sys_error + unit) lio" where
  "compat_publish H m = publish_to H COMPAT_STREAM_TOPIC m"

definition sse_data_payload :: "string \<Rightarrow> string option" where
  "sse_data_payload line = (case strip_prefix ''data:'' line of None \<Rightarrow> None
     | Some d \<Rightarrow> let data = trim_start d in if blank data then None else Some data)"

definition parse_sse_data :: "llm_lib \<Rightarrow> lhost \<Rightarrow> string \<Rightarrow> sys_error + sse_data" where
  "parse_sse_data L H raw = (let data = trim raw in
     if data = ''[DONE]'' then Inr SseDoneMark
     else case Option.bind (h_parse H data) decode_chat_chunk of
       None \<Rightarrow> Inl (ApiError (''invalid SSE JSON: '' @ lib_serde_text L data))
     | Some c \<Rightarrow> Inr (SseChunk c))"

definition grow :: "nat \<Rightarrow> active_tools \<Rightarrow> active_tools" where
  "grow i tools = tools @ replicate (Suc i - length tools) ([], [])"

definition with_tool_id :: "chunk_tool_call \<Rightarrow> active_tools \<Rightarrow> active_tools" where
  "with_tool_id tc tools = (let i = tool_index tc; tools = grow i tools in
     case tool_id tc of None \<Rightarrow> tools | Some v \<Rightarrow> tools[i := (v, snd (tools ! i))])"

definition process_tool_call :: "lhost \<Rightarrow> nat \<Rightarrow> chunk_tool_call \<Rightarrow> active_tools \<Rightarrow> (sys_error + active_tools) lio" where
  "process_tool_call H rid tc tools0 = (let i = tool_index tc; tools = with_tool_id tc tools0 in
     case tool_function tc of
       None \<Rightarrow> ret (Inr tools)
     | Some (name, args) \<Rightarrow>
        try_bind (case name of
            None \<Rightarrow> ret (Inr tools)
          | Some n \<Rightarrow> try_bind (compat_publish H (PStream rid (ToolCallStart (fst (tools ! i)) n)))
              (\<lambda>_. ret (Inr (tools[i := (fst (tools ! i), n)]))))
        (\<lambda>tools. case args of
            None \<Rightarrow> ret (Inr tools)
          | Some a \<Rightarrow> if a = [] then ret (Inr tools)
              else try_bind (compat_publish H (PStream rid (ToolCallDelta (fst (tools ! i)) a))) (\<lambda>_. ret (Inr tools))))"

fun process_tool_calls :: "lhost \<Rightarrow> nat \<Rightarrow> chunk_tool_call list \<Rightarrow> active_tools \<Rightarrow> (sys_error + active_tools) lio" where
  "process_tool_calls H rid [] tools = ret (Inr tools)"
| "process_tool_calls H rid (tc # tcs) tools =
     try_bind (process_tool_call H rid tc tools) (process_tool_calls H rid tcs)"

fun publish_ends :: "lhost \<Rightarrow> nat \<Rightarrow> active_tools \<Rightarrow> (sys_error + unit) lio" where
  "publish_ends H rid [] = ret (Inr ())"
| "publish_ends H rid ((i, n) # tools) =
     (if i = [] then publish_ends H rid tools
      else try_bind (compat_publish H (PStream rid (ToolCallEnd i))) (\<lambda>_. publish_ends H rid tools))"

definition process_choice :: "lhost \<Rightarrow> nat \<Rightarrow> chunk_choice \<Rightarrow> active_tools \<Rightarrow> (sys_error + active_tools) lio" where
  "process_choice H rid choice tools =
     try_bind (case delta_content choice of
         None \<Rightarrow> ret (Inr ())
       | Some t \<Rightarrow> if t = [] then ret (Inr ()) else compat_publish H (PStream rid (TextDelta t))) (\<lambda>_.
     try_bind (process_tool_calls H rid (or_default [] (delta_tool_calls choice)) tools) (\<lambda>tools.
     if finish_reason choice = Some ''tool_calls''
     then try_bind (publish_ends H rid tools) (\<lambda>_. ret (Inr []))
     else ret (Inr tools)))"

definition process_chunk :: "lhost \<Rightarrow> nat \<Rightarrow> chat_chunk \<Rightarrow> active_tools \<Rightarrow> (sys_error + active_tools) lio" where
  "process_chunk H rid chunk tools =
     try_bind (case usage chunk of
         None \<Rightarrow> ret (Inr ())
       | Some (input, output) \<Rightarrow> compat_publish H (PUsage rid input output)) (\<lambda>_.
     case choices chunk of
       [] \<Rightarrow> ret (Inr tools)
     | choice # _ \<Rightarrow> process_choice H rid choice tools)"

definition compat_line :: "llm_lib \<Rightarrow> lhost \<Rightarrow> nat \<Rightarrow> active_tools \<Rightarrow> string \<Rightarrow> (sys_error + active_tools option) lio" where
  "compat_line L H rid tools line = (if line = [] then ret (Inr (Some tools))
     else case sse_data_payload line of
       None \<Rightarrow> ret (Inr (Some tools))
     | Some data \<Rightarrow> (case parse_sse_data L H data of
         Inl e \<Rightarrow> ret (Inl e)
       | Inr SseDoneMark \<Rightarrow> try_bind (compat_publish H (PStream rid StreamDone)) (\<lambda>_. ret (Inr None))
       | Inr (SseChunk c) \<Rightarrow> try_bind (process_chunk H rid c tools) (\<lambda>tools. ret (Inr (Some tools)))))"

definition parse_sse_stream_live :: "llm_lib \<Rightarrow> lhost \<Rightarrow> nat \<Rightarrow> nat \<Rightarrow> (sys_error + run_end) lio" where
  "parse_sse_stream_live L H fuel rid =
     try_bind (read_loop (compat_line L H rid) H fuel [] []) (\<lambda>r. case r of
       SseDone \<Rightarrow> ret (Inr Returned)
     | SseOpen \<Rightarrow> ret (Inr Reading)
     | SseEof tools buf \<Rightarrow> ret (Inl (ApiError
         (if blank buf then ''SSE stream ended before [DONE]'' else ''SSE stream ended with a partial line''))))"

subsection \<open>The request\<close>

fun role_str :: "llm_role \<Rightarrow> string" where
  "role_str LSystem = ''system''"
| "role_str LUser = ''user''"
| "role_str LAssistant = ''assistant''"
| "role_str LTool = ''tool''"

definition arguments_text :: "lhost \<Rightarrow> json \<Rightarrow> json" where
  "arguments_text H a = (case a of JStr s \<Rightarrow> a | _ \<Rightarrow> JStr (h_render H a))"

definition api_tool_call :: "lhost \<Rightarrow> llm_call \<Rightarrow> json" where
  "api_tool_call H c = JObj [(''id'', JStr (lc_id c)), (''type'', JStr ''function''),
     (''function'', JObj [(''name'', JStr (lc_name c)), (''arguments'', arguments_text H (lc_arguments c))])]"

definition api_part :: "llm_part \<Rightarrow> json" where
  "api_part p = (case p of
     LPartText t \<Rightarrow> JObj [(''type'', JStr ''text''), (''text'', JStr t)]
   | LPartImage media_type data \<Rightarrow> JObj [(''type'', JStr ''image_url''),
       (''image_url'', JObj [(''url'', JStr (''data:'' @ media_type @ '';base64,'' @ data))])])"

definition convert_message :: "lhost \<Rightarrow> llm_message \<Rightarrow> json" where
  "convert_message H m = (case lm_content m of
     LText t \<Rightarrow> JObj [(''role'', JStr (role_str (lm_role m))), (''content'', JStr t)]
   | LToolCalls calls \<Rightarrow> JObj [(''role'', JStr ''assistant''), (''content'', JNull),
       (''tool_calls'', JArr (map (api_tool_call H) calls))]
   | LToolResult call_id content \<Rightarrow> JObj [(''role'', JStr ''tool''), (''tool_call_id'', JStr call_id), (''content'', JStr content)]
   | LMultiPart parts \<Rightarrow> JObj [(''role'', JStr (role_str (lm_role m))), (''content'', JArr (map api_part parts))])"

definition api_tool :: "llm_tool \<Rightarrow> json" where
  "api_tool t = JObj [(''type'', JStr ''function''), (''function'', JObj [(''name'', JStr (lt_name t)),
     (''description'', lt_description t), (''parameters'', lt_input_schema t)])]"

definition provider_model_id :: "string \<Rightarrow> string" where
  "provider_model_id model = (case Option.bind (strip_prefix PROVIDER_ALIAS model) (strip_prefix '':'') of
     None \<Rightarrow> model | Some m \<Rightarrow> m)"

definition compat_request_model :: "string \<Rightarrow> string option \<Rightarrow> string" where
  "compat_request_model model env_model =
     provider_model_id (if model = [] then or_default ''gpt-5.4'' env_model else model)"

definition api_messages :: "lhost \<Rightarrow> string \<Rightarrow> llm_message list \<Rightarrow> json list" where
  "api_messages H system messages =
     (if system = [] then [] else [JObj [(''role'', JStr ''system''), (''content'', JStr system)]]) @
     map (convert_message H) (filter (\<lambda>m. lm_role m \<noteq> LSystem) messages)"

definition has_value :: "string \<Rightarrow> json \<Rightarrow> bool" where
  "has_value k j = (case jget k j of None \<Rightarrow> False | Some v \<Rightarrow> v \<noteq> JNull)"

definition with_max_tokens :: "lhost \<Rightarrow> json \<Rightarrow> json lio" where
  "with_max_tokens H body = (if has_value ''max_tokens'' body then ret body else do {
     v \<leftarrow> env_ok H ''max_output_tokens'';
     ret (case Option.bind v parse_u64 of None \<Rightarrow> body
       | Some n \<Rightarrow> if 0 < n then set_member ''max_tokens'' (JInt (int n)) body else body)
   })"

definition with_temperature :: "llm_lib \<Rightarrow> lhost \<Rightarrow> json \<Rightarrow> json lio" where
  "with_temperature L H body = (if has_value ''temperature'' body then ret body else do {
     v \<leftarrow> env_ok H ''temperature'';
     ret (case Option.bind v (lib_float L) of None \<Rightarrow> body | Some t \<Rightarrow> set_member ''temperature'' t body)
   })"

definition base_url :: "string \<Rightarrow> string option \<Rightarrow> string" where
  "base_url path v = trim_end_of (CHR ''/'') (or_default ''https://api.openai.com'' v) @ path"

definition compat_body :: "llm_lib \<Rightarrow> lhost \<Rightarrow> string \<Rightarrow> llm_message list \<Rightarrow> llm_tool list \<Rightarrow> string \<Rightarrow> json lio" where
  "compat_body L H model messages tools system = do {
     body \<leftarrow> with_max_tokens H (JObj [(''model'', JStr model), (''messages'', JArr (api_messages H system messages)),
       (''stream'', JBool True), (''stream_options'', JObj [(''include_usage'', JBool True)])]);
     body \<leftarrow> with_temperature L H body;
     ret (if tools = [] then body else set_member ''tools'' (JArr (map api_tool tools)) body)
   }"

definition compat_respond :: "llm_lib \<Rightarrow> lhost \<Rightarrow> nat \<Rightarrow> nat \<Rightarrow> nat \<Rightarrow> (sys_error + run_end) lio" where
  "compat_respond L H fuel rid status = (if status \<noteq> 200
     then try_bind (error_body H fuel []) (\<lambda>b. ret (case b of
         BodyOpen \<Rightarrow> Inr Reading
       | BodyPanic \<Rightarrow> Inr Panicked
       | ErrorBody t \<Rightarrow> Inl (ApiError (''API error ('' @ show_nat status @ ''): '' @ t))))
     else parse_sse_stream_live L H fuel rid)"

definition compat_execute ::
  "llm_lib \<Rightarrow> lhost \<Rightarrow> nat \<Rightarrow> nat \<Rightarrow> string \<Rightarrow> llm_message list \<Rightarrow> llm_tool list \<Rightarrow> string \<Rightarrow> (sys_error + run_end) lio" where
  "compat_execute L H fuel rid model messages tools system = do {
     base \<leftarrow> env_ok H ''base_url'';
     env_model \<leftarrow> env_ok H ''model'';
     body \<leftarrow> compat_body L H (compat_request_model model env_model) messages tools system;
     key \<leftarrow> env_ok H ''api_key'';
     (let api_key = or_default [] key in
      if api_key = [] then ret (Inl (ApiError ''api_key not configured''))
      else try_bind (host_try (stream_start H (http_post (base_url ''/v1/chat/completions'' base) (''Bearer '' @ api_key) body)))
        (compat_respond L H fuel rid))
   }"

definition handle_compat_request :: "llm_lib \<Rightarrow> lhost \<Rightarrow> nat \<Rightarrow> provider_request \<Rightarrow> run_end lio" where
  "handle_compat_request L H fuel req = (case req of
     Generate rid model messages tools system \<Rightarrow> do {
       r \<leftarrow> compat_execute L H fuel rid model messages tools system;
       case r of
         Inr x \<Rightarrow> ret x
       | Inl e \<Rightarrow> do { _ \<leftarrow> publish H COMPAT_STREAM_TOPIC (PStream rid (StreamError (lib_error_text L e))); ret Returned }
     }
   | OtherPayload \<Rightarrow> ret Returned)"

subsection \<open>The advertised models\<close>

definition parse_env_model :: "string option \<Rightarrow> string option" where
  "parse_env_model raw = Option.bind raw (\<lambda>v. if trim v = [] then None else Some (trim v))"

definition resolve_model_ids :: "sys_error + string list \<Rightarrow> string option \<Rightarrow> string list" where
  "resolve_model_ids discovery dflt = (case discovery of Inr ids \<Rightarrow> ids
     | Inl e \<Rightarrow> (case dflt of Some m \<Rightarrow> [m] | None \<Rightarrow> []))"

definition compat_entry :: "nat \<Rightarrow> nat \<Rightarrow> string \<Rightarrow> json" where
  "compat_entry window mx i = JObj [(''id'', JStr i), (''description'', JStr (''OpenAI-compatible model: '' @ i)),
     (''capabilities'', JArr [JStr ''text'', JStr ''vision'', JStr ''tools'']),
     (''request_topic'', JStr COMPAT_REQUEST_TOPIC), (''stream_topic'', JStr COMPAT_STREAM_TOPIC),
     (''context_window'', JInt (int window)), (''max_output_tokens'', JInt (int mx))]"

definition ordered_ids :: "string list \<Rightarrow> string \<Rightarrow> string list" where
  "ordered_ids ids dflt = filter (\<lambda>i. i = dflt) ids @ filter (\<lambda>i. i \<noteq> dflt) ids"

definition describe_providers :: "string list \<Rightarrow> string \<Rightarrow> nat \<Rightarrow> nat \<Rightarrow> json list" where
  "describe_providers ids dflt window mx = map (compat_entry window mx) (ordered_ids ids dflt)"

definition compat_discover_models :: "lhost \<Rightarrow> (sys_error + string list) lio" where
  "compat_discover_models H = do { base \<leftarrow> env_ok H ''base_url''; fetch_models H (base_url ''/v1/models'' base) }"

definition compat_describe :: "lhost \<Rightarrow> (sys_error + json) lio" where
  "compat_describe H = do {
     m \<leftarrow> env_ok H ''model'';
     w \<leftarrow> env_ok H ''context_window'';
     x \<leftarrow> env_ok H ''max_output_tokens'';
     discovery \<leftarrow> compat_discover_models H;
     (let dflt = parse_env_model m;
          response = JObj [(''providers'', JArr (describe_providers (resolve_model_ids discovery dflt) (or_default [] dflt)
            (or_default 128000 (Option.bind w parse_u64)) (or_default 8192 (Option.bind x parse_u64))))] in
      try_bind (publish_to H DESCRIBE_TOPIC (PDescribe response)) (\<lambda>_. ret (Inr response)))
   }"

end
