(* ===== verification/Sse_Spec.thy ===== *)
theory Sse_Spec
  imports Sse
begin

text \<open>
  What the providers' reading loop guarantees, whatever a provider does with a line: how a response is
  cut into chunks does not matter, as long as no chunk cuts a character (\<open>line_reader\<close>), and the loop
  ends with the response.
\<close>

subsection \<open>Lossy decoding\<close>

lemma utf8_step_valid:
  assumes "utf8_valid (a # bs)"
  shows "\<exists>n. utf8_step a bs = (Suc n, True) \<and> utf8_valid (drop n bs)"
proof -
  consider "a < 128" | "194 \<le> a" "a \<le> 223" | "224 \<le> a" "a \<le> 239" | "240 \<le> a" "a \<le> 244"
    using assms by (force simp: not_less not_le split: if_splits)
  then show ?thesis
  proof cases
    case 1
    then show ?thesis using assms by (simp add: utf8_step_def)
  next
    case 2
    then obtain b r where "bs = b # r" "128 \<le> b" "b \<le> 191" "utf8_valid r"
      using assms by (auto split: list.splits)
    then show ?thesis using 2 by (intro exI [where x = 1]) (simp add: utf8_step_def byte_in_def)
  next
    case 3
    then obtain b c r where "bs = b # c # r" "(if a = 224 then 160 else 128) \<le> b" "b \<le> (if a = 237 then 159 else 191)"
        "128 \<le> c" "c \<le> 191" "utf8_valid r"
      using assms by (auto split: list.splits)
    then show ?thesis using 3 by (intro exI [where x = 2]) (simp add: utf8_step_def byte_in_def)
  next
    case 4
    then obtain b c d r where "bs = b # c # d # r" "(if a = 240 then 144 else 128) \<le> b" "b \<le> (if a = 244 then 143 else 191)"
        "128 \<le> c" "c \<le> 191" "128 \<le> d" "d \<le> 191" "utf8_valid r"
      using assms by (auto split: list.splits)
    then show ?thesis using 4 by (intro exI [where x = 3]) (simp add: utf8_step_def byte_in_def)
  qed
qed

lemma lossy_valid: "utf8_valid (map of_char s) \<Longrightarrow> from_utf8_lossy s = s"
proof (induction s rule: from_utf8_lossy.induct)
  case (2 c cs)
  then obtain n where n: "utf8_step (of_char c) (map of_char cs) = (Suc n, True)" "utf8_valid (drop n (map of_char cs))"
    using utf8_step_valid [of "of_char c" "map of_char cs"] 2(2) by (simp only: list.map) blast
  then have "from_utf8_lossy (drop n cs) = drop n cs" using 2(1) [OF n(1) [symmetric]] by (simp add: drop_map)
  then show ?case using n(1) by simp
qed simp

subsection \<open>Lines\<close>

lemma next_line_append:
  "next_line (x @ y) = (case next_line x of
     None \<Rightarrow> if NL \<in> set x then None else next_line (x @ y)
   | Some (line, rest) \<Rightarrow> Some (line, rest @ y))"
  by (auto simp: next_line_def dropWhile_append)

lemma try_bind_assoc: "try_bind (try_bind m f) g = try_bind m (\<lambda>x. try_bind (f x) g)"
  by (rule state.expand) (auto simp: fun_eq_iff try_bind_def split: prod.split sum.split)

lemma try_bind_ret [simp]: "try_bind (ret (Inr x)) f = f x" "try_bind (ret (Inl e)) f = ret (Inl e)"
  by (rule state.expand; simp add: fun_eq_iff try_bind_def)+

text \<open>The lines of two texts, one after the other.\<close>

lemma drain_append:
  "drain_lines step st (x @ y) = try_bind (drain_lines step st x) (\<lambda>r. case r of
     None \<Rightarrow> ret (Inr None) | Some (st', rest) \<Rightarrow> drain_lines step st' (rest @ y))"
proof (induction step st x rule: drain_lines.induct)
  case (1 step st x)
  show ?case
  proof (cases "next_line x")
    case None
    then show ?thesis by (simp add: drain_lines.simps [of step st x])
  next
    case (Some p)
    obtain line rest where p: "p = (line, rest)" by force
    have both: "next_line (x @ y) = Some (line, rest @ y)" using next_line_append [of x y] Some p by simp
    have "drain_lines step st (x @ y) = try_bind (step st line) (\<lambda>r. case r of
        None \<Rightarrow> ret (Inr None) | Some st' \<Rightarrow> drain_lines step st' (rest @ y))"
      by (simp add: drain_lines.simps [of step st "x @ y"] both)
    also have "\<dots> = try_bind (try_bind (step st line) (\<lambda>r. case r of
        None \<Rightarrow> ret (Inr None) | Some st' \<Rightarrow> drain_lines step st' rest)) (\<lambda>r. case r of
        None \<Rightarrow> ret (Inr None) | Some (st', rest) \<Rightarrow> drain_lines step st' (rest @ y))"
      unfolding try_bind_assoc
      by (rule arg_cong [where f = "try_bind (step st line)"]) (auto simp: fun_eq_iff 1 [OF Some p [symmetric]] split: option.split)
    also have "\<dots> = try_bind (drain_lines step st x) (\<lambda>r. case r of
        None \<Rightarrow> ret (Inr None) | Some (st', rest) \<Rightarrow> drain_lines step st' (rest @ y))"
      by (simp add: drain_lines.simps [of step st x] Some p)
    finally show ?thesis .
  qed
qed

lemma drain_rest: "wp (drain_lines step st buf) (\<lambda>r tr'. \<forall>st' rest. r = Inr (Some (st', rest)) \<longrightarrow>
    next_line rest = None \<and> length rest \<le> length buf) tr"
proof (induction step st buf arbitrary: tr rule: drain_lines.induct)
  case (1 step st buf)
  have more: "wp (drain_lines step st' rest) (\<lambda>r tr'. \<forall>st' rest. r = Inr (Some (st', rest)) \<longrightarrow>
      next_line rest = None \<and> length rest \<le> length buf) t" if "next_line buf = Some (line, rest)" for line rest st' t
    using next_line_shorter [OF that] by (intro wp_mono [OF 1 [OF that refl]]) force
  show ?case
    unfolding drain_lines.simps [of step st buf]
    by (intro wpI) (auto simp: wp_iff [of "step _ _"] intro!: wp_return more split: option.split)
qed

subsection \<open>Chunks\<close>

fun is_chunk :: "('v, 'm) event \<Rightarrow> bool" where
  "is_chunk (EvChunk r) = True"
| "is_chunk _ = False"

definition chunk_count :: "('v, 'm) event list \<Rightarrow> nat" where
  "chunk_count evs = length (filter is_chunk evs)"

lemma chunk_count_simps [simp]:
  "chunk_count [] = 0" "chunk_count (e # evs) = (if is_chunk e then Suc (chunk_count evs) else chunk_count evs)"
  "chunk_count (evs @ evs') = chunk_count evs + chunk_count evs'"
  by (simp_all add: chunk_count_def)

text \<open>From here on the stream consists of the chunks \<open>cs\<close>, in order, and then ends.\<close>

definition serves :: "('v, 'm) host \<Rightarrow> string list \<Rightarrow> ('v, 'm) event list \<Rightarrow> bool" where
  "serves H cs tr \<longleftrightarrow> (\<forall>evs. h_chunk H (evs @ tr) =
     Inr (if chunk_count evs < length cs then Some (cs ! chunk_count evs) else None))"

lemma serves_now: "serves H cs tr \<Longrightarrow> h_chunk H tr = Inr (case cs of [] \<Rightarrow> None | c # _ \<Rightarrow> Some c)"
  unfolding serves_def by (drule spec [where x = "[]"]) (simp split: list.split)

lemma serves_later:
  assumes "serves H (c # cs) tr" and "chunk_count evs = 1"
  shows "serves H cs (evs @ tr)"
  unfolding serves_def
proof
  fix evs'
  show "h_chunk H (evs' @ evs @ tr) = Inr (if chunk_count evs' < length cs then Some (cs ! chunk_count evs') else None)"
    using assms unfolding serves_def by (drule_tac spec [where x = "evs' @ evs"]) simp
qed

text \<open>
  A computation whose only calls are accepted publications on the topic \<open>T\<close>: it publishes the same
  messages and gives the same result from every trace.
\<close>

definition sent :: "string \<Rightarrow> 'm list \<Rightarrow> ('v, 'm) event list" where
  "sent T ms = rev (map (\<lambda>m. EvPub T m None) ms)"

lemma sent_simps [simp]: "sent T [] = []" "sent T (ms @ ms') = sent T ms' @ sent T ms" "pubs (sent T ms) = map (Pair T) ms"
    "chunk_count (sent T ms) = 0"
  by (simp_all add: sent_def) (induction ms; simp)+

definition scripted :: "string \<Rightarrow> (('v, 'm) event list, 'a) state \<Rightarrow> bool" where
  "scripted T f \<longleftrightarrow> (\<exists>r ms. \<forall>tr. run_state f tr = (r, sent T ms @ tr))"

lemma scriptedE:
  assumes "scripted T f"
  obtains r ms where "\<And>tr. run_state f tr = (r, sent T ms @ tr)"
  using assms unfolding scripted_def by blast

named_theorems scriptedI \<open>rules for computations that only publish\<close>

lemma scripted_ret [scriptedI]: "scripted T (ret x)"
  unfolding scripted_def by (intro exI [where x = x] exI [where x = "[]"]) simp

lemma scripted_try_bind [scriptedI]:
  assumes "scripted T m" "\<And>x. scripted T (f x)"
  shows "scripted T (try_bind m f)"
proof -
  obtain r ms where m: "\<And>tr. run_state m tr = (r, sent T ms @ tr)" using scriptedE [OF assms(1)] by blast
  show ?thesis
  proof (cases r)
    case (Inl e)
    then show ?thesis unfolding scripted_def by (intro exI [where x = "Inl e"] exI [where x = ms]) (simp add: try_bind_def m)
  next
    case (Inr x)
    obtain r' ms' where "\<And>tr. run_state (f x) tr = (r', sent T ms' @ tr)" using scriptedE [OF assms(2)] by blast
    then show ?thesis unfolding scripted_def
      by (intro exI [where x = r'] exI [where x = "ms @ ms'"]) (simp add: try_bind_def m Inr)
  qed
qed

lemma scripted_publish_to [scriptedI]:
  assumes "\<And>tr m. h_pub H tr T m = None"
  shows "scripted T (publish_to H T m)"
  unfolding scripted_def
  by (intro exI [where x = "Inr ()"] exI [where x = "[m]"]) (simp add: publish_to_def publish_def assms sent_def)

lemma scripted_cases [scriptedI]:
  "(b \<Longrightarrow> scripted T m) \<Longrightarrow> (\<not> b \<Longrightarrow> scripted T n) \<Longrightarrow> scripted T (if b then m else n)"
  "(z = None \<Longrightarrow> scripted T n) \<Longrightarrow> (\<And>v. z = Some v \<Longrightarrow> scripted T (g v)) \<Longrightarrow>
     scripted T (case z of None \<Rightarrow> n | Some v \<Rightarrow> g v)"
  "scripted T (q y) \<Longrightarrow> scripted T (Let y q)"
  by (auto split: option.split)

text \<open>What the loop makes of a text that is complete.\<close>

definition verdict :: "sys_error + ('s \<times> string) option \<Rightarrow> sys_error + 's sse_end" where
  "verdict d = (case d of Inl e \<Rightarrow> Inl e | Inr None \<Rightarrow> Inr SseDone | Inr (Some (st, rest)) \<Rightarrow> Inr (SseEof st rest))"

definition overflow :: sys_error where
  "overflow = ApiError ''SSE line buffer exceeded maximum size''"

locale line_reader =
  fixes H :: lhost and T :: string and step :: "'s \<Rightarrow> string \<Rightarrow> (sys_error + 's option) lio"
  assumes step_scripted: "scripted T (step st line)"
begin

lemma drain_scripted: "scripted T (drain_lines step st buf)"
proof (induction buf arbitrary: st rule: measure_induct_rule [where f = length])
  case (less buf)
  show ?case
    unfolding drain_lines.simps [of step st buf]
    by (intro scriptedI) (auto intro!: scriptedI step_scripted less dest: next_line_shorter split: prod.split)
qed

text \<open>The loop over the chunks against one pass over the whole text.\<close>

lemma read_whole:
  assumes "serves H cs tr" and "list_all (\<lambda>c. utf8_valid (map of_char c)) cs" and "length cs < fuel"
    and "next_line buf = None"
  shows "\<exists>ms d evs r. run_state (read_loop step H fuel st buf) tr = (r, evs @ tr) \<and>
     (\<forall>t. run_state (drain_lines step st (buf @ concat cs)) t = (d, sent T ms @ t)) \<and>
     ((r = Inl overflow \<and> MAX_LINE_BUFFER_SIZE < length (buf @ concat cs)) \<or> (r = verdict d \<and> pubs evs = map (Pair T) ms))"
  using assms
proof (induction cs arbitrary: tr fuel st buf)
  case Nil
  then obtain n where n: "fuel = Suc n" by (cases fuel) auto
  have "\<forall>t. run_state (drain_lines step st (buf @ concat [])) t = (Inr (Some (st, buf)), sent T [] @ t)"
    using Nil(4) by (simp add: drain_lines.simps)
  moreover have "run_state (read_loop step H fuel st buf) tr = (Inr (SseEof st buf), [EvChunk (Inr None)] @ tr)"
    using serves_now [OF Nil(1)] by (simp add: n host_try_def try_bind_def read_chunk_def)
  ultimately show ?case
    by (intro exI [where x = "[]"] exI [where x = "Inr (Some (st, buf))"] exI [where x = "[EvChunk (Inr None)]"]
        exI [where x = "Inr (SseEof st buf)"]) (simp add: verdict_def)
next
  case (Cons c cs)
  then obtain n where n: "fuel = Suc n" "length cs < n" by (cases fuel) auto
  have chunk: "h_chunk H tr = Inr (Some c)" "from_utf8_lossy c = c"
    using serves_now [OF Cons.prems(1)] Cons.prems(2) lossy_valid by auto
  let ?ev = "EvChunk (Inr (Some c))"
  obtain d1 ms1 where d1: "\<And>t. run_state (drain_lines step st (buf @ c)) t = (d1, sent T ms1 @ t)"
    using scriptedE [OF drain_scripted] by blast
  have split: "run_state (drain_lines step st (buf @ concat (c # cs))) t =
      (case d1 of Inl e \<Rightarrow> (Inl e, sent T ms1 @ t) | Inr None \<Rightarrow> (Inr None, sent T ms1 @ t)
       | Inr (Some (st', rest)) \<Rightarrow> run_state (drain_lines step st' (rest @ concat cs)) (sent T ms1 @ t))" for t
    using drain_append [of step st "buf @ c" "concat cs"] by (simp add: try_bind_def d1 split: sum.split option.split prod.split)
  have loop: "run_state (read_loop step H fuel st buf) tr =
      (if MAX_LINE_BUFFER_SIZE < length (buf @ c) then (Inl overflow, ?ev # tr)
       else case d1 of Inl e \<Rightarrow> (Inl e, sent T ms1 @ ?ev # tr) | Inr None \<Rightarrow> (Inr SseDone, sent T ms1 @ ?ev # tr)
       | Inr (Some (st', rest)) \<Rightarrow> run_state (read_loop step H n st' rest) (sent T ms1 @ ?ev # tr))"
    using chunk by (simp add: n host_try_def try_bind_def read_chunk_def overflow_def Let_def d1 split: sum.split option.split prod.split)
  show ?case
  proof (cases "MAX_LINE_BUFFER_SIZE < length (buf @ c)")
    case True
    obtain d ms where "\<And>t. run_state (drain_lines step st (buf @ concat (c # cs))) t = (d, sent T ms @ t)"
      using scriptedE [OF drain_scripted] by blast
    then show ?thesis using loop True
      by (intro exI [where x = ms] exI [where x = d] exI [where x = "[?ev]"] exI [where x = "Inl overflow"]) simp
  next
    case False
    show ?thesis
    proof (cases "\<exists>st' rest. d1 = Inr (Some (st', rest))")
      case True
      then obtain st' rest where d1_def: "d1 = Inr (Some (st', rest))" by blast
      have "next_line rest = None" and short: "length rest \<le> length (buf @ c)"
        using drain_rest [of step st "buf @ c" tr] by (simp_all add: wp_iff d1 d1_def)
      moreover have "serves H cs (sent T ms1 @ ?ev # tr)"
        using serves_later [OF Cons.prems(1), of "sent T ms1 @ [?ev]"] by simp
      ultimately obtain ms d evs r where ih: "run_state (read_loop step H n st' rest) (sent T ms1 @ ?ev # tr) = (r, evs @ sent T ms1 @ ?ev # tr)"
          "\<And>t. run_state (drain_lines step st' (rest @ concat cs)) t = (d, sent T ms @ t)"
          "(r = Inl overflow \<and> MAX_LINE_BUFFER_SIZE < length (rest @ concat cs)) \<or> (r = verdict d \<and> pubs evs = map (Pair T) ms)"
        using Cons.IH [of "sent T ms1 @ ?ev # tr" n rest st'] Cons.prems(2) n(2) by auto
      then show ?thesis using loop False split
        by (intro exI [where x = "ms1 @ ms"] exI [where x = d] exI [where x = "evs @ sent T ms1 @ [?ev]"] exI [where x = r])
          (use short in \<open>auto simp: d1_def\<close>)
    next
      case no: False
      then consider e where "d1 = Inl e" | "d1 = Inr None" by (cases d1) (auto, metis option.exhaust surj_pair)
      then show ?thesis using loop False split
        by cases (intro exI [where x = ms1] exI [where x = d1] exI [where x = "sent T ms1 @ [?ev]"] exI [where x = "verdict d1"];
          simp add: verdict_def)+
    qed
  qed
qed

end

subsection \<open>Invariants over the lines\<close>

function lines_of :: "string \<Rightarrow> string list" where
  "lines_of buf = (case next_line buf of None \<Rightarrow> [] | Some (line, rest) \<Rightarrow> line # lines_of rest)"
  by pat_completeness auto
termination by (relation "measure length") (auto dest: next_line_shorter)

declare lines_of.simps [simp del]

text \<open>A step that goes on with a good state after every good line goes on to the end of the text.\<close>

lemma drain_invariant:
  assumes step: "\<And>st line tr. I st \<Longrightarrow> G line \<Longrightarrow> wp (step st line) (\<lambda>r tr'.
      (\<exists>st'. r = Inr (Some st') \<and> I st') \<and> (\<exists>evs. tr' = evs @ tr \<and> list_all R evs)) tr"
    and "I st" and "list_all G (lines_of buf)"
  shows "wp (drain_lines step st buf) (\<lambda>r tr'. (\<exists>x. r = Inr (Some x)) \<and> (\<exists>evs. tr' = evs @ tr \<and> list_all R evs)) tr"
  using assms(2,3)
proof (induction buf arbitrary: st tr rule: measure_induct_rule [where f = length])
  case (less buf)
  show ?case
  proof (cases "next_line buf")
    case None
    then show ?thesis by (simp add: drain_lines.simps wp_return)
  next
    case (Some p)
    obtain line rest where p: "p = (line, rest)" by force
    have good: "G line" "list_all G (lines_of rest)" using less.prems(2) by (simp_all add: lines_of.simps [of buf] Some p)
    have more: "wp (drain_lines step st' rest) (\<lambda>r tr'. (\<exists>x. r = Inr (Some x)) \<and> (\<exists>evs. tr' = evs @ tr \<and> list_all R evs)) (evs1 @ tr)"
      if "I st'" "list_all R evs1" for st' evs1
      using that(2) by (intro wp_mono [OF less.IH [OF next_line_shorter [OF Some [unfolded p]] that(1) good(2)]])
        (metis append.assoc list_all_append)
    show ?thesis
      unfolding drain_lines.simps [of step st buf] Some p option.case prod.case
      apply (rule wp_try_bind, rule wp_mono, rule step [OF less.prems(1) good(1)])
      apply (elim exE conjE, intro conjI allI impI, simp, simp)
      apply (simp, rule more [simplified], assumption+)
      done
  qed
qed

subsection \<open>The messages of a request\<close>

fun closing :: "stream_event \<Rightarrow> bool" where
  "closing StreamDone = True"
| "closing (StreamError t) = True"
| "closing _ = False"

fun stream_message :: "nat \<Rightarrow> provider_msg \<Rightarrow> bool" where
  "stream_message rid (PStream r e) = (r = rid \<and> \<not> closing e)"
| "stream_message rid (PUsage r i n) = (r = rid)"
| "stream_message rid (PDescribe j) = False"

text \<open>An event that is no publication, or one of a message of the request that does not close its stream.\<close>

definition plain :: "string \<Rightarrow> nat \<Rightarrow> (unit, provider_msg) event \<Rightarrow> bool" where
  "plain T rid e \<longleftrightarrow> (case pub_of e of None \<Rightarrow> True | Some (t, m) \<Rightarrow> t = T \<and> stream_message rid m)"

lemma plain_simps [simp]:
  "plain T rid (EvPub t m r) \<longleftrightarrow> t = T \<and> stream_message rid m" "plain T rid (EvChunk c)" "plain T rid (EvEnv k v)"
  "plain T rid (EvOpen q s)" "plain T rid (EvHttp q a)"
  by (simp_all add: plain_def)

lemma plain_host_calls [everyI]:
  "every (plain T rid) (env_ok H k)" "every (plain T rid) (env_var H k)" "every (plain T rid) (read_chunk H)"
  "every (plain T rid) (http_send H q)" "every (plain T rid) (stream_start H q)"
  by (auto simp: env_ok_def host_defs intro!: everyI every_host_call)

lemma plain_publish [everyI]: "stream_message rid m \<Longrightarrow> every (plain T rid) (publish_to H T m)"
  unfolding publish_to_def publish_def by (intro everyI every_host_call) simp

lemma every_host_try [everyI]: "every P m \<Longrightarrow> every P (host_try m)"
  unfolding host_try_def by (intro everyI)

lemma error_body_plain:
  "wp (error_body H fuel acc) (\<lambda>r tr'. \<exists>evs. tr' = evs @ tr \<and> list_all (plain T rid) evs \<and>
     (r = Inr BodyOpen \<longrightarrow> fuel \<le> chunk_count evs)) tr"
proof (induction fuel arbitrary: acc tr)
  case 0
  show ?case by (auto intro!: wp_return)
next
  case (Suc fuel)
  have more: "wp (error_body H fuel acc') (\<lambda>r tr'. \<exists>evs. tr' = evs @ tr \<and> list_all (plain T rid) evs \<and>
      (r = Inr BodyOpen \<longrightarrow> Suc fuel \<le> chunk_count evs)) (EvChunk c # tr)" for acc' c
    by (rule wp_mono [OF Suc.IH]) (auto intro: exI [where x = "_ @ [_]"])
  show ?case
    unfolding error_body.simps host_try_def Let_def
    apply (rule wp_try_bind, rule wp_bind, rule wp_read_chunk, rule wp_return)
    apply (intro conjI allI impI, simp add: exI [where x = "[_]"])
    apply (rule wp_case_option, rule wp_return, simp add: exI [where x = "[_]"])
    apply (rule wp_if, rule wp_return, simp add: exI [where x = "[_]"])
    apply (rule more)
    done
qed

lemma every_drain [everyI]: "(\<And>st line. every P (step st line)) \<Longrightarrow> every P (drain_lines step st buf)"
proof (induction buf arbitrary: st rule: measure_induct_rule [where f = length])
  case (less buf)
  have "every P (drain_lines step st' rest)" if "next_line buf = Some (line, rest)" for line rest st'
    using less.IH [OF next_line_shorter [OF that]] less.prems by simp
  then show ?case
    unfolding drain_lines.simps [of step st buf] using less.prems
    by (auto intro!: everyI split: option.split prod.split)
qed

lemma every_read_loop [everyI]:
  assumes "\<And>st line. every P (step st line)" and "every P (read_chunk H)"
  shows "every P (read_loop step H fuel st buf)"
proof (induction fuel arbitrary: st buf)
  case (Suc fuel)
  then show ?case using assms by (auto intro!: everyI split: option.split prod.split simp: Let_def)
qed (auto intro: everyI)

lemma every_error_body [everyI]: "every P (read_chunk H) \<Longrightarrow> every P (error_body H fuel acc)"
  by (induction fuel arbitrary: acc) (auto intro!: everyI simp: Let_def)

text \<open>The streams opened ask for the model \<open>m\<close>.\<close>

definition asks_for :: "string \<Rightarrow> ('v, 'm) event \<Rightarrow> bool" where
  "asks_for m e \<longleftrightarrow> (case e of EvOpen q r \<Rightarrow> Option.bind (hr_body q) (get_str ''model'') = Some m | _ \<Rightarrow> True)"

lemma asks_for_calls [everyI]:
  "every (asks_for m) (env_ok H k)" "every (asks_for m) (read_chunk H)" "every (asks_for m) (publish H t p)"
  "every (asks_for m) (publish_to H t p)"
  "get_str ''model'' body = Some m \<Longrightarrow> every (asks_for m) (stream_start H (http_post url auth body))"
  by (auto simp: env_ok_def publish_to_def host_defs asks_for_def http_post_def intro!: everyI every_host_call)

lemma get_str_set_member [simp]:
  "get_str k (set_member k' v (JObj m)) = (if k = k' then jstr v else get_str k (JObj m))"
  "get_str k j = Some x \<Longrightarrow> k \<noteq> k' \<Longrightarrow> get_str k (set_member k' v j) = Some x"
  by (auto simp: get_str_def set_member_def update_conv split: json.splits)

text \<open>Members added to a request, on a condition or from a setting, keep the member \<open>model\<close>.\<close>

named_theorems model_kept

lemma model_kept_rules [model_kept]:
  "get_str ''model'' b = Some m \<Longrightarrow> ''model'' \<noteq> k \<Longrightarrow> get_str ''model'' (if c then b else set_member k v b) = Some m"
  "get_str ''model'' b = Some m \<Longrightarrow> ''model'' \<noteq> k \<Longrightarrow> get_str ''model'' (if c then set_member k v b else b) = Some m"
  "get_str ''model'' b = Some m \<Longrightarrow> ''model'' \<noteq> k \<Longrightarrow>
     get_str ''model'' (case z of None \<Rightarrow> b | Some x \<Rightarrow> set_member k (w x) b) = Some m"
  "get_str ''model'' b = Some m \<Longrightarrow> ''model'' \<noteq> k \<Longrightarrow>
     get_str ''model'' (case y of None \<Rightarrow> b | Some x \<Rightarrow> if f x then b else set_member k (u x) b) = Some m"
  "get_str ''model'' b = Some m \<Longrightarrow> ''model'' \<noteq> k \<Longrightarrow>
     get_str ''model'' (case y of None \<Rightarrow> b | Some x \<Rightarrow> if f x then set_member k (u x) b else b) = Some m"
  by (simp_all split: option.split)

text \<open>A step whose value the rest relies on.\<close>

lemma every_bind_value:
  assumes "every P m" and "\<And>tr. I (fst (run_state m tr))" and "\<And>x. I x \<Longrightarrow> every P (f x)"
  shows "every P (State_Monad.bind m f)"
  unfolding every_def
proof
  fix tr
  obtain evs where 1: "snd (run_state m tr) = evs @ tr" "list_all P evs" using assms(1) unfolding every_def by blast
  obtain evs' where 2: "snd (run_state (f (fst (run_state m tr))) (evs @ tr)) = evs' @ evs @ tr" "list_all P evs'"
    using assms(2,3) unfolding every_def by blast
  show "\<exists>evs. snd (run_state (State_Monad.bind m f) tr) = evs @ tr \<and> list_all P evs"
    using 1 2 by (intro exI [where x = "evs' @ evs"]) (simp add: case_prod_beta)
qed

text \<open>Steps before the interesting part of a handler, whose result relation they do not disturb.\<close>

lemma wp_prefix:
  assumes "\<And>r evs evs'. R r evs \<Longrightarrow> list_all P evs' \<Longrightarrow> R r (evs @ evs')"
    and "every P m" and "\<And>x tr. wp (f x) (\<lambda>r tr'. \<exists>evs. tr' = evs @ tr \<and> R r evs) tr"
  shows "wp (State_Monad.bind m f) (\<lambda>r tr'. \<exists>evs. tr' = evs @ tr \<and> R r evs) tr"
  by (rule wp_bind, rule every_wp [OF assms(2)], rule wp_mono [OF assms(3)]) (metis append.assoc assms(1))

lemma wp_try_prefix:
  assumes "\<And>r evs evs'. R r evs \<Longrightarrow> list_all P evs' \<Longrightarrow> R r (evs @ evs')"
    and "every P m" and "\<And>e. R (Inl e) []"
    and "\<And>x tr. wp (f x) (\<lambda>r tr'. \<exists>evs. tr' = evs @ tr \<and> R r evs) tr"
  shows "wp (try_bind m f) (\<lambda>r tr'. \<exists>evs. tr' = evs @ tr \<and> R r evs) tr"
  unfolding try_bind_def
  by (rule wp_prefix [where R = R, OF assms(1,2)], assumption+, rule wp_case_sum) (auto intro!: wp_return assms(3,4))

text \<open>Newest first: the end of the stream, accepted or refused.\<close>

definition done_after :: "string \<Rightarrow> nat \<Rightarrow> host_error option \<Rightarrow> (unit, provider_msg) event list \<Rightarrow> bool" where
  "done_after T rid x evs \<longleftrightarrow> (\<exists>evs0. evs = EvPub T (PStream rid StreamDone) x # evs0 \<and> list_all (plain T rid) evs0)"

fun shape :: "string \<Rightarrow> nat \<Rightarrow> sys_error + 'a option \<Rightarrow> (unit, provider_msg) event list \<Rightarrow> bool" where
  "shape T rid (Inl e) evs \<longleftrightarrow> list_all (plain T rid) evs \<or> (\<exists>x. done_after T rid (Some x) evs)"
| "shape T rid (Inr None) evs = done_after T rid None evs"
| "shape T rid (Inr (Some y)) evs = list_all (plain T rid) evs"

lemma done_after_append: "done_after T rid x evs \<Longrightarrow> list_all (plain T rid) evs' \<Longrightarrow> done_after T rid x (evs @ evs')"
  by (auto simp: done_after_def)

lemma shape_append: "shape T rid r evs \<Longrightarrow> list_all (plain T rid) evs' \<Longrightarrow> shape T rid r (evs @ evs')"
  by (cases "(T, rid, r, evs)" rule: shape.cases) (auto dest: done_after_append)

text \<open>A closed stream: one end, after everything else; an error may follow only an end that was refused.\<close>

definition closed_stream :: "string \<Rightarrow> nat \<Rightarrow> (unit, provider_msg) event list \<Rightarrow> bool" where
  "closed_stream T rid evs \<longleftrightarrow> done_after T rid None evs \<or>
     (\<exists>t x evs0. evs = EvPub T (PStream rid (StreamError t)) x # evs0 \<and>
       (list_all (plain T rid) evs0 \<or> (\<exists>y. done_after T rid (Some y) evs0)))"

fun read_shape :: "string \<Rightarrow> nat \<Rightarrow> nat \<Rightarrow> sys_error + 's sse_end \<Rightarrow> (unit, provider_msg) event list \<Rightarrow> bool" where
  "read_shape T rid fuel (Inl e) evs \<longleftrightarrow> list_all (plain T rid) evs \<or> (\<exists>x. done_after T rid (Some x) evs)"
| "read_shape T rid fuel (Inr SseDone) evs = done_after T rid None evs"
| "read_shape T rid fuel (Inr (SseEof st buf)) evs = list_all (plain T rid) evs"
| "read_shape T rid fuel (Inr SseOpen) evs \<longleftrightarrow> list_all (plain T rid) evs \<and> fuel \<le> chunk_count evs"

lemma read_shape_append:
  "read_shape T rid fuel r evs \<Longrightarrow> list_all (plain T rid) evs' \<Longrightarrow> 0 < chunk_count evs' \<Longrightarrow>
   read_shape T rid (Suc fuel) r (evs @ evs')"
  by (cases "(T, rid, fuel, r, evs)" rule: read_shape.cases) (auto dest: done_after_append)

locale stream_step =
  fixes step :: "'s \<Rightarrow> string \<Rightarrow> (sys_error + 's option) lio" and T :: string and rid :: nat
  assumes step_shape: "wp (step st line) (\<lambda>r tr'. \<exists>evs. tr' = evs @ tr \<and> shape T rid r evs) tr"
begin

lemma drain_shape: "wp (drain_lines step st buf) (\<lambda>r tr'. \<exists>evs. tr' = evs @ tr \<and> shape T rid r evs) tr"
proof (induction buf arbitrary: st tr rule: measure_induct_rule [where f = length])
  case (less buf)
  have more: "wp (drain_lines step st' rest) (\<lambda>r tr'. \<exists>evs. tr' = evs @ tr \<and> shape T rid r evs) (evs1 @ tr)"
    if "next_line buf = Some (line, rest)" "list_all (plain T rid) evs1" for line rest st' evs1
    using that(2) by (intro wp_mono [OF less [OF next_line_shorter [OF that(1)], of st' "evs1 @ tr"]])
      (metis append.assoc shape_append)
  show ?case
    unfolding drain_lines.simps [of step st buf]
    apply (rule wp_case_option, rule wp_return, simp)
    apply (rule wp_case_prod, rule wp_try_bind, rule wp_mono, rule step_shape)
    apply (elim exE conjE, intro conjI allI impI)
     apply simp
    apply (rule wp_case_option, rule wp_return, simp)
    apply (simp add: more)
    done
qed

lemma read_shaped:
  "wp (read_loop step H fuel st buf) (\<lambda>r tr'. \<exists>evs. tr' = evs @ tr \<and> read_shape T rid fuel r evs) tr"
proof (induction fuel arbitrary: st buf tr)
  case 0
  show ?case by (auto intro!: wp_return)
next
  case (Suc fuel)
  have more: "wp (read_loop step H fuel st' rest) (\<lambda>r tr'. \<exists>evs. tr' = evs @ tr \<and> read_shape T rid (Suc fuel) r evs) (evs1 @ EvChunk c # tr)"
    if "list_all (plain T rid) evs1" for evs1 c rest st'
    using that read_shape_append [where evs' = "evs1 @ [EvChunk c]"]
    by (intro wp_mono [OF Suc.IH [of st' rest "evs1 @ EvChunk c # tr"]]) fastforce
  have ended: "done_after T rid x evs \<Longrightarrow> done_after T rid x (evs @ [EvChunk c])" for x evs c
    by (rule done_after_append) simp_all
  show ?case
    unfolding read_loop.simps host_try_def Let_def
    apply (rule wp_try_bind, rule wp_bind, rule wp_read_chunk, rule wp_return)
    apply (intro conjI allI impI, simp add: exI [where x = "[_]"])
    apply (rule wp_case_option, rule wp_return, simp add: exI [where x = "[_]"])
    apply (rule wp_if, rule wp_return, simp add: exI [where x = "[_]"])
    apply (rule wp_try_bind)
    apply (rule wp_mono, rule drain_shape)
    apply (elim exE conjE, intro conjI allI impI)
     apply (auto dest: ended)[1]
    apply (rule wp_case_option, rule wp_return)
    using ended apply fastforce
    apply (rule wp_case_prod, simp add: more)
    done
qed

end

end
