(* ===== verification/Openai_Compat_Spec.thy ===== *)
theory Openai_Compat_Spec
  imports Openai_Compat Sse_Spec
begin

text \<open>
  The provider for chat completion servers, properties: a request's stream is closed exactly once, how
  the response is cut into chunks does not matter, and what is advertised.
\<close>

subsection \<open>The stream of a request\<close>

lemma plain_compat_publish [everyI]: "stream_message rid m \<Longrightarrow> every (plain COMPAT_STREAM_TOPIC rid) (compat_publish H m)"
  unfolding compat_publish_def by (rule plain_publish)

lemma plain_process_tool_call [everyI]: "every (plain COMPAT_STREAM_TOPIC rid) (process_tool_call H rid tc tools)"
  unfolding process_tool_call_def Let_def by (intro everyI) simp_all

lemma plain_process_tool_calls [everyI]: "every (plain COMPAT_STREAM_TOPIC rid) (process_tool_calls H rid tcs tools)"
  by (induction tcs arbitrary: tools) (auto intro!: everyI)

lemma plain_publish_ends [everyI]: "every (plain COMPAT_STREAM_TOPIC rid) (publish_ends H rid tools)"
  by (induction tools) (auto intro!: everyI)

lemma plain_process_chunk [everyI]: "every (plain COMPAT_STREAM_TOPIC rid) (process_chunk H rid c tools)"
  unfolding process_chunk_def process_choice_def
  by (auto intro!: everyI split: list.split option.split)

lemma wp_publish_done:
  "wp (publish_to H T (PStream rid StreamDone)) (\<lambda>r tr'. \<exists>x. tr' = EvPub T (PStream rid StreamDone) x # tr \<and>
     r = (case x of None \<Rightarrow> Inr () | Some e \<Rightarrow> Inl (HostFailure e))) tr"
  unfolding publish_to_def by (intro wpI) auto

lemma done_now: "done_after T rid x [EvPub T (PStream rid StreamDone) x]"
  by (simp add: done_after_def)

interpretation compat: stream_step "compat_line L H rid" COMPAT_STREAM_TOPIC rid for L H rid
proof
  fix st line tr
  have chunk: "wp (process_chunk H rid c st) (\<lambda>r tr'. \<exists>evs. tr' = evs @ tr \<and> list_all (plain COMPAT_STREAM_TOPIC rid) evs) tr" for c
    by (rule every_wp [OF plain_process_chunk]) auto
  show "wp (compat_line L H rid st line) (\<lambda>r tr'. \<exists>evs. tr' = evs @ tr \<and> shape COMPAT_STREAM_TOPIC rid r evs) tr"
    unfolding compat_line_def compat_publish_def
    apply (rule wp_if, rule wp_return, simp)
    apply (rule wp_case_option, rule wp_return, simp)
    apply (rule wp_case_sum, rule wp_return, simp)
    subgoal for data x
      apply (cases x; simp)
       apply (rule wp_try_bind, rule wp_mono, rule wp_publish_done)
       apply (auto intro!: wp_return done_now split: option.splits)[1]
      apply (rule wp_try_bind, rule wp_mono, rule chunk)
      apply (auto intro!: wp_return)
      done
    done
qed

text \<open>What a request has put on the bus when it returns a result.\<close>

fun request_shape :: "nat \<Rightarrow> nat \<Rightarrow> sys_error + run_end \<Rightarrow> (unit, provider_msg) event list \<Rightarrow> bool" where
  "request_shape rid fuel (Inl e) evs \<longleftrightarrow>
     list_all (plain COMPAT_STREAM_TOPIC rid) evs \<or> (\<exists>x. done_after COMPAT_STREAM_TOPIC rid (Some x) evs)"
| "request_shape rid fuel (Inr Returned) evs = done_after COMPAT_STREAM_TOPIC rid None evs"
| "request_shape rid fuel (Inr Panicked) evs = list_all (plain COMPAT_STREAM_TOPIC rid) evs"
| "request_shape rid fuel (Inr Reading) evs \<longleftrightarrow> list_all (plain COMPAT_STREAM_TOPIC rid) evs \<and> fuel \<le> chunk_count evs"

lemma request_shape_append:
  "request_shape rid fuel r evs \<Longrightarrow> list_all (plain COMPAT_STREAM_TOPIC rid) evs' \<Longrightarrow> request_shape rid fuel r (evs @ evs')"
  by (cases "(rid, fuel, r, evs)" rule: request_shape.cases) (auto dest: done_after_append)

lemma compat_stream_shape:
  "wp (parse_sse_stream_live L H fuel rid) (\<lambda>r tr'. \<exists>evs. tr' = evs @ tr \<and> request_shape rid fuel r evs) tr"
  unfolding parse_sse_stream_live_def
  apply (rule wp_try_bind, rule wp_mono, rule compat.read_shaped)
  apply (auto intro!: wp_return split: sse_end.split)
  done

lemma compat_respond_shape:
  "wp (compat_respond L H fuel rid s) (\<lambda>r tr'. \<exists>evs. tr' = evs @ tr \<and> request_shape rid fuel r evs) tr"
  unfolding compat_respond_def
  apply (rule wp_if, rule wp_try_bind, rule wp_mono, rule error_body_plain [where T = COMPAT_STREAM_TOPIC and rid = rid])
   apply (auto intro!: wp_return split: body_end.split)[1]
  apply (rule compat_stream_shape)
  done

lemma plain_compat_body [everyI]: "every (plain COMPAT_STREAM_TOPIC rid) (compat_body L H m ms ts s)"
  unfolding compat_body_def with_max_tokens_def with_temperature_def by (intro everyI)

lemma compat_execute_shape:
  "wp (compat_execute L H fuel rid m ms ts s) (\<lambda>r tr'. \<exists>evs. tr' = evs @ tr \<and> request_shape rid fuel r evs) tr"
proof -
  note prefix = wp_prefix [where R = "request_shape rid fuel" and P = "plain COMPAT_STREAM_TOPIC rid", OF request_shape_append]
    and try_prefix = wp_try_prefix [where R = "request_shape rid fuel" and P = "plain COMPAT_STREAM_TOPIC rid", OF request_shape_append]
  show ?thesis
    unfolding compat_execute_def Let_def
    apply (rule prefix, assumption+, rule plain_host_calls)+
    apply (rule prefix, assumption+, rule plain_compat_body)
    apply (rule prefix, assumption+, rule plain_host_calls)
    apply (rule wp_if, rule wp_return, simp)
    apply (rule try_prefix, assumption+, intro everyI)
     apply simp
    apply (rule compat_respond_shape)
    done
qed

text \<open>
  C20: A provider closes the stream of every request.  On every host, whatever the server sends: all
  publications are of the request and on the provider's topic, and when the handler has returned, the
  newest is the end of the stream, either \<open>StreamDone\<close> accepted by the bus or \<open>StreamError\<close>, and no
  earlier one is an end, except a \<open>StreamDone\<close> that the bus refused before the error.  A handler that panicked has
  not closed it; one that is still reading after \<open>fuel\<close> rounds has received as many chunks.\<close>

theorem compat_stream_closed:
  "case run_state (handle_compat_request L H fuel (Generate rid model messages tools system)) tr of (r, tr') \<Rightarrow>
     (case r of
        Returned \<Rightarrow> closed_stream COMPAT_STREAM_TOPIC rid (since tr tr')
      | Panicked \<Rightarrow> list_all (plain COMPAT_STREAM_TOPIC rid) (since tr tr')
      | Reading \<Rightarrow> list_all (plain COMPAT_STREAM_TOPIC rid) (since tr tr') \<and> fuel \<le> chunk_count (since tr tr'))"
proof -
  let ?T = "COMPAT_STREAM_TOPIC"
  have "wp (handle_compat_request L H fuel (Generate rid model messages tools system)) (\<lambda>r tr'. \<exists>evs. tr' = evs @ tr \<and>
     (case r of Returned \<Rightarrow> closed_stream ?T rid evs | Panicked \<Rightarrow> list_all (plain ?T rid) evs
      | Reading \<Rightarrow> list_all (plain ?T rid) evs \<and> fuel \<le> chunk_count evs)) tr"
    unfolding handle_compat_request_def
    apply (simp, rule wp_bind, rule wp_mono, rule compat_execute_shape)
    apply (elim exE conjE, rule wp_case_sum)
     apply (rule wp_bind, rule wp_publish, rule wp_return, simp add: closed_stream_def)
    apply (rule wp_return)
    subgoal for x t evs y by (cases y) (auto simp: closed_stream_def)
    done
  then show ?thesis by (auto simp: wp_def split: run_end.splits)
qed

subsection \<open>Chunks\<close>

text \<open>The reading of a response that arrives as one text.\<close>

definition whole_stream :: "llm_lib \<Rightarrow> lhost \<Rightarrow> nat \<Rightarrow> string \<Rightarrow> (sys_error + run_end) lio" where
  "whole_stream L H rid body = try_bind (drain_lines (compat_line L H rid) [] body) (\<lambda>r. case r of
     None \<Rightarrow> ret (Inr Returned)
   | Some (tools, buf) \<Rightarrow> ret (Inl (ApiError
       (if blank buf then ''SSE stream ended before [DONE]'' else ''SSE stream ended with a partial line''))))"

lemma compat_line_scripted:
  assumes "\<And>tr m. h_pub H tr COMPAT_STREAM_TOPIC m = None"
  shows "scripted COMPAT_STREAM_TOPIC (compat_line L H rid tools line)"
proof -
  have pub: "scripted COMPAT_STREAM_TOPIC (compat_publish H m)" for m
    unfolding compat_publish_def by (rule scripted_publish_to) (rule assms)
  have ends: "scripted COMPAT_STREAM_TOPIC (publish_ends H rid ts)" for ts
    by (induction ts) (auto intro!: scriptedI pub)
  have call: "scripted COMPAT_STREAM_TOPIC (process_tool_call H rid tc ts)" for tc ts
    unfolding process_tool_call_def Let_def by (auto intro!: scriptedI pub split: prod.split)
  have calls: "scripted COMPAT_STREAM_TOPIC (process_tool_calls H rid tcs ts)" for tcs ts
    by (induction tcs arbitrary: ts) (auto intro!: scriptedI call)
  have choice: "scripted COMPAT_STREAM_TOPIC (process_choice H rid c ts)" for c ts
    unfolding process_choice_def by (intro scriptedI pub calls ends)
  have chunk: "scripted COMPAT_STREAM_TOPIC (process_chunk H rid c ts)" for c ts
    unfolding process_chunk_def by (auto intro!: scriptedI pub choice split: prod.split list.split)
  show ?thesis
    unfolding compat_line_def by (auto intro!: scriptedI pub chunk split: sum.split sse_data.split)
qed

text \<open>
  C21: The chunks of a response do not matter.  On a bus that accepts the provider's messages, a stream whose chunks
  cut no character publishes exactly what one pass over the whole text publishes, with the same
  result, however the server cut it; the only other outcome, on a response longer than the line buffer,
  is its overflow.\<close>

theorem compat_chunks_irrelevant:
  assumes "\<forall>tr m. h_pub H tr COMPAT_STREAM_TOPIC m = None" and "serves H cs tr"
    and "list_all (\<lambda>c. utf8_valid (map of_char c)) cs" and "length cs < fuel"
  shows "let chunked = parse_sse_stream_live L H fuel rid; whole = whole_stream L H rid (concat cs) in
    (fst (run_state chunked tr) = Inl overflow \<and> MAX_LINE_BUFFER_SIZE < length (concat cs)) \<or>
    (fst (run_state chunked tr) = fst (run_state whole tr) \<and> pubs (new_events chunked tr) = pubs (new_events whole tr))"
proof -
  have reader: "line_reader COMPAT_STREAM_TOPIC (compat_line L H rid)"
    by unfold_locales (rule compat_line_scripted, simp add: assms(1))
  have none: "next_line [] = None" by (simp add: next_line_def)
  obtain ms d evs r where run: "run_state (read_loop (compat_line L H rid) H fuel [] []) tr = (r, evs @ tr)"
      "run_state (drain_lines (compat_line L H rid) [] (concat cs)) tr = (d, sent COMPAT_STREAM_TOPIC ms @ tr)"
      "(r = Inl overflow \<and> MAX_LINE_BUFFER_SIZE < length (concat cs)) \<or> (r = verdict d \<and> pubs evs = map (Pair COMPAT_STREAM_TOPIC) ms)"
    using line_reader.read_whole [OF reader assms(2-4) none, of "[]"] by (simp only: append_Nil) blast
  show ?thesis
    using run(3)
    by (cases r; cases d)
      (auto simp: Let_def parse_sse_stream_live_def whole_stream_def new_events_def final_trace_def try_bind_def run(1,2) verdict_def
        split: option.splits prod.splits)
qed

definition serving :: "string list \<Rightarrow> lhost" where
  "serving cs = mem_host\<lparr>h_chunk := (\<lambda>tr. Inr (if chunk_count tr < length cs then Some (cs ! chunk_count tr) else None))\<rparr>"

lemma serving_serves: "serves (serving cs) cs []"
  by (simp add: serves_def serving_def)

lemma serving_accepts: "h_pub (serving cs) tr t m = None"
  by (simp add: serving_def mem_host_def)

definition demo_llm :: llm_lib where
  "demo_llm = \<lparr>lib_error_text = (\<lambda>e. ''error''), lib_serde_text = (\<lambda>s. ''syntax''), lib_float = (\<lambda>s. None)\<rparr>"

lemma compat_chunks_irrelevant_witness:
  "pubs (new_events (parse_sse_stream_live demo_llm (serving [''data: [DO'', ''NE]'' @ [NL]]) 3 7) []) =
     [(COMPAT_STREAM_TOPIC, PStream 7 StreamDone)]"
proof -
  let ?H = "serving [''data: [DO'', ''NE]'' @ [NL]]"
  have hyps: "list_all (\<lambda>c. utf8_valid (map of_char c)) [''data: [DO'', ''NE]'' @ [NL]]"
      "length (concat [''data: [DO'', ''NE]'' @ [NL]]) = 13" "length [''data: [DO'', ''NE]'' @ [NL]] < 3"
    by code_simp+
  have whole: "pubs (new_events (whole_stream demo_llm ?H 7 (concat [''data: [DO'', ''NE]'' @ [NL]])) []) =
      [(COMPAT_STREAM_TOPIC, PStream 7 StreamDone)]"
  proof -
    have joined: "concat [''data: [DO'', ''NE]'' @ [NL]] = ''data: [DONE]'' @ [NL]" by simp
    have parts: "next_line (''data: [DONE]'' @ [NL]) = Some (''data: [DONE]'', [])" "sse_data_payload ''data: [DONE]'' = Some ''[DONE]''"
        "trim ''[DONE]'' = ''[DONE]''"
      by code_simp+
    show ?thesis
      unfolding joined whole_stream_def drain_lines.simps [of _ _ "''data: [DONE]'' @ [NL]"] parts(1)
      by (simp add: compat_line_def parts(2,3) parse_sse_data_def compat_publish_def publish_to_def publish_def serving_accepts
          try_bind_def new_events_def final_trace_def since_def)
  qed
  have "\<not> MAX_LINE_BUFFER_SIZE < length (concat [''data: [DO'', ''NE]'' @ [NL]])"
    unfolding hyps(2) by (simp add: MAX_LINE_BUFFER_SIZE_def)
  then show ?thesis
    using compat_chunks_irrelevant [OF _ serving_serves hyps(1,3), of demo_llm 7] whole
    by (simp add: Let_def serving_accepts)
qed

subsection \<open>The request\<close>

lemma compat_body_model: "get_str ''model'' (fst (run_state (compat_body L H m ms ts sys) tr)) = Some m"
proof -
  have "wp (compat_body L H m ms ts sys) (\<lambda>b _. get_str ''model'' b = Some m) tr"
    unfolding compat_body_def with_max_tokens_def with_temperature_def env_ok_def
    by (intro wpI model_kept) (simp_all add: get_str_def)
  then show ?thesis by (simp add: wp_iff)
qed

lemma asks_for_compat_body [everyI]: "every (asks_for m) (compat_body L H m' ms ts sys)"
  unfolding compat_body_def with_max_tokens_def with_temperature_def by (intro everyI)

lemma asks_for_compat_publish [everyI]: "every (asks_for m) (compat_publish H p)"
  unfolding compat_publish_def by (intro everyI)

lemma asks_for_process [everyI]:
  "every (asks_for m) (process_tool_calls H rid tcs tools)" "every (asks_for m) (publish_ends H rid tools)"
proof -
  have call: "every (asks_for m) (process_tool_call H rid tc tools)" for tc tools
    unfolding process_tool_call_def Let_def by (intro everyI)
  show "every (asks_for m) (process_tool_calls H rid tcs tools)" by (induction tcs arbitrary: tools) (auto intro!: everyI call)
  show "every (asks_for m) (publish_ends H rid tools)" by (induction tools) (auto intro!: everyI)
qed

lemma asks_for_compat_line [everyI]: "every (asks_for m) (compat_line L H rid tools line)"
proof -
  have "every (asks_for m) (process_chunk H rid c tools)" for c
    unfolding process_chunk_def process_choice_def by (auto intro!: everyI split: list.split option.split)
  then show ?thesis unfolding compat_line_def by (auto intro!: everyI split: sum.split sse_data.split)
qed

lemma asks_for_compat_respond [everyI]: "every (asks_for m) (compat_respond L H fuel rid status)"
  unfolding compat_respond_def parse_sse_stream_live_def by (auto intro!: everyI split: sse_end.split)

lemma compat_asks_for:
  assumes "m \<noteq> []"
  shows "every (asks_for (provider_model_id m)) (handle_compat_request L H fuel (Generate rid m ms ts sys))"
proof -
  let ?i = "provider_model_id m"
  have rest: "every (asks_for ?i) (State_Monad.bind (compat_body L H ?i ms ts sys) f)"
    if "\<And>b. get_str ''model'' b = Some ?i \<Longrightarrow> every (asks_for ?i) (f b)" for f :: "json \<Rightarrow> (sys_error + run_end) lio"
    by (rule every_bind_value [where I = "\<lambda>b. get_str ''model'' b = Some ?i"]) (auto intro: everyI compat_body_model that)
  have "every (asks_for ?i) (compat_execute L H fuel rid m ms ts sys)"
    unfolding compat_execute_def Let_def using assms
    apply (simp add: compat_request_model_def)
    apply (rule everyI, rule everyI, rule everyI, rule everyI)
    apply (rule rest)
    apply (intro everyI, assumption)
    done
  then show ?thesis unfolding handle_compat_request_def by (auto intro!: everyI)
qed

end
