(* ===== verification/Openai.thy ===== *)
theory Openai
  imports Sse
begin

text \<open>
  The native OpenAI provider (\<open>capsules/capsule-openai/src\<close>): the model catalogue, the advertised
  entries, the request to the Responses API, and its named stream events turned into stream events.
  Log calls are not modelled.
\<close>

definition OPENAI_STREAM_TOPIC :: string where "OPENAI_STREAM_TOPIC = ''llm.v1.stream.openai''"
definition OPENAI_REQUEST_TOPIC :: string where "OPENAI_REQUEST_TOPIC = ''llm.v1.request.generate.openai''"
definition OPENAI_BASE_URL :: string where "OPENAI_BASE_URL = ''https://api.openai.com''"
definition DEFAULT_MODEL :: string where "DEFAULT_MODEL = ''gpt-5.5''"

subsection \<open>The catalogue (\<open>models.rs\<close>)\<close>

record model_info =
  mi_id :: string
  mi_name :: string
  mi_context_window :: nat
  mi_max_output_tokens :: nat
  mi_supports_vision :: bool
  mi_supports_tools :: bool
  mi_supports_structured_output :: bool
  mi_is_reasoning :: bool

definition MODELS :: "model_info list" where
  "MODELS = [
     model_info.make ''gpt-5.5'' ''GPT-5.5'' 1050000 128000 True True True True,
     model_info.make ''gpt-5.5-codex'' ''GPT-5.5 Codex'' 1050000 128000 True True True True,
     model_info.make ''gpt-5.4'' ''GPT-5.4'' 1050000 128000 True True True True,
     model_info.make ''gpt-5.4-mini'' ''GPT-5.4 Mini'' 400000 128000 True True True True,
     model_info.make ''gpt-5.4-nano'' ''GPT-5.4 Nano'' 400000 128000 True True True True,
     model_info.make ''gpt-5.3'' ''GPT-5.3 Instant'' 400000 128000 True True True False,
     model_info.make ''gpt-5.3-codex'' ''GPT-5.3 Codex'' 1000000 128000 True True True True,
     model_info.make ''gpt-5.3-codex-spark'' ''GPT-5.3 Codex Spark'' 128000 128000 False True True False,
     model_info.make ''gpt-5.2'' ''GPT-5.2'' 400000 128000 True True True True,
     model_info.make ''gpt-5.2-codex'' ''GPT-5.2 Codex'' 400000 128000 True True True True,
     model_info.make ''gpt-4.1'' ''GPT-4.1'' 1048576 32768 True True True False,
     model_info.make ''gpt-4.1-mini'' ''GPT-4.1 Mini'' 1048576 32768 True True True False,
     model_info.make ''gpt-4.1-nano'' ''GPT-4.1 Nano'' 1048576 32768 True True True False,
     model_info.make ''o3'' ''o3'' 200000 100000 True True True True,
     model_info.make ''o3-mini'' ''o3 Mini'' 200000 100000 False True True True,
     model_info.make ''o4-mini'' ''o4 Mini'' 200000 100000 True True True True,
     model_info.make ''gpt-4o'' ''GPT-4o'' 128000 16384 True True True False,
     model_info.make ''gpt-4o-mini'' ''GPT-4o Mini'' 128000 16384 True True True False]"

definition UNKNOWN_DEFAULTS :: model_info where
  "UNKNOWN_DEFAULTS = model_info.make ''unknown'' ''Unknown Model'' 128000 16384 False True False False"

fun longest_id :: "model_info list \<Rightarrow> model_info option" where
  "longest_id [] = None"
| "longest_id (m # ms) = (case longest_id ms of
     None \<Rightarrow> Some m
   | Some n \<Rightarrow> if length (mi_id n) < length (mi_id m) then Some m else Some n)"

definition lookup :: "string \<Rightarrow> model_info" where
  "lookup model_id = (case find (\<lambda>m. mi_id m = model_id) MODELS of
     Some info \<Rightarrow> info
   | None \<Rightarrow> (case longest_id (filter (\<lambda>m. starts_with (mi_id m) model_id) MODELS) of
       Some info \<Rightarrow> info
     | None \<Rightarrow> UNKNOWN_DEFAULTS))"

record openai_entry =
  oa_id :: string
  oa_description :: string
  oa_request_topic :: string
  oa_stream_topic :: string
  oa_capabilities :: "string list"
  oa_context_window :: nat
  oa_max_output_tokens :: nat

definition entry_json :: "openai_entry \<Rightarrow> json" where
  "entry_json e = JObj [(''id'', JStr (oa_id e)), (''description'', JStr (oa_description e)),
     (''request_topic'', JStr (oa_request_topic e)), (''stream_topic'', JStr (oa_stream_topic e)),
     (''capabilities'', JArr (map JStr (oa_capabilities e))), (''context_window'', JInt (int (oa_context_window e))),
     (''max_output_tokens'', JInt (int (oa_max_output_tokens e)))]"

definition capabilities_for :: "model_info \<Rightarrow> string list" where
  "capabilities_for m = [''text''] @ (if mi_supports_tools m then [''tools''] else []) @
     (if mi_supports_vision m then [''vision''] else []) @
     (if mi_supports_structured_output m then [''structured_output''] else []) @
     (if mi_is_reasoning m then [''reasoning''] else [])"

definition catalog_entry :: "string \<Rightarrow> string \<Rightarrow> model_info \<Rightarrow> openai_entry" where
  "catalog_entry req str m = \<lparr>oa_id = mi_id m, oa_description = ''OpenAI '' @ mi_name m, oa_request_topic = req,
     oa_stream_topic = str, oa_capabilities = capabilities_for m, oa_context_window = mi_context_window m,
     oa_max_output_tokens = mi_max_output_tokens m\<rparr>"

text \<open>The first element with the property, moved to the front.\<close>

definition hoist :: "('a \<Rightarrow> bool) \<Rightarrow> 'a list \<Rightarrow> 'a list" where
  "hoist P xs = (case find P xs of None \<Rightarrow> xs
     | Some x \<Rightarrow> x # takeWhile (\<lambda>y. \<not> P y) xs @ tl (dropWhile (\<lambda>y. \<not> P y) xs))"

definition build_provider_entries :: "string \<Rightarrow> string \<Rightarrow> string \<Rightarrow> openai_entry list" where
  "build_provider_entries default_model req str =
     hoist (\<lambda>e. oa_id e = mi_id (lookup default_model)) (map (catalog_entry req str) MODELS)"

definition live_entry :: "string \<Rightarrow> string \<Rightarrow> string \<Rightarrow> openai_entry" where
  "live_entry req str i = (let info = lookup i in (catalog_entry req str info)\<lparr>oa_id := i,
     oa_description := ''OpenAI '' @ (if mi_id info = mi_id UNKNOWN_DEFAULTS then i else mi_name info)\<rparr>)"

definition live_ids :: "string list \<Rightarrow> string \<Rightarrow> string list" where
  "live_ids ids default_model =
     (let ordered = keep_first [] (filter (\<lambda>i. i \<noteq> []) (map trim ids)); d = trim default_model in
      if d = [] then ordered else if d \<in> set ordered then hoist (\<lambda>i. i = d) ordered else d # ordered)"

definition build_live_entries :: "string list \<Rightarrow> string \<Rightarrow> string \<Rightarrow> string \<Rightarrow> openai_entry list" where
  "build_live_entries ids default_model req str = map (live_entry req str) (live_ids ids default_model)"

subsection \<open>Named events (\<open>schemas.rs\<close>)\<close>

definition req_usize :: "nat \<Rightarrow> string \<Rightarrow> json \<Rightarrow> nat option" where
  "req_usize i k j = Option.bind (field i k j) jusize"

definition decode_text_delta :: "json \<Rightarrow> string option" where
  "decode_text_delta j = (if \<not> struct_shape 4 j then None else do {
     item \<leftarrow> req_string 0 ''item_id'' j;
     out \<leftarrow> req_usize 1 ''output_index'' j;
     content \<leftarrow> req_usize 2 ''content_index'' j;
     req_string 3 ''delta'' j
   })"

definition decode_args_delta :: "json \<Rightarrow> (string \<times> string) option" where
  "decode_args_delta j = (if \<not> struct_shape 3 j then None else do {
     item \<leftarrow> req_string 0 ''item_id'' j;
     out \<leftarrow> req_usize 1 ''output_index'' j;
     delta \<leftarrow> req_string 2 ''delta'' j;
     Some (item, delta)
   })"

definition decode_args_done :: "json \<Rightarrow> string option" where
  "decode_args_done j = (if \<not> struct_shape 4 j then None else do {
     item \<leftarrow> req_string 0 ''item_id'' j;
     out \<leftarrow> req_usize 1 ''output_index'' j;
     name \<leftarrow> req_string 2 ''name'' j;
     args \<leftarrow> req_string 3 ''arguments'' j;
     Some item
   })"

record output_item =
  item_id :: string
  item_type :: string
  item_name :: "string option"
  item_call_id :: "string option"

definition decode_output_item :: "json \<Rightarrow> output_item option" where
  "decode_output_item j = (if \<not> struct_shape 4 j then None else do {
     i \<leftarrow> req_string 0 ''id'' j;
     t \<leftarrow> req_string 1 ''type'' j;
     n \<leftarrow> maybe_string 2 ''name'' j;
     c \<leftarrow> maybe_string 3 ''call_id'' j;
     Some \<lparr>item_id = i, item_type = t, item_name = n, item_call_id = c\<rparr>
   })"

definition decode_item_added :: "json \<Rightarrow> output_item option" where
  "decode_item_added j = (if \<not> struct_shape 2 j then None else do {
     item \<leftarrow> Option.bind (field 0 ''item'' j) decode_output_item;
     out \<leftarrow> req_usize 1 ''output_index'' j;
     Some item
   })"

definition decode_response_usage :: "json \<Rightarrow> (nat \<times> nat) option" where
  "decode_response_usage j = (if \<not> struct_shape 2 j then None else do {
     i \<leftarrow> req_usize 0 ''input_tokens'' j;
     n \<leftarrow> req_usize 1 ''output_tokens'' j;
     Some (i, n)
   })"

definition decode_response_object :: "json \<Rightarrow> (nat \<times> nat) option option" where
  "decode_response_object j = (if \<not> struct_shape 2 j then None else do {
     status \<leftarrow> req_string 0 ''status'' j;
     (case field 1 ''usage'' j of None \<Rightarrow> Some None | Some JNull \<Rightarrow> Some None
      | Some u \<Rightarrow> map_option Some (decode_response_usage u))
   })"

definition decode_completed :: "json \<Rightarrow> (nat \<times> nat) option option" where
  "decode_completed j = (if \<not> struct_shape 1 j then None else Option.bind (field 0 ''response'' j) decode_response_object)"

subsection \<open>The stream\<close>

definition openai_publish :: "lhost \<Rightarrow> provider_msg \<Rightarrow> (sys_error + unit) lio" where
  "openai_publish H m = publish_to H OPENAI_STREAM_TOPIC m"

definition handle_event :: "lhost \<Rightarrow> nat \<Rightarrow> string \<Rightarrow> string \<Rightarrow> (sys_error + unit) lio" where
  "handle_event H rid event_type data =
     (if event_type = ''response.output_text.delta'' then
        (case Option.bind (h_parse H data) decode_text_delta of
           None \<Rightarrow> ret (Inr ())
         | Some d \<Rightarrow> if d = [] then ret (Inr ()) else openai_publish H (PStream rid (TextDelta d)))
      else if event_type = ''response.output_item.added'' then
        (case Option.bind (h_parse H data) decode_item_added of
           None \<Rightarrow> ret (Inr ())
         | Some item \<Rightarrow> if item_type item \<noteq> ''function_call'' then ret (Inr ())
             else let i = or_default (item_id item) (item_call_id item); n = or_default [] (item_name item) in
               if n = [] then ret (Inr ()) else openai_publish H (PStream rid (ToolCallStart i n)))
      else if event_type = ''response.function_call_arguments.delta'' then
        (case Option.bind (h_parse H data) decode_args_delta of
           None \<Rightarrow> ret (Inr ())
         | Some (i, d) \<Rightarrow> if d = [] then ret (Inr ()) else openai_publish H (PStream rid (ToolCallDelta i d)))
      else if event_type = ''response.function_call_arguments.done'' then
        (case Option.bind (h_parse H data) decode_args_done of
           None \<Rightarrow> ret (Inr ())
         | Some i \<Rightarrow> openai_publish H (PStream rid (ToolCallEnd i)))
      else if event_type = ''response.completed'' then
        try_bind (case Option.bind (h_parse H data) decode_completed of
            Some (Some (input, output)) \<Rightarrow> openai_publish H (PUsage rid input output)
          | _ \<Rightarrow> ret (Inr ())) (\<lambda>_. openai_publish H (PStream rid StreamDone))
      else if event_type = ''response.failed'' then
        openai_publish H (PStream rid (StreamError (''Response failed: '' @ data)))
      else ret (Inr ()))"

text \<open>The state of the parser is the name of the current event.\<close>

definition openai_line :: "lhost \<Rightarrow> nat \<Rightarrow> string option \<Rightarrow> string \<Rightarrow> (sys_error + string option option) lio" where
  "openai_line H rid current line = (if line = [] then ret (Inr (Some None))
     else case strip_prefix ''event: '' line of
       Some t \<Rightarrow> ret (Inr (Some (Some t)))
     | None \<Rightarrow> (case strip_prefix ''data: '' line of
         None \<Rightarrow> ret (Inr (Some current))
       | Some data \<Rightarrow> (case current of
           None \<Rightarrow> ret (Inr (Some current))
         | Some t \<Rightarrow> try_bind (handle_event H rid t data) (\<lambda>_. ret (Inr (Some current))))))"

definition parse_sse_stream :: "lhost \<Rightarrow> nat \<Rightarrow> nat \<Rightarrow> (sys_error + run_end) lio" where
  "parse_sse_stream H fuel rid = try_bind (read_loop (openai_line H rid) H fuel None []) (\<lambda>r. case r of
     SseOpen \<Rightarrow> ret (Inr Reading)
   | _ \<Rightarrow> ret (Inr Returned))"

subsection \<open>The request\<close>

fun input_role :: "llm_role \<Rightarrow> string" where
  "input_role LSystem = ''developer''"
| "input_role LUser = ''user''"
| "input_role LAssistant = ''assistant''"
| "input_role LTool = ''tool''"

definition input_call :: "lhost \<Rightarrow> llm_call \<Rightarrow> json" where
  "input_call H c = JObj [(''type'', JStr ''function_call''), (''id'', JStr (lc_id c)), (''call_id'', JStr (lc_id c)),
     (''name'', JStr (lc_name c)), (''arguments'', case lc_arguments c of JStr s \<Rightarrow> JStr s | a \<Rightarrow> JStr (h_render H a))]"

definition input_part :: "llm_part \<Rightarrow> json" where
  "input_part p = (case p of
     LPartText t \<Rightarrow> JObj [(''type'', JStr ''input_text''), (''text'', JStr t)]
   | LPartImage media_type data \<Rightarrow> JObj [(''type'', JStr ''input_image''),
       (''image_url'', JStr (''data:'' @ media_type @ '';base64,'' @ data))])"

definition input_message :: "lhost \<Rightarrow> llm_message \<Rightarrow> json" where
  "input_message H m = (case lm_content m of
     LText t \<Rightarrow> JObj [(''role'', JStr (input_role (lm_role m))), (''content'', JStr t)]
   | LToolCalls calls \<Rightarrow> (case map (input_call H) calls of [c] \<Rightarrow> c | cs \<Rightarrow> JArr cs)
   | LToolResult call_id content \<Rightarrow> JObj [(''type'', JStr ''function_call_output''), (''call_id'', JStr call_id),
       (''output'', JStr content)]
   | LMultiPart parts \<Rightarrow> JObj [(''role'', JStr (input_role (lm_role m))), (''content'', JArr (map input_part parts))])"

definition build_input :: "lhost \<Rightarrow> llm_message list \<Rightarrow> json list" where
  "build_input H messages = map (input_message H) (filter (\<lambda>m. lm_role m \<noteq> LSystem) messages)"

definition normalize_base_url :: "string \<Rightarrow> string" where
  "normalize_base_url raw = trim_end_of (CHR ''/'') raw"

definition resolve_base_url :: "lhost \<Rightarrow> string lio" where
  "resolve_base_url H = do { v \<leftarrow> env_ok H ''base_url''; ret (normalize_base_url (or_default OPENAI_BASE_URL v)) }"

definition openai_request_model :: "lhost \<Rightarrow> string \<Rightarrow> string lio" where
  "openai_request_model H model = (if model = [] then do { v \<leftarrow> env_ok H ''model''; ret (or_default DEFAULT_MODEL v) }
     else ret model)"

definition strict_tool :: "llm_tool \<Rightarrow> json" where
  "strict_tool t = JObj [(''type'', JStr ''function''), (''name'', JStr (lt_name t)), (''description'', lt_description t),
     (''parameters'', lt_input_schema t), (''strict'', JBool True)]"

definition openai_body ::
  "llm_lib \<Rightarrow> lhost \<Rightarrow> string \<Rightarrow> llm_message list \<Rightarrow> llm_tool list \<Rightarrow> string \<Rightarrow> json lio" where
  "openai_body L H model messages tools system = (let info = lookup model in do {
     let body = JObj [(''model'', JStr model), (''input'', JArr (build_input H messages)), (''stream'', JBool True)];
     let body = (if system = [] then body else set_member ''instructions'' (JStr system) body);
     mx \<leftarrow> env_ok H ''max_output_tokens'';
     let n = or_default (mi_max_output_tokens info) (Option.bind mx parse_u64);
     let body = (if 0 < n then set_member ''max_output_tokens'' (JInt (int n)) body else body);
     e \<leftarrow> env_ok H ''reasoning_effort'';
     let effort = or_default [] e;
     body \<leftarrow> (if effort = [] \<or> effort = ''none'' then do {
         t \<leftarrow> env_ok H ''temperature'';
         ret (case Option.bind t (lib_float L) of None \<Rightarrow> body | Some x \<Rightarrow> set_member ''temperature'' x body)
       } else ret body);
     let body = (if mi_is_reasoning info \<and> effort \<noteq> [] \<and> effort \<noteq> ''none''
       then set_member ''reasoning'' (JObj [(''effort'', JStr effort)]) body else body);
     tier \<leftarrow> env_ok H ''service_tier'';
     let body = (case tier of None \<Rightarrow> body | Some v \<Rightarrow> if v = [] then body else set_member ''service_tier'' (JStr v) body);
     ret (if tools = [] then body else set_member ''tools'' (JArr (map strict_tool tools)) body)
   })"

definition openai_respond :: "lhost \<Rightarrow> nat \<Rightarrow> nat \<Rightarrow> nat \<Rightarrow> (sys_error + run_end) lio" where
  "openai_respond H fuel rid status = (if status \<noteq> 200
     then try_bind (error_body H fuel []) (\<lambda>b. ret (case b of
         BodyOpen \<Rightarrow> Inr Reading
       | BodyPanic \<Rightarrow> Inr Panicked
       | ErrorBody t \<Rightarrow> Inl (ApiError (''OpenAI API error ('' @ show_nat status @ ''): '' @ t))))
     else parse_sse_stream H fuel rid)"

definition openai_execute ::
  "llm_lib \<Rightarrow> lhost \<Rightarrow> nat \<Rightarrow> nat \<Rightarrow> string \<Rightarrow> llm_message list \<Rightarrow> llm_tool list \<Rightarrow> string \<Rightarrow> (sys_error + run_end) lio" where
  "openai_execute L H fuel rid model messages tools system = do {
     base \<leftarrow> resolve_base_url H;
     resolved \<leftarrow> openai_request_model H model;
     body \<leftarrow> openai_body L H resolved messages tools system;
     key \<leftarrow> env_ok H ''api_key'';
     case bearer_header (or_default [] key) of
       None \<Rightarrow> ret (Inl (ApiError ''OpenAI api_key not configured''))
     | Some auth \<Rightarrow> try_bind (host_try (stream_start H (http_post (base @ ''/v1/responses'') auth body))) (openai_respond H fuel rid)
   }"

definition handle_openai_request :: "llm_lib \<Rightarrow> lhost \<Rightarrow> nat \<Rightarrow> provider_request \<Rightarrow> run_end lio" where
  "handle_openai_request L H fuel req = (case req of
     Generate rid model messages tools system \<Rightarrow> do {
       r \<leftarrow> openai_execute L H fuel rid model messages tools system;
       case r of
         Inr x \<Rightarrow> ret x
       | Inl e \<Rightarrow> do { _ \<leftarrow> publish H OPENAI_STREAM_TOPIC (PStream rid (StreamError (lib_error_text L e))); ret Returned }
     }
   | OtherPayload \<Rightarrow> ret Returned)"

subsection \<open>The advertised models\<close>

definition openai_discover_models :: "lhost \<Rightarrow> (sys_error + string list) lio" where
  "openai_discover_models H = do { base \<leftarrow> resolve_base_url H; fetch_models H (base @ ''/v1/models'') }"

definition openai_describe :: "lhost \<Rightarrow> (sys_error + json) lio" where
  "openai_describe H = do {
     m \<leftarrow> env_ok H ''model'';
     discovery \<leftarrow> openai_discover_models H;
     (let default_model = or_default DEFAULT_MODEL m;
          entries = (case discovery of
            Inr ids \<Rightarrow> build_live_entries ids default_model OPENAI_REQUEST_TOPIC OPENAI_STREAM_TOPIC
          | Inl e \<Rightarrow> build_provider_entries default_model OPENAI_REQUEST_TOPIC OPENAI_STREAM_TOPIC);
          response = JObj [(''providers'', JArr (map entry_json entries))] in
      try_bind (publish_to H ''llm.v1.response.describe'' (PDescribe response)) (\<lambda>_. ret (Inr response)))
   }"

end
