(* ===== verification/Openai_Spec.thy ===== *)
theory Openai_Spec
  imports Openai Sse_Spec
begin

text \<open>
  The native OpenAI provider, properties: the catalogue, what is advertised, what its stream publishes.
\<close>

subsection \<open>The catalogue\<close>

lemma longest_id_None [simp]: "longest_id ms = None \<longleftrightarrow> ms = []"
  by (cases ms) (auto split: option.splits)

lemma longest_id_Some:
  "longest_id ms = Some n \<Longrightarrow> n \<in> set ms \<and> (\<forall>m\<in>set ms. length (mi_id m) \<le> length (mi_id n))"
proof (induction ms arbitrary: n)
  case (Cons m ms)
  show ?case
  proof (cases "longest_id ms")
    case None
    then show ?thesis using Cons.prems by simp
  next
    case (Some k)
    then have "k \<in> set ms" "\<forall>m\<in>set ms. length (mi_id m) \<le> length (mi_id k)" using Cons.IH by blast+
    moreover have "n = (if length (mi_id k) < length (mi_id m) then m else k)" using Cons.prems Some by (simp split: if_splits)
    ultimately show ?thesis by (auto intro: order_trans less_imp_le)
  qed
qed simp

text \<open>
  The catalogue gives the most specific row.  A model is described by the row of its own id, else by the
  longest row whose id it extends, and by the conservative defaults exactly when it extends none.\<close>

theorem lookup_most_specific:
  "if \<exists>m. m \<in> set MODELS \<and> starts_with (mi_id m) i
   then lookup i \<in> set MODELS \<and> starts_with (mi_id (lookup i)) i \<and>
     \<not> (\<exists>m. m \<in> set MODELS \<and> starts_with (mi_id m) i \<and> length (mi_id (lookup i)) < length (mi_id m))
   else lookup i = UNKNOWN_DEFAULTS"
proof (cases "find (\<lambda>m. mi_id m = i) MODELS")
  case (Some n)
  then have "n \<in> set MODELS" "mi_id n = i" by (auto simp: find_Some_iff)
  moreover have "length (mi_id m) \<le> length i" if "starts_with (mi_id m) i" for m
    using that by (auto simp: starts_with_iff)
  ultimately show ?thesis using Some by (auto simp: lookup_def starts_with_iff not_less)
next
  case None
  show ?thesis
  proof (cases "longest_id (filter (\<lambda>m. starts_with (mi_id m) i) MODELS)")
    case no: None
    then have absent: "\<not> (\<exists>m. m \<in> set MODELS \<and> starts_with (mi_id m) i)" by (auto simp: filter_empty_conv)
    have "lookup i = UNKNOWN_DEFAULTS" by (simp add: lookup_def None no del: longest_id_None)
    then show ?thesis unfolding if_not_P [OF absent] .
  next
    case (Some n)
    with longest_id_Some [OF Some] show ?thesis using None by (auto simp: lookup_def not_less)
  qed
qed

subsection \<open>What is advertised\<close>

lemma keep_first_set: "set (keep_first seen xs) = set xs - set seen"
  by (induction seen xs rule: keep_first.induct) auto

lemma keep_first_distinct: "distinct (keep_first seen xs)"
  by (induction seen xs rule: keep_first.induct) (auto simp: keep_first_set)

lemma hoist_split: "P x \<Longrightarrow> x \<in> set xs \<Longrightarrow> \<exists>a y b. xs = a @ y # b \<and> P y \<and> (\<forall>z\<in>set a. \<not> P z) \<and> hoist P xs = y # a @ b"
proof -
  assume "P x" "x \<in> set xs"
  then obtain a y b where xs: "xs = a @ y # b" "P y" "\<forall>z\<in>set a. \<not> P z" using split_list_first_prop [of xs P] by blast
  have "takeWhile (\<lambda>z. \<not> P z) xs = a" "dropWhile (\<lambda>z. \<not> P z) xs = y # b"
    unfolding xs(1) using xs(2,3) by (simp_all add: takeWhile_append2 dropWhile_append2)
  moreover have "find P xs = Some y"
    using xs by (intro find_split [THEN iffD2] exI [where x = a] exI [where x = b]) (simp add: list_all_iff)
  ultimately show ?thesis using xs by (auto simp: hoist_def)
qed

lemma live_ids_offer:
  "distinct (live_ids ids d) \<and> [] \<notin> set (live_ids ids d) \<and>
   set (live_ids ids d) = (set (map trim ids) \<union> {trim d}) - {[]} \<and> (trim d \<noteq> [] \<longrightarrow> hd (live_ids ids d) = trim d)"
proof -
  let ?o = "keep_first [] (filter (\<lambda>i. i \<noteq> []) (map trim ids))"
  have o: "distinct ?o" "set ?o = set (map trim ids) - {[]}" by (auto simp: keep_first_distinct keep_first_set)
  show ?thesis
  proof (cases "trim d \<in> set ?o")
    case True
    then obtain a y b where "?o = a @ y # b" "y = trim d" "hoist (\<lambda>i. i = trim d) ?o = y # a @ b"
      using hoist_split [of "\<lambda>i. i = trim d" "trim d" ?o] by auto
    moreover from this have "distinct (y # a @ b)" "set (y # a @ b) = set (map trim ids) - {[]}"
      using o by auto
    ultimately show ?thesis using True o(2) by (auto simp: live_ids_def Let_def)
  next
    case False
    then show ?thesis using o by (auto simp: live_ids_def Let_def)
  qed
qed

subsection \<open>The request\<close>

lemma openai_body_model: "get_str ''model'' (fst (run_state (openai_body L H m ms ts sys) tr)) = Some m"
proof -
  have "wp (openai_body L H m ms ts sys) (\<lambda>b _. get_str ''model'' b = Some m) tr"
    unfolding openai_body_def Let_def env_ok_def
    by (intro wpI model_kept) (simp_all add: get_str_def)
  then show ?thesis by (simp add: wp_iff)
qed

lemma asks_for_openai_body [everyI]: "every (asks_for m) (openai_body L H m' ms ts sys)"
  unfolding openai_body_def Let_def by (intro everyI)

lemma asks_for_handle_event [everyI]: "every (asks_for m) (handle_event H rid t data)"
  unfolding handle_event_def openai_publish_def Let_def by (intro everyI)

lemma asks_for_openai_line [everyI]: "every (asks_for m) (openai_line H rid current line)"
  unfolding openai_line_def by (intro everyI)

lemma asks_for_openai_respond [everyI]: "every (asks_for m) (openai_respond H fuel rid status)"
  unfolding openai_respond_def parse_sse_stream_def by (auto intro!: everyI split: sse_end.split)

lemma openai_asks_for: "m \<noteq> [] \<Longrightarrow> every (asks_for m) (handle_openai_request L H fuel (Generate rid m ms ts sys))"
proof -
  assume "m \<noteq> []"
  have rest: "every (asks_for m) (State_Monad.bind (openai_body L H m ms ts sys) f)"
    if "\<And>b. get_str ''model'' b = Some m \<Longrightarrow> every (asks_for m) (f b)" for f :: "json \<Rightarrow> (sys_error + run_end) lio"
    by (rule every_bind_value [where I = "\<lambda>b. get_str ''model'' b = Some m"]) (auto intro: everyI openai_body_model that)
  have "every (asks_for m) (openai_execute L H fuel rid m ms ts sys)"
    unfolding openai_execute_def openai_request_model_def resolve_base_url_def using \<open>m \<noteq> []\<close>
    apply simp
    apply (rule everyI, intro everyI)
    apply (rule rest)
    apply (intro everyI, assumption)
    done
  then show ?thesis unfolding handle_openai_request_def by (auto intro!: everyI)
qed

end
