(* ===== verification/Provider_React.thy ===== *)
theory Provider_React
  imports Openai_Compat_Spec Openai_Spec Registry_React
begin

text \<open>
  The providers, the registry and the ReAct loop together: which model a server is asked for when a model
  that its provider advertised is selected, and what the loop makes of the native provider's stream.

  The deserialiser of a provider entry is a parameter; \<open>entry_reader\<close> states that it reads the members
  of the contract.
\<close>

subsection \<open>The model that is asked for\<close>

locale entry_reader =
  fixes E :: entry_codec
  assumes reads: "entry_of_value E j = Some p \<Longrightarrow>
    get_str ''id'' j = Some (pe_id p) \<and> get_str ''request_topic'' j = Some (pe_request_topic p)"
begin

lemma stamped:
  assumes "stamp_entry E j = Some p" and "get_str ''id'' j = Some i"
    and "get_str ''request_topic'' j = Some (LLM_REQUEST_GENERATE_PREFIX @ q)"
  shows "pe_id p = q @ '':'' @ i" "pe_request_topic p = LLM_REQUEST_GENERATE_PREFIX @ q"
proof -
  obtain e cap where e: "entry_of_value E j = Some e" "request_topic_qualifier (pe_request_topic e) = Some cap"
      "p = e\<lparr>pe_id := cap @ '':'' @ pe_id e\<rparr>"
    using assms(1) by (auto simp: stamp_entry_def split: option.splits)
  have fields: "pe_id e = i" "pe_request_topic e = LLM_REQUEST_GENERATE_PREFIX @ q"
    using reads [OF e(1)] assms(2,3) by auto
  then have "cap = q" using e(2) by (auto simp: request_topic_qualifier_def Let_def split: if_splits)
  then show "pe_id p = q @ '':'' @ i" "pe_request_topic p = LLM_REQUEST_GENERATE_PREFIX @ q" using e(3) fields by simp_all
qed

end

text \<open>A reader of the members of the contract.\<close>

definition member_codec :: entry_codec where
  "member_codec = \<lparr>entry_of_value = (\<lambda>j. do {
       i \<leftarrow> get_str ''id'' j;
       topic \<leftarrow> get_str ''request_topic'' j;
       stream \<leftarrow> get_str ''stream_topic'' j;
       Some \<lparr>pe_id = i, pe_description = or_default [] (get_str ''description'' j), pe_request_topic = topic,
         pe_stream_topic = stream, pe_capabilities = [], pe_context_window = get_u64 ''context_window'' j,
         pe_max_output_tokens = get_u64 ''max_output_tokens'' j\<rparr> }),
     value_of_entry = entry_to_json\<rparr>"

interpretation members: entry_reader member_codec
  by unfold_locales (auto simp: member_codec_def bind_eq_Some_conv)

interpretation member_fields: entry_fields member_codec
  by unfold_locales
    (simp_all add: member_codec_def entry_to_json_def get_str_def get_u64_def opt_num_def split: option.split)

text \<open>What the loop resolves once the registry has announced the stamped entry \<open>p\<close>.\<close>

definition announced_to :: "entry_codec \<Rightarrow> rhost \<Rightarrow> provider_entry \<Rightarrow> rtrace \<Rightarrow> active_llm" where
  "announced_to E H p tr = fst (run_state (resolve_active_llm H) (final_trace (handle_model_changed H (value_of_entry E p)) tr))"

lemma announced_model:
  assumes "entry_reader E" "entry_fields E" "react_store HR" "stamp_entry E j = Some p"
    and "get_str ''id'' j = Some i" "get_str ''request_topic'' j = Some (LLM_REQUEST_GENERATE_PREFIX @ q)"
    and "from_utf8 (pe_id p) = Some (pe_id p)" "from_utf8 (LLM_REQUEST_GENERATE_PREFIX @ q) = Some (LLM_REQUEST_GENERATE_PREFIX @ q)"
  shows "llm_topic (announced_to E HR p tr) = LLM_REQUEST_GENERATE_PREFIX @ q"
    "resolve_request_model None (announced_to E HR p tr) = Some (q @ '':'' @ i)"
proof -
  note stamped = entry_reader.stamped [OF assms(1,4,5,6)]
  have routed: "routed p" by (rule stamp_entry_routed [OF assms(4)])
  have "announced_to E HR p tr = \<lparr>llm_topic = pe_request_topic p, llm_model = Some (pe_id p)\<rparr>"
    using entry_fields.routed_reaches [OF assms(2,3) routed assms(7), of tr] assms(8) by (simp add: announced_to_def stamped(2))
  moreover have "nonblank (Some (pe_id p)) = Some (pe_id p)" by (rule entry_fields.nonblank_routed [OF assms(2) routed])
  ultimately show "llm_topic (announced_to E HR p tr) = LLM_REQUEST_GENERATE_PREFIX @ q"
      "resolve_request_model None (announced_to E HR p tr) = Some (q @ '':'' @ i)"
    using stamped by (simp_all add: resolve_request_model_def nonblank_def)
qed

lemma provider_model_stamped [simp]: "provider_model_id (''openai-compat'' @ '':'' @ i) = i"
  by (simp add: provider_model_id_def PROVIDER_ALIAS_def strip_prefix_def starts_with_def)

text \<open>
  C22: The server is asked for the model that was advertised.  For every entry the provider for chat completion
  servers advertises: once the registry has stamped and announced it, the loop addresses the topic of
  the provider with a model for which the provider asks the server by the id the server itself gave it.\<close>

theorem advertised_model_asked_for:
  assumes "entry_reader E" and "entry_fields E" and "react_store HR"
    and "j \<in> set (describe_providers ids d w x)" and "stamp_entry E j = Some p"
    and "from_utf8 (pe_id p) = Some (pe_id p)"
  shows "llm_topic (announced_to E HR p tr) = COMPAT_REQUEST_TOPIC \<and>
    (\<exists>i m. i \<in> set ids \<and> j = compat_entry w x i \<and> resolve_request_model None (announced_to E HR p tr) = Some m \<and>
       list_all (asks_for i) (new_events (handle_compat_request L HP fuel (Generate rid m messages tools system)) tr'))"
proof -
  obtain i where i: "i \<in> set ids" "j = compat_entry w x i"
    using assms(4) by (auto simp: describe_providers_def ordered_ids_def)
  have fields: "get_str ''id'' j = Some i" "get_str ''request_topic'' j = Some (LLM_REQUEST_GENERATE_PREFIX @ ''openai-compat'')"
    by (simp_all add: i(2) compat_entry_def get_str_def COMPAT_REQUEST_TOPIC_def LLM_REQUEST_GENERATE_PREFIX_def)
  have "from_utf8 (LLM_REQUEST_GENERATE_PREFIX @ ''openai-compat'') = Some (LLM_REQUEST_GENERATE_PREFIX @ ''openai-compat'')"
    by (rule from_utf8_ascii) (auto simp: LLM_REQUEST_GENERATE_PREFIX_def)
  note model = announced_model [OF assms(1-3,5) fields assms(6) this, of tr]
  have "list_all (asks_for i)
      (new_events (handle_compat_request L HP fuel (Generate rid (''openai-compat'' @ '':'' @ i) messages tools system)) tr')"
    by (rule every_new_events, rule compat_asks_for [of "''openai-compat'' @ '':'' @ i", unfolded provider_model_stamped]) simp
  then show ?thesis
    using i model by (auto simp: COMPAT_REQUEST_TOPIC_def LLM_REQUEST_GENERATE_PREFIX_def)
qed

lemma lookup_stamped: "lookup (''openai:'' @ i) = UNKNOWN_DEFAULTS"
proof -
  have absent: "\<not> starts_with (mi_id m) (''openai:'' @ i)" if "m \<in> set MODELS" for m
    using that by (auto simp: MODELS_def model_info.make_def starts_with_def)
  then have "mi_id m \<noteq> ''openai:'' @ i" if "m \<in> set MODELS" for m
    using that by (metis append_Nil2 starts_with_append)
  then have "find (\<lambda>m. mi_id m = ''openai:'' @ i) MODELS = None" by (simp only: find_None_iff) blast
  moreover have "filter (\<lambda>m. starts_with (mi_id m) (''openai:'' @ i)) MODELS = []"
    unfolding filter_empty_conv using absent by blast
  ultimately show ?thesis unfolding lookup_def by simp
qed

text \<open>
  C23: The native provider asks its server for a model by the wrong name.  For every entry the native provider advertises, from
  the live list or from its catalogue: once the registry has stamped and announced it, the loop addresses
  the topic of the provider with the stamped id, and the provider, which does not strip the qualifier, asks
  the server for that id, not for the model's own, and takes its capabilities for unknown.\<close>

theorem native_model_misnamed:
  assumes "entry_reader E" and "entry_fields E" and "react_store HR"
    and "e \<in> set (build_live_entries ids d OPENAI_REQUEST_TOPIC OPENAI_STREAM_TOPIC) \<union>
      set (build_provider_entries d OPENAI_REQUEST_TOPIC OPENAI_STREAM_TOPIC)"
    and "stamp_entry E (entry_json e) = Some p" and "from_utf8 (pe_id p) = Some (pe_id p)"
  shows "llm_topic (announced_to E HR p tr) = OPENAI_REQUEST_TOPIC \<and>
    (\<exists>m. resolve_request_model None (announced_to E HR p tr) = Some m \<and> m \<noteq> oa_id e \<and> lookup m = UNKNOWN_DEFAULTS \<and>
       list_all (asks_for m) (new_events (handle_openai_request L HP fuel (Generate rid m messages tools system)) tr'))"
proof -
  have hoisted: "set (hoist P xs) = set xs" for P and xs :: "openai_entry list"
  proof (cases "\<exists>x\<in>set xs. P x")
    case True
    then show ?thesis using hoist_split by fastforce
  next
    case False
    then have "find P xs = None" by (auto simp: find_None_iff)
    then show ?thesis by (simp add: hoist_def)
  qed
  have topic: "oa_request_topic e = OPENAI_REQUEST_TOPIC"
    using assms(4) by (auto simp: build_live_entries_def build_provider_entries_def live_entry_def catalog_entry_def Let_def hoisted)
  have fields: "get_str ''id'' (entry_json e) = Some (oa_id e)"
      "get_str ''request_topic'' (entry_json e) = Some (LLM_REQUEST_GENERATE_PREFIX @ ''openai'')"
    by (simp_all add: entry_json_def get_str_def topic OPENAI_REQUEST_TOPIC_def LLM_REQUEST_GENERATE_PREFIX_def)
  have "from_utf8 (LLM_REQUEST_GENERATE_PREFIX @ ''openai'') = Some (LLM_REQUEST_GENERATE_PREFIX @ ''openai'')"
    by (rule from_utf8_ascii) (auto simp: LLM_REQUEST_GENERATE_PREFIX_def)
  note model = announced_model [OF assms(1-3,5) fields assms(6) this, of tr]
  have "''openai'' @ '':'' @ oa_id e \<noteq> oa_id e" by (auto dest: arg_cong [where f = length])
  moreover have "list_all (asks_for (''openai'' @ '':'' @ oa_id e))
      (new_events (handle_openai_request L HP fuel (Generate rid (''openai'' @ '':'' @ oa_id e) messages tools system)) tr')"
    by (rule every_new_events [OF openai_asks_for]) simp
  ultimately show ?thesis
    using model lookup_stamped [of "oa_id e"] by (auto simp: OPENAI_REQUEST_TOPIC_def LLM_REQUEST_GENERATE_PREFIX_def)
qed

lemma advertised_model_asked_for_witness:
  "\<exists>p. stamp_entry member_codec (compat_entry 9 2 ''m:7'') = Some p \<and> llm_topic (announced_to member_codec mem_host p []) = COMPAT_REQUEST_TOPIC"
proof -
  have entry: "compat_entry 9 2 ''m:7'' \<in> set (describe_providers [''m:7''] [] 9 2)"
    by (simp add: describe_providers_def ordered_ids_def)
  obtain p where p: "stamp_entry member_codec (compat_entry 9 2 ''m:7'') = Some p" "pe_id p = ''openai-compat:m:7''"
    by (simp add: stamp_entry_def member_codec_def compat_entry_def get_str_def request_topic_qualifier_def
        COMPAT_REQUEST_TOPIC_def LLM_REQUEST_GENERATE_PREFIX_def starts_with_def is_valid_provider_qualifier_def ascii_alnum_def Let_def)
  have "from_utf8 (pe_id p) = Some (pe_id p)" unfolding p(2) by code_simp
  then show ?thesis
    using advertised_model_asked_for [OF members.entry_reader_axioms member_fields.entry_fields_axioms mem_react.react_store_axioms entry p(1)]
    using p(1) by blast
qed

lemma native_model_misnamed_witness:
  "\<exists>p. stamp_entry member_codec (entry_json (live_entry OPENAI_REQUEST_TOPIC OPENAI_STREAM_TOPIC ''o3'')) = Some p \<and>
     llm_topic (announced_to member_codec mem_host p []) = OPENAI_REQUEST_TOPIC"
proof -
  let ?e = "live_entry OPENAI_REQUEST_TOPIC OPENAI_STREAM_TOPIC ''o3''"
  have "live_ids [''o3''] [] = [''o3'']" by code_simp
  then have entry: "?e \<in> set (build_live_entries [''o3''] [] OPENAI_REQUEST_TOPIC OPENAI_STREAM_TOPIC) \<union>
      set (build_provider_entries [] OPENAI_REQUEST_TOPIC OPENAI_STREAM_TOPIC)"
    by (simp add: build_live_entries_def)
  obtain p where p: "stamp_entry member_codec (entry_json ?e) = Some p" "pe_id p = ''openai:o3''"
    by (simp add: stamp_entry_def member_codec_def entry_json_def live_entry_def catalog_entry_def get_str_def request_topic_qualifier_def
        OPENAI_REQUEST_TOPIC_def OPENAI_STREAM_TOPIC_def LLM_REQUEST_GENERATE_PREFIX_def starts_with_def is_valid_provider_qualifier_def
        ascii_alnum_def Let_def)
  have "from_utf8 (pe_id p) = Some (pe_id p)" unfolding p(2) by code_simp
  then show ?thesis
    using native_model_misnamed [OF members.entry_reader_axioms member_fields.entry_fields_axioms mem_react.react_store_axioms entry p(1)]
    using p(1) by blast
qed

subsection \<open>The native provider's stream in the loop\<close>

text \<open>The stream events a provider has put on the bus, as the loop reads them.\<close>

fun heard :: "provider_msg \<Rightarrow> stream_event option" where
  "heard (PStream rid e) = Some e"
| "heard (PUsage rid i n) = Some StreamOther"
| "heard (PDescribe j) = None"

definition heard_events :: "(unit, provider_msg) event list \<Rightarrow> stream_event list" where
  "heard_events evs = List.map_filter heard (pubs_on OPENAI_STREAM_TOPIC evs)"

lemma heard_events_append [simp]: "heard_events (evs @ evs') = heard_events evs' @ heard_events evs" "heard_events [] = []"
  by (simp_all add: heard_events_def List.map_filter_def)

text \<open>Named events, one after the other; the ids under which calls are announced and arguments arrive.\<close>

fun handle_events :: "lhost \<Rightarrow> nat \<Rightarrow> (string \<times> string) list \<Rightarrow> (sys_error + unit) lio" where
  "handle_events P rid [] = ret (Inr ())"
| "handle_events P rid ((t, d) # us) = try_bind (handle_event P rid t d) (\<lambda>_. handle_events P rid us)"

definition announced_id :: "lhost \<Rightarrow> string \<times> string \<Rightarrow> string option" where
  "announced_id P u = (if fst u = ''response.output_item.added''
     then map_option (\<lambda>item. or_default (item_id item) (item_call_id item)) (Option.bind (h_parse P (snd u)) decode_item_added) else None)"

definition arguments_id :: "lhost \<Rightarrow> string \<times> string \<Rightarrow> string option" where
  "arguments_id P u = (if fst u = ''response.function_call_arguments.delta''
     then map_option fst (Option.bind (h_parse P (snd u)) decode_args_delta) else None)"

definition ENDING :: "string list" where
  "ENDING = [''response.completed'', ''response.failed'']"

text \<open>A message that does not close the stream and that starts only calls of \<open>As\<close>, extends only those of \<open>Ds\<close>.\<close>

definition says_of :: "string set \<Rightarrow> string set \<Rightarrow> nat \<Rightarrow> (unit, provider_msg) event \<Rightarrow> bool" where
  "says_of As Ds rid e \<longleftrightarrow> plain OPENAI_STREAM_TOPIC rid e \<and> (case pub_of e of
     Some (t, PStream r (ToolCallStart i n)) \<Rightarrow> i \<in> As
   | Some (t, PStream r (ToolCallDelta i a)) \<Rightarrow> i \<in> Ds
   | _ \<Rightarrow> True)"

lemma handle_event_says:
  assumes "\<forall>tr m. h_pub P tr OPENAI_STREAM_TOPIC m = None" and "t \<notin> set ENDING"
    and "\<And>i. announced_id P (t, d) = Some i \<Longrightarrow> i \<in> As" and "\<And>i. arguments_id P (t, d) = Some i \<Longrightarrow> i \<in> Ds"
  shows "wp (handle_event P rid t d) (\<lambda>r tr'. r = Inr () \<and> (\<exists>evs. tr' = evs @ tr \<and> list_all (says_of As Ds rid) evs)) tr"
proof -
  have pub: "wp (openai_publish P m) (\<lambda>r tr'. r = Inr () \<and> (\<exists>evs. tr' = evs @ tr \<and> list_all (says_of As Ds rid) evs)) tr"
    if "says_of As Ds rid (EvPub OPENAI_STREAM_TOPIC m None)" for m
    using that by (simp add: wp_iff openai_publish_def publish_to_def publish_def assms(1))
  have quiet: "wp (ret (Inr ())) (\<lambda>r tr'. r = Inr () \<and> (\<exists>evs. tr' = evs @ tr \<and> list_all (says_of As Ds rid) evs)) tr"
    by (rule wp_return) simp
  show ?thesis
    unfolding handle_event_def Let_def
    using assms(2-4)
    by (intro wp_if wp_case_option wp_case_prod quiet pub) (auto simp: ENDING_def says_of_def announced_id_def arguments_id_def)
qed

lemma handle_events_say:
  assumes "\<forall>tr m. h_pub P tr OPENAI_STREAM_TOPIC m = None" and "list_all (\<lambda>u. fst u \<notin> set ENDING) us"
    and "set (List.map_filter (announced_id P) us) \<subseteq> As" and "set (List.map_filter (arguments_id P) us) \<subseteq> Ds"
  shows "wp (handle_events P rid us) (\<lambda>r tr'. r = Inr () \<and> (\<exists>evs. tr' = evs @ tr \<and> list_all (says_of As Ds rid) evs)) tr"
  using assms(2-4)
proof (induction us arbitrary: tr)
  case Nil
  show ?case by (simp add: wp_return)
next
  case (Cons u us)
  obtain t d where u: "u = (t, d)" by force
  have first: "wp (handle_event P rid t d) (\<lambda>r tr'. r = Inr () \<and> (\<exists>evs. tr' = evs @ tr \<and> list_all (says_of As Ds rid) evs)) tr"
    using Cons.prems by (intro handle_event_says assms(1)) (auto simp: u List.map_filter_simps split: option.splits)
  have more: "wp (handle_events P rid us) (\<lambda>r tr'. r = Inr () \<and> (\<exists>evs. tr' = evs @ tr \<and> list_all (says_of As Ds rid) evs)) (evs1 @ tr)"
    if "list_all (says_of As Ds rid) evs1" for evs1
    using Cons.prems that
    by (intro wp_mono [OF Cons.IH]) (auto simp: List.map_filter_simps split: option.splits intro: exI [where x = "_ @ evs1"])
  show ?case
    unfolding u handle_events.simps
    by (rule wp_try_bind, rule wp_mono, rule first) (auto intro: more)
qed

lemma closing_terminal: "closing e = terminal e"
  by (cases e) simp_all

lemma heard_of_says:
  assumes "list_all (says_of As Ds rid) evs" and "e \<in> set (heard_events evs)"
  shows "\<not> terminal e" "e = ToolCallStart i n \<Longrightarrow> i \<in> As" "e = ToolCallDelta i a \<Longrightarrow> i \<in> Ds"
proof -
  obtain m where m: "m \<in> set (pubs_on OPENAI_STREAM_TOPIC evs)" "heard m = Some e"
    using assms(2) by (auto simp: heard_events_def List.map_filter_def)
  then obtain x where "EvPub OPENAI_STREAM_TOPIC m x \<in> set evs"
    by (auto simp: pubs_on_def dest: pubs_memD)
  then have "says_of As Ds rid (EvPub OPENAI_STREAM_TOPIC m x)" using assms(1) by (auto simp: list_all_iff)
  then show "\<not> terminal e" "e = ToolCallStart i n \<Longrightarrow> i \<in> As" "e = ToolCallDelta i a \<Longrightarrow> i \<in> Ds"
    using m(2) by (cases m; auto simp: says_of_def closing_terminal)+
qed

text \<open>The calls a stream starts.\<close>

fun start_of :: "stream_event \<Rightarrow> (string \<times> string) option" where
  "start_of (ToolCallStart i n) = Some (i, n)"
| "start_of e = None"

definition started_calls :: "stream_event list \<Rightarrow> (string \<times> string) list" where
  "started_calls es = List.map_filter start_of es"

lemma spec_args_none: "\<forall>a. ToolCallDelta i a \<notin> set es \<Longrightarrow> spec_args i es = []"
  by (induction i es rule: spec_args.induct) auto

lemma calls_without_arguments:
  "(\<And>i n a. ToolCallStart i n \<in> set es \<Longrightarrow> ToolCallDelta i a \<notin> set es) \<Longrightarrow>
   map (\<lambda>p. (pt_id p, pt_name p, pt_args_json p)) (spec_calls es) = map (\<lambda>(i, n). (i, n, [])) (started_calls es)"
proof (induction es rule: spec_calls.induct)
  case (2 i n es)
  then show ?case using spec_args_none [of i es] by (auto simp: started_calls_def List.map_filter_simps)
qed (auto simp: started_calls_def List.map_filter_simps)

text \<open>
  C24: The native provider's tool calls lose their arguments.  A call is announced under its call id and
  its arguments arrive under its item id; where the server keeps the two apart, as the Responses API does, then on working hosts the loop
  requests every tool of the stream with the parse of an empty text, whatever arguments the model
  wrote.\<close>

theorem native_arguments_lost:
  assumes "calm_react H A" and "streaming A rid s tr"
    and "response_text (turn_of tr s) = []" and "pending_stream_tools (turn_of tr s) = []"
    and "\<forall>tr m. h_pub P tr OPENAI_STREAM_TOPIC m = None" and "list_all (\<lambda>u. fst u \<notin> set ENDING) us"
    and "set (List.map_filter (announced_id P) us) \<inter> set (List.map_filter (arguments_id P) us) = {}"
    and "distinct (call_ids_of (heard_events (new_events (handle_events P rid us) ptr)))"
  shows "let es = heard_events (new_events (handle_events P rid us) ptr) in
    pubs_on ''tool.v1.request.execute'' (final_trace (deliver A H rid (es @ [StreamDone])) tr) =
      pubs_on ''tool.v1.request.execute'' tr @
      map (\<lambda>(i, n). PIpc (ToolExecuteRequest i n (parsed_arguments H []))) (started_calls es)"
proof -
  let ?As = "set (List.map_filter (announced_id P) us)" and ?Ds = "set (List.map_filter (arguments_id P) us)"
  let ?evs = "new_events (handle_events P rid us) ptr"
  let ?es = "heard_events ?evs"
  have says: "list_all (says_of ?As ?Ds rid) ?evs"
    by (rule wp_new_events, rule wp_mono [OF handle_events_say [OF assms(5,6) order_refl order_refl]]) auto
  have quiet: "list_all (\<lambda>e. \<not> terminal e) ?es" using heard_of_says(1) [OF says] by (auto simp: list_all_iff)
  have "map (\<lambda>p. (pt_id p, pt_name p, pt_args_json p)) (spec_calls ?es) = map (\<lambda>(i, n). (i, n, [])) (started_calls ?es)"
    by (rule calls_without_arguments) (use heard_of_says(2,3) [OF says] assms(7) in blast)
  then have "map (\<lambda>(i, n, a). PIpc (ToolExecuteRequest i n (parsed_arguments H a))) (map (\<lambda>p. (pt_id p, pt_name p, pt_args_json p)) (spec_calls ?es)) =
      map (\<lambda>(i, n, a). PIpc (ToolExecuteRequest i n (parsed_arguments H a))) (map (\<lambda>(i, n). (i, n, [])) (started_calls ?es))"
    by (rule arg_cong)
  then have same: "map (\<lambda>p. PIpc (ToolExecuteRequest (pt_id p) (pt_name p) (parsed_arguments H (pt_args_json p)))) (spec_calls ?es) =
      map (\<lambda>(i, n). PIpc (ToolExecuteRequest i n (parsed_arguments H []))) (started_calls ?es)"
    by (simp add: comp_def case_prod_beta)
  show ?thesis
    using stream_meaning [OF assms(1-4) quiet assms(8)] by (simp add: Let_def same)
qed

lemma openai_line_scripted:
  assumes "\<forall>tr m. h_pub P tr OPENAI_STREAM_TOPIC m = None"
  shows "scripted OPENAI_STREAM_TOPIC (openai_line P rid current l)"
proof -
  have pub: "scripted OPENAI_STREAM_TOPIC (openai_publish P m)" for m
    unfolding openai_publish_def by (rule scripted_publish_to) (simp add: assms)
  have prod: "scripted OPENAI_STREAM_TOPIC (f a b) \<Longrightarrow> scripted OPENAI_STREAM_TOPIC (case (a, b) of (x, y) \<Rightarrow> f x y)"
    for f :: "string \<Rightarrow> string \<Rightarrow> (sys_error + unit) lio" and a b by simp
  have "scripted OPENAI_STREAM_TOPIC (handle_event P rid t d)" for t d
    unfolding handle_event_def Let_def by (intro scriptedI pub) (auto intro!: scriptedI pub split: prod.split option.split)
  then show ?thesis unfolding openai_line_def by (intro scriptedI)
qed

text \<open>
  C25: A response of the native provider that breaks off leaves the turn waiting.  On a working bus, when the server's
  text ends without the event that completes or fails the response, the provider returns as from a
  complete one and publishes no end of the stream; the loop, having handled all it published, still
  waits for the stream.\<close>

theorem native_truncation_hangs:
  assumes "calm_react H A" and "streaming A rid s tr"
    and "\<forall>tr m. h_pub P tr OPENAI_STREAM_TOPIC m = None" and "serves P cs ptr"
    and "list_all (\<lambda>c. utf8_valid (map of_char c)) cs" and "length cs < fuel"
    and "length (concat cs) \<le> MAX_LINE_BUFFER_SIZE"
    and "list_all (\<lambda>l. l \<noteq> ''event: response.completed'' \<and> l \<noteq> ''event: response.failed'') (lines_of (concat cs))"
  shows "let evs = new_events (parse_sse_stream P fuel rid) ptr in
    fst (run_state (parse_sse_stream P fuel rid) ptr) = Inr Returned \<and>
    streaming A rid s (final_trace (deliver A H rid (heard_events evs)) tr)"
proof -
  let ?I = "\<lambda>current. \<forall>t. current = Some t \<longrightarrow> t \<notin> set ENDING" and ?R = "says_of UNIV UNIV rid"
  have line: "wp (openai_line P rid current l) (\<lambda>r tr'. (\<exists>st'. r = Inr (Some st') \<and> ?I st') \<and>
      (\<exists>evs. tr' = evs @ t \<and> list_all ?R evs)) t"
    if "?I current" "l \<noteq> ''event: response.completed'' \<and> l \<noteq> ''event: response.failed''" for current l t
  proof -
    have event: "t \<notin> set ENDING" if "strip_prefix ''event: '' l = Some t" for t
      using that \<open>l \<noteq> _ \<and> l \<noteq> _\<close> by (auto simp: strip_prefix_def starts_with_iff ENDING_def split: if_splits)
    have data: "wp (handle_event P rid e d) (\<lambda>r tr'. r = Inr () \<and> (\<exists>evs. tr' = evs @ t \<and> list_all ?R evs)) t"
      if "e \<notin> set ENDING" for e d
      by (rule handle_event_says [OF assms(3) that]) simp_all
    show ?thesis
      unfolding openai_line_def
      apply (rule wp_if, rule wp_return, simp)
      apply (rule wp_case_option)
       apply (rule wp_case_option, rule wp_return, use that(1) in simp)
       apply (rule wp_case_option, rule wp_return, use that(1) in simp)
       apply (rule wp_try_bind, rule wp_mono, rule data)
        apply (use that(1) in simp)
       apply (use that(1) in \<open>auto intro: wp_return\<close>)[1]
      apply (rule wp_return, use event in simp)
      done
  qed
  have reader: "line_reader OPENAI_STREAM_TOPIC (openai_line P rid)"
    by unfold_locales (rule openai_line_scripted [OF assms(3)])
  obtain ms d evs where run: "run_state (read_loop (openai_line P rid) P fuel None []) ptr = (verdict d, evs @ ptr)"
      "\<forall>t. run_state (drain_lines (openai_line P rid) None (concat cs)) t = (d, sent OPENAI_STREAM_TOPIC ms @ t)"
      "pubs evs = map (Pair OPENAI_STREAM_TOPIC) ms"
    using line_reader.read_whole [OF reader assms(4-6), of "[]" None] assms(7)
    by (simp add: next_line_def not_less [symmetric]) blast
  have "wp (drain_lines (openai_line P rid) None (concat cs)) (\<lambda>r tr'. (\<exists>x. r = Inr (Some x)) \<and>
      (\<exists>evs. tr' = evs @ [] \<and> list_all ?R evs)) []"
    by (rule drain_invariant [where I = ?I, OF line _ assms(8)]) simp_all
  then obtain x where d: "d = Inr (Some x)" and says: "list_all ?R (sent OPENAI_STREAM_TOPIC ms)"
    using run(2) by (auto simp: wp_iff)
  have heard: "heard_events evs = heard_events (sent OPENAI_STREAM_TOPIC ms)"
    by (simp add: heard_events_def pubs_on_def run(3))
  then have quiet: "list_all (\<lambda>e. \<not> terminal e) (heard_events evs)"
    using heard_of_says(1) [OF says] by (auto simp: list_all_iff)
  have stream: "run_state (parse_sse_stream P fuel rid) ptr = (Inr Returned, evs @ ptr)"
    by (cases x) (simp add: parse_sse_stream_def try_bind_def run(1) d verdict_def)
  have "streaming A rid s (final_trace (deliver A H rid (heard_events evs)) tr)"
    by (rule wp_final, rule wp_mono [OF calm_react.deliver_absorbs [OF assms(1,2) quiet]]) blast
  then show ?thesis by (simp add: stream new_events_def final_trace_def)
qed

text \<open>A server that announces a call as \<open>call1\<close> and sends its arguments for the item \<open>fc1\<close>.\<close>

definition demo_announcement :: json where
  "demo_announcement = JObj [(''item'', JObj [(''id'', JStr ''fc1''), (''type'', JStr ''function_call''), (''name'', JStr ''read''),
     (''call_id'', JStr ''call1'')]), (''output_index'', JInt 0)]"

definition demo_arguments :: json where
  "demo_arguments = JObj [(''item_id'', JStr ''fc1''), (''output_index'', JInt 0), (''delta'', JStr ''{}'')]"

definition demo_server :: lhost where
  "demo_server = mem_host\<lparr>h_parse := (\<lambda>d. Some (if d = ''a'' then demo_announcement else demo_arguments))\<rparr>"

definition demo_updates :: "(string \<times> string) list" where
  "demo_updates = [(''response.output_item.added'', ''a''), (''response.function_call_arguments.delta'', ''b'')]"

lemma native_arguments_lost_witness:
  "pubs_on ''tool.v1.request.execute'' (final_trace (deliver demo_sdk demo_react 7
       (heard_events (new_events (handle_events demo_server 7 demo_updates) []) @ [StreamDone])) demo_stream) =
     [PIpc (ToolExecuteRequest ''call1'' ''read'' (parsed_arguments demo_react []))]"
proof -
  have hyps: "streaming demo_sdk 7 ''s1'' demo_stream" "response_text (turn_of demo_stream ''s1'') = []"
      "pending_stream_tools (turn_of demo_stream ''s1'') = []"
    and quiet: "list_all (\<lambda>u. fst u \<notin> set ENDING) demo_updates"
    and none: "pubs_on ''tool.v1.request.execute'' demo_stream = []"
    by code_simp+
  have parts: "decode_item_added demo_announcement =
        Some \<lparr>item_id = ''fc1'', item_type = ''function_call'', item_name = Some ''read'', item_call_id = Some ''call1''\<rparr>"
      "decode_args_delta demo_arguments = Some (''fc1'', ''{}'')"
    by (simp_all add: demo_announcement_def demo_arguments_def decode_item_added_def decode_output_item_def decode_args_delta_def
        struct_shape_def req_string_def req_usize_def jusize_def maybe_string_def field_def)
  have parse: "h_parse demo_server ''a'' = Some demo_announcement" "h_parse demo_server ''b'' = Some demo_arguments"
    by (simp_all add: demo_server_def)
  have disjoint: "set (List.map_filter (announced_id demo_server) demo_updates) \<inter>
      set (List.map_filter (arguments_id demo_server) demo_updates) = {}"
    by (simp add: demo_updates_def announced_id_def arguments_id_def parse parts List.map_filter_simps)
  have accepts: "\<forall>tr m. h_pub demo_server tr OPENAI_STREAM_TOPIC m = None" by (simp add: demo_server_def mem_host_def)
  have heard: "heard_events (new_events (handle_events demo_server 7 demo_updates) []) =
      [ToolCallStart ''call1'' ''read'', ToolCallDelta ''fc1'' ''{}'']"
    by (simp add: demo_updates_def handle_event_def parse parts openai_publish_def publish_to_def publish_def try_bind_def new_events_def
        final_trace_def since_def heard_events_def pubs_on_def List.map_filter_simps accepts)
  have "distinct (call_ids_of (heard_events (new_events (handle_events demo_server 7 demo_updates) [])))" unfolding heard by code_simp
  from native_arguments_lost [OF demo_calm.calm_react_axioms hyps accepts quiet disjoint this]
  show ?thesis unfolding Let_def heard none by (simp add: started_calls_def List.map_filter_simps)
qed

lemma native_truncation_hangs_witness:
  "streaming demo_sdk 7 ''s1'' (final_trace (deliver demo_sdk demo_react 7
     (heard_events (new_events (parse_sse_stream (serving [''event: response.created'' @ [NL]]) 2 7) []))) demo_stream)"
proof -
  let ?cs = "[''event: response.created'' @ [NL]]"
  have hyps: "streaming demo_sdk 7 ''s1'' demo_stream" "list_all (\<lambda>c. utf8_valid (map of_char c)) ?cs"
      "length ?cs < 2" "length (concat ?cs) = 24"
    and line: "next_line (concat ?cs) = Some (''event: response.created'', [])" "next_line [] = None"
    by code_simp+
  have "lines_of (concat ?cs) = [''event: response.created'']"
    unfolding lines_of.simps [of "concat ?cs"] line(1) by (simp add: lines_of.simps [of "[]"] line(2))
  then have "list_all (\<lambda>l. l \<noteq> ''event: response.completed'' \<and> l \<noteq> ''event: response.failed'') (lines_of (concat ?cs))" by simp
  moreover have "length (concat ?cs) \<le> MAX_LINE_BUFFER_SIZE" unfolding hyps(4) by (simp add: MAX_LINE_BUFFER_SIZE_def)
  moreover have "\<forall>tr m. h_pub (serving ?cs) tr OPENAI_STREAM_TOPIC m = None" by (simp add: serving_accepts)
  ultimately show ?thesis
    using native_truncation_hangs [OF demo_calm.calm_react_axioms hyps(1) _ serving_serves hyps(2,3)] by (simp add: Let_def)
qed

end
