(* ===== verification/Shell.thy ===== *)
theory Shell
  imports Rust_Text "HOL-Library.Word" "HOL-Library.AList"
begin

text \<open>
  The shell tools (\<open>capsules/capsule-shell/src/lib.rs\<close>): commands that are refused outright, the action
  under which the operator is asked to approve a command, and the four tools with their registry of
  background processes.

  The approval prompt and the processes belong to the SDK: a \<open>shell_host\<close> answers these calls, given
  all earlier ones.  A process handle is a number; that a handle goes out of scope, by which the kernel
  releases the process, is an event of its own.  The registry of handles is an association list under
  64-bit ids; its lock is poisoned only by a panic while it is held, and no tool panics.
\<close>

subsection \<open>Commands that are refused\<close>

definition PROTECTED_PATHS :: "string list" where
  "PROTECTED_PATHS = [''/'', ''/*'', ''/etc'', ''/usr'', ''/bin'', ''/sbin'', ''/var'', ''/boot'', ''/lib'', ''/lib64'',
     ''/opt'', ''/root'', ''/home'', ''/proc'', ''/sys'', ''/dev'', ''/System'', ''/Library'', ''/Applications'', ''/Users'']"

definition BLOCKED_COMMANDS :: "string list" where
  "BLOCKED_COMMANDS = [''mkfs'', ''mkfs.ext4'', ''mkfs.xfs'', ''mkfs.btrfs'', ''mkfs.vfat'', ''shutdown'', ''reboot'', ''halt'',
     ''poweroff'', ''init'']"

definition SHELL_CHAIN_OPERATORS :: "string list" where
  "SHELL_CHAIN_OPERATORS = [''&&'', ''||'', '';'', ''|'']"

text \<open>\<open>str::split\<close> with a pattern that is not empty: the text is cut at each leftmost occurrence.\<close>

fun cut :: "string \<Rightarrow> string \<Rightarrow> (string \<times> string) option" where
  "cut op [] = None"
| "cut op (c # s) = (if op \<noteq> [] \<and> starts_with op (c # s) then Some ([], drop (length op) (c # s))
     else map_option (\<lambda>(a, b). (c # a, b)) (cut op s))"

lemma cut_shorter: "cut op s = Some (a, b) \<Longrightarrow> length b < length s"
proof (induction op s arbitrary: a rule: cut.induct)
  case (2 op c s)
  then show ?case by (cases op) (fastforce split: if_splits)+
qed simp

function split_on :: "string \<Rightarrow> string \<Rightarrow> string list" where
  "split_on op s = (case cut op s of None \<Rightarrow> [s] | Some (a, b) \<Rightarrow> a # split_on op b)"
  by pat_completeness auto
termination by (relation "measure (length \<circ> snd)") (auto dest: cut_shorter)

declare split_on.simps [simp del]

definition split_on_shell_operators :: "string \<Rightarrow> string list" where
  "split_on_shell_operators command = fold (\<lambda>op result. concat (map (split_on op) result)) SHELL_CHAIN_OPERATORS [command]"

definition is_protected_path :: "string \<Rightarrow> bool" where
  "is_protected_path path \<longleftrightarrow> path \<in> set PROTECTED_PATHS \<or> path = ''~'' \<or> path = ''$HOME'' \<or> path = ''${HOME}'' \<or>
     list_ex (\<lambda>root. root \<noteq> ''/'' \<and> root \<noteq> ''/*'' \<and> starts_with root path \<and>
       (drop (length root) path = [] \<or> starts_with ''/'' (drop (length root) path))) PROTECTED_PATHS"

definition check_single_command_catastrophic :: "string \<Rightarrow> string option" where
  "check_single_command_catastrophic command = (case split_whitespace command of
     [] \<Rightarrow> None
   | program # args \<Rightarrow> let tokens = program # args in
       if program \<in> set BLOCKED_COMMANDS
       then Some ''This command is blocked for safety. It can cause irreversible system damage.''
       else if program = ''dd'' \<and> list_ex (starts_with ''of=/dev/'') tokens
       then Some ''Writing directly to block devices via dd is blocked.''
       else if (program = ''chmod'' \<or> program = ''chown'') \<and> list_ex (\<lambda>t. t = ''-R'' \<or> starts_with ''-R'' t) tokens \<and>
         list_ex is_protected_path tokens
       then Some ''Recursive permission changes on system paths are blocked.''
       else if program = ''rm'' \<and> list_ex (\<lambda>t. \<not> starts_with ''-'' t \<and> is_protected_path t) args
       then Some ''Removing system-critical paths is blocked. Workspace-relative and /tmp paths are allowed.''
       else None)"

text \<open>The first element with a result.\<close>

fun first_reason :: "('a \<Rightarrow> 'b option) \<Rightarrow> 'a list \<Rightarrow> 'b option" where
  "first_reason f [] = None"
| "first_reason f (x # xs) = (case f x of None \<Rightarrow> first_reason f xs | Some r \<Rightarrow> Some r)"

definition fork_bomb :: "string \<Rightarrow> bool" where
  "fork_bomb command \<longleftrightarrow> contains '':(){ :|:&'' command \<or> contains '':(){:|:&'' command"

definition check_catastrophic :: "string \<Rightarrow> string option" where
  "check_catastrophic command = (if fork_bomb command then Some ''Fork bombs are blocked.''
     else first_reason (\<lambda>subcmd. check_single_command_catastrophic (trim subcmd)) (split_on_shell_operators command))"

subsection \<open>The action of an approval\<close>

definition DEEP_PREFIXES :: "string list" where
  "DEEP_PREFIXES = [''docker compose'', ''aws s3'', ''gcloud s3'', ''kubectl config'', ''git remote'', ''npm run'', ''yarn run'',
     ''pnpm run'', ''bun run'', ''deno run'']"

definition KNOWN_PROGRAMS :: "string list" where
  "KNOWN_PROGRAMS = [''git'', ''docker'', ''kubectl'', ''cargo'', ''npm'', ''npx'', ''yarn'', ''pnpm'', ''pip'', ''pip3'', ''poetry'',
     ''apt'', ''apt-get'', ''brew'', ''dnf'', ''yum'', ''pacman'', ''snap'', ''flatpak'', ''helm'', ''terraform'', ''ansible'',
     ''vagrant'', ''make'', ''cmake'', ''go'', ''rustup'', ''bun'', ''deno'', ''uv'', ''nix'', ''podman'', ''gh'', ''fly'', ''flyctl'',
     ''stripe'', ''supabase'', ''vercel'', ''wrangler'', ''firebase'']"

definition get_safe_depth :: "string list \<Rightarrow> nat" where
  "get_safe_depth tokens = (case tokens of
     [] \<Rightarrow> 0
   | t # ts \<Rightarrow>
       if (case ts of [] \<Rightarrow> False | u # us \<Rightarrow> t @ '' '' @ u \<in> set DEEP_PREFIXES) then 3
       else if t \<in> set KNOWN_PROGRAMS then 2 else 0)"

fun action_parts :: "nat \<Rightarrow> string list \<Rightarrow> string list \<Rightarrow> string list" where
  "action_parts depth parts [] = parts"
| "action_parts depth parts (token # tokens) =
     (if starts_with ''-'' token \<or> length parts = depth then parts else action_parts depth (parts @ [token]) tokens)"

definition extract_action :: "string \<Rightarrow> string" where
  "extract_action command = (let tokens = split_whitespace command in
     if (case tokens of [] \<Rightarrow> True | t # ts \<Rightarrow> starts_with ''-'' t) then []
     else let depth = get_safe_depth tokens in
       if depth = 0 then command else join_with '' '' (action_parts depth [] tokens))"

subsection \<open>The processes of the SDK\<close>

type_synonym call_error = string

record exit_info =
  exit_code :: "int option"
  exit_signal :: "int option"

record proc_output =
  out_stdout :: string
  out_stderr :: string
  out_exit :: exit_info

record proc_logs =
  log_stdout :: string
  log_stderr :: string
  log_running :: bool
  log_exit :: "exit_info option"

record kill_result =
  kill_stdout :: string
  kill_stderr :: string
  kill_exit :: "exit_info option"

datatype shell_event =
    ShApprove string string "call_error + bool"
  | ShSpawn string "string list" "call_error + proc_output"
  | ShBackground string "string list" "call_error + nat"
  | ShLogs nat "call_error + proc_logs"
  | ShKill nat "call_error + kill_result"
  | ShDrop nat

text \<open>\<open>sh_success\<close> is \<open>ExitInfo::success\<close>.\<close>

record shell_host =
  sh_approve :: "shell_event list \<Rightarrow> string \<Rightarrow> string \<Rightarrow> call_error + bool"
  sh_spawn :: "shell_event list \<Rightarrow> string \<Rightarrow> string list \<Rightarrow> call_error + proc_output"
  sh_background :: "shell_event list \<Rightarrow> string \<Rightarrow> string list \<Rightarrow> call_error + nat"
  sh_logs :: "shell_event list \<Rightarrow> nat \<Rightarrow> call_error + proc_logs"
  sh_kill :: "shell_event list \<Rightarrow> nat \<Rightarrow> call_error + kill_result"
  sh_success :: "exit_info \<Rightarrow> bool"

text \<open>The fields of \<open>ShellTools\<close>, the state of the lock, and the calls made so far, newest first.\<close>

record shell_tools =
  background :: "(64 word \<times> nat) list"
  next_id :: "64 word"
  poisoned :: bool
  calls :: "shell_event list"

definition fresh_tools :: shell_tools where
  "fresh_tools = \<lparr>background = [], next_id = 0, poisoned = False, calls = []\<rparr>"

datatype shell_error = ToolError string | CallError call_error

type_synonym 'a shell_io = "(shell_tools, shell_error + 'a) state"

definition shell_call :: "(shell_event list \<Rightarrow> call_error + 'a) \<Rightarrow> (call_error + 'a \<Rightarrow> shell_event) \<Rightarrow> 'a shell_io" where
  "shell_call reply ev = State (\<lambda>s. let r = reply (calls s) in
     (map_sum CallError id r, s\<lparr>calls := ev r # calls s\<rparr>))"

definition drop_handle :: "nat \<Rightarrow> (shell_tools, unit) state" where
  "drop_handle h = State (\<lambda>s. ((), s\<lparr>calls := ShDrop h # calls s\<rparr>))"

definition update_tools :: "(shell_tools \<Rightarrow> shell_tools) \<Rightarrow> (shell_tools, unit) state" where
  "update_tools f = State (\<lambda>s. ((), f s))"

definition read_tools :: "(shell_tools \<Rightarrow> 'a) \<Rightarrow> (shell_tools, 'a) state" where
  "read_tools f = State (\<lambda>s. (f s, s))"

text \<open>\<open>background.lock()\<close>.\<close>

definition lock_background :: "((64 word \<times> nat) list) shell_io" where
  "lock_background = read_tools (\<lambda>s. if poisoned s then Inl (ToolError ''background process registry lock poisoned'') else Inr (background s))"

subsection \<open>The tools\<close>

text \<open>What a command of both starting tools passes before it is started.\<close>

definition approved_command :: "shell_host \<Rightarrow> string \<Rightarrow> string shell_io" where
  "approved_command H command = (let trimmed = trim command in
     if trimmed = [] then ret (Inl (ToolError ''Command cannot be empty''))
     else case check_catastrophic trimmed of
       Some reason \<Rightarrow> ret (Inl (ToolError (''Command blocked: '' @ reason)))
     | None \<Rightarrow> let action = extract_action trimmed in
         try_bind (shell_call (\<lambda>tr. sh_approve H tr action trimmed) (ShApprove action trimmed)) (\<lambda>approved.
           if \<not> approved then ret (Inl (ToolError (''Command '' @ [CHR 0x27] @ trimmed @ [CHR 0x27] @ '' was not approved by user'')))
           else ret (Inr trimmed)))"

definition failure_detail :: "exit_info \<Rightarrow> string" where
  "failure_detail e = (case (exit_code e, exit_signal e) of
     (Some code, _) \<Rightarrow> ''exit code '' @ show_int code
   | (None, Some sig) \<Rightarrow> ''killed by signal '' @ show_int sig
   | (None, None) \<Rightarrow> ''unknown termination'')"

definition run_shell_command :: "shell_host \<Rightarrow> string \<Rightarrow> string shell_io" where
  "run_shell_command H command = try_bind (approved_command H command) (\<lambda>trimmed.
     try_bind (shell_call (\<lambda>tr. sh_spawn H tr ''bash'' [''-c'', trimmed]) (ShSpawn ''bash'' [''-c'', trimmed])) (\<lambda>result.
       if \<not> sh_success H (out_exit result)
       then ret (Inl (ToolError (''Command failed ('' @ failure_detail (out_exit result) @ ''): '' @ out_stderr result)))
       else ret (Inr (out_stdout result))))"

definition started_text :: "64 word \<Rightarrow> string" where
  "started_text i = ''Background process started with id: '' @ show_nat (unat i) @
     ''. Use read_process_logs to check output and kill_process to stop it.''"

definition spawn_background_process :: "shell_host \<Rightarrow> string \<Rightarrow> string shell_io" where
  "spawn_background_process H command = try_bind (approved_command H command) (\<lambda>trimmed.
     try_bind (shell_call (\<lambda>tr. sh_background H tr ''bash'' [''-c'', trimmed]) (ShBackground ''bash'' [''-c'', trimmed])) (\<lambda>handle. do {
       i \<leftarrow> read_tools next_id;
       update_tools (\<lambda>s. s\<lparr>next_id := next_id s + 1\<rparr>);
       l \<leftarrow> lock_background;
       case l of
         Inl e \<Rightarrow> do { drop_handle handle; ret (Inl e) }
       | Inr procs \<Rightarrow> do {
           update_tools (\<lambda>s. s\<lparr>background := AList.update i handle procs\<rparr>);
           (case map_of procs i of None \<Rightarrow> ret () | Some old \<Rightarrow> drop_handle old);
           ret (Inr (started_text i))
         }
     }))"

definition unknown_process :: "64 word \<Rightarrow> shell_error" where
  "unknown_process i = ToolError (''no background process with id '' @ show_nat (unat i) @ '' (already killed or never started)'')"

definition log_status :: "proc_logs \<Rightarrow> string" where
  "log_status l = (if log_running l then ''running''
     else case map_option (\<lambda>e. (exit_code e, exit_signal e)) (log_exit l) of
       Some (Some code, _) \<Rightarrow> ''exited with code '' @ show_int code
     | Some (None, Some sig) \<Rightarrow> ''killed by signal '' @ show_int sig
     | _ \<Rightarrow> ''exited (unknown termination)'')"

definition NEWLINE :: string where "NEWLINE = [CHR 0x0A]"

definition log_text :: "64 word \<Rightarrow> proc_logs \<Rightarrow> string" where
  "log_text i l = ''Process '' @ show_nat (unat i) @ '' status: '' @ log_status l @ NEWLINE @
     (if log_running l then []
      else ''(Process has exited. Call kill_process to release the handle and free the slot.)'' @ NEWLINE) @
     (if log_stdout l = [] then [] else ''--- stdout ---'' @ NEWLINE @ log_stdout l @ NEWLINE) @
     (if log_stderr l = [] then [] else ''--- stderr ---'' @ NEWLINE @ log_stderr l @ NEWLINE) @
     (if log_stdout l = [] \<and> log_stderr l = [] then ''(no new output)'' @ NEWLINE else [])"

definition read_process_logs :: "shell_host \<Rightarrow> 64 word \<Rightarrow> string shell_io" where
  "read_process_logs H i = try_bind lock_background (\<lambda>procs. case map_of procs i of
     None \<Rightarrow> ret (Inl (unknown_process i))
   | Some handle \<Rightarrow> try_bind (shell_call (\<lambda>tr. sh_logs H tr handle) (ShLogs handle)) (\<lambda>logs. ret (Inr (log_text i logs))))"

definition kill_exit_text :: "kill_result \<Rightarrow> string" where
  "kill_exit_text r = (case map_option (\<lambda>e. (exit_code e, exit_signal e)) (kill_exit r) of
     Some (Some code, _) \<Rightarrow> ''exit code '' @ show_int code
   | Some (None, Some sig) \<Rightarrow> ''killed by signal '' @ show_int sig
   | _ \<Rightarrow> ''unknown termination'')"

definition kill_text :: "64 word \<Rightarrow> kill_result \<Rightarrow> string" where
  "kill_text i r = ''Process '' @ show_nat (unat i) @ '' killed ('' @ kill_exit_text r @ '').'' @ NEWLINE @
     (if kill_stdout r = [] then [] else ''--- final stdout ---'' @ NEWLINE @ kill_stdout r @ NEWLINE) @
     (if kill_stderr r = [] then [] else ''--- final stderr ---'' @ NEWLINE @ kill_stderr r @ NEWLINE)"

text \<open>The handle goes out of scope on both ways out of \<open>kill\<close>.\<close>

definition kill_process :: "shell_host \<Rightarrow> 64 word \<Rightarrow> string shell_io" where
  "kill_process H i = try_bind lock_background (\<lambda>procs. case map_of procs i of
     None \<Rightarrow> ret (Inl (unknown_process i))
   | Some handle \<Rightarrow> do {
       update_tools (\<lambda>s. s\<lparr>background := AList.delete i procs\<rparr>);
       r \<leftarrow> shell_call (\<lambda>tr. sh_kill H tr handle) (ShKill handle);
       drop_handle handle;
       ret (case r of Inl e \<Rightarrow> Inl e | Inr result \<Rightarrow> Inr (kill_text i result))
     })"

text \<open>The states of the tools after any sequence of calls.\<close>

inductive shell_reach :: "shell_host \<Rightarrow> shell_tools \<Rightarrow> bool" for H where
  start: "shell_reach H fresh_tools"
| run: "shell_reach H s \<Longrightarrow> shell_reach H (snd (run_state (run_shell_command H command) s))"
| spawn: "shell_reach H s \<Longrightarrow> shell_reach H (snd (run_state (spawn_background_process H command) s))"
| logs: "shell_reach H s \<Longrightarrow> shell_reach H (snd (run_state (read_process_logs H i) s))"
| kill: "shell_reach H s \<Longrightarrow> shell_reach H (snd (run_state (kill_process H i) s))"

end
