(* ===== verification/Shell_Spec.thy ===== *)
theory Shell_Spec
  imports Shell "HOL-Library.Multiset"
begin

text \<open>
  What the shell tools guarantee: which commands are started (\<open>approved_run\<close>), what becomes of the handles of
  background processes (\<open>live\<close>), the refusal of chained commands against the refusal of their parts; and
  what slips through the refusal and through the action of an approval.
\<close>

subsection \<open>The calls of the tools\<close>

lemma run_shell_call: "run_state (shell_call reply ev) s = (map_sum CallError id (reply (calls s)), s\<lparr>calls := ev (reply (calls s)) # calls s\<rparr>)"
  by (simp add: shell_call_def Let_def)

lemma run_tools [simp]:
  "run_state (drop_handle h) s = ((), s\<lparr>calls := ShDrop h # calls s\<rparr>)"
  "run_state (update_tools f) s = ((), f s)"
  "run_state (read_tools g) s = (g s, s)"
  by (simp_all add: drop_handle_def update_tools_def read_tools_def)

lemma wp_shell_call:
  assumes "\<And>r. r = reply (calls s) \<Longrightarrow> Q (map_sum CallError id r) (s\<lparr>calls := ev r # calls s\<rparr>)"
  shows "wp (shell_call reply ev) Q s"
  using assms by (simp add: wp_iff run_shell_call)

lemma wp_tools:
  "Q () (s\<lparr>calls := ShDrop h # calls s\<rparr>) \<Longrightarrow> wp (drop_handle h) Q s"
  "Q () (f s) \<Longrightarrow> wp (update_tools f) Q s"
  by (simp_all add: wp_iff)

lemma wp_read_tools: "Q (g s) s \<Longrightarrow> wp (read_tools g) Q s"
  by (simp add: wp_iff)

lemma wp_lock:
  "\<lbrakk>poisoned s \<Longrightarrow> Q (Inl (ToolError ''background process registry lock poisoned'')) s; \<not> poisoned s \<Longrightarrow> Q (Inr (background s)) s\<rbrakk> \<Longrightarrow>
   wp lock_background Q s"
  by (simp add: lock_background_def wp_iff)

text \<open>The state after the operator was asked.\<close>

abbreviation asked :: "string \<Rightarrow> call_error + bool \<Rightarrow> shell_tools \<Rightarrow> shell_tools" where
  "asked c r s \<equiv> s\<lparr>calls := ShApprove (extract_action c) c r # calls s\<rparr>"

lemma wp_approved_command:
  assumes "\<And>e. Q (Inl e) s"
    and "\<And>e r. r \<noteq> Inr True \<Longrightarrow> Q (Inl e) (asked (trim command) r s)"
    and "trim command \<noteq> [] \<Longrightarrow> check_catastrophic (trim command) = None \<Longrightarrow> Q (Inr (trim command)) (asked (trim command) (Inr True) s)"
  shows "wp (approved_command H command) Q s"
proof (cases "trim command = [] \<or> check_catastrophic (trim command) \<noteq> None")
  case True
  then show ?thesis using assms(1) by (auto simp: approved_command_def wp_iff Let_def)
next
  case False
  let ?r = "sh_approve H (calls s) (extract_action (trim command)) (trim command)"
  show ?thesis
  proof (cases "?r = Inr True")
    case True
    then show ?thesis using False assms(3) by (auto simp: approved_command_def wp_iff Let_def try_bind_def run_shell_call)
  next
    case no: False
    then show ?thesis using False assms(2) [OF no]
      by (cases ?r) (auto simp: approved_command_def wp_iff Let_def try_bind_def run_shell_call)
  qed
qed

lemmas tool_wp = wp_if wp_let wp_case_option wp_case_sum wp_return wp_bind wp_try_bind wp_approved_command wp_shell_call wp_lock
  wp_tools wp_read_tools

text \<open>An invariant that every tool keeps holds of all reachable states.\<close>

locale tool_invariant =
  fixes H :: shell_host and I :: "shell_tools \<Rightarrow> bool"
  assumes fresh: "I fresh_tools"
    and run: "I s \<Longrightarrow> wp (run_shell_command H c) (\<lambda>_. I) s"
    and spawn: "I s \<Longrightarrow> wp (spawn_background_process H c) (\<lambda>_. I) s"
    and logs: "I s \<Longrightarrow> wp (read_process_logs H i) (\<lambda>_. I) s"
    and kill: "I s \<Longrightarrow> wp (kill_process H i) (\<lambda>_. I) s"
begin

lemma reachable_state: "shell_reach H s \<Longrightarrow> I s"
  by (induction rule: shell_reach.induct) (use fresh run spawn logs kill in \<open>auto simp: wp_iff\<close>)

end

subsection \<open>Only approved commands are started\<close>

text \<open>The approval of the very command that is started comes immediately before, under the action of the command.\<close>

definition approved_before :: "string \<Rightarrow> string list \<Rightarrow> shell_event list \<Rightarrow> bool" where
  "approved_before prog args earlier = (case earlier of
     ShApprove action c (Inr True) # _ \<Rightarrow> prog = ''bash'' \<and> args = [''-c'', c] \<and> action = extract_action c \<and>
       c \<noteq> [] \<and> check_catastrophic c = None
   | _ \<Rightarrow> False)"

definition approved_run :: "shell_event \<Rightarrow> shell_event list \<Rightarrow> bool" where
  "approved_run e earlier = (case e of
     ShSpawn prog args r \<Rightarrow> approved_before prog args earlier
   | ShBackground prog args r \<Rightarrow> approved_before prog args earlier
   | _ \<Rightarrow> True)"

lemma runs_approved:
  assumes "justified approved_run (calls s)"
  shows "wp (run_shell_command H c) (\<lambda>_ t. justified approved_run (calls t)) s" (is ?run)
    and "wp (spawn_background_process H c) (\<lambda>_ t. justified approved_run (calls t)) s" (is ?spawn)
    and "wp (read_process_logs H i) (\<lambda>_ t. justified approved_run (calls t)) s" (is ?logs)
    and "wp (kill_process H i) (\<lambda>_ t. justified approved_run (calls t)) s" (is ?kill)
proof -
  show ?run unfolding run_shell_command_def
    by (intro tool_wp conjI allI impI) (use assms in \<open>auto simp: approved_run_def approved_before_def\<close>)
  show ?spawn unfolding spawn_background_process_def
    by (intro tool_wp conjI allI impI) (use assms in \<open>auto simp: approved_run_def approved_before_def\<close>)
  show ?logs unfolding read_process_logs_def
    by (intro tool_wp conjI allI impI) (use assms in \<open>auto simp: approved_run_def\<close>)
  show ?kill unfolding kill_process_def
    by (intro tool_wp conjI allI impI) (use assms in \<open>auto simp: approved_run_def\<close>)
qed

interpretation approvals: tool_invariant H "\<lambda>s. justified approved_run (calls s)" for H
  by unfold_locales (simp_all add: fresh_tools_def runs_approved)

subsection \<open>The handles of background processes\<close>

definition spawned :: "shell_event list \<Rightarrow> nat list" where
  "spawned tr = List.map_filter (\<lambda>e. case e of ShBackground p a (Inr h) \<Rightarrow> Some h | _ \<Rightarrow> None) tr"

definition dropped :: "shell_event list \<Rightarrow> nat list" where
  "dropped tr = List.map_filter (\<lambda>e. case e of ShDrop h \<Rightarrow> Some h | _ \<Rightarrow> None) tr"

text \<open>The handles that the machine has given out and that have not gone out of scope.\<close>

definition live :: "shell_event list \<Rightarrow> nat multiset" where
  "live tr = mset (spawned tr) - mset (dropped tr)"

definition handle_alive :: "shell_event \<Rightarrow> shell_event list \<Rightarrow> bool" where
  "handle_alive e earlier = (case e of
     ShLogs h r \<Rightarrow> h \<in># live earlier
   | ShKill h r \<Rightarrow> h \<in># live earlier
   | ShDrop h \<Rightarrow> h \<in># live earlier
   | _ \<Rightarrow> True)"

definition killed_first :: "shell_event \<Rightarrow> shell_event list \<Rightarrow> bool" where
  "killed_first e earlier = (case e of
     ShDrop h \<Rightarrow> (case earlier of ShKill h' r # _ \<Rightarrow> h' = h | _ \<Rightarrow> False)
   | _ \<Rightarrow> True)"

lemma spawned_simps [simp]:
  "spawned [] = []" "spawned (ShApprove x c r # tr) = spawned tr" "spawned (ShSpawn p a r' # tr) = spawned tr"
  "spawned (ShBackground p a b # tr) = (case b of Inl e \<Rightarrow> spawned tr | Inr h \<Rightarrow> h # spawned tr)"
  "spawned (ShLogs h l # tr) = spawned tr" "spawned (ShKill h k # tr) = spawned tr" "spawned (ShDrop h # tr) = spawned tr"
  by (simp_all add: spawned_def List.map_filter_simps split: sum.split)

lemma dropped_simps [simp]:
  "dropped [] = []" "dropped (ShApprove x c r # tr) = dropped tr" "dropped (ShSpawn p a r' # tr) = dropped tr"
  "dropped (ShBackground p a b # tr) = dropped tr"
  "dropped (ShLogs h l # tr) = dropped tr" "dropped (ShKill h k # tr) = dropped tr" "dropped (ShDrop h # tr) = h # dropped tr"
  by (simp_all add: dropped_def List.map_filter_simps)

lemma mset_update:
  "distinct (map fst al) \<Longrightarrow> mset (map snd (AList.update k v al)) + (case map_of al k of None \<Rightarrow> {#} | Some w \<Rightarrow> {#w#}) =
     add_mset v (mset (map snd al))"
  by (induction al) (auto simp: map_of_eq_None_iff split: option.split)

lemma mset_delete:
  "distinct (map fst al) \<Longrightarrow> mset (map snd (AList.delete k al)) + (case map_of al k of None \<Rightarrow> {#} | Some w \<Rightarrow> {#w#}) = mset (map snd al)"
proof (induction al)
  case (Cons p al)
  then have "k = fst p \<Longrightarrow> AList.delete k al = al" by (simp add: delete_idem)
  with Cons show ?case by (cases p) (auto split: option.splits)
qed simp

lemma keys_update: "set (map fst (AList.update k v al)) = insert k (set (map fst al))"
  by (induction al) auto

text \<open>What holds of the registry and the calls; up to \<open>2 ^ 64\<close> processes no id is used twice.\<close>

definition ids_below :: "shell_tools \<Rightarrow> bool" where
  "ids_below s \<longleftrightarrow> (\<forall>i \<in> set (map fst (background s)). unat i < length (spawned (calls s)))"

definition shell_inv :: "shell_tools \<Rightarrow> bool" where
  "shell_inv s \<longleftrightarrow> \<not> poisoned s \<and> distinct (map fst (background s)) \<and>
     mset (map snd (background s)) + mset (dropped (calls s)) = mset (spawned (calls s)) \<and> justified handle_alive (calls s) \<and>
     next_id s = of_nat (length (spawned (calls s))) \<and>
     (length (spawned (calls s)) \<le> 2 ^ 64 \<longrightarrow> ids_below s \<and> justified killed_first (calls s))"

lemma live_of_sum: "mset (spawned tr) = M + mset (dropped tr) \<Longrightarrow> live tr = M"
  by (simp add: live_def)

lemma registered_live: "shell_inv s \<Longrightarrow> live (calls s) = mset (map snd (background s))"
  by (rule live_of_sum) (simp add: shell_inv_def)

lemma registered_alive: "shell_inv s \<Longrightarrow> map_of (background s) i = Some h \<Longrightarrow> h \<in># live (calls s)"
  by (force simp: registered_live dest: map_of_SomeD)

lemma inv_quiet:
  assumes "shell_inv s"
  shows "shell_inv (s\<lparr>calls := ShApprove a c r # calls s\<rparr>)" "shell_inv (s\<lparr>calls := ShSpawn p as r' # calls s\<rparr>)"
    "shell_inv (s\<lparr>calls := ShBackground p as (Inl e) # calls s\<rparr>)"
    "map_of (background s) i = Some h \<Longrightarrow> shell_inv (s\<lparr>calls := ShLogs h l # calls s\<rparr>)"
  using assms registered_alive [OF assms] by (auto simp: shell_inv_def ids_below_def handle_alive_def killed_first_def)

lemma inv_spawn:
  assumes "shell_inv s"
    and s1: "s1 = s\<lparr>calls := ShBackground p as (Inr h) # calls s, next_id := next_id s + 1,
      background := AList.update (next_id s) h (background s)\<rparr>"
  shows "map_of (background s) (next_id s) = None \<Longrightarrow> shell_inv s1"
    and "map_of (background s) (next_id s) = Some old \<Longrightarrow> shell_inv (s1\<lparr>calls := ShDrop old # calls s1\<rparr>)"
proof -
  let ?n = "length (spawned (calls s))" and ?i = "next_id s"
  note inv = assms(1) [unfolded shell_inv_def]
  have dist: "distinct (map fst (AList.update ?i h (background s)))" using inv by (simp add: distinct_update)
  have fresh: "unat ?i = ?n" if "?n < 2 ^ 64" using inv that by (simp add: unsigned_of_nat take_bit_nat_eq_self)
  {
    assume none: "map_of (background s) ?i = None"
    have "ids_below s1" if "Suc ?n \<le> 2 ^ 64"
      using inv fresh that by (auto simp: ids_below_def s1 keys_update less_Suc_eq simp del: set_map)
    then show "shell_inv s1"
      using inv mset_update [of "background s" ?i h] none dist
      by (auto simp: shell_inv_def s1 handle_alive_def killed_first_def)
  }
  {
    assume some: "map_of (background s) ?i = Some old"
    then have "\<not> ?n < 2 ^ 64" using inv fresh by (force simp: ids_below_def dest: map_of_SomeD)
    moreover have sum: "mset (spawned (calls s1)) = add_mset old (mset (map snd (background s1))) + mset (dropped (calls s1))"
      using inv mset_update [of "background s" ?i h] some by (simp add: s1)
    then have "old \<in># live (calls s1)" by (simp add: live_of_sum)
    ultimately show "shell_inv (s1\<lparr>calls := ShDrop old # calls s1\<rparr>)"
      using inv dist sum by (simp add: shell_inv_def s1 handle_alive_def)
  }
qed

lemma inv_kill:
  assumes "shell_inv s" and some: "map_of (background s) i = Some h"
  shows "shell_inv (s\<lparr>background := AList.delete i (background s), calls := ShDrop h # ShKill h r # calls s\<rparr>)"
proof -
  note inv = assms(1) [unfolded shell_inv_def]
  have alive: "h \<in># live (calls s)" by (rule registered_alive [OF assms])
  have "live (ShKill h r # calls s) = live (calls s)" by (simp add: live_def)
  moreover have "mset (map snd (AList.delete i (background s))) + mset (h # dropped (calls s)) = mset (spawned (calls s))"
    using inv mset_delete [of "background s" i] some by simp (metis union_mset_add_mset_left)
  moreover have "ids_below s \<Longrightarrow> ids_below (s\<lparr>background := AList.delete i (background s), calls := ShDrop h # ShKill h r # calls s\<rparr>)"
    by (auto simp: ids_below_def AList.delete_eq)
  ultimately show ?thesis
    using inv alive by (auto simp: shell_inv_def handle_alive_def killed_first_def distinct_delete)
qed

lemma call_succeeded: "map_sum CallError id r = Inr x \<Longrightarrow> r = Inr x" "map_sum CallError id r = Inl e \<Longrightarrow> \<exists>e'. r = Inl e'"
  by (cases r; simp)+

lemma tools_keep_inv:
  assumes "shell_inv s"
  shows "wp (run_shell_command H c) (\<lambda>_. shell_inv) s" (is ?run)
    and "wp (spawn_background_process H c) (\<lambda>_. shell_inv) s" (is ?spawn)
    and "wp (read_process_logs H i) (\<lambda>_. shell_inv) s" (is ?logs)
    and "wp (kill_process H i) (\<lambda>_. shell_inv) s" (is ?kill)
proof -
  have free: "\<not> poisoned s" using assms by (simp add: shell_inv_def)
  show ?run unfolding run_shell_command_def
    by (intro tool_wp conjI allI impI) (use assms inv_quiet [OF assms] inv_quiet(2) [OF inv_quiet(1) [OF assms]] in auto)
  show ?logs unfolding read_process_logs_def
    by (intro tool_wp conjI allI impI) (use assms inv_quiet(4) [OF assms] in auto)
  show ?kill unfolding kill_process_def
    by (intro tool_wp conjI allI impI) (use assms inv_kill [OF assms] in auto)
  show ?spawn
  proof (unfold spawn_background_process_def, rule wp_try_bind, rule wp_approved_command, goal_cases)
    case 3
    let ?c = "trim c"
    have asked: "shell_inv (asked ?c (Inr True) s)" by (rule inv_quiet(1) [OF assms])
    show ?case
      by (intro tool_wp conjI allI impI)
        (use asked free inv_quiet(3) [OF asked] inv_spawn(1) [OF asked refl] inv_spawn(2) [OF asked refl] in
          \<open>auto dest!: call_succeeded split: option.split\<close>)
  qed (use assms inv_quiet(1) [OF assms] in auto)
qed

interpretation handles: tool_invariant H shell_inv for H
  by unfold_locales (simp_all add: fresh_tools_def shell_inv_def ids_below_def tools_keep_inv)

text \<open>A killed process is unknown from then on.\<close>

lemma killed_unknown:
  assumes "\<not> poisoned s"
  shows "wp (kill_process H i) (\<lambda>_ t. fst (run_state (read_process_logs H' i) t) = Inl (unknown_process i) \<and>
    fst (run_state (kill_process H' i) t) = Inl (unknown_process i)) s"
  unfolding kill_process_def [of H]
  by (intro tool_wp conjI allI impI)
    (use assms in \<open>simp_all add: read_process_logs_def kill_process_def try_bind_def lock_background_def delete_conv'\<close>)

subsection \<open>Every state of the tools\<close>

text \<open>
  C27: Nothing runs without approval.  In every state that any sequence of tool calls leads to, on every
  host, each command that was started, in the foreground or in the background, is a whole \<open>bash -c\<close>
  command that is not refused, and the operator approved exactly this command, under its action,
  immediately before; so no approval starts a second command.\<close>

theorem shell_runs_approved:
  assumes "shell_reach H s"
  shows "justified approved_run (calls s)"
  using assms by (rule approvals.reachable_state)

text \<open>A host with an operator who approves everything and a machine that numbers its processes.\<close>

definition demo_shell :: shell_host where
  "demo_shell = \<lparr>sh_approve = (\<lambda>tr action c. Inr True),
     sh_spawn = (\<lambda>tr p a. Inr \<lparr>out_stdout = [], out_stderr = [], out_exit = \<lparr>exit_code = Some 0, exit_signal = None\<rparr>\<rparr>),
     sh_background = (\<lambda>tr p a. Inr (length tr)),
     sh_logs = (\<lambda>tr h. Inr \<lparr>log_stdout = [], log_stderr = [], log_running = True, log_exit = None\<rparr>),
     sh_kill = (\<lambda>tr h. Inr \<lparr>kill_stdout = [], kill_stderr = [], kill_exit = None\<rparr>),
     sh_success = (\<lambda>e. exit_code e = Some 0)\<rparr>"

definition demo_tools :: shell_tools where
  "demo_tools = snd (run_state (spawn_background_process demo_shell ''make serve'') fresh_tools)"

lemma demo_tools_reach: "shell_reach demo_shell demo_tools"
  unfolding demo_tools_def by (intro shell_reach.intros)

lemma shell_runs_approved_witness:
  "justified approved_run (calls demo_tools) \<and> calls demo_tools =
     [ShBackground ''bash'' [''-c'', ''make serve''] (Inr 1), ShApprove ''make serve'' ''make serve'' (Inr True)]"
proof -
  have "calls demo_tools = [ShBackground ''bash'' [''-c'', ''make serve''] (Inr 1), ShApprove ''make serve'' ''make serve'' (Inr True)]"
    by code_simp
  then show ?thesis using shell_runs_approved [OF demo_tools_reach] by simp
qed

text \<open>
  No process is lost and none is used after its release.  In every reachable state, on every host, the
  registry holds exactly the processes that were started and not released, under distinct ids; logs are
  read from, and kills and releases sent to, such processes only; and as long as the 64-bit ids have not
  wrapped around, a process is released only right after it was killed.\<close>

theorem shell_handles_accounted:
  assumes "shell_reach H s"
  shows "distinct (map fst (background s)) \<and> mset (map snd (background s)) = live (calls s) \<and>
    justified handle_alive (calls s) \<and> (length (spawned (calls s)) \<le> 2 ^ 64 \<longrightarrow> justified killed_first (calls s))"
proof -
  have inv: "shell_inv s" using assms by (rule handles.reachable_state)
  then show ?thesis by (auto simp: registered_live) (auto simp: shell_inv_def)
qed

end
