(* ===== verification/Shell_Check.thy ===== *)
theory Shell_Check
  imports Shell_Spec
begin

text \<open>
  The refusal of commands by the shell tools: a chain of commands is refused exactly when one of its commands
  is, with two separators of bash that the check does not know; and the action of an approval, which for a
  known program says nothing of what follows the subcommand.
\<close>

subsection \<open>Cutting at characters\<close>

fun split_chars :: "(char \<Rightarrow> bool) \<Rightarrow> string \<Rightarrow> string list" where
  "split_chars P [] = [[]]"
| "split_chars P (c # s) = (if P c then [] # split_chars P s else (c # hd (split_chars P s)) # tl (split_chars P s))"

lemma split_chars_ne [simp]: "split_chars P s \<noteq> []"
  by (induction s) auto

lemma split_chars_at: "P o' \<Longrightarrow> split_chars P (a @ o' # b) = split_chars P a @ split_chars P b"
  by (induction a) auto

lemma split_chars_none: "\<forall>c \<in> set s. \<not> P c \<Longrightarrow> split_chars P s = [s]"
  by (induction s) auto

lemma split_chars_split: "concat (map (split_chars P) (split_chars Q s)) = split_chars (\<lambda>c. P c \<or> Q c) s"
proof (induction s)
  case (Cons c s)
  obtain x xs where x: "split_chars Q s = x # xs" by (cases "split_chars Q s") auto
  obtain y ys where y: "split_chars P x = y # ys" by (cases "split_chars P x") auto
  have "split_chars (\<lambda>c. P c \<or> Q c) s = y # ys @ concat (map (split_chars P) xs)" using Cons by (simp add: x y)
  then show ?case by (simp add: x y)
qed simp

lemma cut_Some: "cut op s = Some (a, b) \<Longrightarrow> s = a @ op @ b"
proof (induction op s arbitrary: a rule: cut.induct)
  case (2 op c s)
  then show ?case by (auto simp: starts_with_iff split: if_splits)
qed simp

lemma split_on_char: "split_on [o'] = split_chars (\<lambda>c. c = o')"
proof
  fix s show "split_on [o'] s = split_chars (\<lambda>c. c = o') s"
  proof (induction s)
    case Nil
    then show ?case by (simp add: split_on.simps [of _ "[]"])
  next
    case (Cons c s)
    show ?case
      by (cases "cut [o'] s")
        (auto simp: Cons.IH [symmetric] split_on.simps [of _ "c # s"] split_on.simps [of _ s] starts_with_def split: if_splits)
  qed
qed

lemma split_on_none: "cut op s = None \<Longrightarrow> split_on op s = [s]"
  by (simp add: split_on.simps)

lemma split_on_some: "cut op s = Some (a, b) \<Longrightarrow> split_on op s = a # split_on op b"
  by (subst split_on.simps) simp

text \<open>The parts that are not empty, cut at a set of characters.\<close>

definition parts :: "(char \<Rightarrow> bool) \<Rightarrow> string \<Rightarrow> string list" where
  "parts P s = filter (\<lambda>p. p \<noteq> []) (split_chars P s)"

lemma parts_at: "P o' \<Longrightarrow> parts P (a @ o' # b) = parts P a @ parts P b" and parts_Nil [simp]: "parts P [] = []"
  by (simp_all add: parts_def split_chars_at)

lemma parts_doubled: "P o' \<Longrightarrow> concat (map (parts P) (split_on [o', o'] s)) = parts P s"
proof (induction "[o', o']" s rule: split_on.induct)
  case (1 s)
  show ?case
  proof (cases "cut [o', o'] s")
    case None
    then show ?thesis by (simp add: split_on_none)
  next
    case (Some p)
    obtain a b where p: "p = (a, b)" by force
    have "s = a @ o' # o' # b" using cut_Some [OF Some [unfolded p]] by simp
    then have "parts P s = parts P a @ parts P b"
      using parts_at [of P o' a "o' # b"] parts_at [of P o' "[]" b] 1(2) by simp
    then show ?thesis using 1(1) [OF Some p [symmetric]] 1(2) by (simp add: split_on_some [OF Some [unfolded p]])
  qed
qed

subsection \<open>The commands of a chain\<close>

text \<open>The parts of a command at the double ampersand and at semicolons and bars.\<close>

definition at_operator :: "char \<Rightarrow> bool" where
  "at_operator c \<longleftrightarrow> c = CHR '';'' \<or> c = CHR ''|''"

definition commands :: "string \<Rightarrow> string list" where
  "commands s = concat (map (parts at_operator) (split_on ''&&'' s))"

lemma split_commands: "filter (\<lambda>p. p \<noteq> []) (split_on_shell_operators s) = commands s"
proof -
  have chars: "concat (map (split_on ''|'') (concat (map (split_on '';'') xs))) = concat (map (split_chars at_operator) xs)" for xs
    using split_chars_split [of "\<lambda>c. c = CHR ''|''" "\<lambda>c. c = CHR '';''"]
    by (induction xs) (auto simp: split_on_char at_operator_def [abs_def] disj_commute)
  have "filter (\<lambda>p. p \<noteq> []) (concat (map (split_chars at_operator) (concat (map (split_on ''||'') xs)))) =
      concat (map (parts at_operator) xs)" for xs
    using parts_doubled [of at_operator "CHR ''|''"]
    by (induction xs) (simp_all add: at_operator_def filter_concat comp_def parts_def [symmetric])
  then show ?thesis by (simp add: split_on_shell_operators_def SHELL_CHAIN_OPERATORS_def chars commands_def)
qed

lemma first_reason_append: "first_reason f (xs @ ys) = (case first_reason f xs of None \<Rightarrow> first_reason f ys | Some r \<Rightarrow> Some r)"
  by (induction xs) (auto split: option.split)

lemma cut_and_append:
  "a = [] \<or> last a \<noteq> CHR ''&'' \<Longrightarrow> cut ''&&'' (a @ ''&&'' @ b) = (case cut ''&&'' a of None \<Rightarrow> Some (a, b) | Some (x, y) \<Rightarrow> Some (x, y @ ''&&'' @ b))"
proof (induction a)
  case (Cons c a)
  then show ?case by (cases a) (auto simp: starts_with_def split: option.split if_splits)
qed (simp add: starts_with_def)

lemma last_after_cut: "cut ''&&'' a = Some (x, y) \<Longrightarrow> last a \<noteq> CHR ''&'' \<Longrightarrow> y \<noteq> [] \<and> last y = last a"
  by (drule cut_Some) (cases y; auto)

lemma split_on_and: "a = [] \<or> last a \<noteq> CHR ''&'' \<Longrightarrow> split_on ''&&'' (a @ ''&&'' @ b) = split_on ''&&'' a @ split_on ''&&'' b"
proof (induction "''&&''" a rule: split_on.induct)
  case (1 a)
  show ?case
  proof (cases "cut ''&&'' a")
    case None
    then show ?thesis using cut_and_append [OF 1(2), of b] by (simp add: split_on_none split_on_some)
  next
    case (Some p)
    obtain x y where p: "p = (x, y)" by force
    have "a \<noteq> []" using Some by auto
    then have "y \<noteq> [] \<and> last y \<noteq> CHR ''&''" using last_after_cut [OF Some [unfolded p]] 1(2) by simp
    then have "split_on ''&&'' (y @ ''&&'' @ b) = split_on ''&&'' y @ split_on ''&&'' b" using 1(1) [OF Some p [symmetric]] by blast
    then show ?thesis using cut_and_append [OF 1(2), of b] by (simp add: Some p split_on_some [of _ a] split_on_some)
  qed
qed

lemma cut_other:
  "o' \<noteq> CHR ''&'' \<Longrightarrow> cut ''&&'' (a @ o' # b) = (case cut ''&&'' a of
     None \<Rightarrow> map_option (\<lambda>(x, y). (a @ o' # x, y)) (cut ''&&'' b) | Some (x, y) \<Rightarrow> Some (x, y @ o' # b))"
proof (induction a)
  case Nil
  then show ?case by (auto simp: starts_with_def)
next
  case (Cons c a)
  then show ?case by (cases a; cases "cut ''&&'' b") (auto simp: starts_with_def split: option.split)
qed

lemma commands_other: "at_operator o' \<Longrightarrow> commands (a @ o' # b) = commands a @ commands b"
proof (induction "''&&''" a rule: split_on.induct)
  case (1 a)
  have other: "o' \<noteq> CHR ''&''" using 1(2) by (auto simp: at_operator_def)
  show ?case
  proof (cases "cut ''&&'' a")
    case None
    then show ?thesis using cut_other [OF other, of a b] parts_at [of at_operator, OF 1(2)]
      by (cases "cut ''&&'' b") (auto simp: commands_def split_on_none split_on_some)
  next
    case (Some p)
    obtain x y where p: "p = (x, y)" by force
    then show ?thesis using cut_other [OF other, of a b] 1(1) [OF Some p [symmetric] 1(2)] Some
      by (simp add: commands_def split_on_some [of _ a] split_on_some)
  qed
qed

lemma commands_chain:
  assumes "op \<in> set SHELL_CHAIN_OPERATORS" and "op = ''&&'' \<Longrightarrow> a = [] \<or> last a \<noteq> CHR ''&''"
  shows "commands (a @ op @ b) = commands a @ commands b"
proof -
  have "commands (a @ ''||'' @ b) = commands a @ commands b"
    using commands_other [of "CHR ''|''" a "CHR ''|'' # b"] commands_other [of "CHR ''|''" "[]" b]
    by (simp add: at_operator_def commands_def [of "[]"] split_on_none)
  moreover have "commands (a @ ''&&'' @ b) = commands a @ commands b" if "op = ''&&''"
    using split_on_and [OF assms(2) [OF that], of b] by (simp add: commands_def)
  ultimately show ?thesis
    using assms(1) commands_other [of "CHR '';''" a b] commands_other [of "CHR ''|''" a b]
    by (auto simp: SHELL_CHAIN_OPERATORS_def at_operator_def)
qed

abbreviation refusal :: "string \<Rightarrow> string option" where
  "refusal subcmd \<equiv> check_single_command_catastrophic (trim subcmd)"

lemma refusal_Nil: "refusal [] = None"
  by code_simp

lemma first_reason_commands: "first_reason refusal (split_on_shell_operators s) = first_reason refusal (commands s)"
proof -
  have "first_reason refusal xs = first_reason refusal (filter (\<lambda>p. p \<noteq> []) xs)" for xs
    by (induction xs) (auto simp: refusal_Nil split: option.split)
  then show ?thesis by (simp add: split_commands [symmetric])
qed

lemma fork_bomb_part: "fork_bomb a \<or> fork_bomb b \<Longrightarrow> fork_bomb (a @ op @ b)"
  by (auto simp: fork_bomb_def contains_iff) (metis append.assoc)+

text \<open>
  Every command of a chain is checked.  For each of the shell operators that the check knows, a chain
  \<open>a op b\<close> is refused for the reason its first refused command is refused for, and passes exactly when both
  pass; the only further refusal is that of a fork bomb in the whole text.\<close>

theorem chain_checked:
  assumes "op \<in> set SHELL_CHAIN_OPERATORS" and "op = ''&&'' \<Longrightarrow> a = [] \<or> last a \<noteq> CHR ''&''"
  shows "check_catastrophic (a @ op @ b) =
    (if fork_bomb (a @ op @ b) then Some ''Fork bombs are blocked.''
     else case check_catastrophic a of Some r \<Rightarrow> Some r | None \<Rightarrow> check_catastrophic b)"
  using fork_bomb_part [of a b op] commands_chain [OF assms]
  by (auto simp: check_catastrophic_def first_reason_commands first_reason_append split: option.split)

subsection \<open>What passes the check\<close>

lemma utf8_chars_append: "b = [] \<or> \<not> is_cont (hd b) \<Longrightarrow> utf8_chars (a @ b) = utf8_chars a @ utf8_chars b"
proof (induction a rule: utf8_chars.induct)
  case (2 x xs)
  have "takeWhile is_cont b = []" "dropWhile is_cont b = b" using 2(2) by (cases b; auto)+
  then have "takeWhile is_cont (xs @ b) = takeWhile is_cont xs" "dropWhile is_cont (xs @ b) = dropWhile is_cont xs @ b"
    by (induction xs) auto
  then show ?case using 2 by simp
qed simp

lemma valid_start: "from_utf8 b = Some b \<Longrightarrow> b = [] \<or> \<not> is_cont (hd b)"
  by (cases b) (auto simp: from_utf8_def is_cont_def split: if_splits)

lemma split_groups_at: "is_white g \<Longrightarrow> split_groups (gs @ g # hs) = split_groups gs @ split_groups hs"
proof (induction gs rule: measure_induct_rule [where f = length])
  case (less gs)
  show ?case
  proof (cases "dropWhile is_white gs")
    case Nil
    then have "dropWhile is_white (gs @ g # hs) = dropWhile is_white hs"
      using less.prems by (simp add: dropWhile_append)
    moreover have "split_groups gs = []" using Nil by (simp only: split_groups.simps [of gs] list.case)
    ultimately show ?thesis by (simp add: split_groups.simps [of "gs @ g # hs"] split_groups.simps [of hs])
  next
    case (Cons x rest)
    let ?w = "\<lambda>y. \<not> is_white y"
    have drop: "dropWhile is_white (gs @ g # hs) = x # rest @ g # hs" using Cons by (induction gs) (auto split: if_splits)
    have "length (x # rest) \<le> length gs" using length_dropWhile_le [of is_white gs] Cons by simp
    then have shorter: "length (dropWhile ?w rest) < length gs" using length_dropWhile_le [of ?w rest] by simp
    have "takeWhile ?w (rest @ g # hs) = takeWhile ?w rest" "dropWhile ?w (rest @ g # hs) = dropWhile ?w rest @ g # hs"
      using less.prems by (induction rest) auto
    then show ?thesis using less.IH [OF shorter less.prems]
      by (simp add: split_groups.simps [of gs] split_groups.simps [of "gs @ g # hs"] Cons drop)
  qed
qed

lemma split_at_blank:
  assumes "w = CHR '' '' \<or> w = CHR 0x0A" and "b = [] \<or> \<not> is_cont (hd b)"
  shows "split_whitespace (a @ w # b) = split_whitespace a @ split_whitespace b"
proof -
  have w: "\<not> is_cont w" "is_white [w]" using assms(1) by (auto simp: is_cont_def is_white_def)
  have "utf8_chars (w # b) = [w] # utf8_chars b"
    using utf8_chars_append [OF assms(2), of "[w]"] by simp
  then show ?thesis using utf8_chars_append [of "w # b" a] w by (simp add: split_whitespace_def split_groups_at)
qed

text \<open>The calls of a command that is not refused.\<close>

lemma run_accepted:
  assumes "trim c = c" and "c \<noteq> []" and "check_catastrophic c = None"
  shows "\<exists>r. calls (snd (run_state (run_shell_command H c) s)) =
    (if sh_approve H (calls s) (extract_action c) c = Inr True then [ShSpawn ''bash'' [''-c'', c] r] else []) @
    ShApprove (extract_action c) c (sh_approve H (calls s) (extract_action c) c) # calls s"
proof (cases "sh_approve H (calls s) (extract_action c) c")
  case (Inr b)
  then show ?thesis
    by (auto simp: run_shell_command_def approved_command_def try_bind_def run_shell_call assms Let_def split: sum.split)
qed (simp add: run_shell_command_def approved_command_def try_bind_def run_shell_call assms Let_def)

lemma one_command: "cut ''&&'' s = None \<Longrightarrow> \<forall>c \<in> set s. \<not> at_operator c \<Longrightarrow> s \<noteq> [] \<Longrightarrow> commands s = [s]"
  by (simp add: commands_def split_on_none parts_def split_chars_none)

lemma cut_and_none: "length (filter (\<lambda>c. c = CHR ''&'') s) < 2 \<Longrightarrow> cut ''&&'' s = None"
  by (cases "cut ''&&'' s") (auto dest!: cut_Some)

lemma fork_bomb_bar: "fork_bomb s \<Longrightarrow> CHR ''|'' \<in> set s"
  by (auto simp: fork_bomb_def contains_iff)

definition unchained :: "string \<Rightarrow> bool" where
  "unchained c \<longleftrightarrow> list_all (\<lambda>x. x \<noteq> CHR ''&'' \<and> x \<noteq> CHR '';'' \<and> x \<noteq> CHR ''|'') c"

lemma true_passes: "split_whitespace command = ''true'' # args \<Longrightarrow> check_single_command_catastrophic command = None"
  by (simp add: check_single_command_catastrophic_def BLOCKED_COMMANDS_def Let_def)

text \<open>
  A newline or a single ampersand switches the check off.  Both separate commands in bash and neither is an
  operator of the check: whatever \<open>c\<close> is, the command that runs \<open>true\<close> first and \<open>c\<close> next is not refused;
  it goes to the operator and, once approved, to bash.\<close>

theorem separators_unchecked:
  assumes "sep = NEWLINE \<or> sep = '' & ''" and "unchained c" and "from_utf8 c = Some c"
    and "trim (''true'' @ sep @ c) = ''true'' @ sep @ c"
  shows "let command = ''true'' @ sep @ c; action = extract_action command; answer = sh_approve H (calls s) action command in
    check_catastrophic command = None \<and>
    (\<exists>r. calls (snd (run_state (run_shell_command H command) s)) =
       (if answer = Inr True then [ShSpawn ''bash'' [''-c'', command] r] else []) @ ShApprove action command answer # calls s)"
proof -
  let ?command = "''true'' @ sep @ c"
  have "filter (\<lambda>c. c = CHR ''&'') c = []" using assms(2) by (auto simp: unchained_def list_all_iff filter_empty_conv)
  then have cut: "cut ''&&'' ?command = None" using assms(1) by (intro cut_and_none) (auto simp: NEWLINE_def)
  have "\<forall>x \<in> set c. x \<noteq> CHR '';'' \<and> x \<noteq> CHR ''|''" using assms(2) by (simp add: unchained_def list_all_iff)
  moreover have "\<forall>x \<in> set (''true'' @ sep). x \<noteq> CHR '';'' \<and> x \<noteq> CHR ''|''"
    using assms(1) by (elim disjE) (simp_all add: NEWLINE_def)
  ultimately have chars: "\<forall>x \<in> set ?command. x \<noteq> CHR '';'' \<and> x \<noteq> CHR ''|''" by auto
  then have one: "commands ?command = [?command]" by (intro one_command cut) (auto simp: at_operator_def)
  have "split_whitespace ''true'' = [''true'']" by code_simp
  moreover have "sep = CHR 0x0A # [] \<or> sep = CHR '' '' # ''& ''" using assms(1) by (auto simp: NEWLINE_def)
  ultimately have "\<exists>args. split_whitespace ?command = ''true'' # args"
    using split_at_blank [of "CHR 0x0A" c "''true''"] split_at_blank [of "CHR '' ''" "''& '' @ c" "''true''"] valid_start [OF assms(3)]
    by (auto simp: is_cont_def)
  then have "check_catastrophic ?command = None"
  proof (elim exE)
    fix args assume "split_whitespace ?command = ''true'' # args"
    then have "refusal ?command = None" unfolding assms(4) by (rule true_passes)
    moreover have "\<not> fork_bomb ?command" using chars fork_bomb_bar [of ?command] by blast
    ultimately show ?thesis by (simp only: check_catastrophic_def first_reason_commands one first_reason.simps if_False option.case)
  qed
  then show ?thesis unfolding Let_def by (intro conjI run_accepted [OF assms(4)]) simp_all
qed

lemma newline_example: "check_catastrophic ''rm -rf /'' \<noteq> None" "check_catastrophic (''true'' @ NEWLINE @ ''rm -rf /'') = None"
  by code_simp+

text \<open>The two tokens of a known program decide the action.\<close>

lemma known_no_flag: "get_safe_depth (p # ts) = 2 \<Longrightarrow> \<not> starts_with ''-'' p"
  by (auto simp: get_safe_depth_def KNOWN_PROGRAMS_def starts_with_def split: if_splits)

text \<open>
  The approval of a known command covers whatever follows it.  For a program of the list with a subcommand, the
  operator is asked for the action \<open>program subcommand\<close>, whatever the rest of the command is, further commands
  of a chain included; and the answer decides on the whole of it.\<close>

theorem action_ignores_rest:
  fixes program sub rest :: string
  defines "command \<equiv> program @ '' '' @ sub @ '' '' @ rest" and "action \<equiv> program @ '' '' @ sub"
  assumes "split_whitespace program = [program]" and "split_whitespace sub = [sub]" and "get_safe_depth [program, sub] = 2"
    and "\<not> starts_with ''-'' sub" and "from_utf8 sub = Some sub" and "from_utf8 rest = Some rest"
    and "trim command = command" and "check_catastrophic command = None"
  shows "\<exists>r. calls (snd (run_state (run_shell_command H command) s)) =
    (if sh_approve H (calls s) action command = Inr True then [ShSpawn ''bash'' [''-c'', command] r] else []) @
    ShApprove action command (sh_approve H (calls s) action command) # calls s"
proof -
  have ne: "sub \<noteq> []" using assms(4) by (auto simp: split_whitespace_def split_groups.simps)
  have tail: "split_whitespace (sub @ '' '' @ rest) = sub # split_whitespace rest"
    using split_at_blank [of "CHR '' ''" rest sub] valid_start [OF assms(8)] assms(4) by simp
  have "sub @ '' '' @ rest = [] \<or> \<not> is_cont (hd (sub @ '' '' @ rest))" using valid_start [OF assms(7)] ne by simp
  then have tokens: "split_whitespace command = program # sub # split_whitespace rest"
    using split_at_blank [of "CHR '' ''" "sub @ '' '' @ rest" program] tail assms(3) by (simp add: command_def)
  have "get_safe_depth (program # sub # ts) = 2" for ts using assms(5) by (simp add: get_safe_depth_def split: if_splits)
  then have "extract_action command = join_with '' '' (action_parts 2 [] (program # sub # split_whitespace rest))"
    using known_no_flag [OF assms(5)] by (simp add: extract_action_def tokens)
  also have "\<dots> = action"
    using known_no_flag [OF assms(5)] assms(6) by (cases "split_whitespace rest") (simp_all add: action_def)
  finally have action: "extract_action command = action" .
  have "command \<noteq> []" by (simp add: command_def)
  then show ?thesis using run_accepted [OF assms(9) _ assms(10), of H s] by (simp add: action)
qed

text \<open>A path below a protected one is protected at any depth.\<close>

lemma protected_any_depth: "root \<in> set PROTECTED_PATHS - {''/'', ''/*''} \<Longrightarrow> is_protected_path (root @ ''/'' @ path)"
proof -
  assume root: "root \<in> set PROTECTED_PATHS - {''/'', ''/*''}"
  have "starts_with ''/'' (''/'' @ path)" by (rule starts_with_append)
  then show ?thesis using root by (simp only: is_protected_path_def list_ex_iff) (fastforce simp del: starts_with_def)
qed

end
