(* ===== verification/Spec2Isabelle.thy ===== *)
theory Spec2Isabelle
  imports Consent Bridge_Gate React_Bus React_Turn Registry_React Session_React Users_Pages Prompt_React Hook_Ingress_Spec Router_Spec Provider_React Shell_Check
begin

text \<open>
  A verification library for Unicity AOS (the repository's Rust sources under \<open>src/\<close>).

  \<^bold>\<open>The program.\<close>  AOS is a set of capsules, small WebAssembly programs that a kernel runs and that
  talk over an event bus.  The kernel hands a capsule messages (its interceptors), and the capsule
  calls back into the kernel: a key-value store per principal, publish, subscribe and receive on the
  bus, a clock, the environment, the identity of the caller.  This library covers the capsules that
  decide what an agent may do, drive what it does, and keep what it knows.

  \<^item> The MCP broker (\<open>crates/aos-mcp-broker/src\<close>) is the front door for outside hosts: it lists the
    tools of the installed capsules and executes calls, behind the consent of the operator and a
    policy.
  \<^item> The ReAct loop (\<open>capsules/capsule-react/src/lib.rs\<close>) drives a conversation turn: identity, prompt,
    the language model's stream, tool calls, and around again.
  \<^item> Its servants: the session store keeps conversations, the model registry the selected model, the
    context engine shortens a conversation, the prompt builder collects prompt text and tool schemas.
  \<^item> The language model providers advertise models, send a generation request to a server over HTTP and
    turn the streamed response into events on the bus.
  \<^item> The hook ingress takes in the hooks of outside hosts, the hook bridge turns them and the lifecycle
    events into bus requests and merges the answers; the identity store keeps users, their platform links and context overlays.

  \<^bold>\<open>Foundations.\<close>
  \<^item> \<open>Prelude\<close>: the state monad in which handlers are written, the rules \<open>wpI\<close> that execute a handler
    symbolically, \<open>every\<close> (all events of a run satisfy a predicate), \<open>justified\<close> (each event is
    justified by earlier ones), the source's \<open>?\<close> operator as \<open>try_bind\<close>.
  \<^item> \<open>Rust_Text\<close>: what the sources use of Rust's strings, over bytes: UTF-8 decoding, \<open>trim\<close>, decimal
    parsing and printing.  \<open>Json\<close>: \<open>serde_json::Value\<close> and its accessors.
  \<^item> \<open>Host\<close>: the calls of \<open>astrid_sdk\<close>.  The SDK is not in the repository, so a \<open>host\<close> is a parameter:
    a record of functions that answer each call, given the whole history.  A theorem about every
    host holds whatever the store, the bus and the clock do, failures included.  Where code relies
    on the store, the locales \<open>kv_store\<close> and \<open>live_store\<close> state what it promises; the in-memory
    host \<open>mem_host\<close> interprets them.  A loop that waits for messages until a window of time is over
    runs on fuel; \<open>ticking_clock\<close> states a clock that advances across a receive, and \<open>window_loop\<close>
    proves once that \<open>rounds_for d w\<close> rounds are then enough for a window \<open>w\<close>.  Its instances are the
    hook fan-out of the context engine, both collections of the hook bridge, the plugin and the tool
    window of the prompt builder.

  \<^bold>\<open>The MCP broker.\<close>
  \<^item> \<open>Identity\<close> (\<open>identity.rs\<close>), \<open>Wire\<close> (topic gates and replies of \<open>broker.rs\<close> and \<open>execute.rs\<close>),
    \<open>Signals\<close> (the envelopes of \<open>approval.rs\<close>), \<open>Grant_Decision\<close> (\<open>grant_decision.rs\<close>).
  \<^item> \<open>Policy\<close> (\<open>policy.rs\<close>): rules, the wildcard matcher, evaluation, loading.  First match wins, the
    matcher agrees with the wildcard language on texts without a star, loading is all or nothing.
  \<^item> \<open>Execute\<close> (\<open>execute.rs\<close>): the dispatch of a tool call with its drain loop, which runs on fuel from
    the code's own budget of 50 s, every slice taking at least a millisecond of it; consent markers.
  \<^item> \<open>Tool_Cache\<close> (\<open>cache.rs\<close>), \<open>Discovery\<close> (\<open>discovery.rs\<close>): the cached tool surface and how it is
    collected; last write wins under the cap, only valid descriptors are returned.
  \<^item> \<open>Broker\<close>, \<open>Broker_Spec\<close> (\<open>broker.rs\<close>): the two front-door handlers.  One reply per request, an
    execution only for an attributed, trusted caller, a valid tool name and an allowing policy.
  \<^item> \<open>Approval\<close>, \<open>Approval_Spec\<close> (\<open>approval.rs\<close>), \<open>Hook_Gate\<close> (\<open>hook_gate.rs\<close>), \<open>Consent\<close>: the answers
    to prompts, and what a withheld call, its prompt and a replay do together.

  \<^bold>\<open>The ReAct loop.\<close>
  \<^item> \<open>React_State\<close>: the persisted turn (\<open>turn_state\<close> is \<open>TurnState\<close>), its phases, timeouts, mappings, the
    set of active sessions.  \<open>React_Llm\<close>: model selection, history, compaction, the generation request.
    \<open>React_Loop\<close>: the interceptors, and the step relation \<open>react_reach\<close> they form.
  \<^item> \<open>React_Inv\<close>, \<open>React_Spec\<close>: in every reachable store a session with a turn in progress is in the
    set that the watchdog and the lag handler visit; what a bus lag does; what goes wrong when the
    store refuses the idle turn.
  \<^item> \<open>React_Bus\<close>: on every host, the shape of every publication and write, the bound of the re-drive,
    and that a tool request leaves only after what its result will need is stored.
  \<^item> \<open>React_Turn\<close>: when a tool round completes, the reassembly of a stream against the reading of the
    whole event sequence, the start and the bound of a turn, the selection cache.

  \<^bold>\<open>The servants of the loop.\<close>
  \<^item> \<open>Registry_Select\<close> (\<open>capsule-registry/src/selection.rs\<close>): canonical model ids, resolution of an
    input, reconciliation.  \<open>Registry\<close> (\<open>lib.rs\<close>): discovery, the stored state, every handler.
    \<open>Registry_Spec\<close>, \<open>Registry_Requests\<close>: discovered entries are routable and distinct, discovery
    ends, what each request answers; \<open>Registry_React\<close>: the loop resolves what was selected.
  \<^item> \<open>Router\<close>, \<open>Router_Spec\<close> (\<open>capsule-router/src/lib.rs\<close>): every tool request goes to its tool or comes
    back as an error.
  \<^item> \<open>Shell\<close> (\<open>capsule-shell/src/lib.rs\<close>): refused commands, the action of an approval, the four tools over
    an explicit registry of processes with 64-bit ids.  \<open>Shell_Spec\<close>: nothing runs without approval, no
    process is lost or used after its release (\<open>tool_invariant\<close>); \<open>Shell_Check\<close>: chains are checked command
    by command, and what the check and the action miss.
  \<^item> \<open>Context_Engine\<close> (\<open>capsule-context-engine/src\<close>), \<open>Context_Spec\<close>: a compaction removes the least
    number of oldest free messages; \<open>Context_React\<close>: what the loop continues with is its own
    conversation with old messages left out (\<open>message_codec\<close> is the SDK's message serialiser).
  \<^item> \<open>Session\<close>, \<open>Session_Handlers\<close> (\<open>capsule-session/src/lib.rs\<close>): stored conversations, migration, the
    compare-and-swap loops (the code's own number of attempts), every request, tool and command.
    \<open>Session_Spec\<close>: no update is lost, an append is read back; \<open>Session_Search\<close>: a search ends, its fuel
    of 201 pages is the code's budget of 200 loads; \<open>Session_React\<close>: the history the loop reads ends
    with what it appended (\<open>shared_codec\<close>).
  \<^item> \<open>Prompt_Builder\<close> (\<open>capsule-prompt-builder/src/lib.rs\<close>): the plugin fan-out with the capability
    check of each source, the merge, tool schemas and messages, the answer.  \<open>Prompt_Spec\<close>: the merge
    in closed form, only granted sources write into the system prompt, one answer per request, the
    windows end.  \<open>Prompt_React\<close>: the same up to the generation request of the loop, and what the
    loop makes of an error answer.

  \<^bold>\<open>The providers.\<close>
  \<^item> \<open>Sse\<close> (shared by \<open>capsule-openai-compat/src/lib.rs\<close> and \<open>capsule-openai/src/lib.rs\<close>): the SDK types
    they read, lossy UTF-8 decoding, the loop that reads a streamed response, error bodies, a server's
    model catalogue.  The loop runs on fuel, one unit for a chunk, so one more than the chunks of a
    response is enough.  \<open>Sse_Spec\<close>: the locales \<open>stream_step\<close> and \<open>line_reader\<close> (what a reader of lines
    keeps to), with the loop over chunks against one pass over the text.
  \<^item> \<open>Openai_Compat\<close>, \<open>Openai_Compat_Spec\<close>: requests, streamed chunks and advertised models of the
    compatible provider; a stream is closed exactly once, and how a response is cut does not matter.
  \<^item> \<open>Openai\<close>, \<open>Openai_Spec\<close> (\<open>models.rs\<close>, \<open>schemas.rs\<close>, \<open>lib.rs\<close>): the catalogue, the Responses API
    request and the named events of the native provider.
  \<^item> \<open>Provider_React\<close>: the providers with the registry and the loop (\<open>entry_reader\<close> is what the registry's
    deserialiser of an entry promises): which model a server is asked for, and what the loop makes of the
    native provider's tool calls and of a response that breaks off.
  The text of an error and \<open>f64\<close> parsing are the parameter \<open>llm_lib\<close>; \<open>usize\<close> has 32 bits.

  \<^bold>\<open>Hooks and identities.\<close>
  \<^item> \<open>Hook_Bridge\<close> (\<open>capsule-hook-bridge/src/lib.rs\<close>): the event table, the fan-out, the merges, the
    hooks of outside hosts.  \<open>Hook_Bridge_Spec\<close>: the merged result as a function of the replies
    received, termination, who may put a hook on the bus; \<open>Bridge_Gate\<close>: what the broker's policy
    responder makes of a bridged tool call (\<open>hook_request_codec\<close> is the SDK's serialiser).
  \<^item> \<open>Hook_Ingress\<close> (\<open>capsule-mcp/src/host_hooks.rs\<close>): the ingress of the hooks of outside hosts and the
    relay of their answers (BLAKE3 is the parameter \<open>B\<close>).  \<open>Hook_Ingress_Spec\<close>: who may release a hook,
    the life of a session's token (\<open>token_store\<close>), the round trip through the bridge (\<open>hook_host\<close>).
  \<^item> \<open>Users_Types\<close>, \<open>Users_Keys\<close>, \<open>Users_Store\<close>, \<open>Users_Handlers\<close> (\<open>capsule-users/src\<close>): keys, the store
    operations with their cascades, requests, answers.  \<open>Users_Directory\<close> is the abstract directory
    they refine, \<open>Users_Laws\<close> the contracts (\<open>listing\<close>, \<open>user_store\<close>), \<open>Users_Invariant\<close> the integrity of
    the store over any sequence of requests, \<open>Users_Spec\<close> and \<open>Users_Pages\<close> answers and pagination.

  \<^bold>\<open>Conventions.\<close>  A handler is a state-monad value over the trace of host calls, newest first; a
  \<open>Result\<close> is a sum; \<open>u64\<close> and \<open>u32\<close> values are natural numbers with saturation and wrap-around
  written out; strings are byte lists.  Log calls are not modelled.  The calls of a capsule are
  serialised by the kernel, so a step is one whole handler.

  \<^bold>\<open>Not modelled.\<close>  The SDK, \<open>serde_json\<close>'s text format and \<open>uuid\<close> (parameters of the model); the
  tools over files and the terminal bridge, which are mostly input and output; the launcher crate \<open>unicity-aos-bootstrap\<close>, which stages files and starts processes.
\<close>

end
